(* ===== verification/Prelude.thy ===== *)
theory Prelude
  imports Main "HOL-Library.Multiset" "HOL-Library.Sublist"
begin

text \<open>
  Generic vocabulary of the development: collections of simplification rules, tables as lists of
  rows with \<open>UPDATE .. WHERE\<close> and primary key lookup, batches, first-occurrence deduplication,
  the stable descending sort of Python's \<open>sorted(.., reverse=True)\<close>, JSON values, and a locale
  for transition systems with an invariant rule.  Nothing here is specific to the program.
\<close>

named_theorems table_simps \<open>rows, updates and lookups of the relational state\<close>
named_theorems frame_simps \<open>which fields an operation leaves alone\<close>

section \<open>Options and SQL's coalesce\<close>

definition coalesce :: "'a option \<Rightarrow> 'a \<Rightarrow> 'a" where
  "coalesce x d = (case x of None \<Rightarrow> d | Some v \<Rightarrow> v)"

lemma coalesce_simps [simp]: "coalesce None d = d" "coalesce (Some v) d = v"
  by (simp_all add: coalesce_def)

section \<open>Tables as lists of rows\<close>

text \<open>\<open>update_where P f rows\<close> is \<open>UPDATE t SET .. WHERE P\<close>; \<open>rows_where\<close> is \<open>SELECT\<close>;
  \<open>delete_where\<close> is \<open>DELETE\<close>; \<open>find_row\<close> is \<open>scalar_one_or_none\<close> on a query that a key
  makes unique.\<close>

definition update_where :: "('r \<Rightarrow> bool) \<Rightarrow> ('r \<Rightarrow> 'r) \<Rightarrow> 'r list \<Rightarrow> 'r list" where
  "update_where P f rows = map (\<lambda>r. if P r then f r else r) rows"

definition delete_where :: "('r \<Rightarrow> bool) \<Rightarrow> 'r list \<Rightarrow> 'r list" where
  "delete_where P rows = filter (\<lambda>r. \<not> P r) rows"

definition find_row :: "('r \<Rightarrow> bool) \<Rightarrow> 'r list \<Rightarrow> 'r option" where
  "find_row P rows = List.find P rows"

lemma update_where_simps [simp, table_simps]:
  "update_where P f [] = []"
  "update_where P f (r # rs) = (if P r then f r else r) # update_where P f rs"
  by (simp_all add: update_where_def)

lemma update_where_append [simp]:
  "update_where P f (xs @ ys) = update_where P f xs @ update_where P f ys"
  by (simp add: update_where_def)

lemma length_update_where [simp]: "length (update_where P f rows) = length rows"
  by (simp add: update_where_def)

lemma in_update_where [table_simps]:
  "x \<in> set (update_where P f rows) \<longleftrightarrow>
     (\<exists>r \<in> set rows. x = (if P r then f r else r))"
  by (auto simp: update_where_def)

lemma update_where_all:
  "(\<And>x. P x \<Longrightarrow> Q (f x)) \<Longrightarrow> (\<And>x. P (f x) = P x) \<Longrightarrow> \<forall>x \<in> set (update_where P f xs). P x \<longrightarrow> Q x"
  by (induction xs) auto

lemma update_where_none: "(\<And>r. r \<in> set rows \<Longrightarrow> \<not> P r) \<Longrightarrow> update_where P f rows = rows"
  by (induction rows) auto

lemma map_update_where:
  "(\<And>r. P r \<Longrightarrow> g (f r) = g r) \<Longrightarrow> map g (update_where P f rows) = map g rows"
  by (simp add: update_where_def)

lemma delete_where_simps [simp, table_simps]:
  "delete_where P [] = []"
  "delete_where P (r # rs) = (if P r then delete_where P rs else r # delete_where P rs)"
  by (simp_all add: delete_where_def)

lemma in_delete_where [table_simps]: "x \<in> set (delete_where P rows) \<longleftrightarrow> x \<in> set rows \<and> \<not> P x"
  by (auto simp: delete_where_def)

lemma find_row_simps [simp, table_simps]:
  "find_row P [] = None"
  "find_row P (r # rs) = (if P r then Some r else find_row P rs)"
  by (simp_all add: find_row_def)

lemma find_row_Some: "find_row P rows = Some r \<Longrightarrow> r \<in> set rows \<and> P r"
  by (induction rows) (auto split: if_splits)

lemma find_row_append: "find_row P (xs @ ys) = (case find_row P xs of None \<Rightarrow> find_row P ys | Some x \<Rightarrow> Some x)"
  by (induction xs) auto

lemma find_row_None: "find_row P rows = None \<longleftrightarrow> (\<forall>r \<in> set rows. \<not> P r)"
  by (induction rows) auto

lemma find_row_unique:
  assumes "inj_on k (set rows)" "r \<in> set rows"
  shows "find_row (\<lambda>x. k x = k r) rows = Some r"
proof (cases "find_row (\<lambda>x. k x = k r) rows")
  case None
  with assms(2) show ?thesis by (auto simp: find_row_None)
next
  case (Some y)
  then have "y \<in> set rows" "k y = k r" by (auto dest: find_row_Some)
  with assms Some show ?thesis by (auto dest: inj_onD)
qed

section \<open>Batches, deduplication, stable sorting\<close>

text \<open>\<open>xs[start : start + n] for start in range(0, len(xs), n)\<close>, for a positive \<open>n\<close>.\<close>

function batches :: "nat \<Rightarrow> 'a list \<Rightarrow> 'a list list" where
  "batches n xs = (if xs = [] \<or> n = 0 then [] else take n xs # batches n (drop n xs))"
  by pat_completeness auto
termination
  by (relation "measure (\<lambda>(n, xs). length xs)") auto

declare batches.simps [simp del]

lemma batches_simps [simp]:
  "batches n [] = []"
  "n > 0 \<Longrightarrow> xs \<noteq> [] \<Longrightarrow> batches n xs = take n xs # batches n (drop n xs)"
  by (simp_all add: batches.simps)

lemma concat_batches: "n > 0 \<Longrightarrow> concat (batches n xs) = xs"
proof (induction n xs rule: batches.induct)
  case (1 n xs)
  then show ?case by (cases "xs = []") auto
qed

lemma batches_length: "b \<in> set (batches n xs) \<Longrightarrow> 0 < length b \<and> length b \<le> n"
proof (induction n xs rule: batches.induct)
  case (1 n xs)
  then show ?case by (cases "xs = [] \<or> n = 0") (auto simp: batches.simps [of n xs])
qed

text \<open>\<open>list(dict.fromkeys(xs))\<close>: the first occurrence of each element, in order.\<close>

definition dedup :: "'a list \<Rightarrow> 'a list" where
  "dedup xs = rev (remdups (rev xs))"

lemma set_dedup [simp]: "set (dedup xs) = set xs"
  by (simp add: dedup_def)

lemma distinct_dedup [simp]: "distinct (dedup xs)"
  by (simp add: dedup_def)

lemma length_dedup_le: "length (dedup xs) \<le> length xs"
  by (simp add: dedup_def) (metis length_remdups_leq length_rev)

text \<open>Python's sort is stable and \<open>reverse=True\<close> keeps equal elements in their order.\<close>

definition sort_desc :: "('a \<Rightarrow> 'b::linordered_idom) \<Rightarrow> 'a list \<Rightarrow> 'a list" where
  "sort_desc f xs = sort_key (\<lambda>x. - f x) xs"

lemma mset_sort_desc [simp]: "mset (sort_desc f xs) = mset xs"
  by (simp add: sort_desc_def)

lemma set_sort_desc [simp]: "set (sort_desc f xs) = set xs"
  by (simp add: sort_desc_def)

lemma length_sort_desc [simp]: "length (sort_desc f xs) = length xs"
  by (simp add: sort_desc_def)

lemma distinct_sort_desc [simp]: "distinct (sort_desc f xs) = distinct xs"
  by (metis mset_sort_desc distinct_count_atmost_1 mset_eq_imp_distinct_iff)

lemma sorted_sort_desc: "sorted (map (\<lambda>x. - f x) (sort_desc f xs))"
  by (simp add: sort_desc_def)

lemma sort_desc_nth:
  assumes "i \<le> j" "j < length xs"
  shows "f (sort_desc f xs ! j) \<le> f (sort_desc f xs ! i)"
proof -
  have "map (\<lambda>x. - f x) (sort_desc f xs) ! i \<le> map (\<lambda>x. - f x) (sort_desc f xs) ! j"
    using sorted_sort_desc [of f xs] assms by (intro sorted_nth_mono) auto
  with assms show ?thesis by simp
qed

text \<open>Subsequences.\<close>

lemma subseq_set_distinct: "subseq xs ys \<Longrightarrow> set xs \<subseteq> set ys \<and> (distinct ys \<longrightarrow> distinct xs)"
  by (induction rule: list_emb.induct) auto

lemma subseq_concat: "subseq xs ys \<Longrightarrow> subseq (concat xs) (concat ys)"
  by (induction rule: list_emb.induct) (auto intro: list_emb_append_mono list_emb_append2)

text \<open>First element of a list whose image is \<open>Some\<close>.\<close>

fun first_some :: "('a \<Rightarrow> 'b option) \<Rightarrow> 'a list \<Rightarrow> 'b option" where
  "first_some f [] = None"
| "first_some f (x # xs) = (case f x of None \<Rightarrow> first_some f xs | Some y \<Rightarrow> Some y)"

lemma first_some_Some: "first_some f xs = Some y \<Longrightarrow> \<exists>x \<in> set xs. f x = Some y"
  by (induction xs) (auto split: option.splits)

lemma first_some_None: "first_some f xs = None \<longleftrightarrow> (\<forall>x \<in> set xs. f x = None)"
  by (induction xs) (auto split: option.splits)

section \<open>Enumerated rows\<close>

text \<open>\<open>list(enumerate(xs))\<close>.\<close>

definition enum :: "'a list \<Rightarrow> (nat \<times> 'a) list" where
  "enum xs = zip [0..<length xs] xs"

lemma in_enum [simp]: "(i, x) \<in> set (enum xs) \<longleftrightarrow> i < length xs \<and> x = xs ! i"
  by (force simp: enum_def set_zip)

lemma map_fst_enum [simp]: "map fst (enum xs) = [0..<length xs]"
  by (simp add: enum_def)

lemma distinct_enum [simp]: "distinct (enum xs)"
  by (metis distinct_map distinct_upt map_fst_enum)

lemma length_enum [simp]: "length (enum xs) = length xs"
  by (simp add: enum_def)

section \<open>Transition systems\<close>

text \<open>A state machine is a start predicate and a step relation; an invariant that holds at the start
  and is kept by every step holds in every reachable state.  The second rule lets a proof use an
  invariant already established.\<close>

locale transition_system =
  fixes start :: "'s \<Rightarrow> bool"
    and step :: "'s \<Rightarrow> 's \<Rightarrow> bool"
    and reach :: "'s \<Rightarrow> bool"
  assumes reach_start: "start s \<Longrightarrow> reach s"
    and reach_step: "reach s \<Longrightarrow> step s t \<Longrightarrow> reach t"
    and reach_induct: "reach s \<Longrightarrow> (\<And>s. start s \<Longrightarrow> P s) \<Longrightarrow>
           (\<And>s t. reach s \<Longrightarrow> P s \<Longrightarrow> step s t \<Longrightarrow> P t) \<Longrightarrow> P s"
begin

lemma invariant:
  assumes "\<And>s. start s \<Longrightarrow> I s" and "\<And>s t. I s \<Longrightarrow> step s t \<Longrightarrow> I t" and "reach s"
  shows "I s"
  using assms(3) by (rule reach_induct) (use assms(1,2) in blast)+

lemma invariant_under:
  assumes J: "\<And>s. reach s \<Longrightarrow> J s" and "\<And>s. start s \<Longrightarrow> I s"
    and "\<And>s t. J s \<Longrightarrow> J t \<Longrightarrow> I s \<Longrightarrow> step s t \<Longrightarrow> I t" and "reach s"
  shows "I s"
  using assms(4) by (rule reach_induct) (use assms(1-3) reach_step in blast)+

lemma reach_steps: "step\<^sup>*\<^sup>* s t \<Longrightarrow> reach s \<Longrightarrow> reach t"
  by (induction rule: rtranclp_induct) (auto intro: reach_step)

end

section \<open>JSON values\<close>

text \<open>Payloads and audit details.  Object keys are ASCII identifiers; string values are code point
  lists (the theory of Python strings).\<close>

datatype json =
    JNull
  | JBool bool
  | JInt int
  | JStr "nat list"
  | JList "json list"
  | JObj "(string \<times> json) list"

fun jget :: "json \<Rightarrow> string \<Rightarrow> json option" where
  "jget (JObj kvs) k = map_of kvs k"
| "jget _ k = None"

end
