(* ===== verification/PyText.thy ===== *)
theory PyText
  imports Prelude
begin

text \<open>
  Python's \<open>str\<close>: a list of Unicode code points.  The operations are those the program calls
  (\<open>strip\<close>, \<open>splitlines\<close>, \<open>split\<close>, \<open>join\<close>, \<open>replace\<close>, \<open>startswith\<close>, \<open>in\<close>, slices and
  \<open>int\<close> of a digit string), with CPython's own character classes written out: the 29 code points
  of \<open>str.isspace\<close>, the line boundaries of \<open>str.splitlines\<close> and the decimal digits of \<open>\d\<close>
  (Unicode 14, as in the Python 3.11 the image runs).  Case folding and normalisation
  depend on the whole Unicode database and are parameters where the program uses them.
\<close>

type_synonym ustr = "nat list"

text \<open>ASCII literals.\<close>

definition u :: "string \<Rightarrow> ustr" where
  "u s = map of_char s"

lemma u_Nil [simp]: "u [] = []"
  by (simp add: u_def)

lemma u_Cons: "u (c # cs) = of_char c # u cs"
  by (simp add: u_def)

lemma length_u [simp]: "length (u s) = length s"
  by (simp add: u_def)

section \<open>Character classes\<close>

definition is_space :: "nat \<Rightarrow> bool" where
  "is_space c \<longleftrightarrow> (9 \<le> c \<and> c \<le> 13) \<or> (28 \<le> c \<and> c \<le> 32) \<or> c = 133 \<or> c = 160 \<or> c = 5760
     \<or> (8192 \<le> c \<and> c \<le> 8202) \<or> c = 8232 \<or> c = 8233 \<or> c = 8239 \<or> c = 8287 \<or> c = 12288"

definition is_linebreak :: "nat \<Rightarrow> bool" where
  "is_linebreak c \<longleftrightarrow> (10 \<le> c \<and> c \<le> 13) \<or> (28 \<le> c \<and> c \<le> 30) \<or> c = 133 \<or> c = 8232 \<or> c = 8233"

text \<open>The code points of value zero that start each run of ten decimal digits.\<close>

definition decimal_zeros :: "nat list" where
  "decimal_zeros =
    [48, 1632, 1776, 1984, 2406, 2534, 2662, 2790, 2918, 3046, 3174, 3302, 3430, 3558, 3664, 3792,
     3872, 4160, 4240, 6112, 6160, 6470, 6608, 6784, 6800, 6992, 7088, 7232, 7248, 42528, 43216,
     43264, 43472, 43504, 43600, 44016, 65296, 66720, 68912, 69734, 69872, 69942, 70096, 70384,
     70736, 70864, 71248, 71360, 71472, 71904, 72016, 72784, 73040, 73120, 92768, 92864, 93008,
     120782, 120792, 120802, 120812, 120822, 123200, 123632, 125264, 130032]"

definition digit_value :: "nat \<Rightarrow> nat option" where
  "digit_value c = first_some (\<lambda>z. if z \<le> c \<and> c < z + 10 then Some (c - z) else None) decimal_zeros"

definition is_decimal :: "nat \<Rightarrow> bool" where
  "is_decimal c \<longleftrightarrow> digit_value c \<noteq> None"

lemma linebreak_is_space: "is_linebreak c \<Longrightarrow> is_space c"
  by (auto simp: is_linebreak_def is_space_def)

lemma digit_value_less: "digit_value c = Some d \<Longrightarrow> d < 10"
  by (auto simp: digit_value_def dest!: first_some_Some split: if_splits)

lemma digit_value_ascii: "48 \<le> c \<Longrightarrow> c < 58 \<Longrightarrow> digit_value c = Some (c - 48)"
  by (simp add: digit_value_def decimal_zeros_def)

text \<open>\<open>int(s)\<close> on a string that \<open>\d+\<close> matched.\<close>

definition int_of_digits :: "ustr \<Rightarrow> int" where
  "int_of_digits s = foldl (\<lambda>acc c. acc * 10 + int (coalesce (digit_value c) 0)) 0 s"

lemma foldl_digits_nonneg:
  "acc \<ge> 0 \<Longrightarrow> foldl (\<lambda>acc c. acc * 10 + int (coalesce (digit_value c) 0)) acc s \<ge> (0::int)"
  by (induction s arbitrary: acc) auto

lemma int_of_digits_nonneg: "int_of_digits s \<ge> 0"
  by (simp add: int_of_digits_def foldl_digits_nonneg)

section \<open>Stripping\<close>

definition lstrip :: "ustr \<Rightarrow> ustr" where
  "lstrip s = dropWhile is_space s"

definition rstrip :: "ustr \<Rightarrow> ustr" where
  "rstrip s = rev (dropWhile is_space (rev s))"

definition strip :: "ustr \<Rightarrow> ustr" where
  "strip s = rstrip (lstrip s)"

lemma length_lstrip: "length (lstrip s) \<le> length s"
  by (simp add: lstrip_def length_dropWhile_le)

lemma length_rstrip: "length (rstrip s) \<le> length s"
  by (simp add: rstrip_def) (metis length_dropWhile_le length_rev)

lemma length_strip: "length (strip s) \<le> length s"
  using length_rstrip [of "lstrip s"] length_lstrip [of s] by (simp add: strip_def)

lemma lstrip_id: "s = [] \<or> \<not> is_space (hd s) \<Longrightarrow> lstrip s = s"
  by (cases s) (auto simp: lstrip_def)

lemma hd_lstrip: "lstrip s \<noteq> [] \<Longrightarrow> \<not> is_space (hd (lstrip s))"
  by (simp add: lstrip_def hd_dropWhile)

lemma rstrip_append: "\<exists>t. s = rstrip s @ t \<and> (\<forall>c \<in> set t. is_space c)"
proof -
  let ?t = "rev (takeWhile is_space (rev s))"
  have "s = rstrip s @ ?t"
    by (simp add: rstrip_def) (metis rev_append rev_rev_ident takeWhile_dropWhile_id)
  then show ?thesis by (intro exI [of _ ?t]) (auto dest: set_takeWhileD)
qed

lemma last_rstrip: "rstrip s \<noteq> [] \<Longrightarrow> \<not> is_space (last (rstrip s))"
proof -
  assume "rstrip s \<noteq> []"
  then have "dropWhile is_space (rev s) \<noteq> []" by (simp add: rstrip_def)
  then have "\<not> is_space (hd (dropWhile is_space (rev s)))" by (rule hd_dropWhile)
  then show ?thesis by (simp add: rstrip_def last_rev)
qed

lemma hd_rstrip: "rstrip s \<noteq> [] \<Longrightarrow> hd (rstrip s) = hd s"
  by (metis hd_append2 rstrip_append)

lemma strip_ends:
  assumes "strip s \<noteq> []"
  shows "\<not> is_space (hd (strip s))" "\<not> is_space (last (strip s))"
proof -
  have ne: "lstrip s \<noteq> []" using assms by (auto simp: strip_def rstrip_def)
  show "\<not> is_space (hd (strip s))"
    using assms hd_rstrip [of "lstrip s"] hd_lstrip [OF ne] by (simp add: strip_def)
  show "\<not> is_space (last (strip s))"
    using assms last_rstrip by (simp add: strip_def)
qed

lemma rstrip_id: "s = [] \<or> \<not> is_space (last s) \<Longrightarrow> rstrip s = s"
  by (cases s rule: rev_cases) (auto simp: rstrip_def)

lemma strip_id: "s = [] \<or> \<not> is_space (hd s) \<and> \<not> is_space (last s) \<Longrightarrow> strip s = s"
  by (auto simp: strip_def lstrip_id rstrip_id)

lemma strip_strip [simp]: "strip (strip s) = strip s"
  using strip_ends strip_id by blast

lemma strip_Nil [simp]: "strip [] = []"
  by (simp add: strip_def lstrip_def rstrip_def)

lemma strip_empty_iff: "strip s = [] \<longleftrightarrow> (\<forall>c \<in> set s. is_space c)"
proof
  assume "strip s = []"
  then have "\<forall>c \<in> set (lstrip s). is_space c"
    by (metis append_Nil rstrip_append strip_def)
  then have "lstrip s = []"
    by (metis hd_in_set hd_lstrip)
  then show "\<forall>c \<in> set s. is_space c" by (simp add: lstrip_def)
next
  assume "\<forall>c \<in> set s. is_space c"
  then have "lstrip s = []" by (simp add: lstrip_def dropWhile_eq_Nil_conv)
  then show "strip s = []" by (simp add: strip_def rstrip_def)
qed

lemma set_strip: "set (strip s) \<subseteq> set s"
  by (auto simp: strip_def lstrip_def rstrip_def dest!: set_dropWhileD)

text \<open>\<open>s.lstrip(chars)\<close> with an explicit character set.\<close>

definition lstrip_chars :: "nat list \<Rightarrow> ustr \<Rightarrow> ustr" where
  "lstrip_chars cs s = dropWhile (\<lambda>c. c \<in> set cs) s"

section \<open>Lines\<close>

text \<open>\<open>str.splitlines()\<close>: a carriage return followed by a line feed is one boundary, and a final
  boundary opens no further line.\<close>

fun splitlines_aux :: "ustr \<Rightarrow> ustr \<Rightarrow> ustr list" where
  "splitlines_aux acc [] = (if acc = [] then [] else [rev acc])"
| "splitlines_aux acc (c # cs) =
     (if is_linebreak c
      then rev acc # splitlines_aux [] (if c = 13 \<and> cs \<noteq> [] \<and> hd cs = 10 then tl cs else cs)
      else splitlines_aux (c # acc) cs)"

definition splitlines :: "ustr \<Rightarrow> ustr list" where
  "splitlines s = splitlines_aux [] s"

lemma splitlines_aux_no_break:
  "\<forall>c \<in> set acc. \<not> is_linebreak c \<Longrightarrow> l \<in> set (splitlines_aux acc s) \<Longrightarrow> c \<in> set l \<Longrightarrow> \<not> is_linebreak c"
  by (induction acc s rule: splitlines_aux.induct) (auto split: if_splits)

lemma splitlines_no_break: "l \<in> set (splitlines s) \<Longrightarrow> c \<in> set l \<Longrightarrow> \<not> is_linebreak c"
  using splitlines_aux_no_break [of "[]"] by (auto simp: splitlines_def)

section \<open>Substrings\<close>

definition startswith :: "ustr \<Rightarrow> ustr \<Rightarrow> bool" where
  "startswith s p \<longleftrightarrow> take (length p) s = p"

definition endswith :: "ustr \<Rightarrow> ustr \<Rightarrow> bool" where
  "endswith s p \<longleftrightarrow> startswith (rev s) (rev p)"

fun contains :: "ustr \<Rightarrow> ustr \<Rightarrow> bool" where
  "contains p [] = (p = [])"
| "contains p (c # cs) = (startswith (c # cs) p \<or> contains p cs)"

lemma startswith_prefix: "startswith s p \<longleftrightarrow> prefix p s"
  by (auto simp: startswith_def prefix_def) (metis append_take_drop_id)

lemma contains_sublist: "contains p s \<longleftrightarrow> sublist p s"
  by (induction s) (auto simp: sublist_Cons_right startswith_prefix)

lemma contains_iff: "contains p s \<longleftrightarrow> (\<exists>a b. s = a @ p @ b)"
  by (simp add: contains_sublist sublist_def)

text \<open>\<open>s.replace(old, new)\<close> for a nonempty \<open>old\<close>: leftmost occurrences, not overlapping.\<close>

function replace_all :: "ustr \<Rightarrow> ustr \<Rightarrow> ustr \<Rightarrow> ustr" where
  "replace_all old new s =
     (if s = [] then []
      else if old \<noteq> [] \<and> startswith s old then new @ replace_all old new (drop (length old) s)
      else hd s # replace_all old new (tl s))"
  by pat_completeness auto
termination
  by (relation "measure (\<lambda>(old, new, s). length s)") (auto simp: startswith_def)

declare replace_all.simps [simp del]

lemma replace_all_simps [simp]:
  "replace_all old new [] = []"
  "replace_all old new (c # cs) =
     (if old \<noteq> [] \<and> startswith (c # cs) old
      then new @ replace_all old new (drop (length old) (c # cs))
      else c # replace_all old new cs)"
  by (simp_all add: replace_all.simps [of old new "c # cs"] replace_all.simps [of old new "[]"])

text \<open>\<open>s.split(sep)\<close> for a one-character separator.\<close>

fun split_char_aux :: "nat \<Rightarrow> ustr \<Rightarrow> ustr \<Rightarrow> ustr list" where
  "split_char_aux sep acc [] = [rev acc]"
| "split_char_aux sep acc (c # cs) =
     (if c = sep then rev acc # split_char_aux sep [] cs else split_char_aux sep (c # acc) cs)"

definition split_char :: "nat \<Rightarrow> ustr \<Rightarrow> ustr list" where
  "split_char sep s = split_char_aux sep [] s"

text \<open>\<open>s.split()\<close>: the maximal runs of non-space characters.\<close>

fun split_ws_aux :: "ustr \<Rightarrow> ustr \<Rightarrow> ustr list" where
  "split_ws_aux acc [] = (if acc = [] then [] else [rev acc])"
| "split_ws_aux acc (c # cs) =
     (if is_space c then (if acc = [] then split_ws_aux [] cs else rev acc # split_ws_aux [] cs)
      else split_ws_aux (c # acc) cs)"

definition split_ws :: "ustr \<Rightarrow> ustr list" where
  "split_ws s = split_ws_aux [] s"

text \<open>\<open>sep.join(parts)\<close>.\<close>

fun ujoin :: "ustr \<Rightarrow> ustr list \<Rightarrow> ustr" where
  "ujoin sep [] = []"
| "ujoin sep [p] = p"
| "ujoin sep (p # q # ps) = p @ sep @ ujoin sep (q # ps)"

lemma ujoin_snoc: "ps \<noteq> [] \<Longrightarrow> ujoin sep (ps @ [p]) = ujoin sep ps @ sep @ p"
  by (induction ps rule: induct_list012) auto

lemma ujoin_Cons: "ps \<noteq> [] \<Longrightarrow> ujoin sep (p # ps) = p @ sep @ ujoin sep ps"
  by (cases ps) simp_all

text \<open>Splitting and joining at a character undo each other.\<close>

lemma split_aux_append: "split_char_aux k acc (a @ k # b) = split_char_aux k acc a @ split_char_aux k [] b"
  by (induction a arbitrary: acc) auto

lemma split_append: "split_char k (a @ k # b) = split_char k a @ split_char k b"
  by (simp add: split_char_def split_aux_append)

lemma split_aux_none: "k \<notin> set s \<Longrightarrow> split_char_aux k acc s = [rev acc @ s]"
  by (induction s arbitrary: acc) auto

lemma split_none: "k \<notin> set s \<Longrightarrow> split_char k s = [s]"
  by (simp add: split_char_def split_aux_none)

lemma split_ujoin: "ls \<noteq> [] \<Longrightarrow> \<forall>l \<in> set ls. k \<notin> set l \<Longrightarrow> split_char k (ujoin [k] ls) = ls"
proof (induction "[k]" ls rule: ujoin.induct)
  case (3 p q ps)
  then show ?case using split_append [of k p "ujoin [k] (q # ps)"] by (simp add: split_none)
qed (simp_all add: split_none)

lemma split_char_nonempty: "split_char k s \<noteq> []"
proof -
  have "split_char_aux k acc s \<noteq> []" for acc by (induction s arbitrary: acc) auto
  then show ?thesis by (simp add: split_char_def)
qed

lemma ujoin_split_aux: "ujoin [k] (split_char_aux k acc s) = rev acc @ s"
proof (induction s arbitrary: acc)
  case (Cons c s)
  have "split_char_aux k [] s \<noteq> []" using split_char_nonempty [of k s] by (simp add: split_char_def)
  then show ?case using Cons.IH by (simp add: ujoin_Cons)
qed simp

lemma ujoin_split_char: "ujoin [k] (split_char k s) = s"
  by (simp add: split_char_def ujoin_split_aux)

lemma split_aux_no_sep: "k \<notin> set acc \<Longrightarrow> x \<in> set (split_char_aux k acc s) \<Longrightarrow> k \<notin> set x"
proof (induction s arbitrary: acc)
  case (Cons c s)
  then show ?case using Cons.IH [of "[]"] Cons.IH [of "c # acc"] by (auto split: if_splits)
qed auto

lemma split_no_sep: "x \<in> set (split_char k s) \<Longrightarrow> k \<notin> set x"
  using split_aux_no_sep [of k "[]"] by (simp add: split_char_def)

text \<open>Slices with indices that are not negative, and \<open>s[-n:]\<close>.\<close>

definition slice :: "'a list \<Rightarrow> nat \<Rightarrow> nat \<Rightarrow> 'a list" where
  "slice s i j = take (j - i) (drop i s)"

definition last_n :: "nat \<Rightarrow> 'a list \<Rightarrow> 'a list" where
  "last_n n s = (if n = 0 then s else drop (length s - n) s)"

lemma length_last_n: "n > 0 \<Longrightarrow> length (last_n n s) = min n (length s)"
  by (simp add: last_n_def)

lemma length_slice: "length (slice s i j) \<le> j - i"
  by (simp add: slice_def)

section \<open>Decimal numerals\<close>

text \<open>\<open>str(n)\<close> for an integer.\<close>

fun show_nat :: "nat \<Rightarrow> string" where
  "show_nat n = (if n < 10 then [char_of (48 + n)] else show_nat (n div 10) @ [char_of (48 + n mod 10)])"

declare show_nat.simps [simp del]

definition show_int :: "int \<Rightarrow> string" where
  "show_int i = (if i < 0 then ''-'' @ show_nat (nat (- i)) else show_nat (nat i))"

end
