(* ===== verification/PyRegex.thy ===== *)
theory PyRegex
  imports PyText
begin

text \<open>
  The part of Python's \<open>re\<close> that the program's patterns use: sequences, alternatives tried left
  to right, greedy repetition of a character class, groups, one-character look-around, word
  boundaries and anchors.  \<open>ends\<close> is the backtracking matcher: all end positions in the order the
  engine would try them.  \<open>rmatch\<close> says declaratively which spans a pattern matches, and
  \<open>ends_iff\<close> that the matcher finds exactly those.  \<open>finditer\<close> scans from the left and never
  returns an empty match where the last empty match ended, as \<open>re\<close> has done since Python 3.7;
  \<open>sub\<close>, \<open>split\<close> and \<open>findall\<close> are built on it.
\<close>

type_synonym caps = "(nat \<times> ustr) list"

datatype regex =
    Eps
  | Atom "nat \<Rightarrow> bool"
  | Seq regex regex
  | Alt regex regex
  | Rep nat "nat option" "nat \<Rightarrow> bool"
  | Grp nat regex
  | Behind "nat \<Rightarrow> bool"
  | NotBehind "nat \<Rightarrow> bool"
  | NotAhead "nat \<Rightarrow> bool"
  | Boundary "nat \<Rightarrow> bool"
  | Bos
  | Eos

section \<open>The matcher\<close>

definition at_class :: "(nat \<Rightarrow> bool) \<Rightarrow> ustr \<Rightarrow> nat \<Rightarrow> bool" where
  "at_class p s i \<longleftrightarrow> i < length s \<and> p (s ! i)"

definition before_class :: "(nat \<Rightarrow> bool) \<Rightarrow> ustr \<Rightarrow> nat \<Rightarrow> bool" where
  "before_class p s i \<longleftrightarrow> 0 < i \<and> at_class p s (i - 1)"

definition run_length :: "(nat \<Rightarrow> bool) \<Rightarrow> nat option \<Rightarrow> ustr \<Rightarrow> nat \<Rightarrow> nat" where
  "run_length p hi s i =
     (let k = length (takeWhile p (drop i s)) in case hi of None \<Rightarrow> k | Some h \<Rightarrow> min k h)"

fun ends :: "regex \<Rightarrow> ustr \<Rightarrow> nat \<Rightarrow> caps \<Rightarrow> (nat \<times> caps) list" where
  "ends Eps s i c = [(i, c)]"
| "ends (Atom p) s i c = (if at_class p s i then [(Suc i, c)] else [])"
| "ends (Seq r1 r2) s i c = concat (map (\<lambda>(j, c'). ends r2 s j c') (ends r1 s i c))"
| "ends (Alt r1 r2) s i c = ends r1 s i c @ ends r2 s i c"
| "ends (Rep lo hi p) s i c =
     map (\<lambda>n. (i + n, c)) (rev [lo..<Suc (run_length p hi s i)])"
| "ends (Grp n r) s i c = map (\<lambda>(j, c'). (j, (n, slice s i j) # c')) (ends r s i c)"
| "ends (Behind p) s i c = (if before_class p s i then [(i, c)] else [])"
| "ends (NotBehind p) s i c = (if before_class p s i then [] else [(i, c)])"
| "ends (NotAhead p) s i c = (if at_class p s i then [] else [(i, c)])"
| "ends (Boundary p) s i c = (if before_class p s i \<noteq> at_class p s i then [(i, c)] else [])"
| "ends Bos s i c = (if i = 0 then [(i, c)] else [])"
| "ends Eos s i c =
     (if i = length s \<or> (Suc i = length s \<and> s ! i = 10) then [(i, c)] else [])"

section \<open>What a pattern matches\<close>

inductive rmatch :: "regex \<Rightarrow> ustr \<Rightarrow> nat \<Rightarrow> caps \<Rightarrow> nat \<Rightarrow> caps \<Rightarrow> bool" where
  m_eps: "rmatch Eps s i c i c"
| m_atom: "at_class p s i \<Longrightarrow> rmatch (Atom p) s i c (Suc i) c"
| m_seq: "rmatch r1 s i c j c' \<Longrightarrow> rmatch r2 s j c' k c'' \<Longrightarrow> rmatch (Seq r1 r2) s i c k c''"
| m_altL: "rmatch r1 s i c j c' \<Longrightarrow> rmatch (Alt r1 r2) s i c j c'"
| m_altR: "rmatch r2 s i c j c' \<Longrightarrow> rmatch (Alt r1 r2) s i c j c'"
| m_rep: "lo \<le> n \<Longrightarrow> (\<forall>h. hi = Some h \<longrightarrow> n \<le> h) \<Longrightarrow> (\<forall>m < n. at_class p s (i + m)) \<Longrightarrow>
     rmatch (Rep lo hi p) s i c (i + n) c"
| m_grp: "rmatch r s i c j c' \<Longrightarrow> rmatch (Grp n r) s i c j ((n, slice s i j) # c')"
| m_behind: "before_class p s i \<Longrightarrow> rmatch (Behind p) s i c i c"
| m_notbehind: "\<not> before_class p s i \<Longrightarrow> rmatch (NotBehind p) s i c i c"
| m_notahead: "\<not> at_class p s i \<Longrightarrow> rmatch (NotAhead p) s i c i c"
| m_boundary: "before_class p s i \<noteq> at_class p s i \<Longrightarrow> rmatch (Boundary p) s i c i c"
| m_bos: "rmatch Bos s 0 c 0 c"
| m_eos: "i = length s \<or> (Suc i = length s \<and> s ! i = 10) \<Longrightarrow> rmatch Eos s i c i c"

inductive_simps rmatch_simps [simp]:
  "rmatch Eps s i c j c'"
  "rmatch (Atom p) s i c j c'"
  "rmatch (Seq r1 r2) s i c j c'"
  "rmatch (Alt r1 r2) s i c j c'"
  "rmatch (Rep lo hi p) s i c j c'"
  "rmatch (Grp n r) s i c j c'"
  "rmatch (Behind p) s i c j c'"
  "rmatch (NotBehind p) s i c j c'"
  "rmatch (NotAhead p) s i c j c'"
  "rmatch (Boundary p) s i c j c'"
  "rmatch Bos s i c j c'"
  "rmatch Eos s i c j c'"

lemma takeWhile_length_iff:
  "n \<le> length (takeWhile p xs) \<longleftrightarrow> n \<le> length xs \<and> (\<forall>m < n. p (xs ! m))"
proof (induction xs arbitrary: n)
  case Nil
  then show ?case by auto
next
  case (Cons x xs)
  then show ?case by (cases n) (auto simp: less_Suc_eq_0_disj)
qed

lemma run_length_iff:
  assumes "i \<le> length s"
  shows "n \<le> run_length p hi s i \<longleftrightarrow>
           (\<forall>h. hi = Some h \<longrightarrow> n \<le> h) \<and> (\<forall>m < n. at_class p s (i + m))"
proof -
  have "n \<le> length (takeWhile p (drop i s)) \<longleftrightarrow> (\<forall>m < n. at_class p s (i + m))"
  proof
    assume "n \<le> length (takeWhile p (drop i s))"
    then show "\<forall>m < n. at_class p s (i + m)"
      by (auto simp: takeWhile_length_iff at_class_def)
  next
    assume a: "\<forall>m < n. at_class p s (i + m)"
    have "n \<le> length s - i"
    proof (cases n)
      case (Suc k)
      with a have "at_class p s (i + k)" by blast
      with Suc show ?thesis by (auto simp: at_class_def)
    qed simp
    with a assms show "n \<le> length (takeWhile p (drop i s))"
      by (auto simp: takeWhile_length_iff at_class_def)
  qed
  then show ?thesis by (cases hi) (auto simp: run_length_def Let_def)
qed

lemma rmatch_bounds: "rmatch r s i c j c' \<Longrightarrow> i \<le> length s \<Longrightarrow> i \<le> j \<and> j \<le> length s"
proof (induction rule: rmatch.induct)
  case (m_rep lo n hi p s i c)
  then show ?case
    by (cases n) (auto simp: at_class_def dest: spec [where x = "n - 1"])
qed (auto simp: at_class_def)

lemma ends_iff: "i \<le> length s \<Longrightarrow> (j, c') \<in> set (ends r s i c) \<longleftrightarrow> rmatch r s i c j c'"
proof (induction r arbitrary: i c j c')
  case (Seq r1 r2)
  have "(j, c') \<in> set (ends (Seq r1 r2) s i c) \<longleftrightarrow>
      (\<exists>k d. (k, d) \<in> set (ends r1 s i c) \<and> (j, c') \<in> set (ends r2 s k d))"
    by auto
  also have "\<dots> \<longleftrightarrow> (\<exists>k d. rmatch r1 s i c k d \<and> rmatch r2 s k d j c')"
    by (meson Seq.IH Seq.prems rmatch_bounds)
  finally show ?case by simp
next
  case (Rep lo hi p)
  have "(j, c') \<in> set (ends (Rep lo hi p) s i c) \<longleftrightarrow>
      (\<exists>n. lo \<le> n \<and> n \<le> run_length p hi s i \<and> j = i + n \<and> c' = c)"
    by (auto simp: image_iff less_Suc_eq_le)
  also have "\<dots> \<longleftrightarrow> rmatch (Rep lo hi p) s i c j c'"
    using run_length_iff [OF Rep.prems] by (simp del: split_paired_Ex) blast
  finally show ?case .
next
  case (Grp n r)
  have "(j, c') \<in> set (ends (Grp n r) s i c) \<longleftrightarrow>
      (\<exists>d. (j, d) \<in> set (ends r s i c) \<and> c' = (n, slice s i j) # d)"
    by (auto simp: image_iff intro!: bexI [rotated])
  with Grp show ?case by auto
next
  case (Alt r1 r2)
  then show ?case by simp
qed auto

lemma ends_bounds: "(j, c') \<in> set (ends r s i c) \<Longrightarrow> i \<le> length s \<Longrightarrow> i \<le> j \<and> j \<le> length s"
  by (metis ends_iff rmatch_bounds)

section \<open>Scanning\<close>

text \<open>\<open>must\<close> forbids an empty match at the first position tried.\<close>

definition match_at :: "regex \<Rightarrow> ustr \<Rightarrow> nat \<Rightarrow> bool \<Rightarrow> (nat \<times> caps) option" where
  "match_at r s i must = find_row (\<lambda>(j, c). \<not> (must \<and> j = i)) (ends r s i [])"

definition search_from :: "regex \<Rightarrow> ustr \<Rightarrow> nat \<Rightarrow> bool \<Rightarrow> (nat \<times> nat \<times> caps) option" where
  "search_from r s pos must =
     first_some (\<lambda>i. map_option (\<lambda>(j, c). (i, j, c)) (match_at r s i (must \<and> i = pos)))
       [pos..<Suc (length s)]"

lemma search_from_Some:
  assumes "search_from r s pos must = Some (i, j, c)"
  shows "pos \<le> i \<and> i \<le> j \<and> j \<le> length s \<and> rmatch r s i [] j c \<and> (must \<and> j = i \<longrightarrow> i \<noteq> pos)"
proof -
  from assms obtain k where k: "k \<in> set [pos..<Suc (length s)]"
    "map_option (\<lambda>(j, c). (k, j, c)) (match_at r s k (must \<and> k = pos)) = Some (i, j, c)"
    unfolding search_from_def by (blast dest: first_some_Some)
  then have "k = i" "match_at r s i (must \<and> i = pos) = Some (j, c)" by auto
  then have "(j, c) \<in> set (ends r s i [])" "\<not> (must \<and> i = pos \<and> j = i)"
    by (auto simp: match_at_def dest!: find_row_Some)
  with k \<open>k = i\<close> show ?thesis by (auto simp: ends_iff dest: ends_bounds)
qed

lemma match_at_None: "match_at r s i False = None \<longleftrightarrow> ends r s i [] = []"
  by (cases "ends r s i []") (auto simp: match_at_def)

lemma ends_Nil_iff: "i \<le> length s \<Longrightarrow> ends r s i c = [] \<longleftrightarrow> (\<forall>j c'. \<not> rmatch r s i c j c')"
  by (simp add: ends_iff [symmetric] del: rmatch_simps) (metis list.set_intros(1) list.exhaust prod.exhaust empty_iff set_empty)

lemma search_from_None:
  "search_from r s pos False = None \<longleftrightarrow>
     (\<forall>i j c. pos \<le> i \<longrightarrow> i \<le> length s \<longrightarrow> \<not> rmatch r s i [] j c)"
proof -
  have "search_from r s pos False = None \<longleftrightarrow>
     (\<forall>i. pos \<le> i \<and> i \<le> length s \<longrightarrow> ends r s i [] = [])"
    by (auto simp: search_from_def first_some_None match_at_None)
  also have "\<dots> \<longleftrightarrow> (\<forall>i j c. pos \<le> i \<longrightarrow> i \<le> length s \<longrightarrow> \<not> rmatch r s i [] j c)"
    by (auto simp: ends_Nil_iff)
  finally show ?thesis .
qed

lemma first_some_skip: "(\<And>x. x \<in> set xs \<Longrightarrow> f x = None) \<Longrightarrow> first_some f (xs @ ys) = first_some f ys"
  by (induction xs) auto

lemma search_skip:
  assumes "i \<le> j" "j \<le> length s" "\<And>k. i \<le> k \<Longrightarrow> k < j \<Longrightarrow> ends r s k [] = []"
  shows "search_from r s i False = search_from r s j False"
proof -
  have split: "[i..<Suc (length s)] = [i..<j] @ [j..<Suc (length s)]"
    using assms(1,2) upt_add_eq_append [of i j "Suc (length s) - j"] by simp
  show ?thesis
    unfolding search_from_def split by (subst first_some_skip) (use assms(3) in \<open>auto simp: match_at_None\<close>)
qed

lemma search_hit: "i \<le> length s \<Longrightarrow> ends r s i [] = (j, c) # es \<Longrightarrow> search_from r s i False = Some (i, j, c)"
  by (subst search_from_def, subst upt_conv_Cons) (simp_all add: match_at_def)

lemma search_end: "ends r s (length s) [] = [] \<Longrightarrow> search_from r s (length s) False = None"
  by (subst search_from_def, subst upt_conv_Cons) (simp_all add: match_at_def)

text \<open>\<open>pattern.search(s) is not None\<close>\<close>

definition re_search :: "regex \<Rightarrow> ustr \<Rightarrow> bool" where
  "re_search r s \<longleftrightarrow> search_from r s 0 False \<noteq> None"

lemma re_search_iff: "re_search r s \<longleftrightarrow> (\<exists>i j c. i \<le> length s \<and> rmatch r s i [] j c)"
  by (auto simp: re_search_def search_from_None)

text \<open>\<open>pattern.match(s) is not None\<close>\<close>

definition re_match :: "regex \<Rightarrow> ustr \<Rightarrow> bool" where
  "re_match r s \<longleftrightarrow> ends r s 0 [] \<noteq> []"

function finditer :: "regex \<Rightarrow> ustr \<Rightarrow> nat \<Rightarrow> bool \<Rightarrow> (nat \<times> nat \<times> caps) list" where
  "finditer r s pos must =
     (case search_from r s pos must of
        None \<Rightarrow> []
      | Some (i, j, c) \<Rightarrow> (i, j, c) # finditer r s j (j = i))"
  by pat_completeness auto
termination
proof (relation "measure (\<lambda>(r, s, pos, must). 2 * (Suc (length s) - pos) + (if must then 0 else 1))",
    goal_cases)
  case 1
  then show ?case by simp
next
  case (2 r s pos must m i y j c)
  then have "search_from r s pos must = Some (i, j, c)" by simp
  from search_from_Some [OF this]
  show ?case by (auto simp: le_less)
qed

declare finditer.simps [simp del]

text \<open>Matches in order: each starts no earlier than the previous one ends, inside the string.\<close>

fun spans_from :: "nat \<Rightarrow> nat \<Rightarrow> (nat \<times> nat \<times> caps) list \<Rightarrow> bool" where
  "spans_from n pos [] = (pos \<le> n)"
| "spans_from n pos ((i, j, c) # ms) = (pos \<le> i \<and> i \<le> j \<and> spans_from n j ms)"

lemma finditer_spans: "pos \<le> length s \<Longrightarrow> spans_from (length s) pos (finditer r s pos must)"
proof (induction r s pos must rule: finditer.induct)
  case (1 r s pos must)
  show ?case
  proof (cases "search_from r s pos must")
    case None
    with "1.prems" show ?thesis by (simp add: finditer.simps [of r s pos must])
  next
    case (Some m)
    then obtain i j c where m: "search_from r s pos must = Some (i, j, c)" by (cases m) auto
    from search_from_Some [OF m] "1.IH" [OF m refl refl]
    show ?thesis by (simp add: finditer.simps [of r s pos must] m)
  qed
qed

section \<open>Substitution, splitting, findall\<close>

fun weave :: "ustr \<Rightarrow> nat \<Rightarrow> (nat \<times> nat \<times> caps) list \<Rightarrow> (ustr \<Rightarrow> caps \<Rightarrow> ustr) \<Rightarrow> ustr" where
  "weave s pos [] f = drop pos s"
| "weave s pos ((i, j, c) # ms) f = slice s pos i @ f (slice s i j) c @ weave s j ms f"

definition re_sub :: "regex \<Rightarrow> (ustr \<Rightarrow> caps \<Rightarrow> ustr) \<Rightarrow> ustr \<Rightarrow> ustr" where
  "re_sub r f s = weave s 0 (finditer r s 0 False) f"

fun between :: "ustr \<Rightarrow> nat \<Rightarrow> (nat \<times> nat \<times> caps) list \<Rightarrow> ustr list" where
  "between s pos [] = [drop pos s]"
| "between s pos ((i, j, c) # ms) = slice s pos i # between s j ms"

definition re_split :: "regex \<Rightarrow> ustr \<Rightarrow> ustr list" where
  "re_split r s = between s 0 (finditer r s 0 False)"

definition group :: "caps \<Rightarrow> nat \<Rightarrow> ustr" where
  "group c n = coalesce (map_of c n) []"

text \<open>\<open>findall\<close> for a pattern with the one group 1, and for a pattern without groups.\<close>

definition findall_group :: "regex \<Rightarrow> ustr \<Rightarrow> ustr list" where
  "findall_group r s = map (\<lambda>(i, j, c). group c 1) (finditer r s 0 False)"

definition findall_whole :: "regex \<Rightarrow> ustr \<Rightarrow> ustr list" where
  "findall_whole r s = map (\<lambda>(i, j, c). slice s i j) (finditer r s 0 False)"

lemma slice_append: "i \<le> j \<Longrightarrow> slice s i j @ drop j s = drop i s"
proof -
  assume "i \<le> j"
  then have "drop j s = drop (j - i) (drop i s)" by simp
  then show ?thesis by (simp only: slice_def append_take_drop_id)
qed

text \<open>Replacing every match by itself rebuilds the string: nothing is lost between matches.\<close>

lemma weave_id: "spans_from (length s) pos ms \<Longrightarrow> weave s pos ms (\<lambda>t c. t) = drop pos s"
proof (induction ms arbitrary: pos)
  case Nil
  then show ?case by simp
next
  case (Cons m ms)
  obtain i j c where m: "m = (i, j, c)" by (cases m) auto
  with Cons have "weave s j ms (\<lambda>t c. t) = drop j s" by simp
  with Cons.prems show ?case by (simp add: m slice_append)
qed

lemma re_sub_id: "re_sub r (\<lambda>t c. t) s = s"
  by (simp add: re_sub_def weave_id finditer_spans)

lemma re_search_False_finditer: "\<not> re_search r s \<Longrightarrow> finditer r s 0 False = []"
  by (cases "search_from r s 0 False") (simp_all add: finditer.simps [of r s 0] re_search_def)

lemma re_sub_no_match: "\<not> re_search r s \<Longrightarrow> re_sub r f s = s"
  by (simp add: re_sub_def re_search_False_finditer)

lemma re_split_no_match: "\<not> re_search r s \<Longrightarrow> re_split r s = [s]"
  by (simp add: re_split_def re_search_False_finditer)

section \<open>Building patterns\<close>

definition ch :: "nat \<Rightarrow> nat \<Rightarrow> bool" where
  "ch a c \<longleftrightarrow> c = a"

definition one_of :: "nat list \<Rightarrow> nat \<Rightarrow> bool" where
  "one_of cs c \<longleftrightarrow> c \<in> set cs"

definition range :: "nat \<Rightarrow> nat \<Rightarrow> nat \<Rightarrow> bool" where
  "range a b c \<longleftrightarrow> a \<le> c \<and> c \<le> b"

text \<open>The dot matches everything but a line feed.\<close>

definition dot :: "nat \<Rightarrow> bool" where
  "dot c \<longleftrightarrow> c \<noteq> 10"

text \<open>One literal character under \<open>IGNORECASE\<close>; the pattern is written in lower case.  Besides the
  upper case letter, \<open>i\<close>, \<open>k\<close> and \<open>s\<close> match the non-ASCII code points Python documents.\<close>

definition ci :: "nat \<Rightarrow> nat \<Rightarrow> bool" where
  "ci a c \<longleftrightarrow> c = a \<or> (97 \<le> a \<and> a \<le> 122 \<and> c + 32 = a) \<or> (a = 105 \<and> (c = 304 \<or> c = 305))
     \<or> (a = 107 \<and> c = 8490) \<or> (a = 115 \<and> c = 383)"

fun seq :: "regex list \<Rightarrow> regex" where
  "seq [] = Eps"
| "seq [r] = r"
| "seq (r # r' # rs) = Seq r (seq (r' # rs))"

fun alts :: "regex list \<Rightarrow> regex" where
  "alts [] = Atom (\<lambda>_. False)"
| "alts [r] = r"
| "alts (r # r' # rs) = Alt r (alts (r' # rs))"

definition lit :: "ustr \<Rightarrow> regex" where
  "lit s = seq (map (\<lambda>a. Atom (ch a)) s)"

definition lit_ci :: "ustr \<Rightarrow> regex" where
  "lit_ci s = seq (map (\<lambda>a. Atom (ci a)) s)"

definition opt :: "regex \<Rightarrow> regex" where
  "opt r = Alt r Eps"

lemma rmatch_seq_Nil [simp]: "rmatch (seq []) s i c j c' \<longleftrightarrow> j = i \<and> c' = c"
  by auto

lemma rmatch_seq_Cons [simp]:
  "rmatch (seq (r # rs)) s i c j c' \<longleftrightarrow> (\<exists>k d. rmatch r s i c k d \<and> rmatch (seq rs) s k d j c')"
  by (cases rs) auto

lemma rmatch_alts [simp]: "rmatch (alts rs) s i c j c' \<longleftrightarrow> (\<exists>r \<in> set rs. rmatch r s i c j c')"
  by (induction rs rule: alts.induct) (auto simp: at_class_def)

lemma rmatch_lits:
  "rmatch (seq (map (\<lambda>a. Atom (P a)) l)) s i c j c' \<longleftrightarrow>
     c' = c \<and> j = i + length l \<and> (\<forall>k < length l. at_class (P (l ! k)) s (i + k))"
proof (induction l arbitrary: i)
  case Nil
  then show ?case by auto
next
  case (Cons a l)
  then show ?case by (auto simp: less_Suc_eq_0_disj nth_Cons split: nat.splits)
qed

end
