(* ===== verification/Redaction.thy ===== *)
theory Redaction
  imports PyRegex
begin

text \<open>
  \<open>app/services/redaction.py\<close>: masking of phone numbers, identity card numbers, mail addresses
  and credentials in audit details.  The record \<open>unicode\<close> carries the parts of the Unicode
  database the program relies on (case folding, lower casing, NFKC and \<open>\w\<close>); every theorem holds
  for any such functions.
\<close>

record unicode =
  casefold :: "ustr \<Rightarrow> ustr"
  lower :: "ustr \<Rightarrow> ustr"
  nfkc :: "ustr \<Rightarrow> ustr"
  is_word :: "nat \<Rightarrow> bool"

text \<open>\<open>[A-Z]\<close> under \<open>IGNORECASE\<close>.\<close>

definition letter_ci :: "nat \<Rightarrow> bool" where
  "letter_ci c \<longleftrightarrow> (65 \<le> c \<and> c \<le> 90) \<or> (97 \<le> c \<and> c \<le> 122) \<or> c = 304 \<or> c = 305 \<or> c = 383 \<or> c = 8490"

definition ascii_digit :: "nat \<Rightarrow> bool" where
  "ascii_digit c \<longleftrightarrow> 48 \<le> c \<and> c \<le> 57"

section \<open>The four patterns and their replacements\<close>

definition phone_pattern :: regex where
  "phone_pattern = seq [NotBehind is_decimal,
     Grp 1 (seq [Atom (ch 49), Atom (range 51 57), Rep 9 (Some 9) is_decimal]), NotAhead is_decimal]"

definition phone_mask :: "ustr \<Rightarrow> caps \<Rightarrow> ustr" where
  "phone_mask m c = take 3 (group c 1) @ u ''****'' @ last_n 4 (group c 1)"

definition identity_pattern :: regex where
  "identity_pattern = seq [NotBehind is_decimal, Grp 1 (Rep 6 (Some 6) is_decimal),
     Grp 2 (Rep 8 (Some 8) is_decimal),
     Grp 3 (Seq (Rep 3 (Some 3) is_decimal) (Atom (\<lambda>c. ascii_digit c \<or> c = 88 \<or> c = 120))),
     NotAhead is_decimal]"

definition identity_mask :: "ustr \<Rightarrow> caps \<Rightarrow> ustr" where
  "identity_mask m c = group c 1 @ u ''********'' @ group c 3"

definition mail_pattern :: "unicode \<Rightarrow> regex" where
  "mail_pattern U = seq [Boundary (is_word U),
     Grp 1 (Rep 1 (Some 64) (\<lambda>c. letter_ci c \<or> ascii_digit c \<or> c \<in> set (u ''._%+-''))),
     Atom (ch 64),
     Grp 2 (seq [Rep 1 None (\<lambda>c. letter_ci c \<or> ascii_digit c \<or> c \<in> set (u ''.-'')),
       Atom (ch 46), Rep 2 None letter_ci]),
     Boundary (is_word U)]"

definition mail_mask :: "ustr \<Rightarrow> caps \<Rightarrow> ustr" where
  "mail_mask m c = take 2 (group c 1) @ u ''***@'' @ group c 2"

definition credential_pattern :: "unicode \<Rightarrow> regex" where
  "credential_pattern U = seq [Boundary (is_word U),
     Grp 1 (alts [seq [lit_ci (u ''api''), opt (Atom (one_of (u ''_-''))), lit_ci (u ''key'')],
       lit_ci (u ''secret''), lit_ci (u ''password''), lit_ci (u ''token'')]),
     Rep 0 None is_space, Atom (one_of (u '':='')), Rep 0 None is_space,
     Rep 1 None (\<lambda>c. \<not> is_space c \<and> c \<notin> set (u '',;''))]"

definition credential_mask :: "ustr \<Rightarrow> caps \<Rightarrow> ustr" where
  "credential_mask m c = group c 1 @ u ''=***''"

definition PATTERNS :: "unicode \<Rightarrow> (regex \<times> (ustr \<Rightarrow> caps \<Rightarrow> ustr)) list" where
  "PATTERNS U = [(phone_pattern, phone_mask), (identity_pattern, identity_mask),
     (mail_pattern U, mail_mask), (credential_pattern U, credential_mask)]"

definition redact_text :: "unicode \<Rightarrow> ustr \<Rightarrow> ustr" where
  "redact_text U value = fold (\<lambda>(pattern, replacement) result. re_sub pattern replacement result)
     (PATTERNS U) value"

definition sensitive_key :: "unicode \<Rightarrow> string \<Rightarrow> bool" where
  "sensitive_key U key \<longleftrightarrow>
     (\<exists>t \<in> set [''password'', ''secret'', ''token'', ''api_key'']. contains (u t) (casefold U (u key)))"

fun redact_value :: "unicode \<Rightarrow> json \<Rightarrow> json" where
  "redact_value U (JStr s) = JStr (redact_text U s)"
| "redact_value U (JObj kvs) =
     JObj (map (\<lambda>(k, v). (k, if sensitive_key U k then JStr (u ''***'') else redact_value U v)) kvs)"
| "redact_value U (JList vs) = JList (map (redact_value U) vs)"
| "redact_value U v = v"

section \<open>What is kept and what is masked\<close>

lemma redact_text_clean:
  assumes "\<forall>(p, f) \<in> set (PATTERNS U). \<not> re_search p s"
  shows "redact_text U s = s"
  using assms by (simp add: redact_text_def PATTERNS_def re_sub_no_match)

text \<open>No value stored under a credential key survives, at any depth of the object.\<close>

fun leaks :: "unicode \<Rightarrow> json \<Rightarrow> bool" where
  "leaks U (JObj kvs) =
     (\<exists>(k, v) \<in> set kvs. (sensitive_key U k \<and> v \<noteq> JStr (u ''***'')) \<or> (\<not> sensitive_key U k \<and> leaks U v))"
| "leaks U (JList vs) = (\<exists>v \<in> set vs. leaks U v)"
| "leaks U _ = False"

lemma redact_value_no_leak: "\<not> leaks U (redact_value U v)"
  by (induction U v rule: redact_value.induct) (auto split: if_splits)

lemma redact_value_keys: "redact_value U (JObj kvs) = JObj kvs' \<Longrightarrow> map fst kvs' = map fst kvs"
  by (auto simp: case_prod_beta)

end
