(* ===== verification/Models.thy ===== *)
theory Models
  imports Redaction Complex_Main
begin

text \<open>
  \<open>app/models.py\<close>: the enums and tables, one record per table with the columns of the source,
  and \<open>sys\<close>, the state the handlers and tasks act on: the tables as lists of rows in insertion
  order, the objects of the storage bucket, the messages of the Celery broker, the notifications
  published on Redis and the knowledge bases whose semantic caches were invalidated.
  A \<open>datetime\<close> is an integer count of microseconds.  Identifiers, enum values and object keys are
  ASCII strings; text the user wrote is a list of code points.
\<close>

section \<open>Enums\<close>

datatype workspace_role = Owner | Admin | Editor | Viewer | Auditor

datatype doc_status = Uploaded | Queued | Parsing | Chunking | Embedding | Indexing | Ready
  | Retrying | Failed | Cancelled | Deleting | Deleted

datatype outbox_status = OPending | OPublishing | OSent | OFailed

datatype dead_letter_status = LPending | LReplayed | LDiscarded

fun status_value :: "doc_status \<Rightarrow> string" where
  "status_value Uploaded = ''uploaded''"
| "status_value Queued = ''queued''"
| "status_value Parsing = ''parsing''"
| "status_value Chunking = ''chunking''"
| "status_value Embedding = ''embedding''"
| "status_value Indexing = ''indexing''"
| "status_value Ready = ''ready''"
| "status_value Retrying = ''retrying''"
| "status_value Failed = ''failed''"
| "status_value Cancelled = ''cancelled''"
| "status_value Deleting = ''deleting''"
| "status_value Deleted = ''deleted''"

fun role_value :: "workspace_role \<Rightarrow> string" where
  "role_value Owner = ''owner''"
| "role_value Admin = ''admin''"
| "role_value Editor = ''editor''"
| "role_value Viewer = ''viewer''"
| "role_value Auditor = ''auditor''"

lemma status_value_inject [simp]: "status_value a = status_value b \<longleftrightarrow> a = b"
  by (cases a; cases b) simp_all

section \<open>Time\<close>

type_synonym datetime = int

definition seconds :: "int \<Rightarrow> int" where
  "seconds n = n * 1000000"

lemma seconds_mono: "a \<le> b \<Longrightarrow> seconds a \<le> seconds b"
  by (simp add: seconds_def)

section \<open>Identity and tenancy\<close>

record user =
  u_id :: string
  u_username :: ustr
  u_phone :: "ustr option"
  u_password_hash :: string
  u_created :: datetime

record api_key =
  ak_id :: string
  ak_owner :: string
  ak_name :: ustr
  ak_prefix :: string
  ak_secret_hash :: string
  ak_expires :: "datetime option"
  ak_revoked :: "datetime option"
  ak_last_used :: "datetime option"
  ak_created :: datetime

record organization =
  g_id :: string
  g_name :: ustr
  g_created_by :: string
  g_created :: datetime

record workspace =
  w_id :: string
  w_org :: string
  w_name :: ustr
  w_created :: datetime

record membership =
  m_id :: string
  m_ws :: string
  m_user :: string
  m_role :: workspace_role
  m_created :: datetime

record knowledge_base =
  k_id :: string
  k_owner :: string
  k_ws :: string
  k_name :: ustr
  k_desc :: ustr
  k_created :: datetime

section \<open>Documents and chunks\<close>

record document =
  d_id :: string
  d_owner :: string
  d_kb :: string
  d_filename :: ustr
  d_object_key :: string
  d_hash :: string
  d_mime :: "string option"
  d_size :: int
  d_status :: doc_status
  d_stage :: string
  d_error :: "ustr option"
  d_retry :: nat
  d_token :: "string option"
  d_worker :: "string option"
  d_started :: "datetime option"
  d_finished :: "datetime option"
  d_heartbeat :: "datetime option"
  d_chunk_count :: nat
  d_active :: "nat option"
  d_target :: "nat option"
  d_embedding_model :: "string option"
  d_chunk_strategy :: string
  d_config_hash :: "string option"
  d_fingerprint :: "string option"
  d_source_type :: string
  d_source_url :: "ustr option"
  d_source_metadata :: json
  d_department :: "ustr option"
  d_tags :: "ustr list"
  d_language :: "string option"
  d_embedding_dim :: "nat option"
  d_quarantined :: bool
  d_created :: datetime
  d_updated :: datetime

type_synonym vec = "rat list"

record chunk =
  c_id :: string
  c_doc :: string
  c_owner :: string
  c_kb :: string
  c_version :: nat
  c_seq :: nat
  c_parent_seq :: nat
  c_page :: "nat option"
  c_ws :: "string option"
  c_section :: "ustr option"
  c_content_type :: string
  c_source_url :: "ustr option"
  c_token_count :: nat
  c_metadata :: json
  c_created :: datetime
  c_content :: ustr
  c_parent_content :: "ustr option"
  c_tokens :: ustr
  c_embedding :: vec

section \<open>Asynchronous work\<close>

record outbox_event =
  o_id :: string
  o_type :: string
  o_agg_type :: string
  o_agg_id :: string
  o_payload :: json
  o_dedup :: string
  o_status :: outbox_status
  o_retry :: nat
  o_next :: datetime
  o_last_error :: "ustr option"
  o_created :: datetime
  o_last_attempt :: "datetime option"
  o_sent :: "datetime option"

record dead_letter =
  l_id :: string
  l_source :: string
  l_task :: string
  l_doc :: "string option"
  l_kb :: "string option"
  l_ws :: "string option"
  l_payload :: json
  l_error :: "ustr option"
  l_stage :: "string option"
  l_retry :: nat
  l_status :: dead_letter_status
  l_created :: datetime
  l_resolved :: "datetime option"
  l_resolved_by :: "string option"

record audit_log =
  a_id :: string
  a_org :: "string option"
  a_ws :: "string option"
  a_actor :: "string option"
  a_action :: string
  a_resource_type :: string
  a_resource_id :: "string option"
  a_outcome :: string
  a_ip :: "string option"
  a_request_id :: "string option"
  a_trace_id :: "string option"
  a_before :: "json option"
  a_after :: "json option"
  a_created :: datetime
  a_chain_seq :: "nat option"
  a_prev_hash :: "string option"
  a_entry_hash :: "string option"

record graph_entity =
  e_id :: string
  e_ws :: string
  e_kb :: string
  e_doc :: string
  e_name :: ustr
  e_normalized :: ustr
  e_type :: string
  e_chunk :: "string option"

record graph_relation =
  r_id :: string
  r_ws :: string
  r_kb :: string
  r_source :: string
  r_target :: string
  r_type :: string
  r_chunk :: "string option"
  r_weight :: nat

section \<open>Conversations, usage and feedback\<close>

record conversation =
  v_id :: string
  v_owner :: string
  v_kb :: "string option"
  v_title :: ustr
  v_summary :: "ustr option"
  v_summary_upto :: nat
  v_created :: datetime

datatype chat_role = SystemRole | UserRole | AssistantRole

record message =
  x_id :: string
  x_conversation :: string
  x_role :: chat_role
  x_content :: ustr
  x_sources :: "json option"
  x_created :: datetime

record usage_record =
  y_id :: string
  y_owner :: string
  y_conversation :: "string option"
  y_model :: string
  y_prompt_tokens :: nat
  y_completion_tokens :: nat
  y_first_token_ms :: nat
  y_total_ms :: nat
  y_cost :: int
  y_created :: datetime

record answer_feedback =
  b_id :: string
  b_owner :: string
  b_conversation :: string
  b_message :: "string option"
  b_rating :: int
  b_reason :: "ustr option"
  b_comment :: "ustr option"
  b_created :: datetime

section \<open>Messages of the broker and the whole state\<close>

datatype task = IngestTask (task_doc: string) (task_retries: nat)
  | DeleteTask (task_payload: json) (task_retries: nat)

record sys =
  users :: "user list"
  api_keys :: "api_key list"
  orgs :: "organization list"
  workspaces :: "workspace list"
  memberships :: "membership list"
  kbs :: "knowledge_base list"
  docs :: "document list"
  chunks :: "chunk list"
  outbox :: "outbox_event list"
  dead :: "dead_letter list"
  audits :: "audit_log list"
  entities :: "graph_entity list"
  relations :: "graph_relation list"
  conversations :: "conversation list"
  messages :: "message list"
  usage :: "usage_record list"
  feedback :: "answer_feedback list"
  objects :: "(string \<times> datetime) list"
  broker :: "task list"
  published :: "(string \<times> json) list"
  invalidated :: "string list"

text \<open>\<open>db.get\<close> by primary key.\<close>

definition get_doc :: "sys \<Rightarrow> string \<Rightarrow> document option" where
  "get_doc s i = find_row (\<lambda>d. d_id d = i) (docs s)"

definition get_kb :: "sys \<Rightarrow> string \<Rightarrow> knowledge_base option" where
  "get_kb s i = find_row (\<lambda>k. k_id k = i) (kbs s)"

definition get_workspace :: "sys \<Rightarrow> string \<Rightarrow> workspace option" where
  "get_workspace s i = find_row (\<lambda>w. w_id w = i) (workspaces s)"

definition get_event :: "sys \<Rightarrow> string \<Rightarrow> outbox_event option" where
  "get_event s i = find_row (\<lambda>e. o_id e = i) (outbox s)"

definition get_letter :: "sys \<Rightarrow> string \<Rightarrow> dead_letter option" where
  "get_letter s i = find_row (\<lambda>l. l_id l = i) (dead s)"

text \<open>\<open>UPDATE documents SET .. WHERE ..\<close> and the like.\<close>

definition upd_docs :: "(document \<Rightarrow> bool) \<Rightarrow> (document \<Rightarrow> document) \<Rightarrow> sys \<Rightarrow> sys" where
  "upd_docs P f s = s\<lparr>docs := update_where P f (docs s)\<rparr>"

definition upd_doc :: "string \<Rightarrow> (document \<Rightarrow> document) \<Rightarrow> sys \<Rightarrow> sys" where
  "upd_doc i f = upd_docs (\<lambda>d. d_id d = i) f"

definition add_event :: "outbox_event \<Rightarrow> sys \<Rightarrow> sys" where
  "add_event e s = s\<lparr>outbox := outbox s @ [e]\<rparr>"

definition new_event :: "string \<Rightarrow> string \<Rightarrow> string \<Rightarrow> string \<Rightarrow> json \<Rightarrow> string \<Rightarrow> datetime \<Rightarrow> outbox_event" where
  "new_event i typ agg_type agg_id payload dkey t =
     \<lparr>o_id = i, o_type = typ, o_agg_type = agg_type, o_agg_id = agg_id, o_payload = payload,
      o_dedup = dkey, o_status = OPending, o_retry = 0, o_next = t, o_last_error = None,
      o_created = t, o_last_attempt = None, o_sent = None\<rparr>"

section \<open>Requests\<close>

text \<open>What a handler reads from outside the database: the time, the request's address and
  identifiers, the setting \<open>pii_redaction_enabled\<close>, the Unicode functions, the identifiers
  \<open>uuid4\<close> returns during the request, SHA-256, the trace carrier and the printing of a time.  An HTTP answer is the status code of an error or a value.\<close>

record request =
  rq_client :: "string option"
  rq_state_id :: "string option"
  rq_header_id :: "string option"

record ctx =
  now :: datetime
  req :: request
  trace_id :: "string option"
  pii_redaction :: bool
  uni :: unicode
  fresh :: "nat \<Rightarrow> string"
  sha256 :: "nat list \<Rightarrow> string"
  carrier :: json
  show_time :: "datetime \<Rightarrow> string"

type_synonym 'a http = "nat + 'a"

text \<open>The settings the modelled operations read (\<open>app/config.py\<close>).\<close>

record settings =
  max_upload_mb :: nat
  workspace_storage_quota_mb :: nat
  allowed_mime_types :: ustr
  outbox_batch_size :: nat
  outbox_max_retries :: nat
  outbox_base_retry_seconds :: nat
  orphan_object_grace_seconds :: int
  audit_retention_days :: int
  audit_archive_before_purge :: bool
  ingestion_embed_batch_size :: int
  resource_delete_max_retries :: nat
  chunk_strategy :: string
  chunk_size :: int
  chunk_overlap :: int
  embedding_model :: string
  embedding_dim :: nat
  graph_retrieval_enabled :: bool
  injection_quarantine_enabled :: bool
  injection_quarantine_ratio :: rat
  injection_llm_check_enabled :: bool
  prompt_injection_detection_enabled :: bool
  llm_api_key :: string

section \<open>Parsed text\<close>

text \<open>\<open>ParsedSegment\<close> of \<open>services/parser.py\<close> and \<open>StructuredChunk\<close> of \<open>services/chunker.py\<close>.\<close>

record segment =
  sg_text :: ustr
  sg_page :: "nat option"
  sg_section :: "ustr option"
  sg_content_type :: string
  sg_source_url :: "ustr option"

record piece =
  p_content :: ustr
  p_parent_content :: ustr
  p_parent_seq :: nat
  p_page :: "nat option"
  p_section :: "ustr option"
  p_content_type :: string
  p_source_url :: "ustr option"

lemma upd_docs_simps [simp, frame_simps]:
  "users (upd_docs P f s) = users s" "memberships (upd_docs P f s) = memberships s"
  "kbs (upd_docs P f s) = kbs s" "workspaces (upd_docs P f s) = workspaces s"
  "docs (upd_docs P f s) = update_where P f (docs s)" "chunks (upd_docs P f s) = chunks s"
  "outbox (upd_docs P f s) = outbox s" "dead (upd_docs P f s) = dead s"
  "audits (upd_docs P f s) = audits s" "objects (upd_docs P f s) = objects s"
  "broker (upd_docs P f s) = broker s" "published (upd_docs P f s) = published s"
  "invalidated (upd_docs P f s) = invalidated s" "entities (upd_docs P f s) = entities s"
  "relations (upd_docs P f s) = relations s"
  by (simp_all add: upd_docs_def)

lemma upd_doc_simps [simp, frame_simps]:
  "users (upd_doc i f s) = users s" "memberships (upd_doc i f s) = memberships s"
  "kbs (upd_doc i f s) = kbs s" "workspaces (upd_doc i f s) = workspaces s"
  "docs (upd_doc i f s) = update_where (\<lambda>d. d_id d = i) f (docs s)" "chunks (upd_doc i f s) = chunks s"
  "outbox (upd_doc i f s) = outbox s" "dead (upd_doc i f s) = dead s"
  "audits (upd_doc i f s) = audits s" "objects (upd_doc i f s) = objects s"
  "broker (upd_doc i f s) = broker s" "published (upd_doc i f s) = published s"
  "invalidated (upd_doc i f s) = invalidated s" "entities (upd_doc i f s) = entities s"
  "relations (upd_doc i f s) = relations s"
  by (simp_all add: upd_doc_def)

lemma add_event_simps [simp, frame_simps]:
  "users (add_event e s) = users s" "memberships (add_event e s) = memberships s"
  "kbs (add_event e s) = kbs s" "workspaces (add_event e s) = workspaces s"
  "docs (add_event e s) = docs s" "chunks (add_event e s) = chunks s"
  "outbox (add_event e s) = outbox s @ [e]" "dead (add_event e s) = dead s"
  "audits (add_event e s) = audits s" "objects (add_event e s) = objects s"
  "broker (add_event e s) = broker s" "published (add_event e s) = published s"
  "invalidated (add_event e s) = invalidated s" "entities (add_event e s) = entities s"
  "relations (add_event e s) = relations s"
  by (simp_all add: add_event_def)

lemma get_doc_Some: "get_doc s i = Some d \<Longrightarrow> d \<in> set (docs s) \<and> d_id d = i"
  by (auto simp: get_doc_def dest: find_row_Some)

lemma get_kb_Some: "get_kb s i = Some k \<Longrightarrow> k \<in> set (kbs s) \<and> k_id k = i"
  by (auto simp: get_kb_def dest: find_row_Some)

lemma get_letter_Some: "get_letter s i = Some l \<Longrightarrow> l \<in> set (dead s) \<and> l_id l = i"
  by (auto simp: get_letter_def dest: find_row_Some)

lemma get_event_Some: "get_event s i = Some e \<Longrightarrow> e \<in> set (outbox s) \<and> o_id e = i"
  by (auto simp: get_event_def dest: find_row_Some)

end
