(* ===== verification/Access.thy ===== *)
theory Access
  imports Models
begin

text \<open>
  Who may do what: \<open>app/services/audit.py\<close>, \<open>app/services/permissions.py\<close>,
  \<open>app/routers/tenancy.py\<close> and the creation and listing of knowledge bases in
  \<open>app/routers/kb.py\<close>.  A handler is a function of the request context, its arguments and the
  state; it answers an HTTP error, and then the transaction is rolled back and nothing changes, or
  the new state and the response.  The lemmas show that permission checks admit exactly the members
  with an allowed role, that owners cannot be removed, demoted or forged, and that each change
  appends one masked audit row.
\<close>

section \<open>Audit events\<close>

record audit_args =
  ae_action :: string
  ae_resource_type :: string
  ae_actor :: "string option"
  ae_ws :: "string option"
  ae_org :: "string option"
  ae_resource :: "string option"
  ae_request :: "request option"
  ae_outcome :: string
  ae_before :: "json option"
  ae_after :: "json option"

definition audit_event :: "string \<Rightarrow> string \<Rightarrow> string option \<Rightarrow> audit_args" where
  "audit_event action rtype actor = \<lparr>ae_action = action, ae_resource_type = rtype, ae_actor = actor,
     ae_ws = None, ae_org = None, ae_resource = None, ae_request = None, ae_outcome = ''success'',
     ae_before = None, ae_after = None\<rparr>"

text \<open>\<open>a or b\<close> on optional strings: the empty string is false.\<close>

definition str_or :: "string option \<Rightarrow> string option \<Rightarrow> string option" where
  "str_or a b = (if a = None \<or> a = Some [] then b else a)"

definition mask :: "ctx \<Rightarrow> json option \<Rightarrow> json option" where
  "mask c v = (if pii_redaction c then map_option (redact_value (uni c)) v else v)"

definition audit_row :: "ctx \<Rightarrow> nat \<Rightarrow> audit_args \<Rightarrow> audit_log" where
  "audit_row c i e = \<lparr>a_id = fresh c i, a_org = ae_org e, a_ws = ae_ws e, a_actor = ae_actor e,
     a_action = ae_action e, a_resource_type = ae_resource_type e, a_resource_id = ae_resource e,
     a_outcome = ae_outcome e,
     a_ip = Option.bind (ae_request e) rq_client,
     a_request_id = Option.bind (ae_request e) (\<lambda>r. str_or (rq_state_id r) (rq_header_id r)),
     a_trace_id = trace_id c, a_before = mask c (ae_before e), a_after = mask c (ae_after e),
     a_created = now c, a_chain_seq = None, a_prev_hash = None, a_entry_hash = None\<rparr>"

definition add_audit_event :: "ctx \<Rightarrow> nat \<Rightarrow> audit_args \<Rightarrow> sys \<Rightarrow> sys" where
  "add_audit_event c i e s = s\<lparr>audits := audits s @ [audit_row c i e]\<rparr>"

lemma add_audit_event_simps [simp, frame_simps]:
  "users (add_audit_event c i e s) = users s" "workspaces (add_audit_event c i e s) = workspaces s"
  "memberships (add_audit_event c i e s) = memberships s" "orgs (add_audit_event c i e s) = orgs s"
  "kbs (add_audit_event c i e s) = kbs s" "docs (add_audit_event c i e s) = docs s"
  "chunks (add_audit_event c i e s) = chunks s" "outbox (add_audit_event c i e s) = outbox s"
  "dead (add_audit_event c i e s) = dead s" "objects (add_audit_event c i e s) = objects s"
  "broker (add_audit_event c i e s) = broker s" "published (add_audit_event c i e s) = published s"
  "invalidated (add_audit_event c i e s) = invalidated s"
  "entities (add_audit_event c i e s) = entities s" "relations (add_audit_event c i e s) = relations s"
  "audits (add_audit_event c i e s) = audits s @ [audit_row c i e]"
  by (simp_all add: add_audit_event_def)

text \<open>With redaction on, a stored audit row shows no value under a credential key.\<close>

definition row_clean :: "unicode \<Rightarrow> audit_log \<Rightarrow> bool" where
  "row_clean U a \<longleftrightarrow> (\<forall>v. a_before a = Some v \<or> a_after a = Some v \<longrightarrow> \<not> leaks U v)"

lemma audit_row_clean: "pii_redaction c \<Longrightarrow> row_clean (uni c) (audit_row c i e)"
  by (auto simp: row_clean_def audit_row_def mask_def redact_value_no_leak)

section \<open>Permissions\<close>

definition READ_ROLES :: "workspace_role list" where
  "READ_ROLES = [Owner, Admin, Editor, Viewer, Auditor]"

definition QUERY_ROLES :: "workspace_role list" where
  "QUERY_ROLES = [Owner, Admin, Editor, Viewer]"

definition WRITE_ROLES :: "workspace_role list" where
  "WRITE_ROLES = [Owner, Admin, Editor]"

definition ADMIN_ROLES :: "workspace_role list" where
  "ADMIN_ROLES = [Owner, Admin]"

definition AUDIT_ROLES :: "workspace_role list" where
  "AUDIT_ROLES = [Owner, Admin, Auditor]"

datatype permission = PRead | PQuery | PWrite | PDelete | PAdmin | PAudit

fun PERMISSION_ROLES :: "permission \<Rightarrow> workspace_role list" where
  "PERMISSION_ROLES PRead = READ_ROLES"
| "PERMISSION_ROLES PQuery = QUERY_ROLES"
| "PERMISSION_ROLES PWrite = WRITE_ROLES"
| "PERMISSION_ROLES PDelete = ADMIN_ROLES"
| "PERMISSION_ROLES PAdmin = ADMIN_ROLES"
| "PERMISSION_ROLES PAudit = AUDIT_ROLES"

lemmas role_sets = READ_ROLES_def QUERY_ROLES_def WRITE_ROLES_def ADMIN_ROLES_def AUDIT_ROLES_def

text \<open>The join with \<open>workspace_memberships\<close> of the two queries.\<close>

definition member_with :: "sys \<Rightarrow> string \<Rightarrow> string \<Rightarrow> workspace_role list \<Rightarrow> membership option" where
  "member_with s ws uid roles =
     find_row (\<lambda>m. m_ws m = ws \<and> m_user m = uid \<and> m_role m \<in> set roles) (memberships s)"

definition get_kb_with_permission :: "sys \<Rightarrow> string \<Rightarrow> string \<Rightarrow> permission \<Rightarrow> knowledge_base http" where
  "get_kb_with_permission s kb_id user_id permission =
     (case get_kb s kb_id of None \<Rightarrow> Inl 404
      | Some kb \<Rightarrow> (case member_with s (k_ws kb) user_id (PERMISSION_ROLES permission) of
           None \<Rightarrow> Inl 404 | Some _ \<Rightarrow> Inr kb))"

definition get_document_with_permission :: "sys \<Rightarrow> string \<Rightarrow> string \<Rightarrow> permission \<Rightarrow> document http" where
  "get_document_with_permission s document_id user_id permission =
     (case get_doc s document_id of None \<Rightarrow> Inl 404
      | Some d \<Rightarrow> (case get_kb s (d_kb d) of None \<Rightarrow> Inl 404
          | Some kb \<Rightarrow> (case member_with s (k_ws kb) user_id (PERMISSION_ROLES permission) of
               None \<Rightarrow> Inl 404 | Some _ \<Rightarrow> Inr d)))"

lemma member_with_Some:
  "member_with s ws uid roles = Some m \<Longrightarrow>
     m \<in> set (memberships s) \<and> m_ws m = ws \<and> m_user m = uid \<and> m_role m \<in> set roles"
  by (auto simp: member_with_def dest: find_row_Some)

lemma member_with_None:
  "member_with s ws uid roles = None \<longleftrightarrow>
     (\<forall>m \<in> set (memberships s). m_ws m = ws \<and> m_user m = uid \<longrightarrow> m_role m \<notin> set roles)"
  by (auto simp: member_with_def find_row_None)

lemma member_with_iff:
  "(\<exists>m. member_with s ws uid roles = Some m) \<longleftrightarrow>
     (\<exists>m \<in> set (memberships s). m_ws m = ws \<and> m_user m = uid \<and> m_role m \<in> set roles)"
  using member_with_None [of s ws uid roles] by (cases "member_with s ws uid roles") auto

lemma get_kb_with_permission_iff:
  "get_kb_with_permission s i uid p = Inr kb \<longleftrightarrow>
     get_kb s i = Some kb \<and> (\<exists>m \<in> set (memberships s). m_ws m = k_ws kb \<and> m_user m = uid \<and>
       m_role m \<in> set (PERMISSION_ROLES p))"
  unfolding get_kb_with_permission_def using member_with_iff [of s "k_ws kb" uid "PERMISSION_ROLES p"]
  by (auto split: option.splits)

lemma get_document_with_permission_iff:
  "get_document_with_permission s i uid p = Inr d \<longleftrightarrow>
     get_doc s i = Some d \<and> (\<exists>kb. get_kb_with_permission s (d_kb d) uid p = Inr kb)"
  unfolding get_document_with_permission_def get_kb_with_permission_def
  by (auto split: option.splits)

text \<open>The permissions are ordered: who may delete may write, who may write may query, and so on.\<close>

lemma permission_chain:
  "set (PERMISSION_ROLES PDelete) \<subseteq> set (PERMISSION_ROLES PWrite)"
  "set (PERMISSION_ROLES PWrite) \<subseteq> set (PERMISSION_ROLES PQuery)"
  "set (PERMISSION_ROLES PQuery) \<subseteq> set (PERMISSION_ROLES PRead)"
  "set (PERMISSION_ROLES PAudit) \<subseteq> set (PERMISSION_ROLES PRead)"
  by (auto simp: role_sets)

section \<open>Organisations and workspaces\<close>

definition membership_of :: "sys \<Rightarrow> string \<Rightarrow> string \<Rightarrow> workspace_role list \<Rightarrow> membership http" where
  "membership_of s workspace_id user_id roles =
     (case member_with s workspace_id user_id roles of None \<Rightarrow> Inl 404 | Some m \<Rightarrow> Inr m)"

definition create_organization :: "ctx \<Rightarrow> string \<Rightarrow> ustr \<Rightarrow> sys \<Rightarrow> (sys \<times> organization) http" where
  "create_organization c user_id name s =
     (if length name < 1 \<or> 128 < length name then Inl 422
      else
        let organization = \<lparr>g_id = fresh c 0, g_name = name, g_created_by = user_id, g_created = now c\<rparr>;
            workspace = \<lparr>w_id = fresh c 1, w_org = fresh c 0, w_name = u ''Default'', w_created = now c\<rparr>;
            membership = \<lparr>m_id = fresh c 2, m_ws = fresh c 1, m_user = user_id, m_role = Owner,
                          m_created = now c\<rparr>;
            s1 = s\<lparr>orgs := orgs s @ [organization], workspaces := workspaces s @ [workspace],
                   memberships := memberships s @ [membership]\<rparr>;
            event = (audit_event ''organization.create'' ''organization'' (Some user_id))
              \<lparr>ae_resource := Some (fresh c 0), ae_org := Some (fresh c 0), ae_ws := Some (fresh c 1),
               ae_request := Some (req c), ae_after := Some (JObj [(''name'', JStr name)])\<rparr>
        in Inr (add_audit_event c 3 event s1, organization))"

definition list_organizations :: "sys \<Rightarrow> string \<Rightarrow> organization list" where
  "list_organizations s user_id = sort_key g_created
     (filter (\<lambda>g. \<exists>w \<in> set (workspaces s). w_org w = g_id g \<and>
        (\<exists>m \<in> set (memberships s). m_ws m = w_id w \<and> m_user m = user_id)) (orgs s))"

definition create_workspace ::
  "ctx \<Rightarrow> string \<Rightarrow> string \<Rightarrow> ustr \<Rightarrow> sys \<Rightarrow> (sys \<times> workspace \<times> workspace_role) http" where
  "create_workspace c user_id organization_id name s =
     (if length name < 1 \<or> 128 < length name then Inl 422
      else if \<not> (\<exists>m \<in> set (memberships s). \<exists>w \<in> set (workspaces s). w_id w = m_ws m \<and>
            w_org w = organization_id \<and> m_user m = user_id \<and> m_role m \<in> set ADMIN_ROLES) then Inl 404
      else if \<exists>w \<in> set (workspaces s). w_org w = organization_id \<and> w_name w = name then Inl 500
      else
        let workspace = \<lparr>w_id = fresh c 0, w_org = organization_id, w_name = name, w_created = now c\<rparr>;
            membership = \<lparr>m_id = fresh c 1, m_ws = fresh c 0, m_user = user_id, m_role = Owner,
                          m_created = now c\<rparr>;
            s1 = s\<lparr>workspaces := workspaces s @ [workspace],
                   memberships := memberships s @ [membership]\<rparr>;
            event = (audit_event ''workspace.create'' ''workspace'' (Some user_id))
              \<lparr>ae_resource := Some (fresh c 0), ae_ws := Some (fresh c 0),
               ae_org := Some organization_id, ae_request := Some (req c),
               ae_after := Some (JObj [(''name'', JStr name)])\<rparr>
        in Inr (add_audit_event c 2 event s1, workspace, m_role membership))"

definition list_workspaces :: "sys \<Rightarrow> string \<Rightarrow> (workspace \<times> workspace_role) list" where
  "list_workspaces s user_id = sort_key (\<lambda>(w, r). w_created w)
     [(w, m_role m). w \<leftarrow> workspaces s, m \<leftarrow> memberships s, m_ws m = w_id w \<and> m_user m = user_id]"

section \<open>Members of a workspace\<close>

definition get_user :: "sys \<Rightarrow> string \<Rightarrow> user option" where
  "get_user s i = find_row (\<lambda>x. u_id x = i) (users s)"

definition org_of :: "sys \<Rightarrow> string \<Rightarrow> string http" where
  "org_of s workspace_id =
     (case get_workspace s workspace_id of None \<Rightarrow> Inl 500 | Some w \<Rightarrow> Inr (w_org w))"

text \<open>\<open>WorkspaceRole(body.role)\<close> behind the pattern \<open>^(admin|editor|viewer|auditor)$\<close> of the
  request body; any other string is refused before the handler runs.\<close>

definition body_role :: "string \<Rightarrow> workspace_role http" where
  "body_role r = (case map_of [(role_value x, x). x \<leftarrow> [Admin, Editor, Viewer, Auditor]] r of
     None \<Rightarrow> Inl 422 | Some x \<Rightarrow> Inr x)"

lemma body_role_not_owner: "body_role r \<noteq> Inr Owner"
  by (auto simp: body_role_def split: option.splits if_splits)

definition list_members :: "sys \<Rightarrow> string \<Rightarrow> string \<Rightarrow> (membership \<times> ustr) list http" where
  "list_members s workspace_id user_id =
     (case membership_of s workspace_id user_id ADMIN_ROLES of Inl e \<Rightarrow> Inl e
      | Inr _ \<Rightarrow> Inr (sort_key (\<lambda>(m, n). m_created m)
          [(m, u_username x). m \<leftarrow> memberships s, m_ws m = workspace_id, x \<leftarrow> users s, u_id x = m_user m]))"

definition add_member ::
  "ctx \<Rightarrow> string \<Rightarrow> string \<Rightarrow> ustr \<Rightarrow> string \<Rightarrow> sys \<Rightarrow> (sys \<times> membership) http" where
  "add_member c user_id workspace_id username role s =
     (case body_role role of Inl e \<Rightarrow> Inl e | Inr new_role \<Rightarrow>
      case membership_of s workspace_id user_id ADMIN_ROLES of Inl e \<Rightarrow> Inl e | Inr actor \<Rightarrow>
      case find_row (\<lambda>x. u_username x = username) (users s) of None \<Rightarrow> Inl 404 | Some target \<Rightarrow>
      if \<exists>m \<in> set (memberships s). m_ws m = workspace_id \<and> m_user m = u_id target then Inl 409
      else case org_of s workspace_id of Inl e \<Rightarrow> Inl e | Inr org \<Rightarrow>
        let m = \<lparr>m_id = fresh c 0, m_ws = workspace_id, m_user = u_id target, m_role = new_role,
                 m_created = now c\<rparr>;
            event = (audit_event ''workspace.member.add'' ''workspace_membership'' (Some user_id))
              \<lparr>ae_resource := Some (m_id m), ae_ws := Some workspace_id, ae_org := Some org,
               ae_request := Some (req c),
               ae_after := Some (JObj [(''user_id'', JStr (u (u_id target))), (''role'', JStr (u role)),
                  (''actor_role'', JStr (u (role_value (m_role actor))))])\<rparr>
        in Inr (add_audit_event c 1 event (s\<lparr>memberships := memberships s @ [m]\<rparr>), m))"

definition member_row :: "sys \<Rightarrow> string \<Rightarrow> string \<Rightarrow> membership option" where
  "member_row s ws uid = find_row (\<lambda>m. m_ws m = ws \<and> m_user m = uid) (memberships s)"

definition update_member_role ::
  "ctx \<Rightarrow> string \<Rightarrow> string \<Rightarrow> string \<Rightarrow> string \<Rightarrow> sys \<Rightarrow> (sys \<times> workspace_role) http" where
  "update_member_role c user_id workspace_id member_user_id role s =
     (case body_role role of Inl e \<Rightarrow> Inl e | Inr new_role \<Rightarrow>
      case membership_of s workspace_id user_id ADMIN_ROLES of Inl e \<Rightarrow> Inl e | Inr actor \<Rightarrow>
      case (member_row s workspace_id member_user_id, get_user s member_user_id) of
        (Some m, Some _) \<Rightarrow>
          if m_role m = Owner then Inl 409
          else if m_role m = Admin \<and> m_role actor \<noteq> Owner then Inl 404
          else (case org_of s workspace_id of Inl e \<Rightarrow> Inl e | Inr org \<Rightarrow>
            let event = (audit_event ''workspace.member.role.update'' ''workspace_membership'' (Some user_id))
                  \<lparr>ae_resource := Some (m_id m), ae_ws := Some workspace_id, ae_org := Some org,
                   ae_request := Some (req c),
                   ae_before := Some (JObj [(''user_id'', JStr (u member_user_id)),
                      (''role'', JStr (u (role_value (m_role m))))]),
                   ae_after := Some (JObj [(''user_id'', JStr (u member_user_id)), (''role'', JStr (u role))])\<rparr>;
                s1 = s\<lparr>memberships := update_where (\<lambda>x. m_ws x = workspace_id \<and> m_user x = member_user_id)
                       (\<lambda>x. x\<lparr>m_role := new_role\<rparr>) (memberships s)\<rparr>
            in Inr (add_audit_event c 0 event s1, new_role))
      | _ \<Rightarrow> Inl 404)"

definition remove_member ::
  "ctx \<Rightarrow> string \<Rightarrow> string \<Rightarrow> string \<Rightarrow> sys \<Rightarrow> (sys \<times> unit) http" where
  "remove_member c user_id workspace_id member_user_id s =
     (case membership_of s workspace_id user_id ADMIN_ROLES of Inl e \<Rightarrow> Inl e | Inr actor \<Rightarrow>
      case member_row s workspace_id member_user_id of None \<Rightarrow> Inl 404 | Some m \<Rightarrow>
      if m_role m = Owner then Inl 404
      else if m_role m = Admin \<and> m_role actor \<noteq> Owner then Inl 404
      else case org_of s workspace_id of Inl e \<Rightarrow> Inl e | Inr org \<Rightarrow>
        let event = (audit_event ''workspace.member.remove'' ''workspace_membership'' (Some user_id))
              \<lparr>ae_resource := Some (m_id m), ae_ws := Some workspace_id, ae_org := Some org,
               ae_request := Some (req c),
               ae_before := Some (JObj [(''user_id'', JStr (u member_user_id)),
                  (''role'', JStr (u (role_value (m_role m))))])\<rparr>;
            s1 = s\<lparr>memberships := delete_where (\<lambda>x. m_ws x = workspace_id \<and> m_user x = member_user_id)
                   (memberships s)\<rparr>
        in Inr (add_audit_event c 0 event s1, ()))"

definition list_audit_logs :: "sys \<Rightarrow> string \<Rightarrow> string \<Rightarrow> int \<Rightarrow> audit_log list http" where
  "list_audit_logs s workspace_id user_id limit =
     (case membership_of s workspace_id user_id AUDIT_ROLES of Inl e \<Rightarrow> Inl e
      | Inr _ \<Rightarrow> Inr (take (nat (max 1 (min limit 500)))
          (sort_desc a_created (filter (\<lambda>a. a_ws a = Some workspace_id) (audits s)))))"

section \<open>Knowledge bases\<close>

definition create_kb ::
  "ctx \<Rightarrow> string \<Rightarrow> ustr \<Rightarrow> ustr \<Rightarrow> string option \<Rightarrow> sys \<Rightarrow> (sys \<times> knowledge_base) http" where
  "create_kb c user_id name description workspace_id s =
     (if length name < 1 \<or> 64 < length name \<or> 255 < length description then Inl 422
      else case find_row (\<lambda>m. m_user m = user_id \<and> m_role m \<in> set WRITE_ROLES \<and>
          (workspace_id \<noteq> None \<and> workspace_id \<noteq> Some [] \<longrightarrow> Some (m_ws m) = workspace_id)) (memberships s) of
        None \<Rightarrow> Inl 404
      | Some membership \<Rightarrow>
          if \<exists>k \<in> set (kbs s). k_ws k = m_ws membership \<and> k_name k = name then Inl 409
          else
            let kb = \<lparr>k_id = fresh c 0, k_owner = user_id, k_ws = m_ws membership, k_name = name,
                      k_desc = description, k_created = now c\<rparr>;
                event = (audit_event ''knowledge_base.create'' ''knowledge_base'' (Some user_id))
                  \<lparr>ae_resource := Some (k_id kb), ae_ws := Some (k_ws kb), ae_request := Some (req c),
                   ae_after := Some (JObj [(''name'', JStr name), (''description'', JStr description)])\<rparr>
            in Inr (add_audit_event c 1 event (s\<lparr>kbs := kbs s @ [kb]\<rparr>), kb))"

definition list_kbs :: "sys \<Rightarrow> string \<Rightarrow> (knowledge_base \<times> nat) list" where
  "list_kbs s user_id = sort_key (\<lambda>(k, n). k_created k)
     (map (\<lambda>k. (k, length (filter (\<lambda>d. d_kb d = k_id k) (docs s))))
       (filter (\<lambda>k. \<exists>m \<in> set (memberships s). m_ws m = k_ws k \<and> m_user m = user_id) (kbs s)))"

section \<open>Tenancy as a state machine\<close>

datatype tenancy_op = CreateOrganization ustr | CreateWorkspace string ustr
  | AddMember string ustr string | UpdateMemberRole string string string
  | RemoveMember string string | CreateKb ustr ustr "string option"

text \<open>A request of \<open>user_id\<close>: the new state, or the old one when the handler answers an error.\<close>

definition committed :: "sys \<Rightarrow> (sys \<times> 'a) http \<Rightarrow> sys" where
  "committed s r = (case r of Inl _ \<Rightarrow> s | Inr (t, _) \<Rightarrow> t)"

fun run_tenancy :: "ctx \<Rightarrow> string \<Rightarrow> tenancy_op \<Rightarrow> sys \<Rightarrow> sys" where
  "run_tenancy c uid (CreateOrganization name) s = committed s (create_organization c uid name s)"
| "run_tenancy c uid (CreateWorkspace org name) s = committed s (create_workspace c uid org name s)"
| "run_tenancy c uid (AddMember ws name role) s = committed s (add_member c uid ws name role s)"
| "run_tenancy c uid (UpdateMemberRole ws member role) s =
     committed s (update_member_role c uid ws member role s)"
| "run_tenancy c uid (RemoveMember ws member) s = committed s (remove_member c uid ws member s)"
| "run_tenancy c uid (CreateKb name desc ws) s = committed s (create_kb c uid name desc ws s)"

definition member_key :: "membership \<Rightarrow> string \<times> string" where
  "member_key m = (m_ws m, m_user m)"

text \<open>The unique constraint \<open>uq_workspace_membership\<close>, and the identifiers of the request being new.\<close>

definition unique_members :: "sys \<Rightarrow> bool" where
  "unique_members s \<longleftrightarrow> distinct (map member_key (memberships s))"

definition fresh_workspaces :: "ctx \<Rightarrow> sys \<Rightarrow> bool" where
  "fresh_workspaces c s \<longleftrightarrow> (\<forall>i. \<forall>m \<in> set (memberships s). m_ws m \<noteq> fresh c i)"

definition owner_rows :: "sys \<Rightarrow> membership list" where
  "owner_rows s = filter (\<lambda>m. m_role m = Owner) (memberships s)"

lemma filter_update_where:
  "(\<And>r. r \<in> set rows \<Longrightarrow> P r \<Longrightarrow> \<not> Q r \<and> \<not> Q (f r)) \<Longrightarrow>
     filter Q (update_where P f rows) = filter Q rows"
  by (induction rows) auto

lemma filter_delete_where:
  "(\<And>r. r \<in> set rows \<Longrightarrow> P r \<Longrightarrow> \<not> Q r) \<Longrightarrow> filter Q (delete_where P rows) = filter Q rows"
  by (induction rows) auto

lemma unique_member_row:
  assumes "unique_members s" "member_row s ws uid = Some m" "x \<in> set (memberships s)"
    "m_ws x = ws" "m_user x = uid"
  shows "x = m"
proof -
  have "m \<in> set (memberships s)" "m_ws m = ws" "m_user m = uid"
    using assms(2) by (auto simp: member_row_def dest: find_row_Some)
  with assms show ?thesis
    by (auto simp: unique_members_def member_key_def distinct_map inj_on_def)
qed

lemma unique_members_append:
  "unique_members s \<Longrightarrow> \<forall>x \<in> set (memberships s). member_key x \<noteq> member_key m \<Longrightarrow>
     memberships t = memberships s @ [m] \<Longrightarrow> unique_members t"
  by (auto simp: unique_members_def)

lemma unique_members_update:
  "unique_members s \<Longrightarrow> memberships t = update_where P (\<lambda>x. x\<lparr>m_role := r\<rparr>) (memberships s) \<Longrightarrow>
     unique_members t"
  by (simp add: unique_members_def map_update_where member_key_def)

lemma unique_members_delete:
  "unique_members s \<Longrightarrow> memberships t = delete_where P (memberships s) \<Longrightarrow> unique_members t"
  by (simp add: unique_members_def delete_where_def distinct_map_filter)

lemma create_organization_members:
  "create_organization c uid name s = Inr (t, g) \<Longrightarrow> memberships t = memberships s @
     [\<lparr>m_id = fresh c 2, m_ws = fresh c 1, m_user = uid, m_role = Owner, m_created = now c\<rparr>]"
  by (auto simp: create_organization_def Let_def split: if_splits)

lemma create_workspace_members:
  "create_workspace c uid org name s = Inr (t, y) \<Longrightarrow> memberships t = memberships s @
     [\<lparr>m_id = fresh c 1, m_ws = fresh c 0, m_user = uid, m_role = Owner, m_created = now c\<rparr>]"
  by (auto simp: create_workspace_def Let_def split: if_splits)

lemma add_member_members:
  assumes "add_member c uid ws name role s = Inr (t, m)"
  shows "memberships t = memberships s @ [m] \<and> m_role m \<noteq> Owner \<and> m_ws m = ws \<and>
     (\<forall>x \<in> set (memberships s). member_key x \<noteq> member_key m)"
  using assms body_role_not_owner [of role]
  by (auto simp: add_member_def Let_def member_key_def split: sum.splits option.splits if_splits)

lemma update_member_role_members:
  assumes "update_member_role c uid ws member role s = Inr (t, r)"
  shows "memberships t = update_where (\<lambda>x. m_ws x = ws \<and> m_user x = member) (\<lambda>x. x\<lparr>m_role := r\<rparr>) (memberships s) \<and>
     r \<noteq> Owner \<and> (\<exists>m. member_row s ws member = Some m \<and> m_role m \<noteq> Owner)"
  using assms body_role_not_owner [of role]
  by (auto simp: update_member_role_def Let_def split: sum.splits option.splits if_splits)

lemma remove_member_members:
  assumes "remove_member c uid ws member s = Inr (t, r)"
  shows "memberships t = delete_where (\<lambda>x. m_ws x = ws \<and> m_user x = member) (memberships s) \<and>
     (\<exists>m. member_row s ws member = Some m \<and> m_role m \<noteq> Owner)"
  using assms by (auto simp: remove_member_def Let_def split: sum.splits option.splits if_splits)

lemma create_kb_members: "create_kb c uid name desc ws s = Inr (t, k) \<Longrightarrow> memberships t = memberships s"
  by (auto simp: create_kb_def Let_def split: sum.splits option.splits if_splits)

text \<open>What a request may do to the memberships.\<close>

inductive member_change :: "ctx \<Rightarrow> string \<Rightarrow> sys \<Rightarrow> sys \<Rightarrow> bool" for c uid s where
  same: "memberships t = memberships s \<Longrightarrow> member_change c uid s t"
| own: "memberships t = memberships s @ [m] \<Longrightarrow> m_user m = uid \<Longrightarrow> m_ws m = fresh c i \<Longrightarrow>
    member_change c uid s t"
| invite: "memberships t = memberships s @ [m] \<Longrightarrow> m_role m \<noteq> Owner \<Longrightarrow>
    \<forall>x \<in> set (memberships s). member_key x \<noteq> member_key m \<Longrightarrow> member_change c uid s t"
| regrade: "member_row s ws member = Some m \<Longrightarrow> m_role m \<noteq> Owner \<Longrightarrow> r \<noteq> Owner \<Longrightarrow>
    memberships t = update_where (\<lambda>x. m_ws x = ws \<and> m_user x = member) (\<lambda>x. x\<lparr>m_role := r\<rparr>) (memberships s) \<Longrightarrow>
    member_change c uid s t"
| expel: "member_row s ws member = Some m \<Longrightarrow> m_role m \<noteq> Owner \<Longrightarrow>
    memberships t = delete_where (\<lambda>x. m_ws x = ws \<and> m_user x = member) (memberships s) \<Longrightarrow>
    member_change c uid s t"

lemma handlers_member_change:
  "create_organization c uid n s = Inr (t, g) \<Longrightarrow> member_change c uid s t"
  "create_workspace c uid org n s = Inr (t, w) \<Longrightarrow> member_change c uid s t"
  "add_member c uid ws n role s = Inr (t, m) \<Longrightarrow> member_change c uid s t"
  "update_member_role c uid ws member role s = Inr (t, r) \<Longrightarrow> member_change c uid s t"
  "remove_member c uid ws member s = Inr (t, y) \<Longrightarrow> member_change c uid s t"
  "create_kb c uid n d k s = Inr (t, kb) \<Longrightarrow> member_change c uid s t"
  by (auto dest!: create_organization_members create_workspace_members add_member_members
      update_member_role_members remove_member_members create_kb_members
      intro: member_change.intros)

lemma committed_rule:
  "P s \<Longrightarrow> (\<And>t y. r = Inr (t, y) \<Longrightarrow> P t) \<Longrightarrow> P (committed s r)"
  by (cases r) (auto simp: committed_def)

lemma run_tenancy_member_change: "member_change c uid s (run_tenancy c uid op s)"
  by (cases op) (simp_all only: run_tenancy.simps,
      (rule committed_rule [of "member_change c uid s"], rule same, rule refl, erule handlers_member_change)+)

lemma member_change_unique:
  assumes "member_change c uid s t" "unique_members s" "fresh_workspaces c s"
  shows "unique_members t"
  using assms(1)
proof cases
  case (own m i)
  then show ?thesis using assms(3)
    by (intro unique_members_append [OF assms(2) _ own(1)]) (auto simp: fresh_workspaces_def member_key_def)
qed (use assms(2) in \<open>auto intro: unique_members_append unique_members_update unique_members_delete
      simp: unique_members_def [of t] unique_members_def [of s] map_update_where member_key_def
        delete_where_def distinct_map_filter\<close>)

lemma member_change_owners:
  assumes "member_change c uid s t" "unique_members s"
  shows "\<exists>new. owner_rows t = owner_rows s @ new \<and>
     (\<forall>m \<in> set new. m_user m = uid \<and> (\<exists>i. m_ws m = fresh c i))"
  using assms(1)
proof cases
  case (regrade ws member m r)
  then have "owner_rows t = owner_rows s"
    using unique_member_row [OF assms(2) regrade(1)]
    by (auto simp: owner_rows_def intro!: filter_update_where)
  then show ?thesis by simp
next
  case (expel ws member m)
  then have "owner_rows t = owner_rows s"
    using unique_member_row [OF assms(2) expel(1)]
    by (auto simp: owner_rows_def intro!: filter_delete_where)
  then show ?thesis by simp
qed (auto simp: owner_rows_def)

lemma run_tenancy_unique:
  "unique_members s \<Longrightarrow> fresh_workspaces c s \<Longrightarrow> unique_members (run_tenancy c uid op s)"
  using member_change_unique run_tenancy_member_change by blast

lemma run_tenancy_owners:
  "unique_members s \<Longrightarrow> \<exists>new. owner_rows (run_tenancy c uid op s) = owner_rows s @ new \<and>
     (\<forall>m \<in> set new. m_user m = uid \<and> (\<exists>i. m_ws m = fresh c i))"
  using member_change_owners run_tenancy_member_change by blast

text \<open>Only an owner or admin changes a workspace, and an admin's row only an owner.\<close>

lemma update_member_role_actor:
  assumes "update_member_role c uid ws member role s = Inr (t, r)"
  shows "\<exists>a \<in> set (memberships s). m_ws a = ws \<and> m_user a = uid \<and> m_role a \<in> {Owner, Admin} \<and>
    (\<forall>m. member_row s ws member = Some m \<and> m_role m = Admin \<longrightarrow> m_role a = Owner)"
proof -
  obtain a where a: "member_with s ws uid ADMIN_ROLES = Some a"
      "\<forall>m. member_row s ws member = Some m \<and> m_role m = Admin \<longrightarrow> m_role a = Owner"
    using assms
    by (auto simp: update_member_role_def membership_of_def split: sum.splits option.splits if_splits)
  with member_with_Some [OF a(1)] show ?thesis by (auto simp: role_sets)
qed

lemma remove_member_actor:
  assumes "remove_member c uid ws member s = Inr (t, r)"
  shows "\<exists>a \<in> set (memberships s). m_ws a = ws \<and> m_user a = uid \<and> m_role a \<in> {Owner, Admin} \<and>
    (\<forall>m. member_row s ws member = Some m \<and> m_role m = Admin \<longrightarrow> m_role a = Owner)"
proof -
  obtain a where a: "member_with s ws uid ADMIN_ROLES = Some a"
      "\<forall>m. member_row s ws member = Some m \<and> m_role m = Admin \<longrightarrow> m_role a = Owner"
    using assms
    by (auto simp: remove_member_def membership_of_def split: sum.splits option.splits if_splits)
  with member_with_Some [OF a(1)] show ?thesis by (auto simp: role_sets)
qed

text \<open>Every request that changes the state appends exactly one audit row, by the user.\<close>

definition audited :: "ctx \<Rightarrow> string \<Rightarrow> sys \<Rightarrow> sys \<Rightarrow> bool" where
  "audited c uid s t \<longleftrightarrow> (\<exists>a. audits t = audits s @ [a] \<and> a_actor a = Some uid \<and> a_created a = now c \<and>
     a_outcome a = ''success'' \<and> (pii_redaction c \<longrightarrow> row_clean (uni c) a))"

lemma audited_add:
  "ae_actor e = Some uid \<Longrightarrow> ae_outcome e = ''success'' \<Longrightarrow> audits t = audits s \<Longrightarrow>
     audited c uid s (add_audit_event c i e t)"
  by (auto simp: audited_def audit_row_clean) (simp_all add: audit_row_def)

lemmas tenancy_handlers = create_organization_def create_workspace_def add_member_def
  update_member_role_def remove_member_def create_kb_def

lemma audited_handlers:
  "create_organization c uid n s = Inr (t, g) \<Longrightarrow> audited c uid s t"
  "create_workspace c uid org n s = Inr (t, w) \<Longrightarrow> audited c uid s t"
  "add_member c uid ws n r s = Inr (t, m) \<Longrightarrow> audited c uid s t"
  "update_member_role c uid ws member r s = Inr (t, x) \<Longrightarrow> audited c uid s t"
  "remove_member c uid ws member s = Inr (t, y) \<Longrightarrow> audited c uid s t"
  "create_kb c uid n d k s = Inr (t, kb) \<Longrightarrow> audited c uid s t"
  by (auto simp: tenancy_handlers audit_event_def Let_def intro!: audited_add
      split: sum.splits option.splits if_splits)

lemma committed_audited:
  "(\<And>t y. r = Inr (t, y) \<Longrightarrow> audited c uid s t) \<Longrightarrow> committed s r = s \<or> audited c uid s (committed s r)"
  by (cases r) (auto simp: committed_def)

lemma run_tenancy_audited:
  "run_tenancy c uid op s = s \<or> audited c uid s (run_tenancy c uid op s)"
  by (cases op) (simp_all only: run_tenancy.simps, (rule committed_audited, erule audited_handlers)+)

end
