(* ===== verification/Lifecycle.thy ===== *)
theory Lifecycle
  imports Access
begin

text \<open>
  The life of a document outside the ingestion worker: upload, replacement, metadata, reindexing,
  cancellation and deletion (\<open>app/routers/documents.py\<close>, \<open>app/services/resource_cleanup.py\<close>),
  the deletion of a knowledge base (\<open>app/routers/kb.py\<close>), and the administrators' replay,
  discard, resume and release operations (\<open>app/routers/admin.py\<close>).
  A request is one transaction.  The byte contents of files are lists of numbers below 256.
\<close>

section \<open>Changes of a document row\<close>

definition set_status :: "doc_status \<Rightarrow> document \<Rightarrow> document" where
  "set_status st d = d\<lparr>d_status := st, d_stage := status_value st\<rparr>"

definition drop_lease :: "document \<Rightarrow> document" where
  "drop_lease d = d\<lparr>d_token := None, d_worker := None\<rparr>"

definition next_version :: "document \<Rightarrow> nat" where
  "next_version d = coalesce (d_active d) 0 + 1"

text \<open>\<open>if document.target_index_version is None: ... = (active or 0) + 1\<close>\<close>

definition ensure_target :: "document \<Rightarrow> document" where
  "ensure_target d = d\<lparr>d_target := Some (coalesce (d_target d) (next_version d))\<rparr>"

text \<open>\<open>onupdate=_now\<close>\<close>

definition stamp :: "ctx \<Rightarrow> document \<Rightarrow> document" where
  "stamp c d = d\<lparr>d_updated := now c\<rparr>"

lemma doc_change_simps [simp]:
  "d_id (set_status st d) = d_id d" "d_id (drop_lease d) = d_id d" "d_id (ensure_target d) = d_id d"
  "d_id (stamp c d) = d_id d"
  "d_status (set_status st d) = st" "d_status (drop_lease d) = d_status d"
  "d_status (ensure_target d) = d_status d" "d_status (stamp c d) = d_status d"
  "d_token (set_status st d) = d_token d" "d_token (drop_lease d) = None"
  "d_token (ensure_target d) = d_token d" "d_token (stamp c d) = d_token d"
  "d_active (set_status st d) = d_active d" "d_active (drop_lease d) = d_active d"
  "d_active (ensure_target d) = d_active d" "d_active (stamp c d) = d_active d"
  "d_target (set_status st d) = d_target d" "d_target (drop_lease d) = d_target d"
  "d_target (stamp c d) = d_target d"
  "d_target (ensure_target d) = Some (coalesce (d_target d) (next_version d))"
  "next_version (set_status st d) = next_version d" "next_version (drop_lease d) = next_version d"
  "next_version (stamp c d) = next_version d"
  by (simp_all add: set_status_def drop_lease_def ensure_target_def stamp_def next_version_def)

definition ingest_event :: "ctx \<Rightarrow> string \<Rightarrow> string \<Rightarrow> json \<Rightarrow> string \<Rightarrow> outbox_event" where
  "ingest_event c i doc_id payload dkey =
     new_event i ''document.ingest.requested'' ''document'' doc_id payload dkey (now c)"

definition jid :: "string \<Rightarrow> json" where
  "jid i = JStr (u i)"

definition jopt :: "string option \<Rightarrow> json" where
  "jopt x = (case x of None \<Rightarrow> JNull | Some i \<Rightarrow> jid i)"

definition jtext :: "ustr option \<Rightarrow> json" where
  "jtext x = (case x of None \<Rightarrow> JNull | Some t \<Rightarrow> JStr t)"

section \<open>File names and contents\<close>

text \<open>\<open>Path(name).suffix\<close>: the last component of the path after dropping empty and \<open>.\<close>
  components, from its last dot, unless that dot is its first or last character.\<close>

definition path_name :: "ustr \<Rightarrow> ustr" where
  "path_name p = (case filter (\<lambda>x. x \<noteq> [] \<and> x \<noteq> u ''.'') (split_char 47 p) of
     [] \<Rightarrow> [] | xs \<Rightarrow> last xs)"

definition path_suffix :: "ustr \<Rightarrow> ustr" where
  "path_suffix p = (let n = path_name p; tail = takeWhile (\<lambda>c. c \<noteq> 46) (rev n);
      i = length n - length tail - 1
    in if 46 \<in> set n \<and> 0 < i \<and> tail \<noteq> [] then drop i n else [])"

definition SUPPORTED_EXTENSIONS :: "ustr list" where
  "SUPPORTED_EXTENSIONS = map u [''.pdf'', ''.docx'', ''.xlsx'', ''.xlsm'', ''.csv'', ''.md'', ''.txt'',
     ''.html'', ''.htm'', ''.png'', ''.jpg'', ''.jpeg'', ''.webp'', ''.tif'', ''.tiff'']"

definition image_signatures :: "(string \<times> nat list list) list" where
  "image_signatures = [(''.png'', [[137, 80, 78, 71]]), (''.jpg'', [[255, 216, 255]]),
     (''.jpeg'', [[255, 216, 255]]), (''.webp'', [u ''RIFF'']),
     (''.tif'', [[73, 73, 42, 0], [77, 77, 0, 42]]), (''.tiff'', [[73, 73, 42, 0], [77, 77, 0, 42]])]"

definition validate_magic :: "ustr \<Rightarrow> nat list \<Rightarrow> unit http" where
  "validate_magic extension header =
     (if extension = u ''.pdf'' \<and> \<not> startswith header (u ''%PDF-'') then Inl 400
      else if extension \<in> set (map u [''.docx'', ''.xlsx'', ''.xlsm'']) \<and> \<not> startswith header (u ''PK'') then Inl 400
      else (case map_of (map (\<lambda>(k, v). (u k, v)) image_signatures) extension of
          None \<Rightarrow> Inr ()
        | Some sigs \<Rightarrow> if \<exists>g \<in> set sigs. startswith header g then Inr () else Inl 400))"

text \<open>The loop that reads the body in blocks: bytes written, the first bytes, and the digest's input.\<close>

fun read_body :: "nat \<Rightarrow> nat list list \<Rightarrow> nat list \<times> nat list \<Rightarrow> (nat list \<times> nat list) http" where
  "read_body maximum [] (header, body) = Inr (header, body)"
| "read_body maximum (block # blocks) (header, body) =
     (if block = [] then Inr (header, body)
      else if length body + length block > maximum then Inl 413
      else read_body maximum blocks (if header = [] then take 16 block else header, body @ block))"

record upload =
  up_filename :: "ustr option"
  up_content_type :: "string option"
  up_blocks :: "nat list list"

definition stage_upload :: "settings \<Rightarrow> ustr \<Rightarrow> upload \<Rightarrow> nat list http" where
  "stage_upload cfg extension f =
     (case read_body (max_upload_mb cfg * 1024 * 1024) (up_blocks f) ([], []) of Inl e \<Rightarrow> Inl e
      | Inr (header, body) \<Rightarrow>
          if body = [] then Inl 400
          else (case validate_magic extension header of Inl e \<Rightarrow> Inl e | Inr _ \<Rightarrow> Inr body))"

definition mime_list :: "settings \<Rightarrow> ustr list" where
  "mime_list cfg = map strip (filter (\<lambda>v. strip v \<noteq> []) (split_char 44 (allowed_mime_types cfg)))"

definition used_bytes :: "sys \<Rightarrow> string \<Rightarrow> int" where
  "used_bytes s ws = sum_list (map d_size (filter (\<lambda>d. \<exists>k. get_kb s (d_kb d) = Some k \<and> k_ws k = ws) (docs s)))"

definition quota_bytes :: "settings \<Rightarrow> int" where
  "quota_bytes cfg = int (workspace_storage_quota_mb cfg * 1024 * 1024)"

definition put_object :: "string \<Rightarrow> datetime \<Rightarrow> sys \<Rightarrow> sys" where
  "put_object key t s = s\<lparr>objects := filter (\<lambda>(k, _). k \<noteq> key) (objects s) @ [(key, t)]\<rparr>"

definition delete_object :: "string \<Rightarrow> sys \<Rightarrow> sys" where
  "delete_object key s = s\<lparr>objects := filter (\<lambda>(k, _). k \<noteq> key) (objects s)\<rparr>"

definition object_key_for :: "knowledge_base \<Rightarrow> string \<Rightarrow> ustr \<Rightarrow> string" where
  "object_key_for kb i extension = ''workspaces/'' @ k_ws kb @ ''/knowledge-bases/'' @ k_id kb @ ''/'' @ i @
     map char_of extension"

section \<open>Documents\<close>

definition upload_document ::
  "settings \<Rightarrow> ctx \<Rightarrow> string \<Rightarrow> string \<Rightarrow> upload \<Rightarrow> bool \<Rightarrow> sys \<Rightarrow> (sys \<times> document) http" where
  "upload_document cfg c user_id kb_id f storage_ok s =
     (case get_kb_with_permission s kb_id user_id PWrite of Inl e \<Rightarrow> Inl e | Inr kb \<Rightarrow>
      let extension = lower (uni c) (path_suffix (coalesce (up_filename f) [])) in
      if extension \<notin> set SUPPORTED_EXTENSIONS then Inl 400
      else if up_content_type f \<noteq> None \<and> up_content_type f \<noteq> Some [] \<and>
          u (the (up_content_type f)) \<notin> set (mime_list cfg) then Inl 400
      else case stage_upload cfg extension f of Inl e \<Rightarrow> Inl e | Inr body \<Rightarrow>
      if used_bytes s (k_ws kb) + int (length body) > quota_bytes cfg then Inl 413
      else let content_hash = sha256 c body in
      if \<exists>d \<in> set (docs s). d_owner d = user_id \<and> d_kb d = kb_id \<and> d_hash d = content_hash then Inl 409
      else let object_key = object_key_for kb (fresh c 0) extension in
      if \<not> storage_ok then Inl 500
      else
        let filename = (case up_filename f of None \<Rightarrow> u ''document'' @ extension
              | Some n \<Rightarrow> if n = [] then u ''document'' @ extension else n);
            d = \<lparr>d_id = fresh c 1, d_owner = user_id, d_kb = kb_id, d_filename = filename,
                 d_object_key = object_key, d_hash = content_hash, d_mime = up_content_type f,
                 d_size = int (length body), d_status = Uploaded, d_stage = status_value Uploaded,
                 d_error = None, d_retry = 0, d_token = None, d_worker = None, d_started = None,
                 d_finished = None, d_heartbeat = None, d_chunk_count = 0, d_active = None,
                 d_target = None, d_embedding_model = None, d_chunk_strategy = ''recursive'',
                 d_config_hash = None, d_fingerprint = None, d_source_type = ''upload'',
                 d_source_url = None,
                 d_source_metadata = JObj [(''original_filename'', JStr (coalesce (up_filename f) []))],
                 d_department = None, d_tags = [], d_language = None, d_embedding_dim = None,
                 d_quarantined = False, d_created = now c, d_updated = now c\<rparr>;
            event = ingest_event c (fresh c 2) (d_id d)
              (JObj [(''document_id'', jid (d_id d)), (''workspace_id'', jid (k_ws kb)),
                     (''trace_context'', carrier c)])
              (''document.ingest.initial:'' @ d_id d);
            audit = (audit_event ''document.upload'' ''document'' (Some user_id))
              \<lparr>ae_resource := Some (d_id d), ae_ws := Some (k_ws kb), ae_request := Some (req c),
               ae_after := Some (JObj [(''filename'', JStr filename), (''content_hash'', jid content_hash),
                  (''size_bytes'', JInt (int (length body)))])\<rparr>;
            s1 = put_object object_key (now c) s
        in Inr (add_audit_event c 3 audit (add_event event (s1\<lparr>docs := docs s1 @ [d]\<rparr>)), d))"

definition replace_document_content ::
  "settings \<Rightarrow> ctx \<Rightarrow> string \<Rightarrow> string \<Rightarrow> upload \<Rightarrow> bool \<Rightarrow> bool \<Rightarrow> sys \<Rightarrow> (sys \<times> document) http" where
  "replace_document_content cfg c user_id document_id f storage_ok delete_ok s =
     (case get_document_with_permission s document_id user_id PWrite of Inl e \<Rightarrow> Inl e | Inr d \<Rightarrow>
      if d_status d \<in> {Deleting, Deleted} then Inl 409
      else let extension = lower (uni c) (path_suffix (coalesce (up_filename f) [])) in
      if extension \<notin> set SUPPORTED_EXTENSIONS then Inl 400
      else case stage_upload cfg extension f of Inl e \<Rightarrow> Inl e | Inr body \<Rightarrow>
      let content_hash = sha256 c body in
      if \<exists>x \<in> set (docs s). d_owner x = user_id \<and> d_kb x = d_kb d \<and> d_hash x = content_hash \<and> d_id x \<noteq> d_id d
      then Inl 409
      else case get_kb s (d_kb d) of None \<Rightarrow> Inl 500 | Some kb \<Rightarrow>
      if used_bytes s (k_ws kb) - d_size d + int (length body) > quota_bytes cfg then Inl 413
      else if \<not> storage_ok then Inl 500
      else if \<exists>x \<in> set (docs s). d_owner x = d_owner d \<and> d_kb x = d_kb d \<and> d_hash x = content_hash \<and> d_id x \<noteq> d_id d
      then Inl 500
      else
        let new_key = object_key_for kb (fresh c 0) extension;
            old_key = d_object_key d;
            filename = (case up_filename f of None \<Rightarrow> d_filename d
              | Some n \<Rightarrow> if n = [] then d_filename d else n);
            change = (\<lambda>d. stamp c (set_status Queued d\<lparr>d_filename := filename, d_object_key := new_key,
              d_hash := content_hash, d_mime := up_content_type f, d_size := int (length body),
              d_source_type := ''upload'', d_source_url := None, d_error := None,
              d_target := Some (next_version d)\<rparr>));
            event = ingest_event c (fresh c 1) (d_id d)
              (JObj [(''document_id'', jid (d_id d)), (''workspace_id'', jid (k_ws kb)),
                     (''reason'', jid ''content-update'')])
              (''document.ingest.update:'' @ d_id d @ '':'' @ fresh c 1);
            audit = (audit_event ''document.content.update'' ''document'' (Some user_id))
              \<lparr>ae_resource := Some (d_id d), ae_ws := Some (k_ws kb), ae_request := Some (req c),
               ae_before := Some (JObj [(''filename'', JStr (d_filename d)), (''content_hash'', jid (d_hash d)),
                  (''object_key'', jid old_key)]),
               ae_after := Some (JObj [(''filename'', JStr filename), (''content_hash'', jid content_hash),
                  (''object_key'', jid new_key)])\<rparr>;
            s1 = add_audit_event c 2 audit (add_event event
                   (upd_doc document_id change (put_object new_key (now c) s)));
            s2 = (if old_key \<noteq> [] \<and> old_key \<noteq> new_key \<and> delete_ok then delete_object old_key s1 else s1)
        in Inr (s2, change d))"

definition list_documents :: "sys \<Rightarrow> string \<Rightarrow> string option \<Rightarrow> document list http" where
  "list_documents s user_id kb_id =
     (let visible = (\<lambda>d. \<exists>k. get_kb s (d_kb d) = Some k \<and> member_with s (k_ws k) user_id READ_ROLES \<noteq> None)
      in case kb_id of
        Some (x # xs) \<Rightarrow> (case get_kb_with_permission s (x # xs) user_id PRead of Inl e \<Rightarrow> Inl e
          | Inr _ \<Rightarrow> Inr (sort_desc d_created (filter (\<lambda>d. visible d \<and> d_kb d = x # xs) (docs s))))
      | _ \<Rightarrow> Inr (sort_desc d_created (filter visible (docs s))))"

definition get_document :: "sys \<Rightarrow> string \<Rightarrow> string \<Rightarrow> document http" where
  "get_document s document_id user_id = get_document_with_permission s document_id user_id PRead"

definition clean_tags :: "ustr list \<Rightarrow> ustr list" where
  "clean_tags tags = dedup (map (\<lambda>t. take 64 (strip t)) (filter (\<lambda>t. strip t \<noteq> []) tags))"

definition update_document_metadata ::
  "ctx \<Rightarrow> string \<Rightarrow> string \<Rightarrow> ustr option \<Rightarrow> ustr list \<Rightarrow> ustr option \<Rightarrow> sys \<Rightarrow> (sys \<times> document) http" where
  "update_document_metadata c user_id document_id department tags source_url s =
     (if 128 < length (coalesce department []) \<or> 30 < length tags \<or> 2048 < length (coalesce source_url [])
      then Inl 422
      else case get_document_with_permission s document_id user_id PWrite of Inl e \<Rightarrow> Inl e | Inr d \<Rightarrow>
      case get_kb s (d_kb d) of None \<Rightarrow> Inl 500 | Some kb \<Rightarrow>
        let url = (case source_url of None \<Rightarrow> d_source_url d | Some x \<Rightarrow> Some x);
            change = (\<lambda>d. stamp c (d\<lparr>d_department := department, d_tags := clean_tags tags, d_source_url := url\<rparr>));
            s1 = upd_doc document_id change s;
            s2 = (if source_url = None then s1 else s1\<lparr>chunks := update_where (\<lambda>x. c_doc x = document_id)
                    (\<lambda>x. x\<lparr>c_source_url := source_url\<rparr>) (chunks s1)\<rparr>);
            detail = (\<lambda>dep tg ur. JObj [(''department'', jtext dep), (''tags'', JList (map JStr tg)),
                        (''source_url'', jtext ur)]);
            audit = (audit_event ''document.metadata.update'' ''document'' (Some user_id))
              \<lparr>ae_resource := Some (d_id d), ae_ws := Some (k_ws kb), ae_request := Some (req c),
               ae_before := Some (detail (d_department d) (d_tags d) (d_source_url d)),
               ae_after := Some (detail department (clean_tags tags) url)\<rparr>
        in Inr (add_audit_event c 0 audit s2, change d))"

definition reindex_document :: "ctx \<Rightarrow> string \<Rightarrow> string \<Rightarrow> sys \<Rightarrow> (sys \<times> document) http" where
  "reindex_document c user_id document_id s =
     (case get_document_with_permission s document_id user_id PWrite of Inl e \<Rightarrow> Inl e | Inr d \<Rightarrow>
      if d_status d \<notin> {Ready, Failed} then Inl 409
      else case get_kb s (d_kb d) of None \<Rightarrow> Inl 500 | Some kb \<Rightarrow>
        let change = (\<lambda>d. stamp c (set_status Queued d\<lparr>d_error := None, d_target := Some (next_version d)\<rparr>));
            event = ingest_event c (fresh c 0) (d_id d)
              (JObj [(''document_id'', jid (d_id d)), (''workspace_id'', jid (k_ws kb)),
                     (''reason'', jid ''manual-reindex''), (''trace_context'', carrier c)])
              (''document.ingest.reindex:'' @ d_id d @ '':'' @ fresh c 0);
            audit = (audit_event ''document.reindex'' ''document'' (Some user_id))
              \<lparr>ae_resource := Some (d_id d), ae_ws := Some (k_ws kb), ae_request := Some (req c),
               ae_before := Some (JObj [(''status'', jid (status_value (d_status d))),
                  (''index_version'', case d_active d of None \<Rightarrow> JNull | Some v \<Rightarrow> JInt (int v))]),
               ae_after := Some (JObj [(''target_index_version'', JInt (int (next_version d)))])\<rparr>
        in Inr (add_audit_event c 1 audit (add_event event (upd_doc document_id change s)), change d))"

definition cancellable :: "doc_status list" where
  "cancellable = [Uploaded, Queued, Parsing, Chunking, Embedding, Indexing, Retrying]"

definition cancel_ingestion :: "ctx \<Rightarrow> string \<Rightarrow> string \<Rightarrow> sys \<Rightarrow> (sys \<times> document) http" where
  "cancel_ingestion c user_id document_id s =
     (case get_document_with_permission s document_id user_id PWrite of Inl e \<Rightarrow> Inl e | Inr d \<Rightarrow>
      if d_status d \<notin> set cancellable then Inl 409
      else case get_kb s (d_kb d) of None \<Rightarrow> Inl 500 | Some kb \<Rightarrow>
        let change = (\<lambda>d. stamp c (drop_lease (set_status Cancelled d)\<lparr>d_error := Some (u ''cancelled by user'')\<rparr>));
            audit = (audit_event ''document.ingestion.cancel'' ''document'' (Some user_id))
              \<lparr>ae_resource := Some (d_id d), ae_ws := Some (k_ws kb), ae_request := Some (req c),
               ae_before := Some (JObj [(''status'', jid (status_value (d_status d)))]),
               ae_after := Some (JObj [(''status'', jid (status_value Cancelled))])\<rparr>
        in Inr (add_audit_event c 0 audit
             (upd_docs (\<lambda>x. d_id x = document_id \<and> d_status x \<in> set cancellable) change s), change d))"

section \<open>Deletion\<close>

definition tombstone :: "ctx \<Rightarrow> document \<Rightarrow> document" where
  "tombstone c d = stamp c (drop_lease (set_status Deleting d))"

definition delete_event :: "ctx \<Rightarrow> string \<Rightarrow> string \<Rightarrow> string \<Rightarrow> json \<Rightarrow> string \<Rightarrow> outbox_event" where
  "delete_event c i agg_type agg_id payload dkey =
     new_event i ''resource.delete.requested'' agg_type agg_id payload dkey (now c)"

text \<open>\<open>resource_cleanup.delete_document\<close>\<close>

definition delete_document_resources :: "ctx \<Rightarrow> nat \<Rightarrow> document \<Rightarrow> string \<Rightarrow> sys \<Rightarrow> sys" where
  "delete_document_resources c i d owner_id s =
     (let event_id = fresh c i;
          event = delete_event c event_id ''document'' (d_id d)
            (JObj [(''document_id'', jid (d_id d)), (''kb_id'', jid (d_kb d)),
                   (''workspace_id'', jopt (map_option k_ws (get_kb s (d_kb d)))),
                   (''object_keys'', JList [jid (d_object_key d)]), (''requested_by'', jid owner_id)])
            (''resource.delete.document:'' @ d_id d @ '':'' @ event_id);
          s1 = add_event event (upd_doc (d_id d) (tombstone c) s)
      in s1\<lparr>invalidated := invalidated s1 @ [d_kb d]\<rparr>)"

definition delete_document :: "ctx \<Rightarrow> string \<Rightarrow> string \<Rightarrow> sys \<Rightarrow> (sys \<times> unit) http" where
  "delete_document c user_id document_id s =
     (case get_document_with_permission s document_id user_id PDelete of Inl e \<Rightarrow> Inl e | Inr d \<Rightarrow>
      case get_kb s (d_kb d) of None \<Rightarrow> Inl 500 | Some kb \<Rightarrow>
        let audit = (audit_event ''document.delete'' ''document'' (Some user_id))
              \<lparr>ae_resource := Some (d_id d), ae_ws := Some (k_ws kb), ae_request := Some (req c),
               ae_before := Some (JObj [(''filename'', JStr (d_filename d)), (''content_hash'', jid (d_hash d))])\<rparr>
        in Inr (delete_document_resources c 1 d user_id (add_audit_event c 0 audit s), ()))"

text \<open>Rows removed by a foreign key \<open>ON DELETE CASCADE\<close> from a document.\<close>

definition cascade_documents :: "(document \<Rightarrow> bool) \<Rightarrow> sys \<Rightarrow> sys" where
  "cascade_documents P s =
     (let gone = map d_id (filter P (docs s));
          ents = map e_id (filter (\<lambda>e. e_doc e \<in> set gone) (entities s));
          cks = map c_id (filter (\<lambda>x. c_doc x \<in> set gone) (chunks s))
      in s\<lparr>docs := delete_where P (docs s),
           chunks := delete_where (\<lambda>x. c_doc x \<in> set gone) (chunks s),
           entities := delete_where (\<lambda>e. e_doc e \<in> set gone) (entities s),
           relations := delete_where (\<lambda>r. r_source r \<in> set ents \<or> r_target r \<in> set ents \<or>
              (case r_chunk r of None \<Rightarrow> False | Some x \<Rightarrow> x \<in> set cks)) (relations s)\<rparr>)"

text \<open>\<open>resource_cleanup.delete_knowledge_base\<close>\<close>

definition delete_knowledge_base :: "ctx \<Rightarrow> nat \<Rightarrow> knowledge_base \<Rightarrow> string \<Rightarrow> sys \<Rightarrow> sys" where
  "delete_knowledge_base c i kb owner_id s =
     (let kb_docs = filter (\<lambda>d. d_kb d = k_id kb) (docs s);
          object_keys = filter (\<lambda>k. k \<noteq> []) (map d_object_key kb_docs);
          s1 = upd_docs (\<lambda>d. d_kb d = k_id kb) (tombstone c) s;
          event_id = fresh c i;
          event = delete_event c event_id ''knowledge_base'' (k_id kb)
            (JObj [(''kb_id'', jid (k_id kb)), (''workspace_id'', jid (k_ws kb)),
                   (''object_keys'', JList (map jid object_keys)), (''requested_by'', jid owner_id)])
            (''resource.delete.kb:'' @ k_id kb @ '':'' @ event_id);
          s2 = (if object_keys = [] then s1 else add_event event s1);
          s3 = cascade_documents (\<lambda>d. d_kb d = k_id kb) s2
      in s3\<lparr>kbs := delete_where (\<lambda>k. k_id k = k_id kb) (kbs s3),
            invalidated := invalidated s3 @ [k_id kb]\<rparr>)"

definition delete_kb :: "ctx \<Rightarrow> string \<Rightarrow> string \<Rightarrow> sys \<Rightarrow> (sys \<times> unit) http" where
  "delete_kb c user_id kb_id s =
     (case get_kb_with_permission s kb_id user_id PDelete of Inl e \<Rightarrow> Inl e | Inr kb \<Rightarrow>
        let audit = (audit_event ''knowledge_base.delete'' ''knowledge_base'' (Some user_id))
              \<lparr>ae_resource := Some (k_id kb), ae_ws := Some (k_ws kb), ae_request := Some (req c),
               ae_before := Some (JObj [(''name'', JStr (k_name kb)), (''description'', JStr (k_desc kb))])\<rparr>
        in Inr (delete_knowledge_base c 1 kb user_id (add_audit_event c 0 audit s), ()))"

end
