(* ===== verification/Parser.thy ===== *)
theory Parser
  imports Lifecycle
begin

text \<open>
  \<open>app/services/parser.py\<close>: cleaning of text, page margins, tables, Markdown and CSV, and the readers of the other
  formats on what the third-party libraries find in a file (\<open>parse_env\<close>; \<open>None\<close> where such a call raises).
  Text files are given as Python reads them; NFKC and case folding are the parameters \<open>nfkc\<close> and \<open>casefold\<close>.
\<close>

record parser_settings =
  max_document_pages :: nat
  max_uncompressed_mb :: int
  max_spreadsheet_rows :: nat
  ocr_enabled :: bool
  ocr_min_text_chars :: nat
  table_extraction_enabled :: bool

section \<open>Cleaning\<close>

definition cjk_punctuation :: "nat list" where
  "cjk_punctuation = [65292, 12290, 65281, 65311, 65307, 65306, 12289, 8220, 8221, 8216, 8217, 65288, 65289, 12304, 12305, 12298, 12299]"

definition protect :: "ustr \<Rightarrow> ustr" where
  "protect t = fold (\<lambda>(i, c). replace_all [c] [57344 + i]) (enum cjk_punctuation) t"

definition unprotect :: "ustr \<Rightarrow> ustr" where
  "unprotect t = fold (\<lambda>(i, c). replace_all [57344 + i] [c]) (enum cjk_punctuation) t"

definition control_char :: "nat \<Rightarrow> bool" where
  "control_char c \<longleftrightarrow> c \<le> 8 \<or> c = 11 \<or> c = 12 \<or> (14 \<le> c \<and> c \<le> 31) \<or> c = 127"

definition boilerplate :: "unicode \<Rightarrow> regex" where
  "boilerplate U = seq [Bos, alts (map lit_ci [u ''copyright'', u ''all rights reserved'', [29256, 26435, 25152, 26377], [25195, 30721, 20851, 27880],
     [28857, 20987, 19979, 36733], [36820, 22238, 39030, 37096], u ''cookie policy'', u ''privacy policy'']), Boundary (is_word U)]"

text \<open>The text before it is cut into lines.\<close>

definition normalise_chars :: "unicode \<Rightarrow> ustr \<Rightarrow> ustr" where
  "normalise_chars U t =
     (let t = unprotect (nfkc U (protect t));
          t = filter (\<lambda>c. c \<noteq> 65279 \<and> c \<noteq> 65533) t;
          t = filter (\<lambda>c. \<not> control_char c) t;
          t = replace_all [13] [10] (replace_all [13, 10] [10] t)
      in re_sub (Rep 1 None (one_of [32, 9])) (\<lambda>m c. [32]) t)"

definition line_key :: "unicode \<Rightarrow> ustr \<Rightarrow> ustr" where
  "line_key U line = casefold U (filter (\<lambda>c. \<not> is_space c) line)"

text \<open>\<open>lines\<close> is the list built so far.\<close>

fun clean_lines :: "unicode \<Rightarrow> bool \<Rightarrow> ustr list \<Rightarrow> ustr list \<Rightarrow> ustr list \<Rightarrow> ustr list" where
  "clean_lines U deduplicate seen lines [] = lines"
| "clean_lines U deduplicate seen lines (raw # raws) =
     (let line = strip raw; key = line_key U line in
      if line = [] \<or> re_match (boilerplate U) line
      then clean_lines U deduplicate seen (if lines \<noteq> [] \<and> last lines \<noteq> [] then lines @ [[]] else lines) raws
      else if deduplicate \<and> 12 \<le> length key \<and> key \<in> set seen then clean_lines U deduplicate seen lines raws
      else clean_lines U deduplicate (if 12 \<le> length key then key # seen else seen) (lines @ [line]) raws)"

definition clean_text :: "unicode \<Rightarrow> bool \<Rightarrow> ustr \<Rightarrow> ustr" where
  "clean_text U deduplicate t =
     strip (re_sub (Rep 3 None (ch 10)) (\<lambda>m c. [10, 10])
       (ujoin [10] (clean_lines U deduplicate [] [] (splitlines (normalise_chars U t)))))"

section \<open>Page margins\<close>

definition margin_key :: "unicode \<Rightarrow> ustr \<Rightarrow> ustr" where
  "margin_key U line = casefold U (re_sub (Rep 1 None is_decimal) (\<lambda>m c. [35]) (re_sub (Rep 1 None is_space) (\<lambda>m c. [32]) line))"

definition page_lines :: "ustr \<Rightarrow> ustr list" where
  "page_lines page = filter (\<lambda>line. line \<noteq> []) (map strip (splitlines page))"

text \<open>The keys one page contributes: of its first and its last line, once if the lines are the same text.\<close>

definition margin_keys :: "unicode \<Rightarrow> ustr list \<Rightarrow> ustr list" where
  "margin_keys U lines = filter (\<lambda>k. 2 \<le> length k \<and> length k \<le> 120) (map (margin_key U) (remdups (take 1 lines @ last_n 1 lines)))"

definition repeated_key :: "unicode \<Rightarrow> ustr list list \<Rightarrow> ustr \<Rightarrow> bool" where
  "repeated_key U pages k \<longleftrightarrow> (let n = count_list (concat (map (margin_keys U) pages)) k in
     0 < n \<and> (6 :: rat) / 10 \<le> of_nat n / of_nat (length pages))"

definition remove_repeated_margins :: "unicode \<Rightarrow> ustr list \<Rightarrow> ustr list" where
  "remove_repeated_margins U pages =
     (if length pages < 3 then pages
      else let pls = map page_lines pages in
        map (\<lambda>lines. ujoin [10] (filter (\<lambda>line. \<not> repeated_key U pls (margin_key U line)) lines)) pls)"

section \<open>Tables\<close>

definition markdown_table :: "unicode \<Rightarrow> ustr list list \<Rightarrow> ustr" where
  "markdown_table U rows =
     (if rows = [] then []
      else let width = Max (set (map length rows));
               normalized = map (\<lambda>row. row @ replicate (width - length row) []) rows;
               lines = [ujoin (u '' | '') (hd normalized), ujoin (u '' | '') (replicate width (u ''---''))] @ map (ujoin (u '' | '')) (tl normalized)
        in clean_text U False (ujoin [10] lines))"

section \<open>Markdown\<close>

definition heading_pattern :: regex where
  "heading_pattern = seq [Bos, Rep 1 (Some 6) (ch 35), Rep 1 None is_space, Grp 1 (Rep 1 None dot), Eos]"

text \<open>\<open>heading.group(1)\<close> of the match at the beginning of a stripped line.\<close>

definition heading_of :: "ustr \<Rightarrow> ustr option" where
  "heading_of line = (case ends heading_pattern (strip line) 0 [] of [] \<Rightarrow> None | (j, c) # es \<Rightarrow> Some (group c 1))"

definition body_section :: ustr where "body_section = [27491, 25991]"

definition text_segment :: "ustr \<Rightarrow> ustr \<Rightarrow> segment" where
  "text_segment content sect = \<lparr>sg_text = content, sg_page = None, sg_section = Some sect, sg_content_type = ''text'', sg_source_url = None\<rparr>"

fun markdown_loop :: "unicode \<Rightarrow> ustr \<Rightarrow> ustr list \<Rightarrow> ustr list \<Rightarrow> segment list" where
  "markdown_loop U sect buffer [] = (if buffer = [] then [] else [text_segment (clean_text U True (ujoin [10] buffer)) sect])"
| "markdown_loop U sect buffer (line # lines) =
     (case heading_of line of None \<Rightarrow> markdown_loop U sect (buffer @ [line]) lines
      | Some h \<Rightarrow> (if buffer = [] then [] else [text_segment (clean_text U True (ujoin [10] buffer)) sect]) @
          markdown_loop U (clean_text U False h) [] lines)"

definition parse_markdown :: "unicode \<Rightarrow> ustr \<Rightarrow> segment list" where
  "parse_markdown U t = markdown_loop U body_section [] (splitlines t)"

section \<open>CSV\<close>

text \<open>\<open>csv.reader\<close> with its default dialect on the lines of a file opened with \<open>newline=''\<close>; \<open>None\<close> as a character is the
  end of a line, \<open>None\<close> as a result is \<open>csv.Error\<close>.\<close>

datatype csv_mode = StartRecord | StartField | InField | InQuoted | QuoteInQuoted | EatNewline

record csv_state =
  cs_mode :: csv_mode
  cs_field :: ustr
  cs_fields :: "ustr list"

definition csv_limit :: nat where "csv_limit = 131072"

definition add_char :: "nat \<Rightarrow> csv_mode \<Rightarrow> csv_state \<Rightarrow> csv_state option" where
  "add_char c mode st = (if csv_limit \<le> length (cs_field st) then None else Some (st\<lparr>cs_mode := mode, cs_field := cs_field st @ [c]\<rparr>))"

definition save_field :: "csv_mode \<Rightarrow> csv_state \<Rightarrow> csv_state" where
  "save_field mode st = st\<lparr>cs_mode := mode, cs_field := [], cs_fields := cs_fields st @ [cs_field st]\<rparr>"

definition newline_char :: "nat \<Rightarrow> bool" where "newline_char c \<longleftrightarrow> c = 10 \<or> c = 13"

definition csv_start_field :: "nat option \<Rightarrow> csv_state \<Rightarrow> csv_state option" where
  "csv_start_field x st = (case x of None \<Rightarrow> Some (save_field StartRecord st)
     | Some c \<Rightarrow> if newline_char c then Some (save_field EatNewline st)
         else if c = 34 then Some (st\<lparr>cs_mode := InQuoted\<rparr>)
         else if c = 44 then Some (save_field StartField st)
         else add_char c InField st)"

definition csv_char :: "nat option \<Rightarrow> csv_state \<Rightarrow> csv_state option" where
  "csv_char x st = (case cs_mode st of
     StartRecord \<Rightarrow> (case x of None \<Rightarrow> Some st | Some c \<Rightarrow> if newline_char c then Some (st\<lparr>cs_mode := EatNewline\<rparr>) else csv_start_field x st)
   | StartField \<Rightarrow> csv_start_field x st
   | InField \<Rightarrow> (case x of None \<Rightarrow> Some (save_field StartRecord st)
       | Some c \<Rightarrow> if newline_char c then Some (save_field EatNewline st)
           else if c = 44 then Some (save_field StartField st) else add_char c InField st)
   | InQuoted \<Rightarrow> (case x of None \<Rightarrow> Some st
       | Some c \<Rightarrow> if c = 34 then Some (st\<lparr>cs_mode := QuoteInQuoted\<rparr>) else add_char c InQuoted st)
   | QuoteInQuoted \<Rightarrow> (case x of None \<Rightarrow> Some (save_field StartRecord st)
       | Some c \<Rightarrow> if c = 34 then add_char c InQuoted st
           else if c = 44 then Some (save_field StartField st)
           else if newline_char c then Some (save_field EatNewline st) else add_char c InField st)
   | EatNewline \<Rightarrow> (case x of None \<Rightarrow> Some (st\<lparr>cs_mode := StartRecord\<rparr>) | Some c \<Rightarrow> if newline_char c then Some st else None))"

fun csv_chars :: "nat option list \<Rightarrow> csv_state \<Rightarrow> csv_state option" where
  "csv_chars [] st = Some st"
| "csv_chars (x # xs) st = (case csv_char x st of None \<Rightarrow> None | Some st1 \<Rightarrow> csv_chars xs st1)"

text \<open>The lines of the stream with their ends.\<close>

fun stream_lines :: "ustr \<Rightarrow> ustr \<Rightarrow> ustr list" where
  "stream_lines acc [] = (if acc = [] then [] else [acc])"
| "stream_lines acc [c] = [acc @ [c]]"
| "stream_lines acc (c # d # cs) =
     (if c = 13 \<and> d = 10 then (acc @ [13, 10]) # stream_lines [] cs
      else if newline_char c then (acc @ [c]) # stream_lines [] (d # cs)
      else stream_lines (acc @ [c]) (d # cs))"

definition csv_begin :: csv_state where
  "csv_begin = \<lparr>cs_mode = StartRecord, cs_field = [], cs_fields = []\<rparr>"

text \<open>At most \<open>n\<close> rows are read.\<close>

fun csv_rows :: "nat \<Rightarrow> csv_state \<Rightarrow> ustr list \<Rightarrow> ustr list list option" where
  "csv_rows 0 st lines = Some []"
| "csv_rows (Suc n) st [] = Some (if cs_field st \<noteq> [] \<or> cs_mode st = InQuoted then [cs_fields (save_field StartRecord st)] else [])"
| "csv_rows (Suc n) st (line # lines) = (case csv_chars (map Some line @ [None]) st of None \<Rightarrow> None
     | Some st1 \<Rightarrow> if cs_mode st1 = StartRecord then map_option (\<lambda>rows. cs_fields st1 # rows) (csv_rows n csv_begin lines)
         else csv_rows (Suc n) st1 lines)"

section \<open>What the libraries find in a file\<close>

text \<open>A table cell that is absent is \<open>None\<close>.\<close>

record pdf_file =
  pf_pages :: "ustr list"
  pf_tables :: "nat \<Rightarrow> ustr option list list list option"
  pf_ocr :: "nat \<Rightarrow> ustr option"

record docx_file =
  dx_sizes :: "int list option"
  dx_paragraphs :: "(ustr \<times> ustr) list"
  dx_tables :: "ustr list list list"
  dx_archive :: "(ustr \<times> ustr option) list"

record html_node =
  hn_name :: string
  hn_text :: "ustr \<Rightarrow> ustr"

record parse_env =
  pv_unicode :: unicode
  pv_pdf :: "ustr \<Rightarrow> pdf_file option"
  pv_docx :: "ustr \<Rightarrow> docx_file option"
  pv_sheets :: "ustr \<Rightarrow> (ustr \<times> ustr option list list) list option"
  pv_text :: "ustr \<Rightarrow> ustr option"
  pv_stream :: "ustr \<Rightarrow> ustr option"
  pv_html :: "ustr \<Rightarrow> ustr option \<times> html_node list"
  pv_image :: "ustr \<Rightarrow> ustr option"

datatype parse_error = UnsupportedType ustr | TooManyPages nat | DamagedArchive | ArchiveTooLarge | OcrDisabled | NoTextFound | ReaderError

type_synonym 'a parsed = "parse_error + 'a"

definition read_or :: "'a option \<Rightarrow> 'a parsed" where
  "read_or x = (case x of None \<Rightarrow> Inl ReaderError | Some y \<Rightarrow> Inr y)"

section \<open>PDF\<close>

definition pdf_tables :: "parser_settings \<Rightarrow> unicode \<Rightarrow> pdf_file \<Rightarrow> nat \<Rightarrow> ustr option" where
  "pdf_tables cfg U f i =
     (if \<not> table_extraction_enabled cfg then Some []
      else map_option (\<lambda>tables. ujoin [10, 10] (map (markdown_table U)
          (filter (list_ex (list_ex (\<lambda>cell. cell \<noteq> []))) (map (map (map (\<lambda>cell. clean_text U False (coalesce cell [])))) tables))))
        (pf_tables f i))"

definition pdf_page :: "parser_settings \<Rightarrow> unicode \<Rightarrow> pdf_file \<Rightarrow> nat \<Rightarrow> ustr \<Rightarrow> segment option" where
  "pdf_page cfg U f i page =
     (let cleaned = clean_text U True page;
          ocr = (if length cleaned < ocr_min_text_chars cfg \<and> ocr_enabled cfg
            then map_option (\<lambda>t. let o1 = clean_text U True t in if length cleaned < length o1 then o1 else cleaned) (pf_ocr f i)
            else Some cleaned)
      in case ocr of None \<Rightarrow> None | Some body \<Rightarrow>
         map_option (\<lambda>tables. \<lparr>sg_text = (if tables = [] then body else strip (body @ [10, 10] @ tables)), sg_page = Some (i + 1),
             sg_section = None, sg_content_type = ''page'', sg_source_url = None\<rparr>) (pdf_tables cfg U f i))"

definition parse_pdf :: "parser_settings \<Rightarrow> unicode \<Rightarrow> pdf_file \<Rightarrow> segment list parsed" where
  "parse_pdf cfg U f =
     (if max_document_pages cfg < length (pf_pages f) then Inl (TooManyPages (length (pf_pages f)))
      else read_or (those (map (\<lambda>(i, page). pdf_page cfg U f i page) (enum (remove_repeated_margins U (pf_pages f))))))"

section \<open>DOCX\<close>

definition is_heading_style :: "ustr \<Rightarrow> bool" where
  "is_heading_style style \<longleftrightarrow> startswith style (u ''heading'') \<or> startswith style [26631, 39064]"

definition docx_flush :: "unicode \<Rightarrow> ustr \<Rightarrow> ustr list \<Rightarrow> segment list" where
  "docx_flush U sect buffer = (let t = clean_text U True (ujoin [10, 10] buffer) in
     if buffer = [] \<or> t = [] then [] else [text_segment t sect])"

fun docx_loop :: "unicode \<Rightarrow> ustr \<Rightarrow> ustr list \<Rightarrow> (ustr \<times> ustr) list \<Rightarrow> segment list" where
  "docx_loop U sect buffer [] = docx_flush U sect buffer"
| "docx_loop U sect buffer ((para, style) # paras) =
     (let t = clean_text U False para in
      if t = [] then docx_loop U sect buffer paras
      else if is_heading_style (lower U style) then docx_flush U sect buffer @ docx_loop U t [] paras
      else docx_loop U sect (buffer @ [t]) paras)"

definition docx_table :: "unicode \<Rightarrow> nat \<Rightarrow> ustr list list \<Rightarrow> segment list" where
  "docx_table U i table = (let rendered = markdown_table U (map (map (clean_text U False)) table) in
     if rendered = [] then [] else [\<lparr>sg_text = rendered, sg_page = None, sg_section = Some ([34920, 26684, 32] @ u (show_nat (i + 1))),
       sg_content_type = ''table'', sg_source_url = None\<rparr>])"

text \<open>A picture that cannot be read is skipped.\<close>

definition docx_picture :: "unicode \<Rightarrow> nat \<Rightarrow> ustr option \<Rightarrow> segment list" where
  "docx_picture U i ocr = (case ocr of None \<Rightarrow> []
     | Some raw \<Rightarrow> let t = clean_text U True raw in
         if t = [] then [] else [\<lparr>sg_text = t, sg_page = None, sg_section = Some ([20869, 23884, 22270, 29255, 32] @ u (show_nat (i + 1))),
           sg_content_type = ''image_ocr'', sg_source_url = None\<rparr>])"

definition parse_docx :: "parser_settings \<Rightarrow> unicode \<Rightarrow> docx_file option \<Rightarrow> segment list parsed" where
  "parse_docx cfg U file = (case file of None \<Rightarrow> Inl ReaderError | Some f \<Rightarrow>
     (case dx_sizes f of None \<Rightarrow> Inl DamagedArchive
      | Some sizes \<Rightarrow> if max_uncompressed_mb cfg * 1024 * 1024 < sum_list sizes then Inl ArchiveTooLarge
          else Inr (docx_loop U body_section [] (dx_paragraphs f) @
            concat (map (\<lambda>(i, t). docx_table U i t) (enum (dx_tables f))) @
            (if ocr_enabled cfg then concat (map (\<lambda>(i, (name, ocr)). docx_picture U i ocr)
               (enum (filter (\<lambda>(name, ocr). startswith name (u ''word/media/'')) (dx_archive f)))) else []))))"

section \<open>Spreadsheets, CSV, HTML, images\<close>

text \<open>Rows that are not blank, until the limit is reached; the limit is looked at after every row.\<close>

fun sheet_rows :: "unicode \<Rightarrow> nat \<Rightarrow> ustr list list \<Rightarrow> ustr option list list \<Rightarrow> ustr list list" where
  "sheet_rows U limit rows [] = rows"
| "sheet_rows U limit rows (row # rest) =
     (let values = map (\<lambda>cell. case cell of None \<Rightarrow> [] | Some t \<Rightarrow> clean_text U False t) row;
          rows1 = (if list_ex (\<lambda>x. x \<noteq> []) values then rows @ [values] else rows)
      in if limit \<le> length rows1 then rows1 else sheet_rows U limit rows1 rest)"

definition parse_excel :: "parser_settings \<Rightarrow> unicode \<Rightarrow> (ustr \<times> ustr option list list) list \<Rightarrow> segment list" where
  "parse_excel cfg U sheets = concat (map (\<lambda>(title, rows).
     let t = markdown_table U (sheet_rows U (max_spreadsheet_rows cfg) [] rows) in
     if t = [] then [] else [\<lparr>sg_text = t, sg_page = None, sg_section = Some title, sg_content_type = ''table'', sg_source_url = None\<rparr>]) sheets)"

definition path_stem :: "ustr \<Rightarrow> ustr" where
  "path_stem p = take (length (path_name p) - length (path_suffix p)) (path_name p)"

text \<open>The loop asks for one row more than it keeps.\<close>

definition parse_csv :: "parser_settings \<Rightarrow> unicode \<Rightarrow> ustr \<Rightarrow> ustr \<Rightarrow> segment list option" where
  "parse_csv cfg U path stream = map_option (\<lambda>rows.
     [\<lparr>sg_text = markdown_table U (map (map (clean_text U False)) (take (max_spreadsheet_rows cfg) rows)), sg_page = None,
       sg_section = Some (path_stem path), sg_content_type = ''table'', sg_source_url = None\<rparr>])
     (csv_rows (Suc (max_spreadsheet_rows cfg)) csv_begin (stream_lines [] stream))"

fun html_loop :: "unicode \<Rightarrow> ustr \<Rightarrow> ustr list \<Rightarrow> html_node list \<Rightarrow> segment list" where
  "html_loop U sect buffer [] = (if buffer = [] then [] else [text_segment (clean_text U True (ujoin [10, 10] buffer)) sect])"
| "html_loop U sect buffer (node # nodes) =
     (if take 1 (hn_name node) = ''h''
      then (if buffer = [] then [] else [text_segment (clean_text U True (ujoin [10, 10] buffer)) sect]) @
        html_loop U (clean_text U False (hn_text node [32])) [] nodes
      else let t = clean_text U False (hn_text node (if hn_name node = ''table'' then u '' | '' else [32]))
        in html_loop U sect (if t = [] then buffer else buffer @ [t]) nodes)"

definition parse_html :: "unicode \<Rightarrow> ustr option \<times> html_node list \<Rightarrow> segment list" where
  "parse_html U page = (case page of (title, nodes) \<Rightarrow> html_loop U (coalesce title [32593, 39029, 27491, 25991]) [] nodes)"

definition parse_image :: "parser_settings \<Rightarrow> unicode \<Rightarrow> ustr option \<Rightarrow> segment list parsed" where
  "parse_image cfg U ocr =
     (if \<not> ocr_enabled cfg then Inl OcrDisabled
      else case ocr of None \<Rightarrow> Inl ReaderError
        | Some raw \<Rightarrow> let t = clean_text U True raw in
            if t = [] then Inl NoTextFound
            else Inr [\<lparr>sg_text = t, sg_page = Some 1, sg_section = Some [22270, 29255, 32, 79, 67, 82],
              sg_content_type = ''image_ocr'', sg_source_url = None\<rparr>])"

section \<open>Every format\<close>

definition IMAGE_EXTENSIONS :: "ustr list" where
  "IMAGE_EXTENSIONS = map u [''.png'', ''.jpg'', ''.jpeg'', ''.webp'', ''.tif'', ''.tiff'']"

definition parse_by_type :: "parser_settings \<Rightarrow> parse_env \<Rightarrow> ustr \<Rightarrow> segment list parsed" where
  "parse_by_type cfg V path =
     (let U = pv_unicode V; ext = lower U (path_suffix path) in
      if ext = u ''.pdf'' then (case pv_pdf V path of None \<Rightarrow> Inl ReaderError | Some f \<Rightarrow> parse_pdf cfg U f)
      else if ext = u ''.docx'' then parse_docx cfg U (pv_docx V path)
      else if ext \<in> set [u ''.xlsx'', u ''.xlsm''] then read_or (map_option (parse_excel cfg U) (pv_sheets V path))
      else if ext = u ''.csv'' then read_or (Option.bind (pv_stream V path) (parse_csv cfg U path))
      else if ext = u ''.md'' then read_or (map_option (parse_markdown U) (pv_text V path))
      else if ext = u ''.txt'' then read_or (map_option (\<lambda>t. [\<lparr>sg_text = clean_text U True t, sg_page = None, sg_section = None,
          sg_content_type = ''text'', sg_source_url = None\<rparr>]) (pv_text V path))
      else if ext \<in> set [u ''.html'', u ''.htm''] then read_or (map_option (\<lambda>t. parse_html U (pv_html V t)) (pv_text V path))
      else if ext \<in> set IMAGE_EXTENSIONS then parse_image cfg U (pv_image V path)
      else Inl (UnsupportedType ext))"

definition parse_document :: "parser_settings \<Rightarrow> parse_env \<Rightarrow> ustr \<Rightarrow> ustr option \<Rightarrow> segment list parsed" where
  "parse_document cfg V path source_url =
     map_sum (\<lambda>e. e) (\<lambda>segments. filter (\<lambda>s. strip (sg_text s) \<noteq> [])
       (if coalesce source_url [] = [] then segments else map (\<lambda>s. s\<lparr>sg_source_url := source_url\<rparr>) segments)) (parse_by_type cfg V path)"

definition parse_file :: "parser_settings \<Rightarrow> parse_env \<Rightarrow> ustr \<Rightarrow> (ustr \<times> nat option) list parsed" where
  "parse_file cfg V path = map_sum (\<lambda>e. e) (map (\<lambda>s. (sg_text s, sg_page s))) (parse_document cfg V path None)"

end
