(* ===== verification/Recovery.thy ===== *)
theory Recovery
  imports Lifecycle "HOL-Library.AList"
begin

text \<open>
  Dead letters, recovery and background maintenance: \<open>record_dead_letter\<close> of
  \<open>app/tasks/ingest.py\<close>, the administrators' endpoints of \<open>app/routers/admin.py\<close>, the
  transactional outbox dispatcher \<open>app/tasks/outbox.py\<close> and the tasks of
  \<open>app/tasks/maintenance.py\<close>.  Calls of the broker and of the object store may fail; whether they
  do is an argument of the operation.
\<close>

section \<open>Dead letters\<close>

record letter_args =
  la_source :: string
  la_task :: string
  la_error :: ustr
  la_doc :: "string option"
  la_kb :: "string option"
  la_ws :: "string option"
  la_payload :: json
  la_stage :: "string option"
  la_retry :: nat

definition record_dead_letter :: "ctx \<Rightarrow> string \<Rightarrow> letter_args \<Rightarrow> sys \<Rightarrow> sys" where
  "record_dead_letter c i a s =
     (let ws = (case (la_ws a, la_kb a) of (None, Some k) \<Rightarrow> map_option k_ws (get_kb s k) | (w, _) \<Rightarrow> w)
      in s\<lparr>dead := dead s @ [\<lparr>l_id = i, l_source = la_source a, l_task = la_task a, l_doc = la_doc a,
            l_kb = la_kb a, l_ws = ws, l_payload = la_payload a, l_error = Some (take 2000 (la_error a)),
            l_stage = la_stage a, l_retry = la_retry a, l_status = LPending, l_created = now c,
            l_resolved = None, l_resolved_by = None\<rparr>]\<rparr>)"

lemma record_dead_letter_simps [simp]:
  "docs (record_dead_letter c i a s) = docs s" "chunks (record_dead_letter c i a s) = chunks s"
  "kbs (record_dead_letter c i a s) = kbs s" "outbox (record_dead_letter c i a s) = outbox s"
  "broker (record_dead_letter c i a s) = broker s" "objects (record_dead_letter c i a s) = objects s"
  by (simp_all add: record_dead_letter_def Let_def)

definition update_letter :: "string \<Rightarrow> (dead_letter \<Rightarrow> dead_letter) \<Rightarrow> sys \<Rightarrow> sys" where
  "update_letter i f s = s\<lparr>dead := update_where (\<lambda>l. l_id l = i) f (dead s)\<rparr>"

lemma update_letter_simps [simp]:
  "docs (update_letter i f s) = docs s" "chunks (update_letter i f s) = chunks s"
  "kbs (update_letter i f s) = kbs s" "outbox (update_letter i f s) = outbox s"
  "broker (update_letter i f s) = broker s" "objects (update_letter i f s) = objects s"
  "memberships (update_letter i f s) = memberships s"
  by (simp_all add: update_letter_def)

definition RESUMABLE_STAGES :: "string list" where
  "RESUMABLE_STAGES = [''parsing'', ''chunking'', ''embedding'', ''indexing'']"

definition require_workspace_admin :: "sys \<Rightarrow> string \<Rightarrow> string \<Rightarrow> membership http" where
  "require_workspace_admin s workspace_id user_id =
     (case member_with s workspace_id user_id ADMIN_ROLES of None \<Rightarrow> Inl 404 | Some m \<Rightarrow> Inr m)"

definition require_workspace_auditor :: "sys \<Rightarrow> string \<Rightarrow> string \<Rightarrow> membership http" where
  "require_workspace_auditor s workspace_id user_id =
     (case member_with s workspace_id user_id AUDIT_ROLES of None \<Rightarrow> Inl 404 | Some m \<Rightarrow> Inr m)"

fun letter_status_of :: "string \<Rightarrow> dead_letter_status option" where
  "letter_status_of x = map_of [(''pending'', LPending), (''replayed'', LReplayed), (''discarded'', LDiscarded)] x"

definition list_dead_letters :: "sys \<Rightarrow> string \<Rightarrow> string \<Rightarrow> string option \<Rightarrow> nat \<Rightarrow> dead_letter list http" where
  "list_dead_letters s user_id workspace_id status_filter limit =
     (if limit < 1 \<or> 500 < limit then Inl 422
      else case require_workspace_admin s workspace_id user_id of Inl e \<Rightarrow> Inl e | Inr _ \<Rightarrow>
      let rows = filter (\<lambda>l. l_ws l = Some workspace_id) (dead s) in
      case status_filter of
        Some (x # xs) \<Rightarrow> (case letter_status_of (x # xs) of None \<Rightarrow> Inl 500
          | Some st \<Rightarrow> Inr (take limit (sort_desc l_created (filter (\<lambda>l. l_status l = st) rows))))
      | _ \<Rightarrow> Inr (take limit (sort_desc l_created rows)))"

text \<open>Requeue a document row the way replay, resume and automatic retry do.\<close>

definition requeue :: "ctx \<Rightarrow> document \<Rightarrow> document" where
  "requeue c d = stamp c (ensure_target (drop_lease (set_status Queued d)\<lparr>d_error := None\<rparr>))"

definition or_str :: "string option \<Rightarrow> string option \<Rightarrow> string \<Rightarrow> string" where
  "or_str a b z = (case str_or a b of None \<Rightarrow> z | Some x \<Rightarrow> if x = [] then z else x)"

definition payload_dict :: "json \<Rightarrow> json" where
  "payload_dict p = (case p of JObj kvs \<Rightarrow> JObj kvs | _ \<Rightarrow> JObj [])"

definition jstring :: "json option \<Rightarrow> string option" where
  "jstring v = (case v of Some (JStr t) \<Rightarrow> Some (map char_of t) | _ \<Rightarrow> None)"

definition replay_dead_letter ::
  "ctx \<Rightarrow> string \<Rightarrow> string \<Rightarrow> string option \<Rightarrow> sys \<Rightarrow> (sys \<times> unit) http" where
  "replay_dead_letter c user_id letter_id from_stage s =
     (case get_letter s letter_id of None \<Rightarrow> Inl 404 | Some letter \<Rightarrow>
      case l_ws letter of None \<Rightarrow> Inl 404 | Some ws \<Rightarrow>
      case require_workspace_admin s ws user_id of Inl e \<Rightarrow> Inl e | Inr _ \<Rightarrow>
      if l_status letter \<noteq> LPending then Inl 409
      else
        let event_id = fresh c 0;
            audit = (audit_event ''dead_letter.replay'' ''dead_letter_task'' (Some user_id))
              \<lparr>ae_resource := Some letter_id, ae_ws := Some ws, ae_request := Some (req c),
               ae_after := Some (JObj [(''source'', jid (l_source letter)), (''from_stage'', jopt from_stage)])\<rparr>;
            finish = (\<lambda>s1. Inr (add_audit_event c 1 audit (update_letter letter_id
              (\<lambda>l. l\<lparr>l_status := LReplayed, l_resolved := Some (now c), l_resolved_by := Some user_id\<rparr>) s1), ()))
        in
        if l_source letter = ''ingest'' \<and> l_doc letter \<noteq> None \<and> l_doc letter \<noteq> Some [] then
          (case get_doc s (the (l_doc letter)) of None \<Rightarrow> Inl 404 | Some d \<Rightarrow>
            let resume_stage = or_str from_stage (l_stage letter) ''parsing'' in
            if resume_stage \<notin> set RESUMABLE_STAGES then Inl 400
            else finish (add_event (ingest_event c event_id (d_id d)
                (JObj [(''document_id'', jid (d_id d)), (''workspace_id'', jid ws),
                       (''reason'', jid ''dead-letter-replay''), (''from_stage'', jid resume_stage)])
                (''document.ingest.dlq:'' @ letter_id @ '':'' @ event_id))
              (upd_doc (d_id d) (requeue c) s)))
        else if l_source letter = ''outbox'' then
          (case Option.bind (jstring (jget (l_payload letter) ''outbox_event_id'')) (get_event s) of
             None \<Rightarrow> Inl 404
           | Some e \<Rightarrow> finish (s\<lparr>outbox := update_where (\<lambda>x. o_id x = o_id e)
               (\<lambda>x. x\<lparr>o_status := OPending, o_next := now c, o_last_error := None\<rparr>) (outbox s)\<rparr>))
        else if l_source letter = ''cleanup'' then
          finish (add_event (delete_event c event_id ''document''
              (or_str (l_doc letter) (l_kb letter) letter_id) (payload_dict (l_payload letter))
              (''resource.delete.dlq:'' @ letter_id @ '':'' @ event_id)) s)
        else Inl 400)"

definition discard_dead_letter :: "ctx \<Rightarrow> string \<Rightarrow> string \<Rightarrow> sys \<Rightarrow> (sys \<times> unit) http" where
  "discard_dead_letter c user_id letter_id s =
     (case get_letter s letter_id of None \<Rightarrow> Inl 404 | Some letter \<Rightarrow>
      case l_ws letter of None \<Rightarrow> Inl 404 | Some ws \<Rightarrow>
      case require_workspace_admin s ws user_id of Inl e \<Rightarrow> Inl e | Inr _ \<Rightarrow>
      if l_status letter \<noteq> LPending then Inl 409
      else
        let audit = (audit_event ''dead_letter.discard'' ''dead_letter_task'' (Some user_id))
              \<lparr>ae_resource := Some letter_id, ae_ws := Some ws, ae_request := Some (req c)\<rparr>
        in Inr (add_audit_event c 0 audit (update_letter letter_id
             (\<lambda>l. l\<lparr>l_status := LDiscarded, l_resolved := Some (now c), l_resolved_by := Some user_id\<rparr>) s), ()))"

section \<open>Resume and quarantine\<close>

definition resume_from_stage :: "ctx \<Rightarrow> string \<Rightarrow> string \<Rightarrow> string \<Rightarrow> sys \<Rightarrow> (sys \<times> document) http" where
  "resume_from_stage c user_id document_id from_stage s =
     (if from_stage \<notin> set RESUMABLE_STAGES then Inl 422
      else case get_doc s document_id of None \<Rightarrow> Inl 404 | Some d \<Rightarrow>
      case get_kb s (d_kb d) of None \<Rightarrow> Inl 404 | Some kb \<Rightarrow>
      case require_workspace_admin s (k_ws kb) user_id of Inl e \<Rightarrow> Inl e | Inr _ \<Rightarrow>
      if d_status d \<notin> {Failed, Retrying, Cancelled} then Inl 409
      else
        let event = ingest_event c (fresh c 0) (d_id d)
              (JObj [(''document_id'', jid (d_id d)), (''workspace_id'', jid (k_ws kb)),
                     (''reason'', jid ''admin-resume''), (''from_stage'', jid from_stage)])
              (''document.ingest.resume:'' @ d_id d @ '':'' @ fresh c 0);
            audit = (audit_event ''document.ingestion.resume'' ''document'' (Some user_id))
              \<lparr>ae_resource := Some (d_id d), ae_ws := Some (k_ws kb), ae_request := Some (req c),
               ae_before := Some (JObj [(''status'', jid (status_value (d_status d)))]),
               ae_after := Some (JObj [(''from_stage'', jid from_stage), (''status'', jid (status_value Queued))])\<rparr>
        in Inr (add_audit_event c 1 audit (add_event event (upd_doc document_id (requeue c) s)), requeue c d))"

definition list_quarantined :: "sys \<Rightarrow> string \<Rightarrow> string \<Rightarrow> document list http" where
  "list_quarantined s user_id workspace_id =
     (case require_workspace_admin s workspace_id user_id of Inl e \<Rightarrow> Inl e | Inr _ \<Rightarrow>
      Inr (sort_desc d_updated (filter (\<lambda>d. d_quarantined d \<and>
        (\<exists>k. get_kb s (d_kb d) = Some k \<and> k_ws k = workspace_id)) (docs s))))"

definition release_quarantine :: "ctx \<Rightarrow> string \<Rightarrow> string \<Rightarrow> sys \<Rightarrow> (sys \<times> document) http" where
  "release_quarantine c user_id document_id s =
     (case get_doc s document_id of None \<Rightarrow> Inl 404 | Some d \<Rightarrow>
      case get_kb s (d_kb d) of None \<Rightarrow> Inl 404 | Some kb \<Rightarrow>
      case require_workspace_admin s (k_ws kb) user_id of Inl e \<Rightarrow> Inl e | Inr _ \<Rightarrow>
      if \<not> d_quarantined d then Inl 409
      else
        let change = (\<lambda>d. stamp c (d\<lparr>d_quarantined := False\<rparr>));
            audit = (audit_event ''document.quarantine.release'' ''document'' (Some user_id))
              \<lparr>ae_resource := Some (d_id d), ae_ws := Some (k_ws kb), ae_request := Some (req c),
               ae_before := Some (JObj [(''quarantined'', JBool True)]),
               ae_after := Some (JObj [(''quarantined'', JBool False)])\<rparr>;
            s1 = add_audit_event c 0 audit (upd_doc document_id change s)
        in Inr (s1\<lparr>invalidated := invalidated s1 @ [d_kb d]\<rparr>, change d))"

section \<open>Searching and exporting the audit log\<close>

definition search_audit_logs ::
  "sys \<Rightarrow> string \<Rightarrow> string \<Rightarrow> string \<Rightarrow> string \<Rightarrow> string \<Rightarrow> string \<Rightarrow> nat \<Rightarrow> audit_log list http" where
  "search_audit_logs s user_id workspace_id action actor resource_type request_id limit =
     (if limit < 1 \<or> 1000 < limit then Inl 422
      else case require_workspace_auditor s workspace_id user_id of Inl e \<Rightarrow> Inl e | Inr _ \<Rightarrow>
      Inr (take limit (sort_desc a_created (filter (\<lambda>a. a_ws a = Some workspace_id \<and>
        (action = [] \<or> a_action a = action) \<and> (actor = [] \<or> a_actor a = Some actor) \<and>
        (resource_type = [] \<or> a_resource_type a = resource_type) \<and>
        (request_id = [] \<or> a_request_id a = Some request_id)) (audits s)))))"

text \<open>\<open>ORDER BY chain_seq NULLS LAST, created_at\<close>: chained rows by their number, then the rest by
  time.  The ids of the trigger are distinct.\<close>

definition chain_order :: "audit_log list \<Rightarrow> audit_log list" where
  "chain_order rows = sort_key (\<lambda>a. the (a_chain_seq a)) (filter (\<lambda>a. a_chain_seq a \<noteq> None) rows) @
     sort_key a_created (filter (\<lambda>a. a_chain_seq a = None) rows)"

definition export_audit_logs :: "sys \<Rightarrow> string \<Rightarrow> string \<Rightarrow> nat \<Rightarrow> audit_log list http" where
  "export_audit_logs s user_id workspace_id limit =
     (if limit < 1 \<or> 50000 < limit then Inl 422
      else case require_workspace_auditor s workspace_id user_id of Inl e \<Rightarrow> Inl e | Inr _ \<Rightarrow>
      Inr (take limit (chain_order (filter (\<lambda>a. a_ws a = Some workspace_id) (audits s)))))"

section \<open>The outbox dispatcher\<close>

definition backoff :: "settings \<Rightarrow> nat \<Rightarrow> nat" where
  "backoff cfg retry_count = min 300 (outbox_base_retry_seconds cfg * 2 ^ (retry_count - 1))"

definition due :: "ctx \<Rightarrow> outbox_event \<Rightarrow> bool" where
  "due c e \<longleftrightarrow> o_status e \<in> {OPending, OPublishing} \<and> o_next e \<le> now c"

text \<open>First transaction: lease the oldest due events for sixty seconds.\<close>

definition lease_events :: "settings \<Rightarrow> ctx \<Rightarrow> sys \<Rightarrow> sys \<times> string list" where
  "lease_events cfg c s =
     (let ids = map o_id (take (outbox_batch_size cfg) (sort_key o_created (filter (due c) (outbox s))))
      in (s\<lparr>outbox := update_where (\<lambda>e. o_id e \<in> set ids)
            (\<lambda>e. e\<lparr>o_status := OPublishing, o_last_attempt := Some (now c), o_next := now c + seconds 60\<rparr>) (outbox s)\<rparr>,
          ids))"

definition set_event :: "string \<Rightarrow> (outbox_event \<Rightarrow> outbox_event) \<Rightarrow> sys \<Rightarrow> sys" where
  "set_event i f s = s\<lparr>outbox := update_where (\<lambda>e. o_id e = i) f (outbox s)\<rparr>"

lemma set_event_simps [simp]:
  "docs (set_event i f s) = docs s" "chunks (set_event i f s) = chunks s" "kbs (set_event i f s) = kbs s"
  "broker (set_event i f s) = broker s" "dead (set_event i f s) = dead s"
  "outbox (set_event i f s) = update_where (\<lambda>e. o_id e = i) f (outbox s)"
  by (simp_all add: set_event_def)

text \<open>The attempt to publish one event: \<open>Inl\<close> is the message of the exception.  \<open>send\<close> says
  whether the broker accepts the message.\<close>

definition publish_event :: "ctx \<Rightarrow> ustr option \<Rightarrow> outbox_event \<Rightarrow> sys \<Rightarrow> ustr + sys" where
  "publish_event c send e s =
     (if o_type e = ''document.ingest.requested'' then
        (case send of Some err \<Rightarrow> Inl err | None \<Rightarrow>
          Inr (upd_docs (\<lambda>d. d_id d = o_agg_id e \<and> d_status d = Uploaded) (\<lambda>d. stamp c (set_status Queued d))
            (s\<lparr>broker := broker s @ [IngestTask (o_agg_id e) 0]\<rparr>)))
      else if o_type e = ''resource.delete.requested'' then
        (case send of Some err \<Rightarrow> Inl err | None \<Rightarrow>
          Inr (s\<lparr>broker := broker s @ [DeleteTask (o_payload e) 0]\<rparr>))
      else Inl (u ''unsupported outbox event: '' @ u (o_type e)))"

definition json_update :: "json \<Rightarrow> string \<Rightarrow> json \<Rightarrow> json" where
  "json_update p k v = (case p of JObj kvs \<Rightarrow> JObj (AList.update k v kvs) | _ \<Rightarrow> p)"

text \<open>Second transaction, one per event.\<close>

definition dispatch_event ::
  "settings \<Rightarrow> ctx \<Rightarrow> ustr option \<Rightarrow> string \<Rightarrow> string \<Rightarrow> sys \<Rightarrow> sys" where
  "dispatch_event cfg c send letter_id event_id s =
     (case get_event s event_id of None \<Rightarrow> s | Some e \<Rightarrow>
      if o_status e \<noteq> OPublishing then s
      else case publish_event c send e s of
        Inr s1 \<Rightarrow> set_event event_id (\<lambda>x. x\<lparr>o_status := OSent, o_sent := Some (now c), o_last_error := None\<rparr>) s1
      | Inl err \<Rightarrow>
          let retry = o_retry e + 1;
              st = (if retry \<ge> outbox_max_retries cfg then OFailed else OPending);
              s1 = set_event event_id (\<lambda>x. x\<lparr>o_retry := retry, o_last_error := Some (take 2000 err),
                     o_status := st, o_next := now c + seconds (int (backoff cfg retry))\<rparr>) s
          in if st = OFailed then record_dead_letter c letter_id
               \<lparr>la_source = ''outbox'', la_task = o_type e, la_error = err,
                la_doc = (if o_agg_type e = ''document'' then Some (o_agg_id e)
                          else jstring (jget (o_payload e) ''document_id'')),
                la_kb = jstring (jget (o_payload e) ''kb_id''), la_ws = jstring (jget (o_payload e) ''workspace_id''),
                la_payload = json_update (o_payload e) ''outbox_event_id'' (jid event_id),
                la_stage = None, la_retry = retry\<rparr> s1
             else s1)"

fun dispatch_all :: "settings \<Rightarrow> ctx \<Rightarrow> (string \<Rightarrow> ustr option) \<Rightarrow> nat \<Rightarrow> string list \<Rightarrow> sys \<Rightarrow> sys" where
  "dispatch_all cfg c send i [] s = s"
| "dispatch_all cfg c send i (e # es) s =
     dispatch_all cfg c send (i + 1) es (dispatch_event cfg c (send e) (fresh c i) e s)"

definition dispatch_outbox_batch :: "settings \<Rightarrow> ctx \<Rightarrow> (string \<Rightarrow> ustr option) \<Rightarrow> sys \<Rightarrow> sys" where
  "dispatch_outbox_batch cfg c send s =
     (let (s1, ids) = lease_events cfg c s in dispatch_all cfg c send 0 ids s1)"

section \<open>Maintenance tasks\<close>

definition working :: "doc_status list" where
  "working = [Parsing, Chunking, Embedding, Indexing]"

definition stale :: "ctx \<Rightarrow> int \<Rightarrow> document \<Rightarrow> bool" where
  "stale c secs d \<longleftrightarrow> d_status d \<in> set working \<and>
     (case d_heartbeat d of None \<Rightarrow> False | Some h \<Rightarrow> h < now c - seconds secs)"

definition reclaim :: "ctx \<Rightarrow> document \<Rightarrow> document" where
  "reclaim c d = stamp c (drop_lease (set_status Retrying d)
     \<lparr>d_error := Some (u ''worker heartbeat expired; reconciler scheduled retry'')\<rparr>)"

definition reconcile_stale_ingestion :: "ctx \<Rightarrow> int \<Rightarrow> sys \<Rightarrow> sys" where
  "reconcile_stale_ingestion c stale_after s =
     (let ids = map d_id (filter (stale c stale_after) (docs s));
          s1 = upd_docs (stale c stale_after) (reclaim c) s
      in s1\<lparr>outbox := outbox s1 @ map (\<lambda>(n, i). ingest_event c (fresh c n) i
            (JObj [(''reason'', jid ''stale-worker-recovery'')])
            (''document.ingest.recovery:'' @ i @ '':'' @ show_time c (now c))) (enum ids)\<rparr>)"

definition delete_chunks :: "(chunk \<Rightarrow> bool) \<Rightarrow> sys \<Rightarrow> sys" where
  "delete_chunks P s =
     (let gone = map c_id (filter P (chunks s));
          ents = map e_id (filter (\<lambda>e. case e_chunk e of None \<Rightarrow> False | Some x \<Rightarrow> x \<in> set gone) (entities s))
      in s\<lparr>chunks := delete_where P (chunks s),
           entities := delete_where (\<lambda>e. e_id e \<in> set ents) (entities s),
           relations := delete_where (\<lambda>r. r_source r \<in> set ents \<or> r_target r \<in> set ents \<or>
              (case r_chunk r of None \<Rightarrow> False | Some x \<Rightarrow> x \<in> set gone)) (relations s)\<rparr>)"

definition cleanup_superseded_indexes :: "string \<Rightarrow> sys \<Rightarrow> sys" where
  "cleanup_superseded_indexes document_id s =
     (case get_doc s document_id of None \<Rightarrow> s | Some d \<Rightarrow>
      case d_active d of None \<Rightarrow> s
      | Some v \<Rightarrow> delete_chunks (\<lambda>x. c_doc x = document_id \<and> c_version x \<noteq> v) s)"

definition orphans :: "settings \<Rightarrow> ctx \<Rightarrow> sys \<Rightarrow> (string \<times> datetime) list" where
  "orphans cfg c s = filter (\<lambda>(k, t). k \<notin> set (map d_object_key (docs s)) \<and>
     t < now c - seconds (orphan_object_grace_seconds cfg)) (objects s)"

definition reconcile_orphan_objects :: "settings \<Rightarrow> ctx \<Rightarrow> bool \<Rightarrow> sys \<Rightarrow> sys \<times> nat" where
  "reconcile_orphan_objects cfg c dry_run s =
     (let xs = orphans cfg c s
      in (if dry_run then s else fold (\<lambda>(k, _). delete_object k) xs s, length xs))"

definition jkeys :: "json option \<Rightarrow> string list" where
  "jkeys v = (case v of Some (JList vs) \<Rightarrow> List.map_filter (\<lambda>x. jstring (Some x)) vs | _ \<Rightarrow> [])"

text \<open>The task \<open>delete_resources\<close> at its \<open>retries\<close>-th retry; \<open>store_error\<close> is the exception of the
  object store, raised after the keys before \<open>fail_at\<close> were deleted.  A retry is a new message, up to the task's own \<open>max_retries=8\<close>, above which
  \<open>self.retry\<close> raises.\<close>

definition delete_resources ::
  "settings \<Rightarrow> ctx \<Rightarrow> json \<Rightarrow> nat \<Rightarrow> (nat \<times> ustr) option \<Rightarrow> sys \<Rightarrow> sys" where
  "delete_resources cfg c payload retries store_error s =
     (let keys = filter (\<lambda>k. k \<noteq> []) (jkeys (jget payload ''object_keys''));
          document_id = jstring (jget payload ''document_id'');
          kb_id = jstring (jget payload ''kb_id'');
          ws = jstring (jget payload ''workspace_id'')
      in case store_error of
        Some (n, err) \<Rightarrow>
          let s1 = fold delete_object (take n keys) s in
          if retries < resource_delete_max_retries cfg
          then if retries + 1 > 8 then s1 else s1\<lparr>broker := broker s1 @ [DeleteTask payload (retries + 1)]\<rparr>
          else record_dead_letter c (fresh c 0)
            \<lparr>la_source = ''cleanup'', la_task = ''delete_resources'', la_error = err, la_doc = document_id,
             la_kb = kb_id, la_ws = ws, la_payload = payload, la_stage = None, la_retry = retries\<rparr> s1
      | None \<Rightarrow>
          let s1 = fold delete_object keys s;
              s2 = (case document_id of None \<Rightarrow> s1 | Some i \<Rightarrow>
                     (case get_doc s1 i of None \<Rightarrow> s1
                      | Some d \<Rightarrow> if d_status d = Deleting then cascade_documents (\<lambda>x. d_id x = i) s1 else s1))
          in (case kb_id of None \<Rightarrow> s2
              | Some k \<Rightarrow> if k = [] then s2 else s2\<lparr>invalidated := invalidated s2 @ [k]\<rparr>))"

text \<open>\<open>purge_expired_audit_logs\<close>: expired rows are archived first, and a failed archive stops it.\<close>

definition expired :: "settings \<Rightarrow> ctx \<Rightarrow> audit_log \<Rightarrow> bool" where
  "expired cfg c a \<longleftrightarrow> a_created a < now c - seconds (audit_retention_days cfg * 86400)"

definition purge_expired_audit_logs ::
  "settings \<Rightarrow> ctx \<Rightarrow> string \<Rightarrow> bool \<Rightarrow> sys \<Rightarrow> sys \<times> audit_log list" where
  "purge_expired_audit_logs cfg c archive_key archive_ok s =
     (let rows = chain_order (filter (expired cfg c) (audits s)) in
      if rows = [] then (s, [])
      else if audit_archive_before_purge cfg \<and> \<not> archive_ok then (s, [])
      else
        let s1 = (if audit_archive_before_purge cfg then put_object archive_key (now c) s else s)
        in (s1\<lparr>audits := delete_where (expired cfg c) (audits s1)\<rparr>,
            if audit_archive_before_purge cfg then rows else []))"

section \<open>Automatic recovery of dead letters\<close>

definition discard_note :: "ustr \<Rightarrow> ctx \<Rightarrow> dead_letter \<Rightarrow> dead_letter" where
  "discard_note note c l = l\<lparr>l_status := LDiscarded, l_resolved := Some (now c),
     l_error := Some (coalesce (l_error l) [] @ note)\<rparr>"

definition retry_letter :: "ctx \<Rightarrow> nat \<Rightarrow> dead_letter \<Rightarrow> sys \<Rightarrow> sys" where
  "retry_letter c n letter s =
     (let event_id = fresh c n;
          replayed = update_letter (l_id letter) (\<lambda>l. l\<lparr>l_status := LReplayed, l_resolved := Some (now c)\<rparr>)
      in if l_source letter = ''ingest'' \<and> l_doc letter \<noteq> None \<and> l_doc letter \<noteq> Some [] then
        (case get_doc s (the (l_doc letter)) of
           None \<Rightarrow> update_letter (l_id letter) (discard_note (u '' | auto-discarded: document gone'') c) s
         | Some d \<Rightarrow>
             if d_status d \<notin> {Failed, Retrying}
             then update_letter (l_id letter) (discard_note
                    (u '' | auto-discarded: document is '' @ u (status_value (d_status d))) c) s
             else replayed (add_event (ingest_event c event_id (d_id d)
                 (JObj [(''document_id'', jid (d_id d)), (''workspace_id'', jopt (l_ws letter)),
                        (''reason'', jid ''dlq-auto-retry''),
                        (''from_stage'', jid (or_str (l_stage letter) None ''parsing''))])
                 (''document.ingest.dlq-auto:'' @ l_id letter @ '':'' @ event_id))
               (upd_doc (d_id d) (requeue c) s)))
      else if l_source letter = ''cleanup'' then
        replayed (add_event (delete_event c event_id ''document''
            (or_str (l_doc letter) (l_kb letter) (l_id letter)) (payload_dict (l_payload letter))
            (''resource.delete.dlq-auto:'' @ l_id letter @ '':'' @ event_id)) s)
      else s)"

definition retryable_letters :: "ctx \<Rightarrow> int \<Rightarrow> nat \<Rightarrow> sys \<Rightarrow> dead_letter list" where
  "retryable_letters c cooldown_hours max_per_run s =
     take max_per_run (sort_key l_created (filter (\<lambda>l. l_status l = LPending \<and>
       l_source l \<in> {''ingest'', ''cleanup''} \<and> l_created l < now c - seconds (cooldown_hours * 3600)) (dead s)))"

definition retry_pending_dead_letters :: "ctx \<Rightarrow> int \<Rightarrow> nat \<Rightarrow> sys \<Rightarrow> sys" where
  "retry_pending_dead_letters c cooldown_hours max_per_run s =
     fold (\<lambda>(n, l). retry_letter c n l) (enum (retryable_letters c cooldown_hours max_per_run s)) s"

end
