(* ===== verification/AuditChain.thy ===== *)
theory AuditChain
  imports Recovery
begin

text \<open>
  The hash chain of the audit log: the trigger of \<open>migrations/versions/0008\<close> that links a row when it is
  inserted, and \<open>scripts/verify_audit_chain.py\<close>, which recomputes the hashes.  \<open>sha\<close> is the hexadecimal
  SHA-256 of a text.  PostgreSQL writes the JSON columns and the time itself: \<open>jt\<close> is its text
  of a JSON column (\<open>#>> '{}'\<close>, empty for \<open>NULL\<close>) and \<open>tt\<close> its \<open>timestamptz::text\<close>.
\<close>

section \<open>Python's text of JSON values and times\<close>

text \<open>\<open>json.dumps(value, ensure_ascii=False, separators=(',', ':'))\<close>\<close>

definition hex_digit :: "nat \<Rightarrow> nat" where
  "hex_digit n = (if n < 10 then 48 + n else 87 + n)"

definition json_escape :: "nat \<Rightarrow> ustr" where
  "json_escape c = (if c = 34 then [92, 34] else if c = 92 then [92, 92] else if c = 10 then [92, 110]
     else if c = 13 then [92, 114] else if c = 9 then [92, 116] else if c = 12 then [92, 102]
     else if c = 8 then [92, 98] else if c < 32 then [92, 117, 48, 48, hex_digit (c div 16), hex_digit (c mod 16)] else [c])"

definition json_quote :: "ustr \<Rightarrow> ustr" where
  "json_quote s = [34] @ concat (map json_escape s) @ [34]"

fun json_dumps :: "json \<Rightarrow> ustr" where
  "json_dumps JNull = u ''null''"
| "json_dumps (JBool b) = (if b then u ''true'' else u ''false'')"
| "json_dumps (JInt n) = u (show_int n)"
| "json_dumps (JStr s) = json_quote s"
| "json_dumps (JList xs) = [91] @ ujoin [44] (map json_dumps xs) @ [93]"
| "json_dumps (JObj kvs) = [123] @ ujoin [44] (map (\<lambda>(k, v). json_quote (u k) @ [58] @ json_dumps v) kvs) @ [125]"

text \<open>\<open>_json_text\<close>: a column that holds the JSON value \<open>null\<close> is read as \<open>None\<close>.\<close>

definition json_text :: "json option \<Rightarrow> ustr" where
  "json_text v = (case v of None \<Rightarrow> [] | Some JNull \<Rightarrow> [] | Some w \<Rightarrow> json_dumps w)"

text \<open>\<open>datetime.isoformat()\<close> of an aware time in UTC, counted in microseconds from 1970.\<close>

definition civil :: "int \<Rightarrow> int \<times> int \<times> int" where
  "civil days = (let z = days + 719468; era = z div 146097; doe = z mod 146097;
     yoe = (doe - doe div 1460 + doe div 36524 - doe div 146096) div 365;
     doy = doe - (365 * yoe + yoe div 4 - yoe div 100); mp = (5 * doy + 2) div 153;
     m = (if mp < 10 then mp + 3 else mp - 9)
   in (yoe + era * 400 + (if m \<le> 2 then 1 else 0), m, doy - (153 * mp + 2) div 5 + 1))"

definition padded :: "nat \<Rightarrow> int \<Rightarrow> ustr" where
  "padded w n = (let s = u (show_nat (nat n)) in replicate (w - length s) 48 @ s)"

definition iso_date :: "datetime \<Rightarrow> ustr" where
  "iso_date t = (case civil (t div 86400000000) of (y, m, d) \<Rightarrow> padded 4 y @ [45] @ padded 2 m @ [45] @ padded 2 d)"

definition iso_time :: "datetime \<Rightarrow> ustr" where
  "iso_time t = (let r = t mod 86400000000; us = r mod 1000000; sec = r div 1000000 in
     padded 2 (sec div 3600) @ [58] @ padded 2 (sec div 60 mod 60) @ [58] @ padded 2 (sec mod 60) @
     (if us = 0 then [] else [46] @ padded 6 us) @ u ''+00:00'')"

definition isoformat :: "datetime \<Rightarrow> ustr" where
  "isoformat t = iso_date t @ [84] @ iso_time t"

section \<open>The trigger\<close>

definition genesis :: string where
  "genesis = replicate 64 (CHR ''0'')"

text \<open>The fields of the hashed text that come from the row's identifiers.\<close>

definition chain_fields :: "audit_log \<Rightarrow> string list" where
  "chain_fields a = [a_id a, a_action a, a_resource_type a, coalesce (a_resource_id a) [], coalesce (a_actor a) [],
     coalesce (a_ws a) [], a_outcome a]"

definition chain_payload :: "(json option \<Rightarrow> ustr) \<Rightarrow> (datetime \<Rightarrow> ustr) \<Rightarrow> string \<Rightarrow> audit_log \<Rightarrow> ustr" where
  "chain_payload jt tt prev a =
     ujoin [124] (map u (prev # chain_fields a) @ [jt (a_before a), jt (a_after a), tt (a_created a)])"

text \<open>\<open>SELECT .. ORDER BY chain_seq DESC LIMIT 1\<close>\<close>

definition chain_number :: "audit_log \<Rightarrow> nat" where
  "chain_number a = coalesce (a_chain_seq a) 0"

fun newest :: "audit_log list \<Rightarrow> audit_log option" where
  "newest [] = None"
| "newest (r # rs) = (case newest rs of None \<Rightarrow> Some r
     | Some m \<Rightarrow> if chain_number m < chain_number r then Some r else Some m)"

text \<open>The number comes from a sequence when the row is formed, before the trigger takes its lock.\<close>

definition chain_insert ::
  "(ustr \<Rightarrow> string) \<Rightarrow> (json option \<Rightarrow> ustr) \<Rightarrow> (datetime \<Rightarrow> ustr) \<Rightarrow> nat \<Rightarrow> audit_log \<Rightarrow> audit_log list \<Rightarrow> audit_log list" where
  "chain_insert sha jt tt n a rows =
     (let prev = coalesce (Option.bind (newest rows) a_entry_hash) genesis in
      rows @ [a\<lparr>a_chain_seq := Some n, a_prev_hash := Some prev, a_entry_hash := Some (sha (chain_payload jt tt prev a))\<rparr>])"

definition chain_inserts ::
  "(ustr \<Rightarrow> string) \<Rightarrow> (json option \<Rightarrow> ustr) \<Rightarrow> (datetime \<Rightarrow> ustr) \<Rightarrow> (nat \<times> audit_log) list \<Rightarrow> audit_log list" where
  "chain_inserts sha jt tt xs = fold (\<lambda>(n, a). chain_insert sha jt tt n a) xs []"

section \<open>The verifier\<close>

datatype chain_failure = PrevMismatch | EntryMismatch

definition entry_hash :: "(ustr \<Rightarrow> string) \<Rightarrow> string \<Rightarrow> audit_log \<Rightarrow> string" where
  "entry_hash sha prev a = sha (chain_payload json_text isoformat prev a)"

fun verify_from :: "(ustr \<Rightarrow> string) \<Rightarrow> string \<Rightarrow> audit_log list \<Rightarrow> (nat option \<times> string \<times> chain_failure) list" where
  "verify_from sha previous [] = []"
| "verify_from sha previous (a # rows) =
     (let actual_prev = coalesce (a_prev_hash a) []; expected_hash = entry_hash sha previous a;
          actual_hash = coalesce (a_entry_hash a) [] in
      (if actual_prev \<noteq> previous then [(a_chain_seq a, a_id a, PrevMismatch)] else []) @
      (if actual_hash \<noteq> expected_hash then [(a_chain_seq a, a_id a, EntryMismatch)] else []) @
      verify_from sha (if actual_hash = [] then expected_hash else actual_hash) rows)"

definition verify_rows :: "(ustr \<Rightarrow> string) \<Rightarrow> audit_log list \<Rightarrow> (nat option \<times> string \<times> chain_failure) list" where
  "verify_rows sha rows = verify_from sha genesis rows"

text \<open>\<open>_load_from_db\<close>: rows without a hash are skipped.\<close>

definition load_from_db :: "audit_log list \<Rightarrow> audit_log list" where
  "load_from_db rows = filter (\<lambda>a. coalesce (a_entry_hash a) [] \<noteq> []) (chain_order rows)"

section \<open>Links\<close>

text \<open>The rows are linked from \<open>prev\<close> on, with hashes over the texts \<open>jt\<close> and \<open>tt\<close>.\<close>

fun linked :: "(ustr \<Rightarrow> string) \<Rightarrow> (json option \<Rightarrow> ustr) \<Rightarrow> (datetime \<Rightarrow> ustr) \<Rightarrow> string \<Rightarrow> audit_log list \<Rightarrow> bool" where
  "linked sha jt tt prev [] = True"
| "linked sha jt tt prev (a # rows) = (a_prev_hash a = Some prev \<and> a_entry_hash a = Some (sha (chain_payload jt tt prev a)) \<and>
     linked sha jt tt (sha (chain_payload jt tt prev a)) rows)"

lemma chain_payload_update [simp]:
  "chain_payload jt tt prev (a\<lparr>a_chain_seq := n, a_prev_hash := p, a_entry_hash := h\<rparr>) = chain_payload jt tt prev a"
  by (simp add: chain_payload_def chain_fields_def)

lemma linked_append:
  "linked sha jt tt prev (rows @ [a]) \<longleftrightarrow> linked sha jt tt prev rows \<and>
     linked sha jt tt (if rows = [] then prev else the (a_entry_hash (last rows))) [a]"
  by (induction rows arbitrary: prev) auto

lemma newest_last:
  "sorted (map chain_number rows) \<Longrightarrow> newest rows = (if rows = [] then None else Some (last rows))"
proof (induction rows)
  case (Cons r rs)
  then show ?case
    by (cases "rs = []") (auto dest!: bspec [OF _ last_in_set])
qed simp

lemma linked_hashes: "linked sha jt tt prev rows \<Longrightarrow> a \<in> set rows \<Longrightarrow> a_entry_hash a \<noteq> None"
  by (induction rows arbitrary: prev) auto

lemma linked_insert:
  assumes "linked sha jt tt genesis rows" "sorted (map chain_number rows)"
  shows "linked sha jt tt genesis (chain_insert sha jt tt n a rows)"
proof (cases "rows = []")
  case True
  then show ?thesis by (simp add: chain_insert_def Let_def)
next
  case False
  then obtain h where "a_entry_hash (last rows) = Some h"
    using linked_hashes [OF assms(1) last_in_set] by fastforce
  with False assms show ?thesis
    by (simp add: chain_insert_def Let_def linked_append newest_last)
qed

text \<open>Numbers used in the order they were drawn: the table is a chain.\<close>

lemma inserts_linked:
  assumes "sorted_wrt (<) (map fst xs)"
  shows "linked sha jt tt genesis (chain_inserts sha jt tt xs) \<and>
    map a_chain_seq (chain_inserts sha jt tt xs) = map (Some \<circ> fst) xs"
  using assms
proof (induction xs rule: rev_induct)
  case (snoc x xs)
  obtain n a where x: "x = (n, a)" by fastforce
  let ?rows = "chain_inserts sha jt tt xs"
  have IH: "linked sha jt tt genesis ?rows" "map a_chain_seq ?rows = map (Some \<circ> fst) xs"
    using snoc by (auto simp: sorted_wrt_append)
  have "map chain_number ?rows = map (\<lambda>s. coalesce s 0) (map a_chain_seq ?rows)" by (simp add: chain_number_def)
  then have "map chain_number ?rows = map fst xs" by (simp add: IH(2))
  moreover have "sorted (map fst xs)" using snoc.prems by (simp add: sorted_wrt_append strict_sorted_imp_sorted)
  ultimately have "sorted (map chain_number ?rows)" by simp
  then show ?case using linked_insert [OF IH(1)] IH(2) x by (simp add: chain_inserts_def chain_insert_def Let_def)
qed (simp add: chain_inserts_def)

lemma chain_order_id:
  assumes "map a_chain_seq rows = map Some ns" "sorted ns"
  shows "chain_order rows = rows"
proof -
  have all: "\<forall>a \<in> set rows. a_chain_seq a \<noteq> None"
    using assms(1) by (metis in_set_conv_nth length_map nth_map option.distinct(1))
  have "map (\<lambda>a. the (a_chain_seq a)) rows = ns"
    using arg_cong [OF assms(1), of "map the"] by (simp add: comp_def)
  with assms(2) have "sort_key (\<lambda>a. the (a_chain_seq a)) rows = rows"
    by (intro sort_key_id_if_sorted) simp
  with all show ?thesis
    by (simp add: chain_order_def filter_id_conv cong: filter_cong)
qed

section \<open>Times\<close>

lemma length_show_nat: "n < 10 ^ k \<Longrightarrow> length (show_nat n) \<le> max 1 k"
proof (induction n arbitrary: k rule: show_nat.induct)
  case (1 n)
  show ?case
  proof (cases "n < 10")
    case False
    then obtain j where k: "k = Suc j" using 1(2) by (cases k) auto
    then have "n div 10 < 10 ^ j" using 1(2) by (simp add: less_mult_imp_div_less mult.commute)
    moreover have "j \<noteq> 0" using False 1(2) k by (cases j) auto
    ultimately have "length (show_nat (n div 10)) \<le> j" using 1(1) [OF False, of j] by simp
    then show ?thesis using False k by (simp add: show_nat.simps [of n])
  qed (simp add: show_nat.simps [of n])
qed

lemma length_padded: "0 < w \<Longrightarrow> n < 10 ^ w \<Longrightarrow> length (padded w n) = w"
  using length_show_nat [of "nat n" w] by (simp add: padded_def Let_def nat_less_iff)

lemma padded_lengths:
  "n < 100 \<Longrightarrow> length (padded 2 n) = 2" "n < 1000000 \<Longrightarrow> length (padded 6 n) = 6"
  using length_padded [of 2 n] length_padded [of 6 n] by simp_all

lemma length_iso_time: "length (iso_time t) \<le> 21"
proof -
  define r where "r = t mod 86400000000"
  define sec where "sec = r div 1000000"
  have r: "0 \<le> r" "r < 86400000000" unfolding r_def by simp_all
  then have sec: "sec < 86400" unfolding sec_def by linarith
  then have "sec div 3600 < 100" by linarith
  moreover have "sec div 60 mod 60 < 100" "sec mod 60 < 100" "r mod 1000000 < 1000000"
    by (rule less_trans [of _ 60], simp_all)+
  ultimately show ?thesis
    unfolding iso_time_def Let_def r_def [symmetric] sec_def [symmetric] by (simp add: padded_lengths)
qed

text \<open>The script's text of a row is never the database's: the time of the one has a letter \<open>T\<close> where the
  time of the other has none.\<close>

lemma chain_payload_ends: "\<exists>x. chain_payload jt tt prev a = x @ [124] @ tt (a_created a)"
proof -
  have "chain_payload jt tt prev a = ujoin [124] ((map u (prev # chain_fields a) @ [jt (a_before a), jt (a_after a)]) @ [tt (a_created a)])"
    by (simp add: chain_payload_def)
  then show ?thesis by (subst (asm) ujoin_snoc) auto
qed

lemma texts_differ:
  assumes "84 \<notin> set (tt (a_created a))" "21 < length (tt (a_created a))"
  shows "chain_payload json_text isoformat prev a \<noteq> chain_payload jt tt prev a"
proof
  assume eq: "chain_payload json_text isoformat prev a = chain_payload jt tt prev a"
  let ?d = "tt (a_created a)" let ?k = "length (iso_time (a_created a))"
  obtain x y where "chain_payload json_text isoformat prev a = x @ [124] @ isoformat (a_created a)"
    "chain_payload jt tt prev a = y @ [124] @ ?d" using chain_payload_ends by blast
  with eq have "(x @ [124] @ iso_date (a_created a) @ [84]) @ iso_time (a_created a) = (y @ [124]) @ ?d"
    by (simp add: isoformat_def)
  then have "rev (iso_time (a_created a)) @ 84 # rev (x @ [124] @ iso_date (a_created a)) = rev ?d @ rev (y @ [124])"
    by (metis append.assoc append_Cons append_Nil rev.simps(2) rev_append)
  then have "84 = (rev ?d @ rev (y @ [124])) ! ?k" by (metis length_rev nth_append_length)
  moreover have "?k < length (rev ?d)" using assms(2) length_iso_time [of "a_created a"] by simp
  ultimately have "84 \<in> set ?d" by (metis nth_append nth_mem set_rev)
  with assms(1) show False by blast
qed

end
