(* ===== verification/Imports.thy ===== *)
theory Imports
  imports Parser AuditChain
begin

text \<open>
  \<open>app/routers/imports.py\<close>: documents from web pages, HTTP interfaces and databases.  Python's \<open>urlparse\<close> and the address
  classes of \<open>ipaddress\<close> are written out as CPython 3.11 has them; name resolution, the HTTP client, the database driver,
  the check of an IPv6 literal and \<open>repr\<close> of a string are the parameters of \<open>import_env\<close>.
\<close>

section \<open>Addresses\<close>

datatype ip = IPv4 nat | IPv6 nat

text \<open>A network: its address and the length of its prefix.\<close>

definition net4 :: "nat list \<Rightarrow> nat \<Rightarrow> nat \<times> nat" where
  "net4 parts p = (foldl (\<lambda>n x. n * 256 + x) 0 parts, p)"

definition net6 :: "nat list \<Rightarrow> nat \<Rightarrow> nat \<times> nat" where
  "net6 groups p = (foldl (\<lambda>n x. n * 65536 + x) 0 groups, p)"

definition in_net :: "nat \<Rightarrow> nat \<Rightarrow> nat \<times> nat \<Rightarrow> bool" where
  "in_net bits a net \<longleftrightarrow> a div 2 ^ (bits - snd net) = fst net div 2 ^ (bits - snd net)"

definition private4 :: "(nat \<times> nat) list" where
  "private4 = [net4 [0, 0, 0, 0] 8, net4 [10, 0, 0, 0] 8, net4 [127, 0, 0, 0] 8, net4 [169, 254, 0, 0] 16, net4 [172, 16, 0, 0] 12,
     net4 [192, 0, 0, 0] 24, net4 [192, 0, 0, 170] 31, net4 [192, 0, 2, 0] 24, net4 [192, 168, 0, 0] 16, net4 [198, 18, 0, 0] 15,
     net4 [198, 51, 100, 0] 24, net4 [203, 0, 113, 0] 24, net4 [240, 0, 0, 0] 4, net4 [255, 255, 255, 255] 32]"

definition private4_exceptions :: "(nat \<times> nat) list" where
  "private4_exceptions = [net4 [192, 0, 0, 9] 32, net4 [192, 0, 0, 10] 32]"

definition private6 :: "(nat \<times> nat) list" where
  "private6 = [net6 [0, 0, 0, 0, 0, 0, 0, 1] 128, net6 [0, 0, 0, 0, 0, 0, 0, 0] 128, net6 [0, 0, 0, 0, 0, 65535, 0, 0] 96,
     net6 [100, 65435, 1, 0, 0, 0, 0, 0] 48, net6 [256, 0, 0, 0, 0, 0, 0, 0] 64, net6 [8193, 0, 0, 0, 0, 0, 0, 0] 23,
     net6 [8193, 3512, 0, 0, 0, 0, 0, 0] 32, net6 [8194, 0, 0, 0, 0, 0, 0, 0] 16, net6 [64512, 0, 0, 0, 0, 0, 0, 0] 7,
     net6 [65152, 0, 0, 0, 0, 0, 0, 0] 10]"

definition private6_exceptions :: "(nat \<times> nat) list" where
  "private6_exceptions = [net6 [8193, 1, 0, 0, 0, 0, 0, 1] 128, net6 [8193, 1, 0, 0, 0, 0, 0, 2] 128, net6 [8193, 3, 0, 0, 0, 0, 0, 0] 32,
     net6 [8193, 4, 274, 0, 0, 0, 0, 0] 48, net6 [8193, 32, 0, 0, 0, 0, 0, 0] 28, net6 [8193, 48, 0, 0, 0, 0, 0, 0] 28]"

definition reserved6 :: "(nat \<times> nat) list" where
  "reserved6 = map (\<lambda>(g, p). net6 [g, 0, 0, 0, 0, 0, 0, 0] p) [(0, 8), (256, 8), (512, 7), (1024, 6), (2048, 5), (4096, 4), (16384, 3),
     (24576, 3), (32768, 3), (40960, 3), (49152, 3), (57344, 4), (61440, 5), (63488, 6), (65024, 9)]"

definition is_private4 :: "nat \<Rightarrow> bool" where
  "is_private4 a \<longleftrightarrow> list_ex (in_net 32 a) private4 \<and> \<not> list_ex (in_net 32 a) private4_exceptions"

fun is_private :: "ip \<Rightarrow> bool" where
  "is_private (IPv4 a) = is_private4 a"
| "is_private (IPv6 a) = (if a div 2 ^ 32 = 65535 then is_private4 (a mod 2 ^ 32)
     else list_ex (in_net 128 a) private6 \<and> \<not> list_ex (in_net 128 a) private6_exceptions)"

text \<open>\<open>is_loopback\<close>, \<open>is_link_local\<close>, \<open>is_multicast\<close>, \<open>is_reserved\<close> and \<open>is_unspecified\<close>\<close>

fun is_special :: "ip \<Rightarrow> bool" where
  "is_special (IPv4 a) \<longleftrightarrow> in_net 32 a (net4 [127, 0, 0, 0] 8) \<or> in_net 32 a (net4 [169, 254, 0, 0] 16) \<or>
     in_net 32 a (net4 [224, 0, 0, 0] 4) \<or> in_net 32 a (net4 [240, 0, 0, 0] 4) \<or> a = 0"
| "is_special (IPv6 a) \<longleftrightarrow> a = 1 \<or> in_net 128 a (net6 [65152, 0, 0, 0, 0, 0, 0, 0] 10) \<or>
     in_net 128 a (net6 [65280, 0, 0, 0, 0, 0, 0, 0] 8) \<or> list_ex (in_net 128 a) reserved6 \<or> a = 0"

section \<open>What the import calls\<close>

text \<open>A JSON value or a cell of a database row; a value of another type carries its \<open>str\<close>, \<open>repr\<close> and JSON text.\<close>

datatype web_value = WNull | WBool bool | WInt int | WText ustr | WOther ustr ustr ustr | WList "web_value list"
  | WObj "(ustr \<times> web_value) list"

text \<open>The body is the decoded body, \<open>rs_json\<close> what \<open>response.json()\<close> gives, \<open>None\<close> where it raises.\<close>

record http_response =
  rs_status :: nat
  rs_content_length :: "ustr option"
  rs_content_type :: "string option"
  rs_body :: "nat list"
  rs_json :: "web_value option"

text \<open>\<open>httpx.HTTPError\<close>, and any other exception, such as \<open>httpx.InvalidURL\<close>\<close>

datatype http_fetch = Fetched http_response | FetchError | FetchCrash

record import_env =
  ie_bracket_ok :: "ustr \<Rightarrow> bool"
  ie_resolve :: "ustr \<Rightarrow> ip list option"
  ie_get :: "ustr \<Rightarrow> (ustr \<times> ustr) list \<Rightarrow> http_fetch"
  ie_query :: "ustr \<Rightarrow> ustr \<Rightarrow> (ustr list \<times> web_value list list) option"
  ie_repr :: "ustr \<Rightarrow> ustr"

record import_settings =
  external_source_allowed_hosts :: ustr
  external_source_max_rows :: nat

record import_request =
  ir_kb :: string
  ir_source_type :: string
  ir_name :: ustr
  ir_url :: ustr
  ir_query :: "ustr option"
  ir_headers :: "(ustr \<times> ustr) list"
  ir_json_path :: "ustr option"
  ir_max_rows :: nat

definition import_request_ok :: "import_request \<Rightarrow> bool" where
  "import_request_ok b \<longleftrightarrow> ir_source_type b \<in> {''web'', ''api'', ''database''} \<and> 1 \<le> length (ir_name b) \<and> length (ir_name b) \<le> 255 \<and>
     length (coalesce (ir_query b) []) \<le> 5000 \<and> length (coalesce (ir_json_path b) []) \<le> 255 \<and> 1 \<le> ir_max_rows b \<and> ir_max_rows b \<le> 10000"

section \<open>Where an import may go\<close>

definition allowlist :: "unicode \<Rightarrow> import_settings \<Rightarrow> ustr list" where
  "allowlist U icfg = map (\<lambda>v. casefold U (strip v)) (filter (\<lambda>v. strip v \<noteq> []) (split_char 44 (external_source_allowed_hosts icfg)))"

definition allowed_host :: "unicode \<Rightarrow> import_settings \<Rightarrow> import_env \<Rightarrow> ustr \<Rightarrow> bool" where
  "allowed_host U icfg E hostname \<longleftrightarrow> casefold U hostname \<in> set (allowlist U icfg) \<or>
     (case ie_resolve E hostname of None \<Rightarrow> False
      | Some addresses \<Rightarrow> list_all (\<lambda>a. \<not> (is_private a \<or> is_special a)) addresses)"

definition scheme_char :: "nat \<Rightarrow> bool" where
  "scheme_char c \<longleftrightarrow> (97 \<le> c \<and> c \<le> 122) \<or> (65 \<le> c \<and> c \<le> 90) \<or> (48 \<le> c \<and> c \<le> 57) \<or> c \<in> {43, 45, 46}"

definition until_char :: "(nat \<Rightarrow> bool) \<Rightarrow> ustr \<Rightarrow> ustr" where
  "until_char P s = takeWhile (\<lambda>c. \<not> P c) s"

definition after_last :: "nat \<Rightarrow> ustr \<Rightarrow> ustr" where
  "after_last k s = rev (takeWhile (\<lambda>c. c \<noteq> k) (rev s))"

text \<open>\<open>urlsplit\<close>: the scheme and what follows it.\<close>

definition split_scheme :: "unicode \<Rightarrow> ustr \<Rightarrow> ustr \<times> ustr" where
  "split_scheme U value =
     (let url = filter (\<lambda>c. c \<notin> {9, 13, 10}) (dropWhile (\<lambda>c. c \<le> 32) value); scheme = until_char (\<lambda>c. c = 58) url in
      if 58 \<in> set url \<and> scheme \<noteq> [] \<and> ((97 \<le> hd url \<and> hd url \<le> 122) \<or> (65 \<le> hd url \<and> hd url \<le> 90)) \<and> list_all scheme_char scheme
      then (lower U scheme, drop (length scheme + 1) url) else ([], url))"

text \<open>\<open>_checknetloc\<close>\<close>

definition netloc_ok :: "unicode \<Rightarrow> ustr \<Rightarrow> bool" where
  "netloc_ok U netloc \<longleftrightarrow> list_all (\<lambda>c. c < 128) netloc \<or>
     (let n = filter (\<lambda>c. c \<notin> {64, 58, 35, 63}) netloc in nfkc U n = n \<or> \<not> list_ex (\<lambda>c. c \<in> {47, 63, 35, 64, 58}) (nfkc U n))"

definition bracketed :: "ustr \<Rightarrow> ustr" where
  "bracketed s = until_char (\<lambda>c. c = 93) (drop 1 (dropWhile (\<lambda>c. c \<noteq> 91) s))"

definition hostname_of :: "unicode \<Rightarrow> ustr \<Rightarrow> ustr" where
  "hostname_of U netloc =
     (let hostinfo = after_last 64 netloc;
          host = (if 91 \<in> set hostinfo then bracketed hostinfo else until_char (\<lambda>c. c = 58) hostinfo)
      in lower U (until_char (\<lambda>c. c = 37) host) @ dropWhile (\<lambda>c. c \<noteq> 37) host)"

text \<open>\<open>urlparse(value)\<close>: scheme and hostname; \<open>None\<close> where it raises \<open>ValueError\<close>.\<close>

definition parse_url :: "unicode \<Rightarrow> import_env \<Rightarrow> ustr \<Rightarrow> (ustr \<times> ustr) option" where
  "parse_url U E value = (case split_scheme U value of (scheme, url) \<Rightarrow>
     let netloc = (if startswith url [47, 47] then until_char (\<lambda>c. c \<in> {47, 63, 35}) (drop 2 url) else []) in
     if (91 \<in> set netloc) \<noteq> (93 \<in> set netloc) then None
     else if 91 \<in> set netloc \<and> \<not> ie_bracket_ok E (bracketed netloc) then None
     else if \<not> netloc_ok U netloc then None
     else Some (scheme, hostname_of U netloc))"

definition validate_url :: "unicode \<Rightarrow> import_settings \<Rightarrow> import_env \<Rightarrow> bool \<Rightarrow> ustr \<Rightarrow> bool" where
  "validate_url U icfg E database value = (case parse_url U E value of None \<Rightarrow> False
     | Some (scheme, hostname) \<Rightarrow>
         scheme \<in> set (map u (if database then [''postgresql'', ''postgresql+psycopg''] else [''http'', ''https''])) \<and>
         hostname \<noteq> [] \<and> allowed_host U icfg E hostname)"

definition validate_database_query :: "unicode \<Rightarrow> ustr \<Rightarrow> ustr option" where
  "validate_database_query U query = (let normalized = strip query; folded = casefold U normalized in
     if normalized = [] \<or> \<not> (startswith folded (u ''select '') \<or> startswith folded (u ''with '')) \<or> 59 \<in> set normalized
     then None else Some normalized)"

section \<open>Records as text\<close>

text \<open>\<open>isdigit\<close> also holds for digits that \<open>int\<close> refuses; both answers are a \<open>ValueError\<close>.  An index past the end is an
  \<open>IndexError\<close>, which the handler does not catch.\<close>

fun select_json_path :: "ustr list \<Rightarrow> web_value \<Rightarrow> web_value http" where
  "select_json_path [] v = Inr v"
| "select_json_path (part # parts) v =
     (if part = [] then select_json_path parts v
      else case v of WObj kvs \<Rightarrow> select_json_path parts (coalesce (map_of kvs part) WNull)
       | WList xs \<Rightarrow> if list_all is_decimal part
           then (let i = nat (int_of_digits part) in if i < length xs then select_json_path parts (xs ! i) else Inl 500)
           else Inl 400
       | _ \<Rightarrow> Inl 400)"

text \<open>\<open>json.dumps(value, ensure_ascii=False)\<close>, \<open>repr\<close> and \<open>str\<close>\<close>

fun dumps_text :: "web_value \<Rightarrow> ustr" where
  "dumps_text WNull = u ''null''"
| "dumps_text (WBool b) = (if b then u ''true'' else u ''false'')"
| "dumps_text (WInt n) = u (show_int n)"
| "dumps_text (WText s) = json_quote s"
| "dumps_text (WOther a b c) = c"
| "dumps_text (WList xs) = [91] @ ujoin [44, 32] (map dumps_text xs) @ [93]"
| "dumps_text (WObj kvs) = [123] @ ujoin [44, 32] (map (\<lambda>(k, v). json_quote k @ [58, 32] @ dumps_text v) kvs) @ [125]"

fun repr_text :: "(ustr \<Rightarrow> ustr) \<Rightarrow> web_value \<Rightarrow> ustr" where
  "repr_text r WNull = u ''None''"
| "repr_text r (WBool b) = (if b then u ''True'' else u ''False'')"
| "repr_text r (WInt n) = u (show_int n)"
| "repr_text r (WText s) = r s"
| "repr_text r (WOther a b c) = b"
| "repr_text r (WList xs) = [91] @ ujoin [44, 32] (map (repr_text r) xs) @ [93]"
| "repr_text r (WObj kvs) = [123] @ ujoin [44, 32] (map (\<lambda>(k, v). r k @ [58, 32] @ repr_text r v) kvs) @ [125]"

definition str_text :: "(ustr \<Rightarrow> ustr) \<Rightarrow> web_value \<Rightarrow> ustr" where
  "str_text r v = (case v of WText s \<Rightarrow> s | WOther a b c \<Rightarrow> a | _ \<Rightarrow> repr_text r v)"

fun fields_of :: "web_value \<Rightarrow> (ustr \<times> web_value) list option" where
  "fields_of (WObj kvs) = Some kvs"
| "fields_of v = None"

definition table_columns :: "(ustr \<times> web_value) list list \<Rightarrow> ustr list" where
  "table_columns rows = dedup (concat (map (map fst) rows))"

definition table_cell :: "(ustr \<Rightarrow> ustr) \<Rightarrow> (ustr \<times> web_value) list \<Rightarrow> ustr \<Rightarrow> ustr" where
  "table_cell r row column = replace_all [10] [32] (str_text r (coalesce (map_of row column) (WText [])))"

definition table_text :: "(ustr \<Rightarrow> ustr) \<Rightarrow> (ustr \<times> web_value) list list \<Rightarrow> ustr" where
  "table_text r rows = (let columns = table_columns rows in
     ujoin [10] ([ujoin (u '' | '') columns, ujoin (u '' | '') (replicate (length columns) (u ''---''))] @
       map (\<lambda>row. ujoin (u '' | '') (map (table_cell r row) columns)) rows))"

definition records_markdown :: "(ustr \<Rightarrow> ustr) \<Rightarrow> web_value \<Rightarrow> nat \<Rightarrow> ustr" where
  "records_markdown r records max_rows =
     (case (case records of WObj kvs \<Rightarrow> WList [WObj kvs] | v \<Rightarrow> v) of
        WList xs \<Rightarrow> (let rows = take max_rows xs in
          if rows = [] then [] else case those (map fields_of rows) of
            None \<Rightarrow> ujoin [10] (map dumps_text rows) | Some table \<Rightarrow> table_text r table)
      | v \<Rightarrow> str_text r v)"

text \<open>\<open>str.encode()\<close>; a surrogate raises \<open>UnicodeEncodeError\<close>, which is a \<open>ValueError\<close>.\<close>

definition utf8_char :: "nat \<Rightarrow> nat list" where
  "utf8_char c = (if c < 128 then [c] else if c < 2048 then [192 + c div 64, 128 + c mod 64]
     else if c < 65536 then [224 + c div 4096, 128 + c div 64 mod 64, 128 + c mod 64]
     else [240 + c div 262144, 128 + c div 4096 mod 64, 128 + c div 64 mod 64, 128 + c mod 64])"

definition utf8_encode :: "ustr \<Rightarrow> nat list http" where
  "utf8_encode t = (if list_ex (\<lambda>c. 55296 \<le> c \<and> c \<le> 57343) t then Inl 400 else Inr (concat (map utf8_char t)))"

section \<open>Fetching\<close>

text \<open>\<open>int(text)\<close>\<close>

definition py_int :: "ustr \<Rightarrow> int option" where
  "py_int t = (let s = strip t; body = (if s \<noteq> [] \<and> hd s \<in> {43, 45} then tl s else s); groups = split_char 95 body in
     if list_all (\<lambda>g. g \<noteq> [] \<and> list_all is_decimal g) groups
     then Some (if startswith s [45] then - int_of_digits (concat groups) else int_of_digits (concat groups)) else None)"

definition upload_limit :: "settings \<Rightarrow> int" where
  "upload_limit cfg = int (max_upload_mb cfg * 1024 * 1024)"

text \<open>Payload, extension, MIME type and metadata.\<close>

type_synonym fetched = "nat list \<times> ustr \<times> string \<times> json"

definition safe_headers :: "unicode \<Rightarrow> (ustr \<times> ustr) list \<Rightarrow> (ustr \<times> ustr) list" where
  "safe_headers U = filter (\<lambda>(k, v). casefold U k \<notin> set (map u [''host'', ''content-length'', ''connection'']))"

definition http_payload :: "import_settings \<Rightarrow> import_env \<Rightarrow> import_request \<Rightarrow> http_response \<Rightarrow> string \<Rightarrow> (nat list \<times> ustr) http" where
  "http_payload icfg E b r content_type =
     (if ir_source_type b = ''web'' then Inr (rs_body r, if contains (u ''html'') (u content_type) then u ''.html'' else u ''.txt'')
      else if contains (u ''json'') (u content_type) then
        (case rs_json r of None \<Rightarrow> Inl 400
         | Some whole \<Rightarrow> case select_json_path (split_char 46 (coalesce (ir_json_path b) [])) whole of Inl e \<Rightarrow> Inl e
         | Inr v \<Rightarrow> case utf8_encode (records_markdown (ie_repr E) v (min (ir_max_rows b) (external_source_max_rows icfg))) of Inl e \<Rightarrow> Inl e
         | Inr payload \<Rightarrow> Inr (payload, u ''.md''))
      else Inr (rs_body r, u ''.md''))"

definition fetch_http :: "unicode \<Rightarrow> settings \<Rightarrow> import_settings \<Rightarrow> import_env \<Rightarrow> import_request \<Rightarrow> fetched http" where
  "fetch_http U cfg icfg E b =
     (if \<not> validate_url U icfg E False (ir_url b) then Inl 400
      else case ie_get E (ir_url b) (safe_headers U (ir_headers b)) of FetchError \<Rightarrow> Inl 400 | FetchCrash \<Rightarrow> Inl 500
      | Fetched r \<Rightarrow>
          if \<not> (200 \<le> rs_status r \<and> rs_status r \<le> 299) then Inl 400
          else case (if coalesce (rs_content_length r) [] = [] then Some 0 else py_int (coalesce (rs_content_length r) [])) of None \<Rightarrow> Inl 400
          | Some announced \<Rightarrow>
              if upload_limit cfg < announced then Inl 400
              else let content_type = takeWhile (\<lambda>c. c \<noteq> CHR '';'') (coalesce (rs_content_type r) []) in
                case http_payload icfg E b r content_type of Inl e \<Rightarrow> Inl e
                | Inr (payload, extension) \<Rightarrow>
                    if upload_limit cfg < int (length payload) then Inl 400
                    else Inr (payload, extension, if content_type = [] then ''text/plain'' else content_type,
                      JObj [(''http_status'', JInt (int (rs_status r))), (''content_type'', JStr (u content_type))]))"

text \<open>\<open>dict(zip(columns, row))\<close>: a repeated name keeps its first place and its last value.\<close>

definition dict_of :: "(ustr \<times> web_value) list \<Rightarrow> (ustr \<times> web_value) list" where
  "dict_of kvs = map (\<lambda>k. (k, coalesce (map_of (rev kvs) k) WNull)) (dedup (map fst kvs))"

text \<open>An exception of the driver is no \<open>ValueError\<close>.\<close>

definition fetch_database :: "unicode \<Rightarrow> import_settings \<Rightarrow> import_env \<Rightarrow> import_request \<Rightarrow> fetched http" where
  "fetch_database U icfg E b =
     (if \<not> validate_url U icfg E True (ir_url b) then Inl 400
      else case validate_database_query U (coalesce (ir_query b) []) of None \<Rightarrow> Inl 400 | Some query \<Rightarrow>
      case ie_query E (ir_url b) query of None \<Rightarrow> Inl 500 | Some (columns, all_rows) \<Rightarrow>
        let rows = take (min (ir_max_rows b) (external_source_max_rows icfg)) all_rows;
            records = WList (map (\<lambda>row. WObj (dict_of (zip columns row))) rows)
        in case utf8_encode (records_markdown (ie_repr E) records (ir_max_rows b)) of Inl e \<Rightarrow> Inl e
           | Inr payload \<Rightarrow> Inr (payload, u ''.md'', ''text/markdown'',
               JObj [(''row_count'', JInt (int (length rows))), (''columns'', JList (map JStr columns))]))"

definition fetch_source :: "unicode \<Rightarrow> settings \<Rightarrow> import_settings \<Rightarrow> import_env \<Rightarrow> import_request \<Rightarrow> fetched http" where
  "fetch_source U cfg icfg E b = (if ir_source_type b = ''database'' then fetch_database U icfg E b else fetch_http U cfg icfg E b)"

section \<open>The import\<close>

definition imported_document :: "ctx \<Rightarrow> string \<Rightarrow> knowledge_base \<Rightarrow> import_request \<Rightarrow> fetched \<Rightarrow> document" where
  "imported_document c user_id kb b x = (case x of (payload, extension, mime_type, metadata) \<Rightarrow>
     \<lparr>d_id = fresh c 1, d_owner = user_id, d_kb = k_id kb, d_filename = path_stem (ir_name b) @ extension,
      d_object_key = object_key_for kb (fresh c 0) extension, d_hash = sha256 c payload, d_mime = Some mime_type,
      d_size = int (length payload), d_status = Uploaded, d_stage = status_value Uploaded,
      d_error = None, d_retry = 0, d_token = None, d_worker = None, d_started = None,
      d_finished = None, d_heartbeat = None, d_chunk_count = 0, d_active = None,
      d_target = None, d_embedding_model = None, d_chunk_strategy = ''recursive'',
      d_config_hash = None, d_fingerprint = None, d_source_type = ir_source_type b,
      d_source_url = Some (if ir_source_type b = ''database'' then after_last 64 (ir_url b) else ir_url b),
      d_source_metadata = metadata, d_department = None, d_tags = [], d_language = None, d_embedding_dim = None,
      d_quarantined = False, d_created = now c, d_updated = now c\<rparr>)"

definition import_audit :: "ctx \<Rightarrow> string \<Rightarrow> knowledge_base \<Rightarrow> import_request \<Rightarrow> document \<Rightarrow> audit_args" where
  "import_audit c user_id kb b d = (audit_event ''document.import'' ''document'' (Some user_id))
     \<lparr>ae_resource := Some (d_id d), ae_ws := Some (k_ws kb), ae_request := Some (req c),
      ae_after := Some (JObj [(''source_type'', jid (ir_source_type b)), (''filename'', JStr (d_filename d))])\<rparr>"

definition import_source ::
  "settings \<Rightarrow> import_settings \<Rightarrow> import_env \<Rightarrow> ctx \<Rightarrow> string \<Rightarrow> import_request \<Rightarrow> bool \<Rightarrow> sys \<Rightarrow> (sys \<times> document) http" where
  "import_source cfg icfg E c user_id b storage_ok s =
     (if \<not> import_request_ok b then Inl 422
      else case get_kb_with_permission s (ir_kb b) user_id PWrite of Inl e \<Rightarrow> Inl e | Inr kb \<Rightarrow>
      case fetch_source (uni c) cfg icfg E b of Inl e \<Rightarrow> Inl e | Inr x \<Rightarrow>
      if fst x = [] then Inl 400
      else if \<exists>d \<in> set (docs s). d_owner d = user_id \<and> d_kb d = ir_kb b \<and> d_hash d = sha256 c (fst x) then Inl 409
      else if used_bytes s (k_ws kb) + int (length (fst x)) > quota_bytes cfg then Inl 413
      else if \<not> storage_ok then Inl 500
      else
        let d = imported_document c user_id kb b x;
            event = ingest_event c (fresh c 2) (d_id d)
              (JObj [(''document_id'', jid (d_id d)), (''workspace_id'', jid (k_ws kb))])
              (''document.ingest.initial:'' @ d_id d);
            s1 = put_object (d_object_key d) (now c) s
        in Inr (add_audit_event c 3 (import_audit c user_id kb b d) (add_event event (s1\<lparr>docs := docs s1 @ [d]\<rparr>)), d))"

end
