(* ===== verification/Environment.thy ===== *)
theory Environment
  imports Imports
begin

text \<open>
  What every request and background task may do to the documents and chunks an ingestion worker is
  working on.  \<open>env_move\<close> has one rule per handler and task of the previous theories; the contract
  \<open>env_step\<close> says that a document keeps its active version, that its lease is kept or dropped,
  never granted, that a new target version is always the one after the active version, and that
  no chunk is added and none changes its version, place or text.
\<close>

definition env_ok :: "document \<Rightarrow> document \<Rightarrow> bool" where
  "env_ok d d' \<longleftrightarrow> d_id d' = d_id d \<and> d_active d' = d_active d \<and>
     (d_token d' = d_token d \<or> d_token d' = None) \<and>
     (d_target d' = d_target d \<or> d_target d' = Some (next_version d))"

definition new_doc :: "document \<Rightarrow> bool" where
  "new_doc d \<longleftrightarrow> d_token d = None \<and> d_active d = None \<and> d_target d = None"

definition chunk_key :: "chunk \<Rightarrow> string \<times> nat \<times> nat \<times> ustr" where
  "chunk_key x = (c_doc x, c_version x, c_seq x, c_content x)"

definition doc_ids :: "sys \<Rightarrow> string list" where
  "doc_ids s = map d_id (docs s)"

definition quiet_step :: "sys \<Rightarrow> sys \<Rightarrow> bool" where
  "quiet_step s t \<longleftrightarrow> (\<forall>d' \<in> set (docs t). \<exists>d \<in> set (docs s). env_ok d d') \<and>
     (distinct (doc_ids s) \<longrightarrow> distinct (doc_ids t)) \<and>
     subseq (map chunk_key (chunks t)) (map chunk_key (chunks s))"

inductive env_step :: "sys \<Rightarrow> sys \<Rightarrow> bool" where
  quiet: "quiet_step s t \<Longrightarrow> env_step s t"
| insert: "docs t = docs s @ [d] \<Longrightarrow> new_doc d \<Longrightarrow> d_id d \<notin> set (doc_ids s) \<Longrightarrow> chunks t = chunks s \<Longrightarrow>
    env_step s t"

lemma env_ok_refl [simp]: "env_ok d d"
  by (simp add: env_ok_def)

lemma env_ok_trans: "env_ok a b \<Longrightarrow> env_ok b c \<Longrightarrow> env_ok a c"
  by (auto simp: env_ok_def next_version_def)

lemma docs_env_ok: "set xs \<subseteq> set ys \<Longrightarrow> \<forall>d' \<in> set xs. \<exists>d \<in> set ys. env_ok d d'"
  using env_ok_refl by blast

lemma quiet_same [simp]: "docs t = docs s \<Longrightarrow> chunks t = chunks s \<Longrightarrow> quiet_step s t"
  unfolding quiet_step_def by (intro conjI docs_env_ok) (simp_all add: doc_ids_def)

text \<open>The contract for an update, a removal and a change of chunks, and for one step after another.\<close>

lemma quiet_update:
  assumes "\<And>d. P d \<Longrightarrow> env_ok d (f d)" and "docs t = update_where P f (docs s)"
    and "subseq (map chunk_key (chunks t)) (map chunk_key (chunks s))"
  shows "quiet_step s t"
proof -
  have "map d_id (update_where P f (docs s)) = map d_id (docs s)"
    by (rule map_update_where) (use assms(1) in \<open>auto simp: env_ok_def\<close>)
  moreover have "\<exists>d \<in> set (docs s). env_ok d d'" if d': "d' \<in> set (docs t)" for d'
  proof -
    obtain d where "d \<in> set (docs s)" "d' = (if P d then f d else d)"
      using d' unfolding assms(2) in_update_where by blast
    then show ?thesis
      using assms(1) [of d] env_ok_refl [of d] by (intro bexI [of _ d]) auto
  qed
  ultimately show ?thesis
    using assms(2,3) by (simp add: quiet_step_def doc_ids_def)
qed

lemma subseq_delete_where: "subseq (map g (delete_where P xs)) (map g xs)"
  unfolding delete_where_def by (rule subseq_map) (rule subseq_filter_left)

lemma quiet_delete:
  assumes "docs t = delete_where P (docs s)" "chunks t = delete_where Q (chunks s)"
  shows "quiet_step s t"
proof -
  have "\<forall>d' \<in> set (docs t). \<exists>d \<in> set (docs s). env_ok d d'"
    by (rule docs_env_ok) (auto simp: assms(1) in_delete_where)
  moreover have "distinct (doc_ids s) \<longrightarrow> distinct (doc_ids t)"
    by (simp add: assms(1) doc_ids_def delete_where_def distinct_map_filter)
  ultimately show ?thesis
    using subseq_delete_where [of chunk_key Q "chunks s"] by (simp add: quiet_step_def assms(2))
qed

lemma quiet_delete_chunks:
  assumes "docs t = docs s" "chunks t = delete_where Q (chunks s)"
  shows "quiet_step s t"
proof -
  have "docs t = delete_where (\<lambda>_. False) (docs s)"
    by (simp add: assms(1) delete_where_def)
  then show ?thesis using assms(2) by (rule quiet_delete)
qed

lemma chunk_source_url [simp]:
  "map chunk_key (update_where P (\<lambda>x. x\<lparr>c_source_url := v\<rparr>) xs) = map chunk_key xs"
  by (rule map_update_where) (simp add: chunk_key_def)

lemma quiet_trans:
  assumes "quiet_step r s" "quiet_step s t"
  shows "quiet_step r t"
proof -
  have "\<exists>d \<in> set (docs r). env_ok d d'" if "d' \<in> set (docs t)" for d'
    using assms that unfolding quiet_step_def by (meson env_ok_trans)
  then show ?thesis
    using assms unfolding quiet_step_def by (meson subseq_order.trans)
qed

lemma quiet_upd_docs: "(\<And>d. P d \<Longrightarrow> env_ok d (f d)) \<Longrightarrow> quiet_step s (upd_docs P f s)"
  by (rule quiet_update [where P = P and f = f]) simp_all

lemma quiet_then_same: "quiet_step r s \<Longrightarrow> docs t = docs s \<Longrightarrow> chunks t = chunks s \<Longrightarrow> quiet_step r t"
  by (rule quiet_trans [OF _ quiet_same])

section \<open>Every handler and task keeps the contract\<close>

lemma env_ok_changes:
  "env_ok d (tombstone c d)" "env_ok d (reclaim c d)"
  "env_ok d (stamp c (set_status st d))"
  "env_ok d (requeue c d)"
  "env_ok d (stamp c (drop_lease (set_status st d)\<lparr>d_error := e\<rparr>))"
  "env_ok d (stamp c (d\<lparr>d_quarantined := q\<rparr>))"
  by (simp_all add: env_ok_def tombstone_def reclaim_def requeue_def stamp_def set_status_def
      drop_lease_def ensure_target_def next_version_def coalesce_def split: option.splits)

text \<open>The steps handlers are made of; the collection \<open>quiet\<close> combines them.\<close>

lemma quiet_cascade: "quiet_step s (cascade_documents P s)"
  by (rule quiet_delete) (simp_all add: cascade_documents_def Let_def)

lemma quiet_delete_chunks_op: "quiet_step s (delete_chunks P s)"
  by (rule quiet_delete_chunks) (simp_all add: delete_chunks_def Let_def)

lemma fold_delete_object [simp]:
  "docs (fold delete_object ks s) = docs s" "chunks (fold delete_object ks s) = chunks s"
  by (induction ks arbitrary: s) (simp_all add: delete_object_def)

lemma object_simps [simp]:
  "docs (put_object k t s) = docs s" "chunks (put_object k t s) = chunks s"
  "docs (delete_object k s) = docs s" "chunks (delete_object k s) = chunks s"
  by (simp_all add: put_object_def delete_object_def)

lemma upload_document_step:
  assumes "upload_document cfg c uid kb f ok s = Inr (t, d)" "fresh c 1 \<notin> set (doc_ids s)"
  shows "env_step s t"
proof (rule env_step.insert [of _ _ d])
  show "docs t = docs s @ [d]" "new_doc d" "chunks t = chunks s" "d_id d \<notin> set (doc_ids s)"
    using assms by (auto simp: upload_document_def Let_def new_doc_def split: sum.splits if_splits)
qed

lemma import_source_cases:
  assumes "import_source cfg icfg E c uid b ok s = Inr (t, d)"
  obtains kb x event audit where "get_kb_with_permission s (ir_kb b) uid PWrite = Inr kb"
    "fetch_source (uni c) cfg icfg E b = Inr x" "fst x \<noteq> []" "import_request_ok b"
    "used_bytes s (k_ws kb) + int (length (fst x)) \<le> quota_bytes cfg"
    "\<not> (\<exists>y \<in> set (docs s). d_owner y = uid \<and> d_kb y = ir_kb b \<and> d_hash y = sha256 c (fst x))"
    "d = imported_document c uid kb b x"
    "t = add_audit_event c 3 audit (add_event event (put_object (d_object_key d) (now c) s\<lparr>docs := docs s @ [d]\<rparr>))"
    "o_agg_id event = d_id d" "o_status event = OPending"
  using assms by (auto simp: import_source_def Let_def ingest_event_def new_event_def put_object_def split: sum.splits if_splits)

lemma import_source_step:
  assumes "import_source cfg icfg E c uid b ok s = Inr (t, d)" "fresh c 1 \<notin> set (doc_ids s)"
  shows "env_step s t"
proof -
  obtain kb x event audit where "d = imported_document c uid kb b x"
    "t = add_audit_event c 3 audit (add_event event (put_object (d_object_key d) (now c) s\<lparr>docs := docs s @ [d]\<rparr>))"
    using assms(1) by (rule import_source_cases)
  moreover have "new_doc (imported_document c uid kb b x)" "d_id (imported_document c uid kb b x) = fresh c 1"
    by (simp_all add: imported_document_def new_doc_def split: prod.split)
  ultimately show ?thesis using assms(2) by (intro env_step.insert [of t s d]) simp_all
qed

lemma quiet_by_update:
  assumes "\<exists>P f. docs t = update_where P f (docs s) \<and> (\<forall>d. env_ok d (f d))"
    and "map chunk_key (chunks t) = map chunk_key (chunks s)"
  shows "quiet_step s t"
proof -
  obtain P f where "docs t = update_where P f (docs s)" "\<forall>d. env_ok d (f d)"
    using assms(1) by blast
  then show ?thesis using assms(2) by (intro quiet_update [where P = P and f = f]) simp_all
qed

lemmas quiet_splits = sum.splits if_splits option.splits

lemma updateI: "\<forall>d. env_ok d (f d) \<Longrightarrow>
    \<exists>Q g. update_where P f xs = update_where Q g xs \<and> (\<forall>d. env_ok d (g d))"
  by blast

lemma replace_document_docs:
  assumes "replace_document_content cfg c uid i f ok del s = Inr (t, d)"
  obtains g where "docs t = update_where (\<lambda>d. d_id d = i) g (docs s)" "\<And>d. env_ok d (g d)"
    "chunks t = chunks s"
  using assms
  by (auto simp: replace_document_content_def Let_def env_ok_def stamp_def set_status_def
      split: sum.splits if_splits option.splits)

lemma replace_document_quiet:
  assumes "replace_document_content cfg c uid i f ok del s = Inr (t, d)"
  shows "quiet_step s t"
  using assms by (rule replace_document_docs) (rule quiet_by_update; blast?; simp)

lemma update_metadata_quiet:
  assumes "update_document_metadata c uid i dep tags url s = Inr (t, d)"
  shows "quiet_step s t"
  by (rule quiet_by_update)
    (use assms in \<open>auto simp: update_document_metadata_def Let_def intro!: updateI split: quiet_splits\<close>,
     simp_all add: env_ok_def stamp_def)

lemma reindex_quiet:
  assumes "reindex_document c uid i s = Inr (t, d)"
  shows "quiet_step s t"
  by (rule quiet_by_update)
    (use assms in \<open>auto simp: reindex_document_def Let_def intro!: updateI split: quiet_splits\<close>,
     simp_all add: env_ok_def stamp_def set_status_def)

lemma cancel_quiet:
  assumes "cancel_ingestion c uid i s = Inr (t, d)"
  shows "quiet_step s t"
  by (rule quiet_by_update)
    (use assms in \<open>auto simp: cancel_ingestion_def Let_def env_ok_changes intro!: updateI split: quiet_splits\<close>)

lemma delete_document_quiet:
  assumes "delete_document c uid i s = Inr (t, d)"
  shows "quiet_step s t"
  by (rule quiet_by_update)
    (use assms in \<open>auto simp: delete_document_def delete_document_resources_def Let_def env_ok_changes
       intro!: updateI split: quiet_splits\<close>)

lemma delete_knowledge_base_quiet: "quiet_step s (delete_knowledge_base c n kb uid s)"
proof -
  define s1 where "s1 = upd_docs (\<lambda>d. d_kb d = k_id kb) (tombstone c) s"
  have 1: "quiet_step s s1"
    unfolding s1_def by (rule quiet_upd_docs) (simp add: env_ok_changes)
  have "quiet_step s2 t" if "docs s2 = docs s1" "chunks s2 = chunks s1"
      "t = delete_knowledge_base c n kb uid s" for s2 t
    by (rule quiet_delete) (simp_all add: that delete_knowledge_base_def Let_def
        cascade_documents_def s1_def)
  from this [of s1] 1 show ?thesis by (blast intro: quiet_trans)
qed

lemma delete_kb_quiet:
  assumes "delete_kb c uid i s = Inr (t, d)"
  shows "quiet_step s t"
proof -
  obtain kb e where "t = delete_knowledge_base c 1 kb uid (add_audit_event c 0 e s)"
    using assms by (auto simp: delete_kb_def Let_def split: quiet_splits)
  moreover have "quiet_step s (add_audit_event c 0 e s)" by simp
  ultimately show ?thesis using delete_knowledge_base_quiet by (blast intro: quiet_trans)
qed

lemma replay_quiet:
  assumes "replay_dead_letter c uid l st s = Inr (t, y)"
  shows "quiet_step s t"
proof (cases "docs t = docs s \<and> chunks t = chunks s")
  case False
  then show ?thesis
    by (intro quiet_by_update)
      (use assms in \<open>auto simp: replay_dead_letter_def Let_def env_ok_changes intro!: updateI
         split: quiet_splits\<close>)
qed simp

lemma discard_quiet: "discard_dead_letter c uid l s = Inr (t, y) \<Longrightarrow> quiet_step s t"
  by (auto simp: discard_dead_letter_def Let_def split: quiet_splits)

lemma resume_quiet:
  assumes "resume_from_stage c uid i st s = Inr (t, d)"
  shows "quiet_step s t"
  by (rule quiet_by_update)
    (use assms in \<open>auto simp: resume_from_stage_def Let_def env_ok_changes intro!: updateI
       split: quiet_splits\<close>)

lemma release_quiet:
  assumes "release_quarantine c uid i s = Inr (t, d)"
  shows "quiet_step s t"
  by (rule quiet_by_update)
    (use assms in \<open>auto simp: release_quarantine_def Let_def env_ok_changes intro!: updateI
       split: quiet_splits\<close>)

lemma publish_event_quiet:
  assumes "publish_event c send e s = Inr t"
  shows "quiet_step s t"
proof (cases "docs t = docs s \<and> chunks t = chunks s")
  case False
  then show ?thesis
    by (intro quiet_by_update)
      (use assms in \<open>auto simp: publish_event_def env_ok_changes intro!: updateI split: quiet_splits\<close>)
qed simp

lemma dispatch_event_quiet: "quiet_step s (dispatch_event cfg c send l e s)"
proof -
  have "quiet_step s (set_event e f t)" if "publish_event c send x s = Inr t" for x t f
    using publish_event_quiet [OF that] by (rule quiet_then_same) simp_all
  then show ?thesis by (auto simp: dispatch_event_def Let_def split: quiet_splits)
qed

lemma dispatch_all_quiet: "quiet_step s (dispatch_all cfg c send n es s)"
proof (induction es arbitrary: n s)
  case (Cons e es)
  have "quiet_step s (dispatch_event cfg c (send e) (fresh c n) e s)" by (rule dispatch_event_quiet)
  with Cons show ?case by (simp add: quiet_trans [OF _ Cons])
qed simp

lemma dispatch_outbox_quiet: "quiet_step s (dispatch_outbox_batch cfg c send s)"
proof -
  have "quiet_step s (fst (lease_events cfg c s))"
    by (simp add: lease_events_def Let_def)
  then show ?thesis
    by (auto simp: dispatch_outbox_batch_def split: prod.splits intro: quiet_trans dispatch_all_quiet)
qed

lemma reconcile_stale_quiet: "quiet_step s (reconcile_stale_ingestion c n s)"
  by (rule quiet_by_update) (auto simp: reconcile_stale_ingestion_def Let_def env_ok_changes intro!: updateI)

lemma cleanup_quiet: "quiet_step s (cleanup_superseded_indexes i s)"
  by (auto simp: cleanup_superseded_indexes_def quiet_delete_chunks_op split: option.splits)

lemma orphan_quiet: "quiet_step s (fst (reconcile_orphan_objects cfg c dry s))"
proof -
  have "docs (fold (\<lambda>(k, _). delete_object k) xs s) = docs s \<and>
      chunks (fold (\<lambda>(k, _). delete_object k) xs s) = chunks s" for xs :: "(string \<times> datetime) list" and s
    by (induction xs arbitrary: s) auto
  then show ?thesis by (simp add: reconcile_orphan_objects_def Let_def)
qed

lemma delete_resources_quiet: "quiet_step s (delete_resources cfg c p n err s)"
proof (cases err)
  case None
  have "quiet_step s (cascade_documents P (fold delete_object ks s))" for P ks
    by (rule quiet_trans [OF _ quiet_cascade]) simp
  then have "quiet_step s (cascade_documents P (fold delete_object ks s)\<lparr>invalidated := v\<rparr>)" for P ks v
    by (rule quiet_then_same) simp_all
  with None \<open>\<And>P ks. quiet_step s (cascade_documents P (fold delete_object ks s))\<close> show ?thesis
    by (auto simp: delete_resources_def Let_def split: option.splits)
qed (auto simp: delete_resources_def Let_def split: prod.splits)

lemma retry_letter_quiet: "quiet_step s (retry_letter c n l s)"
proof (cases "docs (retry_letter c n l s) = docs s \<and> chunks (retry_letter c n l s) = chunks s")
  case False
  then show ?thesis
    by (intro quiet_by_update) (auto simp: retry_letter_def Let_def env_ok_changes intro!: updateI
        split: quiet_splits)
qed simp

lemma fold_quiet: "(\<And>x s. quiet_step s (f x s)) \<Longrightarrow> quiet_step s (fold f xs s)"
  by (induction xs arbitrary: s) (auto intro: quiet_trans)

lemma retry_pending_quiet: "quiet_step s (retry_pending_dead_letters c h m s)"
  unfolding retry_pending_dead_letters_def by (rule fold_quiet) (auto simp: retry_letter_quiet)

lemma purge_quiet: "quiet_step s (fst (purge_expired_audit_logs cfg c k ok s))"
  by (auto simp: purge_expired_audit_logs_def Let_def)

lemma handlers_same_docs:
  "create_organization c uid n s = Inr (t, g) \<Longrightarrow> docs t = docs s \<and> chunks t = chunks s"
  "create_workspace c uid org n s = Inr (t, w) \<Longrightarrow> docs t = docs s \<and> chunks t = chunks s"
  "add_member c uid ws n role s = Inr (t, m) \<Longrightarrow> docs t = docs s \<and> chunks t = chunks s"
  "update_member_role c uid ws member role s = Inr (t, r) \<Longrightarrow> docs t = docs s \<and> chunks t = chunks s"
  "remove_member c uid ws member s = Inr (t, y) \<Longrightarrow> docs t = docs s \<and> chunks t = chunks s"
  "create_kb c uid n d k s = Inr (t, kb) \<Longrightarrow> docs t = docs s \<and> chunks t = chunks s"
  by (auto simp: tenancy_handlers Let_def split: quiet_splits)

lemma committed_quiet:
  "(\<And>t y. r = Inr (t, y) \<Longrightarrow> docs t = docs s \<and> chunks t = chunks s) \<Longrightarrow> quiet_step s (committed s r)"
  by (cases r) (auto simp: committed_def)

lemma tenancy_quiet: "quiet_step s (run_tenancy c uid op s)"
  by (cases op) (simp_all only: run_tenancy.simps, (rule committed_quiet, erule handlers_same_docs)+)

section \<open>The moves of the environment\<close>

inductive env_move :: "settings \<Rightarrow> sys \<Rightarrow> sys \<Rightarrow> bool" for cfg where
  tenancy: "env_move cfg s (run_tenancy c uid op s)"
| upload: "upload_document cfg c uid kb f ok s = Inr (t, d) \<Longrightarrow> fresh c 1 \<notin> set (doc_ids s) \<Longrightarrow> env_move cfg s t"
| external: "import_source cfg icfg E c uid b ok s = Inr (t, d) \<Longrightarrow> fresh c 1 \<notin> set (doc_ids s) \<Longrightarrow> env_move cfg s t"
| replace: "replace_document_content cfg c uid i f ok del s = Inr (t, d) \<Longrightarrow> env_move cfg s t"
| metadata: "update_document_metadata c uid i dep tags url s = Inr (t, d) \<Longrightarrow> env_move cfg s t"
| reindex: "reindex_document c uid i s = Inr (t, d) \<Longrightarrow> env_move cfg s t"
| cancel: "cancel_ingestion c uid i s = Inr (t, d) \<Longrightarrow> env_move cfg s t"
| delete: "delete_document c uid i s = Inr (t, y) \<Longrightarrow> env_move cfg s t"
| delete_kb: "delete_kb c uid i s = Inr (t, y) \<Longrightarrow> env_move cfg s t"
| replay: "replay_dead_letter c uid l st s = Inr (t, y) \<Longrightarrow> env_move cfg s t"
| discard: "discard_dead_letter c uid l s = Inr (t, y) \<Longrightarrow> env_move cfg s t"
| resume: "resume_from_stage c uid i st s = Inr (t, d) \<Longrightarrow> env_move cfg s t"
| release: "release_quarantine c uid i s = Inr (t, d) \<Longrightarrow> env_move cfg s t"
| dispatch: "env_move cfg s (dispatch_outbox_batch cfg c send s)"
| reconcile: "env_move cfg s (reconcile_stale_ingestion c n s)"
| cleanup: "env_move cfg s (cleanup_superseded_indexes i s)"
| orphan: "env_move cfg s (fst (reconcile_orphan_objects cfg c dry s))"
| resources: "env_move cfg s (delete_resources cfg c p n err s)"
| purge: "env_move cfg s (fst (purge_expired_audit_logs cfg c k ok s))"
| retry: "env_move cfg s (retry_pending_dead_letters c h m s)"

lemmas quiet_operations = tenancy_quiet replace_document_quiet update_metadata_quiet reindex_quiet
  cancel_quiet delete_document_quiet delete_kb_quiet replay_quiet discard_quiet resume_quiet
  release_quiet dispatch_outbox_quiet reconcile_stale_quiet cleanup_quiet orphan_quiet
  delete_resources_quiet purge_quiet retry_pending_quiet

lemma env_move_step: "env_move cfg s t \<Longrightarrow> env_step s t"
  by (induction rule: env_move.induct)
    (blast intro: upload_document_step import_source_step env_step.quiet quiet_operations)+

end
