(* ===== verification/Graph.thy ===== *)
theory Graph
  imports Models
begin

text \<open>
  \<open>app/services/graph.py\<close>: the entities and co-occurrence edges rebuilt from a document's chunks in
  the activation transaction, and the recall of evidence chunks within two hops.  The keyword
  extraction of \<open>jieba.analyse\<close> is a parameter \<open>extract_tags\<close>.
\<close>

section \<open>Rebuilding the graph of a document\<close>

text \<open>Removing every maximal run of white space removes every white space character.\<close>

definition normalize_entity :: "unicode \<Rightarrow> ustr \<Rightarrow> ustr" where
  "normalize_entity U v = take 255 (casefold U (filter (\<lambda>ch. \<not> is_space ch) v))"

fun add_tags :: "unicode \<Rightarrow> ustr list \<Rightarrow> (ustr \<times> ustr) list \<Rightarrow> (ustr \<times> ustr) list" where
  "add_tags U [] tags = tags"
| "add_tags U (v # vs) tags =
     (let n = normalize_entity U v
      in add_tags U vs (if 2 \<le> length n \<and> n \<notin> set (map snd tags) then tags @ [(take 255 v, n)] else tags))"

definition chunk_tags :: "unicode \<Rightarrow> (ustr \<Rightarrow> ustr list) \<Rightarrow> chunk \<Rightarrow> (ustr \<times> ustr) list" where
  "chunk_tags U extract_tags x = add_tags U (extract_tags (c_content x)) []"

text \<open>\<open>itertools.combinations(xs, 2)\<close>\<close>

fun pairs2 :: "'a list \<Rightarrow> ('a \<times> 'a) list" where
  "pairs2 [] = []"
| "pairs2 (x # xs) = map (Pair x) xs @ pairs2 xs"

definition chunk_entities ::
  "unicode \<Rightarrow> (ustr \<Rightarrow> ustr list) \<Rightarrow> (nat \<Rightarrow> nat \<Rightarrow> string) \<Rightarrow> document \<Rightarrow> string \<Rightarrow> nat \<Rightarrow> chunk \<Rightarrow> graph_entity list" where
  "chunk_entities U extract_tags gid d ws n x = map (\<lambda>(k, (name, normalized)).
     \<lparr>e_id = gid n k, e_ws = ws, e_kb = d_kb d, e_doc = d_id d, e_name = name, e_normalized = normalized,
      e_type = ''keyword'', e_chunk = Some (c_id x)\<rparr>) (enum (chunk_tags U extract_tags x))"

definition chunk_relations :: "(nat \<Rightarrow> nat \<Rightarrow> string) \<Rightarrow> document \<Rightarrow> string \<Rightarrow> nat \<Rightarrow> chunk \<Rightarrow>
    graph_entity list \<Rightarrow> graph_relation list" where
  "chunk_relations rid d ws n x ents = map (\<lambda>(k, (l, r)).
     \<lparr>r_id = rid n k, r_ws = ws, r_kb = d_kb d, r_source = e_id l, r_target = e_id r,
      r_type = ''co_occurs'', r_chunk = Some (c_id x), r_weight = 1\<rparr>) (enum (pairs2 ents))"

text \<open>\<open>gid\<close> and \<open>rid\<close> name the new entities and relations of the n-th chunk.\<close>

definition rebuild_document_graph ::
  "unicode \<Rightarrow> (ustr \<Rightarrow> ustr list) \<Rightarrow> (nat \<Rightarrow> nat \<Rightarrow> string) \<Rightarrow> (nat \<Rightarrow> nat \<Rightarrow> string) \<Rightarrow> document \<Rightarrow>
   chunk list \<Rightarrow> string \<Rightarrow> sys \<Rightarrow> sys" where
  "rebuild_document_graph U extract_tags gid rid d cks ws s =
     (let gone = map e_id (filter (\<lambda>e. e_doc e = d_id d) (entities s));
          ents = map (\<lambda>(n, x). (n, x, chunk_entities U extract_tags gid d ws n x)) (enum cks)
      in s\<lparr>entities := delete_where (\<lambda>e. e_doc e = d_id d) (entities s) @ concat (map (\<lambda>(n, x, es). es) ents),
           relations := delete_where (\<lambda>r. r_source r \<in> set gone \<or> r_target r \<in> set gone) (relations s) @
             concat (map (\<lambda>(n, x, es). chunk_relations rid d ws n x es) ents)\<rparr>)"

lemma rebuild_frame [simp, frame_simps]:
  "docs (rebuild_document_graph U f g r d cks ws s) = docs s"
  "chunks (rebuild_document_graph U f g r d cks ws s) = chunks s"
  "kbs (rebuild_document_graph U f g r d cks ws s) = kbs s"
  "broker (rebuild_document_graph U f g r d cks ws s) = broker s"
  "outbox (rebuild_document_graph U f g r d cks ws s) = outbox s"
  "dead (rebuild_document_graph U f g r d cks ws s) = dead s"
  by (simp_all add: rebuild_document_graph_def Let_def)

lemma add_tags_ok:
  "distinct (map snd tags) \<and> (\<forall>n \<in> set (map snd tags). 2 \<le> length n) \<Longrightarrow>
     distinct (map snd (add_tags U vs tags)) \<and> (\<forall>n \<in> set (map snd (add_tags U vs tags)). 2 \<le> length n)"
proof (induction vs arbitrary: tags)
  case (Cons v vs)
  define ext where "ext = (if 2 \<le> length (normalize_entity U v) \<and> normalize_entity U v \<notin> set (map snd tags)
     then tags @ [(take 255 v, normalize_entity U v)] else tags)"
  have "distinct (map snd ext) \<and> (\<forall>n \<in> set (map snd ext). 2 \<le> length n)"
    using Cons.prems by (auto simp: ext_def)
  from Cons.IH [OF this] show ?case by (simp add: ext_def Let_def)
qed simp

lemma pairs2_in: "(a, b) \<in> set (pairs2 xs) \<Longrightarrow> a \<in> set xs \<and> b \<in> set xs"
  by (induction xs) auto

lemma pairs2_complete:
  "i < j \<Longrightarrow> j < length xs \<Longrightarrow> (xs ! i, xs ! j) \<in> set (pairs2 xs)"
proof (induction xs arbitrary: i j)
  case (Cons x xs)
  obtain j' where "j = Suc j'" using Cons.prems by (cases j) auto
  with Cons show ?case by (cases i) auto
qed simp

lemma length_pairs2: "2 * length (pairs2 xs) = length xs * (length xs - 1)"
proof (induction xs)
  case (Cons x xs)
  then show ?case by (cases xs) (auto simp: algebra_simps)
qed simp

text \<open>The unique key \<open>uq_graph_entity_document_chunk\<close> holds for the rows of one chunk, and every edge
  joins two of them.\<close>

lemma chunk_entities_unique:
  "distinct (map e_normalized (chunk_entities U f gid d ws n x))"
proof -
  have "map e_normalized (chunk_entities U f gid d ws n x) = map snd (chunk_tags U f x)"
    unfolding chunk_entities_def by (rule nth_equalityI) (auto simp: enum_def case_prod_beta)
  then show ?thesis using add_tags_ok [of "[]"] by (simp add: chunk_tags_def)
qed

lemma chunk_relations_ends:
  "r \<in> set (chunk_relations rid d ws n x es) \<Longrightarrow>
     r_source r \<in> e_id ` set es \<and> r_target r \<in> e_id ` set es \<and> r_chunk r = Some (c_id x)"
  by (auto simp: chunk_relations_def enum_def dest!: pairs2_in set_zip_rightD)

section \<open>Recall within two hops\<close>

text \<open>Python sets become lists of distinct elements; SQL's \<open>LIMIT\<close> keeps a prefix of the rows in
  table order.\<close>

definition graph_seeds :: "ustr list \<Rightarrow> string option \<Rightarrow> nat \<Rightarrow> sys \<Rightarrow> graph_entity list" where
  "graph_seeds normalized kb_id limit s =
     take limit (filter (\<lambda>e. ((\<exists>v \<in> set normalized. e_normalized e = v) \<or>
         (\<exists>v \<in> set (take 4 normalized). contains v (e_normalized e))) \<and>
         (case kb_id of None \<Rightarrow> True | Some k \<Rightarrow> k = [] \<or> e_kb e = k)) (entities s))"

definition hop_rows :: "string list \<Rightarrow> nat \<Rightarrow> sys \<Rightarrow> graph_relation list" where
  "hop_rows ids limit s = take (limit * 4)
     (filter (\<lambda>r. r_source r \<in> set ids \<or> r_target r \<in> set ids) (relations s))"

definition some_chunks :: "string option list \<Rightarrow> string list" where
  "some_chunks xs = List.map_filter (\<lambda>x. if x = Some [] then None else x) xs"

fun graph_hops :: "nat \<Rightarrow> nat \<Rightarrow> sys \<Rightarrow> string list \<Rightarrow> string list \<Rightarrow> string list" where
  "graph_hops 0 limit s ids cks = cks"
| "graph_hops (Suc n) limit s ids cks =
     (let rows = hop_rows ids limit s;
          next_ids = dedup (concat (map (\<lambda>r. [r_source r, r_target r]) rows));
          cks1 = cks @ some_chunks (map r_chunk rows)
      in if set next_ids \<subseteq> set ids then cks1
         else
           let ids1 = dedup (ids @ next_ids);
               related = take (limit * 2) (map e_chunk (filter (\<lambda>e. e_id e \<in> set next_ids) (entities s)))
           in graph_hops n limit s ids1 (cks1 @ some_chunks related))"

definition graph_recall_chunk_ids ::
  "unicode \<Rightarrow> ustr list \<Rightarrow> string option \<Rightarrow> nat \<Rightarrow> sys \<Rightarrow> string list" where
  "graph_recall_chunk_ids U keywords kb_id limit s =
     (let normalized = map (normalize_entity U) (filter (\<lambda>v. 2 \<le> length (normalize_entity U v)) keywords) in
      if normalized = [] then []
      else let seeds = graph_seeds normalized kb_id limit s in
      if seeds = [] then []
      else take limit (dedup (graph_hops 2 limit s (dedup (map e_id seeds)) (some_chunks (map e_chunk seeds)))))"

definition evidence_chunks :: "sys \<Rightarrow> string set" where
  "evidence_chunks s = {x. \<exists>e \<in> set (entities s). e_chunk e = Some x} \<union>
     {x. \<exists>r \<in> set (relations s). r_chunk r = Some x}"

lemma in_some_chunks: "x \<in> set (some_chunks xs) \<longleftrightarrow> Some x \<in> set xs \<and> x \<noteq> []"
  by (induction xs) (auto simp: some_chunks_def List.map_filter_simps split: option.splits)

lemma evidence_entity: "e \<in> set (entities s) \<Longrightarrow> e_chunk e = Some x \<Longrightarrow> x \<in> evidence_chunks s"
  and evidence_relation: "r \<in> set (relations s) \<Longrightarrow> r_chunk r = Some x \<Longrightarrow> x \<in> evidence_chunks s"
  by (auto simp: evidence_chunks_def)

lemma some_chunks_take:
  "set (some_chunks (take m (map g (filter P xs)))) \<subseteq> {x. \<exists>y \<in> set xs. g y = Some x}"
proof -
  have "set (take m (map g (filter P xs))) \<subseteq> g ` set xs"
    using set_take_subset [of m "map g (filter P xs)"] by auto
  then show ?thesis by (force simp: in_some_chunks)
qed

lemma graph_hops_evidence:
  "set cks \<subseteq> evidence_chunks s \<Longrightarrow> set (graph_hops n limit s ids cks) \<subseteq> evidence_chunks s"
proof (induction n limit s ids cks rule: graph_hops.induct)
  case (2 n limit s ids cks)
  have rows: "set (some_chunks (map r_chunk (hop_rows ids limit s))) \<subseteq> evidence_chunks s"
    using some_chunks_take [of "limit * 4" r_chunk _ "relations s"] evidence_relation
    unfolding hop_rows_def by (fastforce simp: take_map)
  have related: "set (some_chunks (take m (map e_chunk (filter P (entities s))))) \<subseteq> evidence_chunks s" for m P
    using some_chunks_take [of m e_chunk P "entities s"] evidence_entity by fastforce
  show ?case
    using 2 rows related by (simp add: Let_def)
qed simp

lemma graph_recall_bounds:
  "length (graph_recall_chunk_ids U ks kb limit s) \<le> limit \<and>
   distinct (graph_recall_chunk_ids U ks kb limit s) \<and>
   set (graph_recall_chunk_ids U ks kb limit s) \<subseteq> evidence_chunks s"
proof -
  have "set (some_chunks (map e_chunk (graph_seeds ns kb limit s))) \<subseteq> evidence_chunks s" for ns
    using some_chunks_take [of limit e_chunk _ "entities s"] evidence_entity
    unfolding graph_seeds_def by (fastforce simp: take_map)
  then have hops: "set (graph_hops n limit s ids (some_chunks (map e_chunk (graph_seeds ns kb limit s))))
      \<subseteq> evidence_chunks s" for n ids ns
    by (rule graph_hops_evidence)
  have "set (take limit (dedup xs)) \<subseteq> set xs" for xs :: "string list"
    using set_take_subset [of limit "dedup xs"] by simp
  with hops have "set (take limit (dedup (graph_hops n limit s ids
      (some_chunks (map e_chunk (graph_seeds ns kb limit s)))))) \<subseteq> evidence_chunks s" for n ids ns
    by (meson subset_trans)
  then show ?thesis
    by (simp add: graph_recall_chunk_ids_def Let_def)
qed

end
