(* ===== verification/Chunker.thy ===== *)
theory Chunker
  imports Models
begin

text \<open>
  \<open>app/services/chunker.py\<close>: normalisation, the fixed, paragraph, recursive and semantic
  splitters, the merging of units with overlap, and \<open>split_segments\<close>.  The regular expressions
  are scanners over code points.  The exceptions are values: invalid sizes, an unknown strategy, and
  the index error of \<open>hard[-1]\<close>.  Every splitter is an instance of the locale \<open>splitter\<close>.
\<close>

datatype chunk_error = BadSize | UnknownStrategy | NoPiece | EmbedIndex

type_synonym 'a chunked = "chunk_error + 'a"

section \<open>Normalisation\<close>

text \<open>\<open>text.replace("\r\n", "\n").replace("\r", "\n")\<close>, \<open>[ \t]+\<close> to one blank, three or more line
  feeds to two.\<close>

fun unify_newlines :: "ustr \<Rightarrow> ustr" where
  "unify_newlines [] = []"
| "unify_newlines (c # cs) =
     (if c = 13 then 10 # unify_newlines (if cs \<noteq> [] \<and> hd cs = 10 then tl cs else cs) else c # unify_newlines cs)"

definition is_blank :: "nat \<Rightarrow> bool" where
  "is_blank c \<longleftrightarrow> c = 32 \<or> c = 9"

function collapse_blanks :: "ustr \<Rightarrow> ustr" where
  "collapse_blanks [] = []"
| "collapse_blanks (c # cs) =
     (if is_blank c then 32 # collapse_blanks (dropWhile is_blank cs) else c # collapse_blanks cs)"
  by pat_completeness auto
termination by (relation "measure length") (auto simp: le_imp_less_Suc length_dropWhile_le)

function collapse_newlines :: "ustr \<Rightarrow> ustr" where
  "collapse_newlines [] = []"
| "collapse_newlines (c # cs) =
     (if c = 10 then
        (let run = takeWhile (\<lambda>x. x = 10) cs; rest = dropWhile (\<lambda>x. x = 10) cs
         in (if length run \<ge> 2 then [10, 10] else 10 # run) @ collapse_newlines rest)
      else c # collapse_newlines cs)"
  by pat_completeness auto
termination by (relation "measure length") (auto simp: le_imp_less_Suc length_dropWhile_le)

definition normalize_text :: "ustr \<Rightarrow> ustr" where
  "normalize_text text = strip (collapse_newlines (collapse_blanks (unify_newlines text)))"

section \<open>Splitters\<close>

definition valid_sizes :: "int \<Rightarrow> int \<Rightarrow> bool" where
  "valid_sizes limit overlap \<longleftrightarrow> 0 < limit \<and> 0 \<le> overlap \<and> overlap < limit"

text \<open>\<open>[text[start : start + n] for start in range(0, len(text), step)]\<close>\<close>

function windows :: "nat \<Rightarrow> nat \<Rightarrow> ustr \<Rightarrow> ustr list" where
  "windows n step text = (if text = [] \<or> step = 0 then [] else take n text # windows n step (drop step text))"
  by pat_completeness auto
termination by (relation "measure (\<lambda>(n, step, text). length text)") auto

declare windows.simps [simp del]

definition fixed_split :: "int \<Rightarrow> int \<Rightarrow> ustr \<Rightarrow> ustr list chunked" where
  "fixed_split limit overlap text =
     (if \<not> valid_sizes limit overlap then Inl BadSize
      else Inr (windows (nat limit) (nat (limit - overlap)) (normalize_text text)))"

text \<open>The loop of \<open>_merge_units\<close>; \<open>current\<close> is the piece being built.\<close>

definition glue :: "ustr \<Rightarrow> ustr \<Rightarrow> ustr" where
  "glue a b = (if a = [] then b else a @ [10] @ b)"

fun merge_loop :: "int \<Rightarrow> int \<Rightarrow> ustr list \<Rightarrow> ustr list \<Rightarrow> ustr \<Rightarrow> ustr list chunked" where
  "merge_loop limit overlap [] pieces current = Inr (if current = [] then pieces else pieces @ [current])"
| "merge_loop limit overlap (unit # units) pieces current =
     (if int (length (glue current unit)) \<le> limit then merge_loop limit overlap units pieces (glue current unit)
      else
        let pieces1 = (if current = [] then pieces else pieces @ [current]);
            tail = (if current \<noteq> [] \<and> overlap \<noteq> 0 then last_n (nat overlap) current else [])
        in if int (length (glue tail unit)) \<le> limit
           then merge_loop limit overlap units pieces1 (glue tail unit)
           else case fixed_split limit overlap unit of Inl e \<Rightarrow> Inl e
             | Inr hard \<Rightarrow> if hard = [] then Inl NoPiece
                 else merge_loop limit overlap units (pieces1 @ butlast hard) (last hard))"

definition merge_units :: "int \<Rightarrow> int \<Rightarrow> ustr list \<Rightarrow> ustr list chunked" where
  "merge_units limit overlap units = merge_loop limit overlap units [] []"

text \<open>\<open>re.split(r"\n\s*\n", text)\<close>: a separator is a line feed, white space, and the last line feed of
  that white space.\<close>

definition after_last_newline :: "ustr \<Rightarrow> ustr" where
  "after_last_newline ws = rev (takeWhile (\<lambda>x. x \<noteq> 10) (rev ws))"

lemma length_after_last_newline: "length (after_last_newline ws) \<le> length ws"
  by (simp add: after_last_newline_def) (metis length_rev length_takeWhile_le)

lemma length_take_drop_while: "length (takeWhile P xs) + length (dropWhile P xs) = length xs"
  by (metis length_append takeWhile_dropWhile_id)

function split_blank_lines :: "ustr \<Rightarrow> ustr \<Rightarrow> ustr list" where
  "split_blank_lines acc [] = [rev acc]"
| "split_blank_lines acc (c # cs) =
     (let ws = takeWhile is_space cs in
      if c = 10 \<and> 10 \<in> set ws
      then rev acc # split_blank_lines [] (after_last_newline ws @ dropWhile is_space cs)
      else split_blank_lines (c # acc) cs)"
  by pat_completeness auto

termination
proof (relation "measure (\<lambda>(acc, text). length text)")
  fix acc c cs ws
  assume "ws = takeWhile is_space (cs :: ustr)"
  then show "(([], after_last_newline ws @ dropWhile is_space cs), acc, c # cs) \<in> measure (\<lambda>(acc, text). length text)"
    using length_after_last_newline [of ws] length_take_drop_while [of is_space cs] by simp
qed auto

definition paragraphs :: "ustr \<Rightarrow> ustr list" where
  "paragraphs text = filter (\<lambda>p. p \<noteq> []) (map strip (split_blank_lines [] text))"

fun concat_units :: "(ustr \<Rightarrow> ustr list chunked) \<Rightarrow> ustr list \<Rightarrow> ustr list chunked" where
  "concat_units f [] = Inr []"
| "concat_units f (p # ps) = (case f p of Inl e \<Rightarrow> Inl e
     | Inr xs \<Rightarrow> (case concat_units f ps of Inl e \<Rightarrow> Inl e | Inr ys \<Rightarrow> Inr (xs @ ys)))"

definition paragraph_split :: "int \<Rightarrow> int \<Rightarrow> ustr \<Rightarrow> ustr list chunked" where
  "paragraph_split limit overlap text =
     (if \<not> valid_sizes limit overlap then Inl BadSize
      else case concat_units (\<lambda>p. if limit < int (length p) then fixed_split limit 0 p else Inr [p])
             (paragraphs (normalize_text text)) of
        Inl e \<Rightarrow> Inl e | Inr units \<Rightarrow> merge_units limit overlap units)"

text \<open>\<open>text.split("\n\n")\<close>\<close>

fun split_double :: "ustr \<Rightarrow> ustr \<Rightarrow> ustr list" where
  "split_double acc [] = [rev acc]"
| "split_double acc [c] = [rev (c # acc)]"
| "split_double acc (c # d # cs) =
     (if c = 10 \<and> d = 10 then rev acc # split_double [] cs else split_double (c # acc) (d # cs))"

text \<open>\<open>_SENTENCE_SPLIT\<close>: after an ideographic or strong end mark with any white space, after a full stop
  with at least one.\<close>

definition end_marks :: "nat list" where
  "end_marks = [12290, 65281, 65311, 33, 63, 65307, 59]"

function split_sentences :: "ustr \<Rightarrow> ustr \<Rightarrow> ustr list" where
  "split_sentences acc [] = [rev acc]"
| "split_sentences acc (c # cs) =
     (if c \<in> set end_marks \<or> (c = 46 \<and> cs \<noteq> [] \<and> is_space (hd cs))
      then rev (c # acc) # split_sentences [] (dropWhile is_space cs)
      else split_sentences (c # acc) cs)"
  by pat_completeness auto
termination by (relation "measure (\<lambda>(acc, text). length text)") (auto simp: le_imp_less_Suc length_dropWhile_le)

definition split_long_paragraph :: "nat \<Rightarrow> ustr \<Rightarrow> ustr list" where
  "split_long_paragraph limit p =
     concat (map (\<lambda>x. if limit < length x then batches limit x else [x])
       (filter (\<lambda>x. x \<noteq> []) (map strip (split_sentences [] p))))"

definition recursive_units :: "int \<Rightarrow> ustr \<Rightarrow> ustr list" where
  "recursive_units limit t =
     concat (map (\<lambda>p. if int (length p) \<le> limit then [p] else split_long_paragraph (nat limit) p)
       (filter (\<lambda>p. p \<noteq> []) (map strip (split_double [] t))))"

definition recursive_split :: "int \<Rightarrow> int \<Rightarrow> ustr \<Rightarrow> ustr list chunked" where
  "recursive_split limit overlap text =
     (if \<not> valid_sizes limit overlap then Inl BadSize
      else let t = normalize_text text in
        if t = [] then Inr []
        else if int (length t) \<le> limit then Inr [t]
        else merge_units limit overlap (recursive_units limit t))"

text \<open>The semantic splitter.  \<open>vectorize\<close> is \<open>embed_documents\<close>, \<open>None\<close> when it raises; the loop pairs the
  units with the vectors.\<close>

definition inner :: "vec \<Rightarrow> vec \<Rightarrow> real" where
  "inner a b = sum_list (map (\<lambda>(x, y). of_rat x * of_rat y) (zip a b))"

definition cosine :: "vec \<Rightarrow> vec \<Rightarrow> real" where
  "cosine a b = inner a b / max (sqrt (inner a a) * sqrt (inner b b)) (1 / 10 ^ 9)"

fun group_units :: "int \<Rightarrow> real \<Rightarrow> (ustr \<times> vec) list \<Rightarrow> ustr list \<Rightarrow> ustr \<Rightarrow> vec \<Rightarrow> ustr list" where
  "group_units limit threshold [] grouped current previous = grouped @ [current]"
| "group_units limit threshold ((unit, vector) # uvs) grouped current previous =
     (if cosine previous vector < threshold \<or> limit < int (length current + length unit + 1)
      then group_units limit threshold uvs (grouped @ [current]) unit vector
      else group_units limit threshold uvs grouped (current @ [10] @ unit) vector)"

definition semantic_split ::
  "(ustr list \<Rightarrow> vec list option) \<Rightarrow> real \<Rightarrow> int \<Rightarrow> int \<Rightarrow> ustr \<Rightarrow> ustr list chunked" where
  "semantic_split vectorize threshold limit overlap text =
     (if \<not> valid_sizes limit overlap then Inl BadSize
      else let units = paragraphs (normalize_text text) in
        if length units < 2 then recursive_split limit overlap text
        else case vectorize units of None \<Rightarrow> recursive_split limit overlap text
          | Some vectors \<Rightarrow> if vectors = [] then Inl EmbedIndex
              else merge_units limit overlap
                (group_units limit threshold (zip (tl units) (tl vectors)) [] (hd units) (hd vectors)))"

section \<open>Segments\<close>

fun split_with :: "string \<Rightarrow> (ustr list \<Rightarrow> vec list option) \<Rightarrow> real \<Rightarrow> int \<Rightarrow> int \<Rightarrow> ustr \<Rightarrow> ustr list chunked" where
  "split_with strategy vectorize threshold limit overlap text =
     (if strategy = ''fixed'' then fixed_split limit overlap text
      else if strategy = ''paragraph'' then paragraph_split limit overlap text
      else if strategy = ''semantic'' then semantic_split vectorize threshold limit overlap text
      else recursive_split limit overlap text)"

declare split_with.simps [simp del]

definition piece_of :: "segment \<Rightarrow> nat \<Rightarrow> ustr \<Rightarrow> ustr \<Rightarrow> piece" where
  "piece_of g parent_seq text content = \<lparr>p_content = content, p_parent_content = text, p_parent_seq = parent_seq,
     p_page = sg_page g, p_section = sg_section g, p_content_type = sg_content_type g, p_source_url = sg_source_url g\<rparr>"

fun split_loop :: "(ustr \<Rightarrow> ustr list chunked) \<Rightarrow> nat \<Rightarrow> segment list \<Rightarrow> piece list chunked" where
  "split_loop split n [] = Inr []"
| "split_loop split n (g # gs) =
     (let text = normalize_text (sg_text g) in
      case (if text = [] then Inr [] else split text) of Inl e \<Rightarrow> Inl e
      | Inr contents \<Rightarrow> (case split_loop split (n + 1) gs of Inl e \<Rightarrow> Inl e
          | Inr ps \<Rightarrow> Inr (map (piece_of g n text) contents @ ps)))"

definition STRATEGIES :: "string list" where
  "STRATEGIES = [''fixed'', ''paragraph'', ''recursive'', ''section'', ''semantic'']"

definition split_segments ::
  "string \<Rightarrow> (ustr list \<Rightarrow> vec list option) \<Rightarrow> real \<Rightarrow> int \<Rightarrow> int \<Rightarrow> segment list \<Rightarrow> piece list chunked" where
  "split_segments strategy vectorize threshold limit overlap segments =
     (if strategy \<notin> set STRATEGIES then Inl UnknownStrategy
      else split_loop (split_with strategy vectorize threshold limit overlap) 0 segments)"

section \<open>Visible characters\<close>

definition visible :: "ustr \<Rightarrow> ustr" where
  "visible s = filter (\<lambda>c. \<not> is_space c) s"

lemma visible_simps [simp]:
  "visible [] = []" "visible (a @ b) = visible a @ visible b" "visible (concat xs) = concat (map visible xs)"
  by (simp_all add: visible_def [abs_def] filter_concat)

lemma visible_Cons: "visible (c # s) = (if is_space c then visible s else c # visible s)"
  by (simp add: visible_def)

lemma visible_spaces: "(\<And>c. c \<in> set s \<Longrightarrow> is_space c) \<Longrightarrow> visible s = []"
  by (auto simp: visible_def filter_empty_conv)

lemma visible_dropWhile: "(\<And>c. P c \<Longrightarrow> is_space c) \<Longrightarrow> visible (dropWhile P s) = visible s"
  by (induction s) (auto simp: visible_Cons)

lemma visible_rev: "visible (rev s) = rev (visible s)"
  by (simp add: visible_def rev_filter)

lemma visible_strip [simp]: "visible (strip s) = visible s"
  by (simp add: strip_def lstrip_def rstrip_def visible_rev visible_dropWhile)

lemma blank_space: "is_blank c \<Longrightarrow> is_space c" "is_space 10" "is_space 13" "is_space 32"
  by (auto simp: is_blank_def is_space_def)

lemma visible_unify [simp]: "visible (unify_newlines s) = visible s"
proof (induction s rule: unify_newlines.induct)
  case (2 c cs)
  have "visible (if cs \<noteq> [] \<and> hd cs = 10 then tl cs else cs) = visible cs"
    by (cases cs) (auto simp: visible_Cons blank_space)
  with 2 show ?case by (auto simp: visible_Cons blank_space)
qed simp

lemma visible_blanks [simp]: "visible (collapse_blanks s) = visible s"
  by (induction s rule: collapse_blanks.induct) (auto simp: visible_Cons blank_space visible_dropWhile)

lemma visible_drop_nl: "visible (dropWhile (\<lambda>x. x = 10) s) = visible s"
  by (rule visible_dropWhile) (simp add: blank_space)

lemma visible_newlines [simp]: "visible (collapse_newlines s) = visible s"
proof (induction s rule: collapse_newlines.induct)
  case (2 c cs)
  show ?case
  proof (cases "c = 10")
    case True
    let ?r = "takeWhile (\<lambda>x. x = 10) cs"
    have "visible (if length ?r \<ge> 2 then [10, 10] else 10 # ?r) = []"
      by (rule visible_spaces) (auto simp: blank_space dest: set_takeWhileD split: if_splits)
    with 2(1) [OF True refl refl] True show ?thesis by (simp add: Let_def visible_Cons blank_space visible_drop_nl)
  qed (use 2(2) in \<open>simp add: visible_Cons\<close>)
qed simp

lemma visible_normalize [simp]: "visible (normalize_text s) = visible s"
  by (simp add: normalize_text_def)

lemma visible_glue [simp]: "visible (glue a b) = visible a @ visible b"
  by (simp add: glue_def visible_Cons blank_space)

lemma subseq_visible: "subseq a b \<Longrightarrow> subseq (visible a) (visible b)"
  unfolding visible_def by (rule subseq_filter)

section \<open>Windows\<close>

lemma windows_simps [simp]:
  "windows n step [] = []"
  "0 < step \<Longrightarrow> text \<noteq> [] \<Longrightarrow> windows n step text = take n text # windows n step (drop step text)"
  by (simp_all add: windows.simps)

lemma windows_subseq: "0 < step \<Longrightarrow> step \<le> n \<Longrightarrow> subseq s (concat (windows n step s))"
proof (induction n step s rule: windows.induct)
  case (1 n step s)
  show ?case
  proof (cases "s = []")
    case False
    have "prefix (take step s) (take n s)" using 1(3) by (metis min.absorb1 take_is_prefix take_take)
    then have "subseq (take step s) (take n s)" by (rule prefix_imp_subseq)
    then have "subseq (take step s @ drop step s) (take n s @ concat (windows n step (drop step s)))"
      using 1 False by (intro list_emb_append_mono) auto
    then show ?thesis using False 1(2) by simp
  qed simp
qed

lemma windows_bounds: "0 < step \<Longrightarrow> 0 < n \<Longrightarrow> p \<in> set (windows n step s) \<Longrightarrow> p \<noteq> [] \<and> length p \<le> n"
proof (induction n step s rule: windows.induct)
  case (1 n step s)
  then show ?case by (cases "s = []") auto
qed

lemma windows_empty_iff: "0 < step \<Longrightarrow> windows n step s = [] \<longleftrightarrow> s = []"
  by (cases "s = []") simp_all

text \<open>The first window and the new parts of the following ones make up the text.\<close>

lemma windows_rebuild:
  "0 < step \<Longrightarrow> step \<le> n \<Longrightarrow> concat (map (drop (n - step)) (windows n step s)) = drop (n - step) s"
proof (induction n step s rule: windows.induct)
  case (1 n step s)
  show ?case
  proof (cases "s = []")
    case False
    have "drop (n - step) (take n s) = take step (drop (n - step) s)"
      using 1(3) by (simp add: drop_take)
    moreover have "drop (n - step) (drop step s) = drop step (drop (n - step) s)"
      by (simp add: add.commute)
    moreover have "drop step (drop (n - step) s) = drop n s" using 1(3) by simp
    moreover have "take step (drop (n - step) s) @ drop step (drop (n - step) s) = drop (n - step) s"
      by (rule append_take_drop_id)
    ultimately show ?thesis using 1 False by simp
  qed simp
qed

section \<open>The contract of a splitter\<close>

text \<open>Pieces are not empty and within the size, and no visible character of the text is lost: in order,
  they are among those of the pieces.\<close>

locale splitter =
  fixes limit :: int and split :: "ustr \<Rightarrow> ustr list chunked"
  assumes split_bounds: "split text = Inr ps \<Longrightarrow> p \<in> set ps \<Longrightarrow> p \<noteq> [] \<and> int (length p) \<le> limit"
    and split_keeps: "split text = Inr ps \<Longrightarrow> subseq (visible text) (visible (concat ps))"
begin

lemma split_loop_bounds:
  "split_loop split n gs = Inr ps \<Longrightarrow> p \<in> set ps \<Longrightarrow>
     p_content p \<noteq> [] \<and> int (length (p_content p)) \<le> limit \<and>
     (\<exists>k < length gs. p_parent_seq p = n + k \<and> p_parent_content p = normalize_text (sg_text (gs ! k)) \<and>
        p_page p = sg_page (gs ! k) \<and> p_section p = sg_section (gs ! k) \<and>
        p_content_type p = sg_content_type (gs ! k) \<and> p_source_url p = sg_source_url (gs ! k))"
proof (induction gs arbitrary: n ps)
  case (Cons g gs)
  let ?text = "normalize_text (sg_text g)"
  obtain xs qs where xs: "(if ?text = [] then Inr [] else split ?text) = Inr xs" "split_loop split (n + 1) gs = Inr qs"
      "ps = map (piece_of g n ?text) xs @ qs"
    using Cons.prems(1) by (auto simp: Let_def split: sum.splits)
  from xs(3) Cons.prems(2) consider x where "x \<in> set xs" "p = piece_of g n ?text x" | "p \<in> set qs" by auto
  then show ?case
  proof cases
    case 1
    then have "x \<noteq> [] \<and> int (length x) \<le> limit" using xs(1) split_bounds by (auto split: if_splits)
    with 1 show ?thesis by (intro conjI exI [of _ 0]) (simp_all add: piece_of_def)
  next
    case 2
    from Cons.IH [OF xs(2) this] obtain k where "k < length gs" "p_parent_seq p = n + 1 + k"
      "p_content p \<noteq> []" "int (length (p_content p)) \<le> limit"
      "p_parent_content p = normalize_text (sg_text (gs ! k))" "p_page p = sg_page (gs ! k)"
      "p_section p = sg_section (gs ! k)" "p_content_type p = sg_content_type (gs ! k)"
      "p_source_url p = sg_source_url (gs ! k)" by auto
    then show ?thesis by (intro conjI exI [of _ "Suc k"]) simp_all
  qed
qed simp

lemma split_loop_keeps:
  "split_loop split n gs = Inr ps \<Longrightarrow>
     subseq (visible (concat (map sg_text gs))) (visible (concat (map p_content ps)))"
proof (induction gs arbitrary: n ps)
  case (Cons g gs)
  let ?text = "normalize_text (sg_text g)"
  obtain xs qs where xs: "(if ?text = [] then Inr [] else split ?text) = Inr xs" "split_loop split (n + 1) gs = Inr qs"
      "ps = map (piece_of g n ?text) xs @ qs"
    using Cons.prems(1) by (auto simp: Let_def split: sum.splits)
  have "subseq (visible (sg_text g)) (visible (concat xs))"
  proof (cases "?text = []")
    case True
    then have "visible (sg_text g) = []" by (metis visible_normalize visible_simps(1))
    then show ?thesis by simp
  next
    case False
    then show ?thesis using split_keeps xs(1) by (metis visible_normalize)
  qed
  moreover have "map p_content (map (piece_of g n ?text) xs) = xs" by (simp add: piece_of_def comp_def)
  ultimately show ?case using Cons.IH [OF xs(2)] xs(3)
    by (simp add: list_emb_append_mono del: visible_simps(3) map_map)
qed simp

end

section \<open>The splitters keep it\<close>

lemma fixed_split_parts:
  assumes "fixed_split limit overlap t = Inr ps"
  shows "(p \<in> set ps \<longrightarrow> p \<noteq> [] \<and> int (length p) \<le> limit) \<and> subseq (visible t) (visible (concat ps)) \<and>
    (ps = [] \<longleftrightarrow> normalize_text t = [])"
proof -
  have v: "0 < nat (limit - overlap)" "nat (limit - overlap) \<le> nat limit" "0 < nat limit"
    and ps: "ps = windows (nat limit) (nat (limit - overlap)) (normalize_text t)"
    using assms by (auto simp: fixed_split_def valid_sizes_def split: if_splits)
  have "p \<noteq> [] \<and> int (length p) \<le> limit" if "p \<in> set ps"
    using windows_bounds [OF v(1,3)] that v(3) unfolding ps by (fastforce simp: le_nat_iff)
  moreover have "subseq (visible (normalize_text t)) (visible (concat ps))"
    unfolding ps by (rule subseq_visible, rule windows_subseq) (use v in simp_all)
  ultimately show ?thesis using windows_empty_iff [OF v(1)] by (simp add: ps)
qed

interpretation by_size: splitter limit "fixed_split limit overlap" for limit overlap
  by unfold_locales (use fixed_split_parts in blast)+

lemma last_n_length: "0 < n \<Longrightarrow> length (last_n n s) \<le> n"
  by (simp add: length_last_n)

lemma subseq_skip: "subseq ((a @ b) @ (t @ v) @ r) p \<Longrightarrow> subseq (a @ b @ v @ r) p"
proof -
  have "subseq v (t @ v)" by (rule list_emb_append2) simp
  then have "subseq ((a @ b) @ v @ r) ((a @ b) @ (t @ v) @ r)"
    by (intro list_emb_append_mono subseq_order.refl)
  then show "subseq ((a @ b) @ (t @ v) @ r) p \<Longrightarrow> subseq (a @ b @ v @ r) p"
    unfolding append_assoc by (rule subseq_order.trans)
qed

lemma merge_loop_ok:
  assumes "merge_loop limit overlap units pieces current = Inr ps"
    and "\<forall>p \<in> set pieces. p \<noteq> [] \<and> int (length p) \<le> limit" "int (length current) \<le> limit"
  shows "(\<forall>p \<in> set ps. p \<noteq> [] \<and> int (length p) \<le> limit) \<and>
    subseq (visible (concat pieces) @ visible current @ visible (concat units)) (visible (concat ps))"
  using assms
proof (induction limit overlap units pieces current rule: merge_loop.induct)
  case (1 limit overlap pieces current)
  then show ?case by (auto split: if_splits)
next
  case (2 limit overlap unit units pieces current)
  let ?p = "if current = [] then pieces else pieces @ [current]"
  let ?tail = "if current \<noteq> [] \<and> overlap \<noteq> 0 then last_n (nat overlap) current else []"
  have p: "\<forall>p \<in> set ?p. p \<noteq> [] \<and> int (length p) \<le> limit" using 2(5,6) by auto
  have vp: "visible (concat ?p) = visible (concat pieces) @ visible current" by simp
  show ?case
  proof (cases "int (length (glue current unit)) \<le> limit")
    case True
    with 2(1) [OF True] 2(4-6) show ?thesis by simp
  next
    case False
    show ?thesis
    proof (cases "int (length (glue ?tail unit)) \<le> limit")
      case True
      have "merge_loop limit overlap units ?p (glue ?tail unit) = Inr ps"
        using 2(4) False True by (simp add: Let_def)
      from 2(2) [OF False refl refl True this p True] have
        ih: "\<forall>p \<in> set ps. p \<noteq> [] \<and> int (length p) \<le> limit"
        "subseq ((visible (concat pieces) @ visible current) @ (visible ?tail @ visible unit) @ visible (concat units)) (visible (concat ps))"
        unfolding vp visible_glue by blast+
      from ih(1) subseq_skip [OF ih(2)] show ?thesis unfolding concat.simps visible_simps by (rule conjI)
    next
      case False2: False
      obtain hard where hard: "fixed_split limit overlap unit = Inr hard" "hard \<noteq> []"
          "merge_loop limit overlap units (?p @ butlast hard) (last hard) = Inr ps"
        using 2(4) False False2 by (auto simp: Let_def split: sum.splits if_splits)
      have h: "\<forall>q \<in> set hard. q \<noteq> [] \<and> int (length q) \<le> limit" "subseq (visible unit) (visible (concat hard))"
        using fixed_split_parts [OF hard(1)] by blast+
      have b: "\<forall>p \<in> set (?p @ butlast hard). p \<noteq> [] \<and> int (length p) \<le> limit" "int (length (last hard)) \<le> limit"
        unfolding set_append ball_Un using p h(1) last_in_set [OF hard(2)] in_set_butlastD [of _ hard] by blast+
      from 2(3) [OF False refl refl False2 hard(1,2) hard(3) b] have
        ih: "\<forall>p \<in> set ps. p \<noteq> [] \<and> int (length p) \<le> limit"
        "subseq (visible (concat (?p @ butlast hard)) @ visible (last hard) @ visible (concat units)) (visible (concat ps))"
        by blast+
      have "concat hard = concat (butlast hard) @ last hard"
        using hard(2) by (metis append_butlast_last_id concat.simps(1,2) concat_append append_Nil2)
      then have "visible (concat (?p @ butlast hard)) @ visible (last hard) = visible (concat pieces) @ visible current @ visible (concat hard)"
        by (metis vp append_assoc visible_simps(2) concat_append)
      with ih(2) have "subseq (visible (concat pieces) @ visible current @ visible (concat hard) @ visible (concat units)) (visible (concat ps))"
        by (metis append_assoc)
      moreover have "subseq (visible (concat pieces) @ visible current @ visible (concat (unit # units)))
          (visible (concat pieces) @ visible current @ visible (concat hard) @ visible (concat units))"
        using h(2) by (simp add: list_emb_append_mono del: visible_simps(3))
      ultimately show ?thesis using ih(1) subseq_order.trans by blast
    qed
  qed
qed

lemma merge_units_ok:
  assumes "merge_units limit overlap units = Inr ps" "0 \<le> limit"
  shows "(\<forall>p \<in> set ps. p \<noteq> [] \<and> int (length p) \<le> limit) \<and> subseq (visible (concat units)) (visible (concat ps))"
  using merge_loop_ok [of limit overlap units "[]" "[]" ps] assms by (simp add: merge_units_def)


lemma set_after_last_newline: "set (after_last_newline ws) \<subseteq> set ws"
  by (auto simp: after_last_newline_def dest: set_takeWhileD)

lemma visible_blank_lines: "visible (concat (split_blank_lines acc t)) = visible (rev acc) @ visible t"
proof (induction acc t rule: split_blank_lines.induct)
  case (2 acc c cs)
  have w: "visible (after_last_newline (takeWhile is_space cs)) = []"
    using set_after_last_newline by (intro visible_spaces) (auto dest: set_takeWhileD)
  have d: "visible (dropWhile is_space cs) = visible cs" by (rule visible_dropWhile)
  show ?case
  proof (cases "c = 10 \<and> 10 \<in> set (takeWhile is_space cs)")
    case True
    with 2(1) [OF refl True] show ?thesis by (simp add: Let_def visible_Cons blank_space w d)
  next
    case False
    then have "split_blank_lines acc (c # cs) = split_blank_lines (c # acc) cs"
      by (simp only: split_blank_lines.simps Let_def if_False)
    with 2(2) [OF refl False] show ?thesis by (simp add: visible_Cons)
  qed
qed simp

lemma visible_double: "visible (concat (split_double acc t)) = visible (rev acc) @ visible t"
  by (induction acc t rule: split_double.induct) (auto simp: visible_Cons blank_space)

lemma visible_sentences: "visible (concat (split_sentences acc t)) = visible (rev acc) @ visible t"
proof (induction acc t rule: split_sentences.induct)
  case (2 acc c cs)
  have d: "visible (dropWhile is_space cs) = visible cs" by (rule visible_dropWhile)
  from 2 show ?case by (auto simp: visible_Cons d)
qed simp

lemma visible_concat_strip: "visible (concat (filter (\<lambda>p. p \<noteq> []) (map strip xs))) = visible (concat xs)"
proof (induction xs)
  case (Cons x xs)
  then show ?case by (cases "strip x = []") (simp_all del: visible_simps(3), metis visible_simps(1) visible_strip append_Nil)
qed simp

lemma keeps_units:
  assumes "concat_units f us = Inr xs"
    and "\<And>u ys. u \<in> set us \<Longrightarrow> f u = Inr ys \<Longrightarrow> subseq (visible u) (visible (concat ys))"
  shows "subseq (visible (concat us)) (visible (concat xs))"
  using assms
proof (induction us arbitrary: xs)
  case (Cons u us)
  then obtain ys zs where "f u = Inr ys" "concat_units f us = Inr zs" "xs = ys @ zs"
    by (auto split: sum.splits)
  with Cons.IH [of zs] Cons.prems(2) show ?case
    by (simp add: list_emb_append_mono del: visible_simps(3))
qed simp

text \<open>A splitter that merges units which carry all visible characters keeps the contract.\<close>

lemma merge_contract:
  assumes "merge_units limit overlap units = Inr ps" "valid_sizes limit overlap"
    and "subseq (visible t) (visible (concat units))"
  shows "(p \<in> set ps \<longrightarrow> p \<noteq> [] \<and> int (length p) \<le> limit) \<and> subseq (visible t) (visible (concat ps))"
proof -
  have "0 \<le> limit" using assms(2) by (simp add: valid_sizes_def)
  from merge_units_ok [OF assms(1) this] subseq_order.trans [OF assms(3)] show ?thesis by blast
qed

lemma visible_paragraphs: "visible (concat (paragraphs t)) = visible t"
  unfolding paragraphs_def visible_concat_strip visible_blank_lines by simp

lemma paragraph_ok:
  assumes "paragraph_split limit overlap t = Inr ps"
  shows "(p \<in> set ps \<longrightarrow> p \<noteq> [] \<and> int (length p) \<le> limit) \<and> subseq (visible t) (visible (concat ps))"
proof -
  let ?f = "\<lambda>p. if limit < int (length p) then fixed_split limit 0 p else Inr [p]"
  obtain units where v: "valid_sizes limit overlap" and u: "concat_units ?f (paragraphs (normalize_text t)) = Inr units"
    and m: "merge_units limit overlap units = Inr ps"
    using assms by (auto simp: paragraph_split_def split: sum.splits if_splits)
  have "subseq (visible q) (visible (concat ys))" if "?f q = Inr ys" for q ys
    using fixed_split_parts [of limit 0 q ys] that by (auto split: if_splits simp del: visible_simps(3))
  from keeps_units [OF u this] have "subseq (visible t) (visible (concat units))"
    unfolding visible_paragraphs visible_normalize by blast
  from merge_contract [OF m v this] show ?thesis .
qed

interpretation by_paragraph: splitter limit "paragraph_split limit overlap" for limit overlap
  by unfold_locales (use paragraph_ok in blast)+

lemma visible_concat_map: "(\<And>x. x \<in> set xs \<Longrightarrow> visible (concat (f x)) = visible x) \<Longrightarrow>
    visible (concat (concat (map f xs))) = visible (concat xs)"
  by (induction xs) (simp_all del: visible_simps(3))

lemma visible_long_paragraph: "0 < limit \<Longrightarrow> visible (concat (split_long_paragraph limit p)) = visible p"
proof -
  assume "0 < limit"
  then have "visible (concat (if limit < length x then batches limit x else [x])) = visible x" for x
    by (simp add: concat_batches del: visible_simps(3))
  then show ?thesis
    unfolding split_long_paragraph_def
    by (subst visible_concat_map) (simp_all add: visible_concat_strip visible_sentences del: visible_simps(3))
qed

lemma visible_recursive_units:
  assumes "0 < nat limit"
  shows "visible (concat (recursive_units limit t)) = visible t"
proof -
  have "visible (concat (if int (length q) \<le> limit then [q] else split_long_paragraph (nat limit) q)) = visible q" for q
    using visible_long_paragraph [OF assms] by (simp del: visible_simps(3))
  then show ?thesis
    unfolding recursive_units_def
    by (subst visible_concat_map) (simp_all add: visible_concat_strip visible_double del: visible_simps(3))
qed

lemma recursive_ok:
  assumes "recursive_split limit overlap t = Inr ps"
  shows "(p \<in> set ps \<longrightarrow> p \<noteq> [] \<and> int (length p) \<le> limit) \<and> subseq (visible t) (visible (concat ps))"
proof -
  let ?n = "normalize_text t"
  have v: "valid_sizes limit overlap" and l: "0 < nat limit"
    using assms by (auto simp: recursive_split_def valid_sizes_def split: if_splits)
  show ?thesis
  proof (cases "?n = []")
    case True
    then have "visible t = []" by (metis visible_normalize visible_simps(1))
    moreover have "ps = []" using assms v True by (simp add: recursive_split_def)
    ultimately show ?thesis by simp
  next
    case nonempty: False
    show ?thesis
    proof (cases "int (length ?n) \<le> limit")
      case True
      then have "ps = [?n]" using assms v nonempty by (simp add: recursive_split_def)
      with True nonempty show ?thesis by simp
    next
      case False
      then have m: "merge_units limit overlap (recursive_units limit ?n) = Inr ps"
        using assms v nonempty by (simp add: recursive_split_def)
      have "visible (concat (recursive_units limit ?n)) = visible t"
        using visible_recursive_units [OF l] visible_normalize by metis
      with merge_contract [OF m v, of t] show ?thesis by simp
    qed
  qed
qed

interpretation by_recursion: splitter limit "recursive_split limit overlap" for limit overlap
  by unfold_locales (use recursive_ok in blast)+

lemma visible_groups:
  "visible (concat (group_units limit threshold uvs grouped current previous)) =
     visible (concat grouped) @ visible current @ visible (concat (map fst uvs))"
  by (induction limit threshold uvs grouped current previous rule: group_units.induct)
    (simp_all add: visible_Cons blank_space)

text \<open>The loop pairs units with vectors: nothing is lost when the model returns one vector per text.\<close>

definition one_vector_each :: "(ustr list \<Rightarrow> vec list option) \<Rightarrow> bool" where
  "one_vector_each vectorize \<longleftrightarrow> (\<forall>us vs. vectorize us = Some vs \<longrightarrow> length vs = length us)"

lemma semantic_ok:
  assumes "semantic_split vectorize threshold limit overlap t = Inr ps" "one_vector_each vectorize"
  shows "(p \<in> set ps \<longrightarrow> p \<noteq> [] \<and> int (length p) \<le> limit) \<and> subseq (visible t) (visible (concat ps))"
proof -
  let ?units = "paragraphs (normalize_text t)"
  have v: "valid_sizes limit overlap" using assms(1) by (simp add: semantic_split_def split: if_splits)
  consider "recursive_split limit overlap t = Inr ps"
    | (vectors) vs where "2 \<le> length ?units" "vectorize ?units = Some vs"
      "merge_units limit overlap (group_units limit threshold (zip (tl ?units) (tl vs)) [] (hd ?units) (hd vs)) = Inr ps"
    using assms(1) v by (auto simp: semantic_split_def Let_def split: if_splits option.splits)
  then show ?thesis
  proof cases
    case 1
    then show ?thesis by (rule recursive_ok)
  next
    case (vectors vs)
    have "length vs = length ?units" using assms(2) vectors(2) by (simp add: one_vector_each_def)
    then have fst: "map fst (zip (tl ?units) (tl vs)) = tl ?units" by simp
    have "?units \<noteq> []" using vectors(1) by auto
    then have "hd ?units @ concat (tl ?units) = concat ?units" by (metis concat.simps(2) list.collapse)
    then have "visible (concat (group_units limit threshold (zip (tl ?units) (tl vs)) [] (hd ?units) (hd vs))) = visible t"
      unfolding visible_groups fst by (metis append_Nil concat.simps(1) visible_normalize visible_paragraphs visible_simps(1,2))
    with merge_contract [OF vectors(3) v, of t] show ?thesis by simp
  qed
qed

lemma any_splitter:
  assumes "one_vector_each vectorize"
  shows "splitter limit (split_with strategy vectorize threshold limit overlap)"
proof
  fix t ps p
  assume "split_with strategy vectorize threshold limit overlap t = Inr ps"
  then have "(p \<in> set ps \<longrightarrow> p \<noteq> [] \<and> int (length p) \<le> limit) \<and> subseq (visible t) (visible (concat ps))"
    using fixed_split_parts [of limit overlap t ps] paragraph_ok semantic_ok [OF _ assms] recursive_ok
    by (auto simp: split_with.simps split: if_splits simp del: visible_simps(3))
  then show "p \<in> set ps \<Longrightarrow> p \<noteq> [] \<and> int (length p) \<le> limit" "subseq (visible t) (visible (concat ps))"
    by blast+
qed

section \<open>When a splitter fails\<close>

lemma merge_loop_total:
  "valid_sizes limit overlap \<Longrightarrow> (\<And>u. u \<in> set units \<Longrightarrow> visible u \<noteq> []) \<Longrightarrow>
     \<exists>ps. merge_loop limit overlap units pieces current = Inr ps"
proof (induction limit overlap units pieces current rule: merge_loop.induct)
  case (2 limit overlap unit units pieces current)
  have "visible unit \<noteq> []" using 2(5) by simp
  then have "normalize_text unit \<noteq> []" by (metis visible_normalize visible_simps(1))
  then have f: "\<exists>hard. fixed_split limit overlap unit = Inr hard \<and> hard \<noteq> []"
    using 2(4) by (simp add: fixed_split_def windows_empty_iff valid_sizes_def)
  show ?case using 2(1-3) [OF _ ] 2(4,5) f by (auto simp: Let_def)
qed simp

end
