(* ===== verification/Injection.thy ===== *)
theory Injection
  imports Models
begin

text \<open>
  The prompt injection rules of \<open>app/services/evidence.py\<close>: the two pattern lists, the risk of a
  text, the quarantine decision of the ingestion worker and the optional second opinion of a model.
  The completion service and \<open>json.loads\<close> are parameters (\<open>judge_env\<close>).  Ratios are exact
  rationals.
\<close>

section \<open>Patterns\<close>

text \<open>The groups are only alternatives: nothing is captured.\<close>

definition HIGH_RISK_PATTERNS :: "regex list" where
  "HIGH_RISK_PATTERNS =
    [seq [lit_ci (u ''ignore ''), opt (alts [lit_ci (u ''all ''), lit_ci (u ''the '')]), alts [lit_ci (u ''previous''), lit_ci (u ''prior''), lit_ci (u ''system'')], lit_ci (u '' ''), alts [seq [lit_ci (u ''instruction''), opt (Atom (ci 115))], seq [lit_ci (u ''prompt''), opt (Atom (ci 115))]]],
     seq [lit [24573, 30053], alts [lit [20197, 19978], lit [20043, 21069], lit [19978, 38754], lit [31995, 32479]], opt (lit [25152, 26377]), alts [lit [25351, 20196], lit [25552, 31034], lit [35268, 21017]]],
     seq [alts [lit_ci (u ''reveal''), lit_ci (u ''print''), lit_ci (u ''show''), lit_ci (u ''leak''), lit [27844, 38706], lit [36755, 20986], lit [25171, 21360]], Rep 0 (Some 20) dot, alts [lit_ci (u ''system prompt''), lit [31995, 32479, 25552, 31034, 35789], lit [31995, 32479, 25351, 20196]]],
     seq [alts [lit_ci (u ''call''), lit_ci (u ''invoke''), lit_ci (u ''execute''), lit_ci (u ''run''), lit [35843, 29992], lit [25191, 34892]], Rep 0 (Some 20) dot, alts [lit_ci (u ''tool''), lit_ci (u ''function''), lit [24037, 20855], lit [20989, 25968]]],
     seq [alts [lit_ci (u ''delete''), lit_ci (u ''remove''), lit_ci (u ''drop''), lit [21024, 38500], lit [28165, 31354]], Rep 0 (Some 20) dot, alts [lit_ci (u ''data''), lit_ci (u ''database''), lit [29992, 25143], lit [25968, 25454]]],
     seq [lit_ci (u ''you ''), alts [lit_ci (u ''are''), lit_ci (u ''must'')], lit_ci (u '' now ''), alts [lit_ci (u ''act''), lit_ci (u ''behave''), lit_ci (u ''pretend'')]],
     seq [alts [lit [29616, 22312, 24320, 22987], lit [20174, 29616, 22312, 36215]], Rep 0 (Some 12) dot, alts [lit [25198, 28436], lit [20551, 35013], lit [24573, 30053]]],
     seq [alts [lit_ci (u ''forget''), lit_ci (u ''erase''), lit_ci (u ''overwrite''), lit_ci (u ''reset'')], Rep 0 (Some 20) dot, alts [lit_ci (u ''memory''), lit_ci (u ''context''), lit_ci (u ''history''), lit_ci (u ''rules'')]],
     seq [alts [lit_ci (u ''output''), lit_ci (u ''return''), lit_ci (u ''reply'')], Rep 0 (Some 30) dot, alts [lit_ci (u ''exactly''), lit_ci (u ''verbatim''), lit [21407, 25991], lit [19968, 23383, 19981, 24046]]]]"

definition MEDIUM_RISK_PATTERNS :: "regex list" where
  "MEDIUM_RISK_PATTERNS =
    [seq [lit_ci (u ''do not ''), alts [lit_ci (u ''cite''), lit_ci (u ''follow''), lit_ci (u ''mention''), lit_ci (u ''reference'')]],
     seq [alts [lit [19981, 35201], lit [19981, 24471], lit [31105, 27490]], alts [lit [24341, 29992], lit [26631, 27880], lit [36981, 23432], lit [36981, 24490]]],
     seq [alts [lit_ci (u ''respond''), lit_ci (u ''answer''), lit_ci (u ''reply'')], lit_ci (u '' ''), opt (lit_ci (u ''only '')), lit_ci (u ''with'')],
     seq [alts [lit [36825, 26159], lit [20197, 19979, 26159]], alts [lit [26032, 30340], lit [26368, 26032, 30340]], alts [lit [25351, 20196], lit [35268, 21017], lit [35201, 27714]]],
     seq [lit_ci (u ''disregard ''), Rep 0 (Some 30) dot, alts [lit_ci (u ''context''), lit_ci (u ''document''), lit_ci (u ''instruction'')]],
     seq [alts [lit_ci (u ''insert''), lit_ci (u ''inject''), lit_ci (u ''override''), lit [31713, 25913], lit [25554, 20837]], Rep 0 (Some 20) dot, alts [lit_ci (u ''response''), lit_ci (u ''answer''), lit [22238, 31572], lit [22238, 22797]]],
     seq [lit_ci (u ''<|''), Rep 0 (Some 10) dot, lit_ci (u ''|>'')]]"

datatype risk = RiskNone | RiskMedium | RiskHigh

definition injection_risk :: "'a settings_scheme \<Rightarrow> ustr \<Rightarrow> risk" where
  "injection_risk cfg text =
     (if \<not> prompt_injection_detection_enabled cfg then RiskNone
      else if list_ex (\<lambda>r. re_search r text) HIGH_RISK_PATTERNS then RiskHigh
      else if list_ex (\<lambda>r. re_search r text) MEDIUM_RISK_PATTERNS then RiskMedium
      else RiskNone)"

definition detect_prompt_injection :: "'a settings_scheme \<Rightarrow> ustr \<Rightarrow> bool" where
  "detect_prompt_injection cfg text \<longleftrightarrow> injection_risk cfg text \<noteq> RiskNone"

section \<open>The second opinion of a model\<close>

text \<open>\<open>completion\<close> is the text of the answer, \<open>None\<close> when the call raises; \<open>loads\<close> is \<open>json.loads\<close>.\<close>

record judge_env =
  completion :: "ustr \<Rightarrow> ustr option"
  loads :: "ustr \<Rightarrow> json option"

text \<open>\<open>s.find(c)\<close>, \<open>s.rfind(c)\<close> and \<open>s[i:j]\<close> with Python's negative indices.\<close>

definition find_char :: "nat \<Rightarrow> ustr \<Rightarrow> int" where
  "find_char c s = (if c \<in> set s then int (length (takeWhile (\<lambda>x. x \<noteq> c) s)) else -1)"

definition rfind_char :: "nat \<Rightarrow> ustr \<Rightarrow> int" where
  "rfind_char c s =
     (if c \<in> set s then int (length s) - 1 - int (length (takeWhile (\<lambda>x. x \<noteq> c) (rev s))) else -1)"

definition at_index :: "nat \<Rightarrow> int \<Rightarrow> nat" where
  "at_index n i = (if i < 0 then nat (int n + i) else min n (nat i))"

definition py_slice :: "ustr \<Rightarrow> int \<Rightarrow> int \<Rightarrow> ustr" where
  "py_slice s i j = slice s (at_index (length s) i) (at_index (length s) j)"

definition json_span :: "nat \<Rightarrow> nat \<Rightarrow> ustr \<Rightarrow> ustr" where
  "json_span a b s = py_slice s (find_char a s) (rfind_char b s + 1)"

fun truthy :: "json \<Rightarrow> bool" where
  "truthy JNull = False"
| "truthy (JBool b) = b"
| "truthy (JInt n) = (n \<noteq> 0)"
| "truthy (JStr s) = (s \<noteq> [])"
| "truthy (JList xs) = (xs \<noteq> [])"
| "truthy (JObj kvs) = (kvs \<noteq> [])"

definition judge_message :: "ustr list \<Rightarrow> ustr" where
  "judge_message pieces = u ''<untrusted_document>'' @ [10] @
     ujoin ([10] @ u ''---'' @ [10]) (map (take 800) pieces) @ [10] @ u ''</untrusted_document>''"

definition classify_injection_with_llm_sync :: "'a settings_scheme \<Rightarrow> judge_env \<Rightarrow> ustr list \<Rightarrow> bool option" where
  "classify_injection_with_llm_sync cfg J pieces =
     (if llm_api_key cfg = [] then None
      else case completion J (judge_message pieces) of None \<Rightarrow> None
        | Some answer \<Rightarrow> (case loads J (json_span 123 125 answer) of
            Some (JObj kvs) \<Rightarrow> Some (truthy (coalesce (map_of kvs ''malicious'') JNull))
          | _ \<Rightarrow> None))"

section \<open>The quarantine decision\<close>

definition should_quarantine :: "'a settings_scheme \<Rightarrow> judge_env \<Rightarrow> ustr list \<Rightarrow> bool" where
  "should_quarantine cfg J pieces =
     (if \<not> injection_quarantine_enabled cfg \<or> pieces = [] then False
      else let high = filter (\<lambda>p. injection_risk cfg p = RiskHigh) pieces in
        if high = [] then False
        else if of_nat (length high) / of_nat (length pieces) < injection_quarantine_ratio cfg then False
        else if injection_llm_check_enabled cfg then
          (case classify_injection_with_llm_sync cfg J (take 3 high) of None \<Rightarrow> True | Some verdict \<Rightarrow> verdict)
        else True)"

lemma quarantine_needs_high_risk:
  "should_quarantine cfg J pieces \<Longrightarrow> injection_quarantine_enabled cfg \<and>
     (\<exists>p \<in> set pieces. \<exists>r \<in> set HIGH_RISK_PATTERNS. re_search r p)"
  by (auto simp: should_quarantine_def injection_risk_def Let_def filter_empty_conv list_ex_iff split: if_splits)

lemma no_quarantine [simp]: "\<not> injection_quarantine_enabled cfg \<Longrightarrow> \<not> should_quarantine cfg J pieces"
  by (simp add: should_quarantine_def)

end
