(* ===== verification/Ingest.thy ===== *)
theory Ingest
  imports Environment Graph Chunker Injection
begin

text \<open>
  The ingestion worker \<open>ingest_document\<close> of \<open>app/tasks/ingest.py\<close> as a state machine.  A phase is
  the code between two commits; \<open>run_phase\<close> executes one phase and commits, or raises; the exception
  handler is a phase of its own.  The document object the worker holds is its session's copy of the
  row, read once after the claim: later phases use that copy, as the code does, while the guards of
  the updates look at the row.  Workers run concurrently with one another and with the
  environment of the theory Environment.
\<close>

section \<open>Parameters\<close>

text \<open>The parser, the embedding model while batches are stored and while a text is split (\<open>None\<close> when
  it raises), the semantic threshold and its printed form, the judge of the injection review, and
  \<open>jieba\<close>.\<close>

record pipeline =
  pl_parse :: "string \<Rightarrow> ustr option \<Rightarrow> segment list"
  pl_embed :: "ustr list \<Rightarrow> vec list"
  pl_vectorize :: "ustr list \<Rightarrow> vec list option"
  pl_semantic_threshold :: real
  pl_judge :: judge_env
  pl_cut :: "ustr \<Rightarrow> ustr list"
  pl_tags :: "ustr \<Rightarrow> ustr list"
  pl_threshold :: string

definition tokenize :: "pipeline \<Rightarrow> ustr \<Rightarrow> ustr" where
  "tokenize pl text = ujoin [32] (filter (\<lambda>t. strip t \<noteq> []) (pl_cut pl text))"

text \<open>The call of \<open>split_segments\<close> and of \<open>should_quarantine\<close>; the message of a failed split.\<close>

definition split_pieces :: "pipeline \<Rightarrow> settings \<Rightarrow> segment list \<Rightarrow> piece list chunked" where
  "split_pieces pl cfg segments = split_segments (chunk_strategy cfg) (pl_vectorize pl) (pl_semantic_threshold pl)
     (chunk_size cfg) (chunk_overlap cfg) segments"

definition quarantines :: "pipeline \<Rightarrow> settings \<Rightarrow> piece list \<Rightarrow> bool" where
  "quarantines pl cfg pieces = should_quarantine cfg (pl_judge pl) (map p_content pieces)"

fun chunk_message :: "chunk_error \<Rightarrow> ustr" where
  "chunk_message BadSize = u ''invalid chunk_size or overlap''"
| "chunk_message UnknownStrategy = u ''unknown chunk strategy''"
| "chunk_message NoPiece = u ''list index out of range''"
| "chunk_message EmbedIndex = u ''list index out of range''"

definition chunk_config_hash :: "pipeline \<Rightarrow> settings \<Rightarrow> ctx \<Rightarrow> string" where
  "chunk_config_hash pl cfg c = sha256 c (u (chunk_strategy cfg @ '':'' @ show_int (chunk_size cfg) @ '':'' @
     show_int (chunk_overlap cfg) @ '':'' @ pl_threshold pl))"

definition pipeline_fingerprint :: "pipeline \<Rightarrow> settings \<Rightarrow> ctx \<Rightarrow> string \<Rightarrow> string" where
  "pipeline_fingerprint pl cfg c content_hash = sha256 c (u (content_hash @ '':'' @
     chunk_config_hash pl cfg c @ '':'' @ embedding_model cfg))"

section \<open>Exceptions, phases, workers\<close>

datatype exn = LeaseLost | NonRetryable ustr | Retryable ustr | SoftTimeLimit ustr

fun exn_text :: "exn \<Rightarrow> ustr" where
  "exn_text LeaseLost = u ''ingestion lease was lost''"
| "exn_text (NonRetryable m) = m"
| "exn_text (Retryable m) = m"
| "exn_text (SoftTimeLimit m) = m"

datatype outcome = Skipped | Completed nat nat bool | LeaseGone | Requeued nat | GaveUp ustr
  | SoftLimit | Crashed

datatype phase =
    Claim
  | Load
  | Fingerprint document
  | Parse document bool
  | Split document bool "segment list"
  | Prepare document bool "piece list" bool
  | Batches document string "piece list" bool "(nat \<times> piece) list list"
  | Activate document string "piece list" bool
  | Announce document "piece list" bool
  | Failing exn string
  | Finished outcome

record worker =
  wk_doc :: string
  wk_token :: string
  wk_retries :: nat
  wk_host :: string
  wk_phase :: phase

lemma worker_phase_eq [simp]: "w\<lparr>wk_phase := a\<rparr> = w\<lparr>wk_phase := b\<rparr> \<longleftrightarrow> a = b"
  by (cases w) simp

text \<open>\<open>current_stage\<close> of the \<open>try\<close> block; \<open>None\<close> outside it.\<close>

fun try_stage :: "phase \<Rightarrow> string option" where
  "try_stage (Parse _ _) = Some ''parsing''"
| "try_stage (Split _ _ _) = Some ''chunking''"
| "try_stage (Prepare _ _ _ _) = Some ''embedding''"
| "try_stage (Batches _ _ _ _ _) = Some ''embedding''"
| "try_stage (Activate _ _ _ _) = Some ''indexing''"
| "try_stage (Announce _ _ _) = Some ''indexing''"
| "try_stage _ = None"

section \<open>The transactions of a worker\<close>

definition holds :: "worker \<Rightarrow> document \<Rightarrow> bool" where
  "holds w d \<longleftrightarrow> d_id d = wk_doc w \<and> d_token d = Some (wk_token w)"

definition holder :: "worker \<Rightarrow> sys \<Rightarrow> bool" where
  "holder w s \<longleftrightarrow> (\<exists>d \<in> set (docs s). holds w d)"

definition document_event :: "document \<Rightarrow> string \<Rightarrow> nat \<Rightarrow> json \<Rightarrow> (string \<times> json) list \<Rightarrow> json" where
  "document_event d status n error details = JObj ([(''type'', jid ''document''),
     (''document_id'', jid (d_id d)), (''kb_id'', jid (d_kb d)), (''filename'', JStr (d_filename d)),
     (''status'', jid status), (''chunk_count'', JInt (int n)), (''error'', error)] @ details)"

definition publish_sync :: "string \<Rightarrow> json \<Rightarrow> sys \<Rightarrow> sys" where
  "publish_sync user_id payload s = s\<lparr>published := published s @ [(''notify:'' @ user_id, payload)]\<rparr>"

definition publish_stage :: "document \<Rightarrow> doc_status \<Rightarrow> sys \<Rightarrow> sys" where
  "publish_stage d st s = publish_sync (d_owner d) (document_event d (status_value st) 0 JNull []) s"

lemma publish_simps [simp]:
  "docs (publish_sync x p s) = docs s" "chunks (publish_sync x p s) = chunks s"
  "kbs (publish_sync x p s) = kbs s" "broker (publish_sync x p s) = broker s"
  "outbox (publish_sync x p s) = outbox s" "dead (publish_sync x p s) = dead s"
  "docs (publish_stage d st s) = docs s" "chunks (publish_stage d st s) = chunks s"
  "kbs (publish_stage d st s) = kbs s" "broker (publish_stage d st s) = broker s"
  "outbox (publish_stage d st s) = outbox s" "dead (publish_stage d st s) = dead s"
  by (simp_all add: publish_sync_def publish_stage_def)

text \<open>The compare-and-set that claims a document.\<close>

definition claimable :: "doc_status list" where
  "claimable = [Uploaded, Queued, Retrying]"

definition claimed :: "ctx \<Rightarrow> worker \<Rightarrow> document \<Rightarrow> document" where
  "claimed c w d = set_status Parsing d\<lparr>d_token := Some (wk_token w), d_worker := Some (wk_host w),
     d_started := Some (coalesce (d_started d) (now c)), d_heartbeat := Some (now c), d_finished := None,
     d_error := None, d_target := Some (coalesce (d_target d) (next_version d)), d_updated := now c\<rparr>"

definition claim_phase :: "ctx \<Rightarrow> worker \<Rightarrow> sys \<Rightarrow> sys \<times> phase" where
  "claim_phase c w s =
     (let P = (\<lambda>d. d_id d = wk_doc w \<and> d_status d \<in> set claimable) in
      if \<exists>d \<in> set (docs s). P d then (upd_docs P (claimed c w) s, Load) else (s, Finished Skipped))"

definition load_phase :: "worker \<Rightarrow> sys \<Rightarrow> sys \<times> phase" where
  "load_phase w s = (case get_doc s (wk_doc w) of
      None \<Rightarrow> (s, Finished Crashed)
    | Some d \<Rightarrow> (publish_stage d Parsing s, Fingerprint d))"

definition fingerprint_phase :: "pipeline \<Rightarrow> settings \<Rightarrow> ctx \<Rightarrow> worker \<Rightarrow> document \<Rightarrow> sys \<Rightarrow> sys \<times> phase" where
  "fingerprint_phase pl cfg c w d s =
     (let fp = pipeline_fingerprint pl cfg c (d_hash d) in
      if d_fingerprint d = Some fp then (s, Parse d True)
      else (upd_docs (holds w) (\<lambda>x. x\<lparr>d_fingerprint := Some fp, d_updated := now c\<rparr>) s, Parse d False))"

text \<open>\<open>_set_stage\<close>\<close>

definition set_stage :: "ctx \<Rightarrow> worker \<Rightarrow> doc_status \<Rightarrow> sys \<Rightarrow> exn + sys" where
  "set_stage c w st s = (if holder w s
     then Inr (upd_docs (holds w) (\<lambda>d. set_status st d\<lparr>d_heartbeat := Some (now c), d_updated := now c\<rparr>) s)
     else Inl LeaseLost)"

definition parse_phase :: "pipeline \<Rightarrow> ctx \<Rightarrow> worker \<Rightarrow> document \<Rightarrow> bool \<Rightarrow> sys \<Rightarrow> exn + (sys \<times> phase)" where
  "parse_phase pl c w d reuse s =
     (if \<not> (\<exists>k \<in> set (objects s). fst k = d_object_key d) then Inl (Retryable (u ''object does not exist''))
      else let segments = pl_parse pl (d_object_key d) (d_source_url d) in
      if \<forall>g \<in> set segments. strip (sg_text g) = [] then Inl (NonRetryable (u ''document parser returned no text''))
      else case set_stage c w Chunking s of Inl e \<Rightarrow> Inl e
        | Inr s1 \<Rightarrow> Inr (publish_stage d Chunking s1, Split d reuse segments))"

definition split_phase :: "pipeline \<Rightarrow> settings \<Rightarrow> ctx \<Rightarrow> worker \<Rightarrow> document \<Rightarrow> bool \<Rightarrow> segment list \<Rightarrow> sys \<Rightarrow> exn + (sys \<times> phase)" where
  "split_phase pl cfg c w d reuse segments s =
     (case split_pieces pl cfg segments of Inl e \<Rightarrow> Inl (Retryable (chunk_message e))
      | Inr pieces \<Rightarrow>
          if pieces = [] then Inl (NonRetryable (u ''chunker returned no content''))
          else case set_stage c w Embedding s of Inl e \<Rightarrow> Inl e
            | Inr s1 \<Rightarrow> Inr (publish_stage d Embedding s1, Prepare d reuse pieces (quarantines pl cfg pieces)))"

text \<open>Which pieces a previous attempt has already stored for this version.\<close>

definition version_chunks :: "string \<Rightarrow> nat \<Rightarrow> sys \<Rightarrow> chunk list" where
  "version_chunks i v s = filter (\<lambda>x. c_doc x = i \<and> c_version x = v) (chunks s)"

definition reusable :: "string \<Rightarrow> nat \<Rightarrow> piece list \<Rightarrow> sys \<Rightarrow> nat list" where
  "reusable i v pieces s = map fst (filter (\<lambda>(n, p).
     map_of (rev (map (\<lambda>x. (c_seq x, c_content x)) (version_chunks i v s))) n = Some (p_content p)) (enum pieces))"

definition prepare_phase ::
  "settings \<Rightarrow> worker \<Rightarrow> document \<Rightarrow> bool \<Rightarrow> piece list \<Rightarrow> bool \<Rightarrow> sys \<Rightarrow> exn + (sys \<times> phase)" where
  "prepare_phase cfg w d reuse pieces quarantine s =
     (case d_target d of None \<Rightarrow> Inl (Retryable (u ''target index version is missing''))
      | Some v \<Rightarrow> (case get_kb s (d_kb d) of None \<Rightarrow> Inl (NonRetryable (u ''knowledge base not found''))
          | Some kb \<Rightarrow>
              let keep = (if reuse then reusable (d_id d) v pieces s else []);
                  s1 = delete_chunks (\<lambda>x. c_doc x = d_id d \<and> c_version x = v \<and> c_seq x \<notin> set keep) s;
                  pending = filter (\<lambda>(n, p). n \<notin> set keep) (enum pieces)
              in Inr (s1, Batches d (k_ws kb) pieces quarantine
                   (batches (nat (max 1 (ingestion_embed_batch_size cfg))) pending))))"

definition jnat_opt :: "nat option \<Rightarrow> json" where
  "jnat_opt v = (case v of None \<Rightarrow> JNull | Some n \<Rightarrow> JInt (int n))"

definition chunk_row ::
  "pipeline \<Rightarrow> ctx \<Rightarrow> document \<Rightarrow> string \<Rightarrow> nat \<Rightarrow> string \<Rightarrow> nat \<Rightarrow> piece \<Rightarrow> vec \<Rightarrow> chunk" where
  "chunk_row pl c d ws v i n p vector =
     \<lparr>c_id = i, c_doc = d_id d, c_owner = d_owner d, c_kb = d_kb d, c_version = v, c_seq = n,
      c_parent_seq = p_parent_seq p, c_page = p_page p, c_ws = Some ws, c_section = p_section p,
      c_content_type = p_content_type p, c_source_url = p_source_url p,
      c_token_count = length (split_ws (tokenize pl (p_content p))),
      c_metadata = JObj [(''section'', jtext (p_section p)), (''page'', jnat_opt (p_page p)),
        (''content_type'', jid (p_content_type p)), (''department'', jtext (d_department d)),
        (''tags'', JList (map JStr (d_tags d)))],
      c_created = now c, c_content = p_content p, c_parent_content = Some (p_parent_content p),
      c_tokens = tokenize pl (p_content p), c_embedding = vector\<rparr>"

definition batch_rows ::
  "pipeline \<Rightarrow> ctx \<Rightarrow> document \<Rightarrow> string \<Rightarrow> nat \<Rightarrow> (nat \<times> piece) list \<Rightarrow> vec list \<Rightarrow> chunk list" where
  "batch_rows pl c d ws v batch vectors =
     map (\<lambda>(k, ((n, p), vector)). chunk_row pl c d ws v (fresh c k) n p vector) (enum (zip batch vectors))"

definition unique_key :: "chunk \<Rightarrow> string \<times> nat \<times> nat" where
  "unique_key x = (c_doc x, c_seq x, c_version x)"

text \<open>Insert a batch and refresh the heartbeat in one transaction.  The insert is flushed first, so
  a missing document and a second row of the same key are integrity errors.\<close>

definition batch_phase ::
  "pipeline \<Rightarrow> settings \<Rightarrow> ctx \<Rightarrow> worker \<Rightarrow> document \<Rightarrow> string \<Rightarrow> piece list \<Rightarrow> bool \<Rightarrow>
   (nat \<times> piece) list \<Rightarrow> (nat \<times> piece) list list \<Rightarrow> sys \<Rightarrow> exn + (sys \<times> phase)" where
  "batch_phase pl cfg c w d ws pieces quarantine batch rest s =
     (let vectors = pl_embed pl (map (\<lambda>(n, p). p_content p) batch);
          v = the (d_target d);
          rows = batch_rows pl c d ws v batch vectors
      in if length vectors \<noteq> length batch
         then Inl (Retryable (u ''embedding provider returned an unexpected vector count''))
         else if get_doc s (d_id d) = None then Inl (Retryable (u ''foreign key violation''))
         else if \<not> distinct (map unique_key (chunks s @ rows)) then Inl (Retryable (u ''unique violation''))
         else if \<exists>x \<in> set rows. length (c_embedding x) \<noteq> embedding_dim cfg then Inl (Retryable (u ''wrong dimension''))
         else if \<not> holder w s then Inl LeaseLost
         else Inr (upd_docs (holds w) (\<lambda>x. stamp c (x\<lparr>d_heartbeat := Some (now c)\<rparr>))
                (s\<lparr>chunks := chunks s @ rows\<rparr>), Batches d ws pieces quarantine rest))"

definition indexing_phase ::
  "ctx \<Rightarrow> worker \<Rightarrow> document \<Rightarrow> string \<Rightarrow> piece list \<Rightarrow> bool \<Rightarrow> sys \<Rightarrow> exn + (sys \<times> phase)" where
  "indexing_phase c w d ws pieces quarantine s =
     (case set_stage c w Indexing s of Inl e \<Rightarrow> Inl e
      | Inr s1 \<Rightarrow> Inr (publish_stage d Indexing s1, Activate d ws pieces quarantine))"

text \<open>The activation: count, graph, compare-and-set, one commit.\<close>

definition activated :: "pipeline \<Rightarrow> settings \<Rightarrow> ctx \<Rightarrow> nat \<Rightarrow> nat \<Rightarrow> bool \<Rightarrow> document \<Rightarrow> document" where
  "activated pl cfg c v n quarantine d = set_status Ready d\<lparr>d_active := Some v, d_target := None,
     d_embedding_model := Some (embedding_model cfg), d_embedding_dim := Some (embedding_dim cfg),
     d_chunk_strategy := chunk_strategy cfg, d_config_hash := Some (chunk_config_hash pl cfg c),
     d_fingerprint := None, d_quarantined := quarantine, d_chunk_count := n, d_error := None,
     d_token := None, d_heartbeat := Some (now c), d_finished := Some (now c), d_updated := now c\<rparr>"

definition gid :: "ctx \<Rightarrow> nat \<Rightarrow> nat \<Rightarrow> string" where
  "gid c n k = fresh c n @ ''e'' @ show_nat k"

definition rid :: "ctx \<Rightarrow> nat \<Rightarrow> nat \<Rightarrow> string" where
  "rid c n k = fresh c n @ ''r'' @ show_nat k"

definition activate_phase ::
  "pipeline \<Rightarrow> settings \<Rightarrow> ctx \<Rightarrow> worker \<Rightarrow> document \<Rightarrow> string \<Rightarrow> piece list \<Rightarrow> bool \<Rightarrow> sys \<Rightarrow> exn + (sys \<times> phase)" where
  "activate_phase pl cfg c w d ws pieces quarantine s =
     (let v = the (d_target d);
          active_chunks = version_chunks (d_id d) v s;
          P = (\<lambda>x. holds w x \<and> d_status x = Indexing);
          s1 = (if graph_retrieval_enabled cfg
                then rebuild_document_graph (uni c) (pl_tags pl) (gid c) (rid c) d active_chunks ws s else s)
      in if length active_chunks \<noteq> length pieces
         then Inl (Retryable (u ''chunk count mismatch before activation''))
         else if \<not> (\<exists>x \<in> set (docs s). P x) then Inl LeaseLost
         else Inr (upd_docs P (activated pl cfg c v (length pieces) quarantine) s1, Announce d pieces quarantine))"

definition announce_phase ::
  "document \<Rightarrow> piece list \<Rightarrow> bool \<Rightarrow> sys \<Rightarrow> sys \<times> phase" where
  "announce_phase d pieces quarantine s =
     (let v = the (d_target d);
          s1 = s\<lparr>invalidated := invalidated s @ [d_kb d]\<rparr>
      in (publish_sync (d_owner d) (document_event d (status_value Ready) (length pieces) JNull
            [(''index_version'', JInt (int v)), (''quarantined'', JBool quarantine)]) s1,
          Finished (Completed (length pieces) v quarantine)))"

fun run_phase :: "pipeline \<Rightarrow> settings \<Rightarrow> ctx \<Rightarrow> worker \<Rightarrow> phase \<Rightarrow> sys \<Rightarrow> exn + (sys \<times> phase)" where
  "run_phase pl cfg c w Claim s = Inr (claim_phase c w s)"
| "run_phase pl cfg c w Load s = Inr (load_phase w s)"
| "run_phase pl cfg c w (Fingerprint d) s = Inr (fingerprint_phase pl cfg c w d s)"
| "run_phase pl cfg c w (Parse d reuse) s = parse_phase pl c w d reuse s"
| "run_phase pl cfg c w (Split d reuse segs) s = split_phase pl cfg c w d reuse segs s"
| "run_phase pl cfg c w (Prepare d reuse pieces q) s = prepare_phase cfg w d reuse pieces q s"
| "run_phase pl cfg c w (Batches d ws pieces q (batch # rest)) s =
     batch_phase pl cfg c w d ws pieces q batch rest s"
| "run_phase pl cfg c w (Batches d ws pieces q []) s = indexing_phase c w d ws pieces q s"
| "run_phase pl cfg c w (Activate d ws pieces q) s = activate_phase pl cfg c w d ws pieces q s"
| "run_phase pl cfg c w (Announce d pieces q) s = Inr (announce_phase d pieces q s)"
| "run_phase pl cfg c w ph s = Inr (s, ph)"

section \<open>The exception handler\<close>

definition max_task_retries :: nat where
  "max_task_retries = 3"

definition failed_row :: "ctx \<Rightarrow> doc_status \<Rightarrow> exn \<Rightarrow> document \<Rightarrow> document" where
  "failed_row c st e d = drop_lease (set_status st d)\<lparr>d_error := Some (take 2000 (exn_text e)),
     d_retry := d_retry d + 1, d_heartbeat := Some (now c),
     d_finished := (if st = Failed then Some (now c) else None), d_updated := now c\<rparr>"

fun is_retryable :: "exn \<Rightarrow> bool" where
  "is_retryable (NonRetryable _) = False"
| "is_retryable _ = True"

definition fail_phase :: "ctx \<Rightarrow> worker \<Rightarrow> exn \<Rightarrow> string \<Rightarrow> sys \<Rightarrow> sys \<times> phase" where
  "fail_phase c w e stage s =
     (if e = LeaseLost then (s, Finished LeaseGone)
      else
        let again = is_retryable e \<and> wk_retries w < max_task_retries;
            st = (if again then Retrying else Failed);
            s1 = upd_docs (holds w) (failed_row c st e) s;
            s2 = (case get_doc s1 (wk_doc w) of
                Some d \<Rightarrow> if st = Failed then record_dead_letter c (fresh c 0)
                    \<lparr>la_source = ''ingest'', la_task = ''ingest_document'', la_error = exn_text e,
                     la_doc = Some (d_id d), la_kb = Some (d_kb d), la_ws = None,
                     la_payload = JObj [(''document_id'', jid (d_id d)), (''stage'', jid stage)],
                     la_stage = Some stage, la_retry = wk_retries w\<rparr> s1 else s1
              | None \<Rightarrow> s1);
            s3 = (case get_doc s2 (wk_doc w) of
                Some d \<Rightarrow> publish_sync (d_owner d) (document_event d (status_value st) 0 (jtext (d_error d))
                    [(''retry_count'', JInt (int (d_retry d)))]) s2
              | None \<Rightarrow> s2)
        in if again
           then (s3\<lparr>broker := broker s3 @ [IngestTask (wk_doc w) (wk_retries w + 1)]\<rparr>,
                 Finished (Requeued (min 300 (2 ^ (wk_retries w + 1) * 5))))
           else (s3, Finished (case e of SoftTimeLimit _ \<Rightarrow> SoftLimit | _ \<Rightarrow> GaveUp (take 500 (exn_text e)))))"

text \<open>One step of a worker: a phase, or the handler of the exception the last phase raised.\<close>

fun worker_step :: "pipeline \<Rightarrow> settings \<Rightarrow> ctx \<Rightarrow> worker \<Rightarrow> sys \<Rightarrow> sys \<times> worker" where
  "worker_step pl cfg c w s = (case wk_phase w of
      Failing e stage \<Rightarrow> (let (t, ph) = fail_phase c w e stage s in (t, w\<lparr>wk_phase := ph\<rparr>))
    | ph \<Rightarrow> (case run_phase pl cfg c w ph s of
          Inr (t, ph') \<Rightarrow> (t, w\<lparr>wk_phase := ph'\<rparr>)
        | Inl e \<Rightarrow> (s, w\<lparr>wk_phase := Failing e (coalesce (try_stage ph) '''')\<rparr>)))"

end
