(* ===== verification/IngestSystem.thy ===== *)
theory IngestSystem
  imports Ingest
begin

text \<open>
  Ingestion workers, the environment and faults together.  A world is the database with the
  workers started so far; in a step the environment moves, a broker message starts a worker, a
  worker takes a step, an exception strikes it inside its \<open>try\<close> block, or its process dies.
  The invariant says that versions are numbered as the code means them, that the worker holding
  the lease of a document works for the document's target version, and that once it has prepared
  that version every chunk stored there is the piece of its number.
\<close>

section \<open>The world\<close>

type_synonym world = "sys \<times> worker list"

definition fresh_token :: "string \<Rightarrow> world \<Rightarrow> bool" where
  "fresh_token tok w \<longleftrightarrow> tok \<notin> set (map wk_token (snd w)) \<and> Some tok \<notin> set (map d_token (docs (fst w)))"

definition new_worker :: "string \<Rightarrow> nat \<Rightarrow> string \<Rightarrow> string \<Rightarrow> worker" where
  "new_worker i r tok host =
     \<lparr>wk_doc = i, wk_token = tok, wk_retries = r, wk_host = host, wk_phase = Claim\<rparr>"

inductive ingest_step :: "pipeline \<Rightarrow> settings \<Rightarrow> world \<Rightarrow> world \<Rightarrow> bool" for pl cfg where
  env: "env_move cfg s t \<Longrightarrow> ingest_step pl cfg (s, ws) (t, ws)"
| start: "IngestTask i r \<in> set (broker s) \<Longrightarrow> fresh_token tok (s, ws) \<Longrightarrow>
    ingest_step pl cfg (s, ws) (s\<lparr>broker := b\<rparr>, ws @ [new_worker i r tok host])"
| work: "k < length ws \<Longrightarrow> worker_step pl cfg c (ws ! k) s = (t, w) \<Longrightarrow>
    ingest_step pl cfg (s, ws) (t, ws[k := w])"
| fault: "k < length ws \<Longrightarrow> try_stage (wk_phase (ws ! k)) = Some st \<Longrightarrow> e \<noteq> LeaseLost \<Longrightarrow>
    ingest_step pl cfg (s, ws) (s, ws[k := (ws ! k)\<lparr>wk_phase := Failing e st\<rparr>])"
| crash: "k < length ws \<Longrightarrow>
    ingest_step pl cfg (s, ws) (s, ws[k := (ws ! k)\<lparr>wk_phase := Finished Crashed\<rparr>])"

definition target_ok :: "document \<Rightarrow> bool" where
  "target_ok d \<longleftrightarrow> (\<forall>t. d_target d = Some t \<longrightarrow> t = next_version d) \<and>
     (d_token d \<noteq> None \<longrightarrow> d_target d \<noteq> None)"

definition wf_db :: "sys \<Rightarrow> bool" where
  "wf_db s \<longleftrightarrow> distinct (doc_ids s) \<and> (\<forall>d \<in> set (docs s). target_ok d) \<and> distinct (map unique_key (chunks s))"

definition ingest_start :: "world \<Rightarrow> bool" where
  "ingest_start w \<longleftrightarrow> wf_db (fst w) \<and> (\<forall>d \<in> set (docs (fst w)). d_token d = None) \<and> snd w = []"

inductive ingest_reach :: "pipeline \<Rightarrow> settings \<Rightarrow> world \<Rightarrow> bool" for pl cfg where
  reach_start: "ingest_start w \<Longrightarrow> ingest_reach pl cfg w"
| reach_step: "ingest_reach pl cfg w \<Longrightarrow> ingest_step pl cfg w w' \<Longrightarrow> ingest_reach pl cfg w'"

interpretation ingest: transition_system ingest_start "ingest_step pl cfg" "ingest_reach pl cfg" for pl cfg
proof
  fix w P
  assume "ingest_reach pl cfg w" "\<And>s. ingest_start s \<Longrightarrow> P s"
    "\<And>s t. ingest_reach pl cfg s \<Longrightarrow> P s \<Longrightarrow> ingest_step pl cfg s t \<Longrightarrow> P t"
  then show "P w" by (induction rule: ingest_reach.induct) blast+
qed (auto intro: ingest_reach.intros)

section \<open>What a worker knows\<close>

fun snapshot :: "phase \<Rightarrow> document option" where
  "snapshot (Fingerprint d) = Some d"
| "snapshot (Parse d _) = Some d"
| "snapshot (Split d _ _) = Some d"
| "snapshot (Prepare d _ _ _) = Some d"
| "snapshot (Batches d _ _ _ _) = Some d"
| "snapshot (Activate d _ _ _) = Some d"
| "snapshot (Announce d _ _) = Some d"
| "snapshot _ = None"

text \<open>Every chunk of this version carries the piece of its number.\<close>

definition clean :: "sys \<Rightarrow> string \<Rightarrow> nat \<Rightarrow> piece list \<Rightarrow> bool" where
  "clean s i v pieces \<longleftrightarrow> (\<forall>x \<in> set (version_chunks i v s).
     c_seq x < length pieces \<and> c_content x = p_content (pieces ! c_seq x))"

fun indexed :: "phase \<Rightarrow> sys \<Rightarrow> bool" where
  "indexed (Batches d _ pieces _ _) s = clean s (d_id d) (the (d_target d)) pieces"
| "indexed (Activate d _ pieces _) s = clean s (d_id d) (the (d_target d)) pieces"
| "indexed _ _ = True"

fun phase_wf :: "phase \<Rightarrow> bool" where
  "phase_wf (Batches d _ pieces _ bs) \<longleftrightarrow> d_target d \<noteq> None \<and> set (concat bs) \<subseteq> set (enum pieces)"
| "phase_wf (Activate d _ _ _) \<longleftrightarrow> d_target d \<noteq> None"
| "phase_wf _ \<longleftrightarrow> True"

definition worker_inv :: "sys \<Rightarrow> worker \<Rightarrow> bool" where
  "worker_inv s w \<longleftrightarrow> phase_wf (wk_phase w) \<and>
     (\<forall>d0. snapshot (wk_phase w) = Some d0 \<longrightarrow> d_id d0 = wk_doc w) \<and>
     (\<forall>d \<in> set (docs s). holds w d \<longrightarrow> wk_phase w \<noteq> Claim \<and>
        (\<forall>d0. snapshot (wk_phase w) = Some d0 \<longrightarrow> d_target d0 = d_target d) \<and> indexed (wk_phase w) s)"

definition world_inv :: "world \<Rightarrow> bool" where
  "world_inv w \<longleftrightarrow> wf_db (fst w) \<and> distinct (map wk_token (snd w)) \<and> (\<forall>x \<in> set (snd w). worker_inv (fst w) x)"

text \<open>A step of somebody else, as a worker sees it: a lease it still holds has not moved, and no
  chunk of its document appeared.\<close>

definition other_step :: "worker \<Rightarrow> sys \<Rightarrow> sys \<Rightarrow> bool" where
  "other_step w s t \<longleftrightarrow> (\<forall>d' \<in> set (docs t). holds w d' \<longrightarrow>
     (\<exists>d \<in> set (docs s). holds w d \<and> d_target d = d_target d') \<and>
     (\<forall>x \<in> set (chunks t). c_doc x = wk_doc w \<longrightarrow> chunk_key x \<in> chunk_key ` set (chunks s)))"

lemma in_version_chunks: "x \<in> set (version_chunks i v s) \<longleftrightarrow> x \<in> set (chunks s) \<and> c_doc x = i \<and> c_version x = v"
  by (auto simp: version_chunks_def)

lemma clean_mono:
  assumes "clean s i v pieces" "\<forall>x \<in> set (chunks t). c_doc x = i \<longrightarrow> chunk_key x \<in> chunk_key ` set (chunks s)"
  shows "clean t i v pieces"
  unfolding clean_def
proof
  fix x assume "x \<in> set (version_chunks i v t)"
  then obtain y where "y \<in> set (chunks s)" "chunk_key y = chunk_key x" "c_doc x = i" "c_version x = v"
    using assms(2) by (force simp: in_version_chunks)
  then have "y \<in> set (version_chunks i v s)" "c_seq y = c_seq x" "c_content y = c_content x"
    by (auto simp: in_version_chunks chunk_key_def)
  with assms(1) show "c_seq x < length pieces \<and> c_content x = p_content (pieces ! c_seq x)"
    by (auto simp: clean_def)
qed

lemma indexed_mono:
  assumes "indexed ph s" "\<forall>d0. snapshot ph = Some d0 \<longrightarrow> d_id d0 = i"
    and "\<forall>x \<in> set (chunks t). c_doc x = i \<longrightarrow> chunk_key x \<in> chunk_key ` set (chunks s)"
  shows "indexed ph t"
proof -
  have "clean t i v ps" if "clean s i v ps" for v ps
    using that assms(3) by (rule clean_mono)
  then show ?thesis using assms(1,2) by (cases ph) auto
qed

lemma other_step_inv:
  assumes "worker_inv s w" "other_step w s t"
  shows "worker_inv t w"
proof -
  have "indexed (wk_phase w) t" if "d' \<in> set (docs t)" "holds w d'" for d'
  proof -
    have "indexed (wk_phase w) s" using assms that by (fastforce simp: worker_inv_def other_step_def)
    then show ?thesis
      by (rule indexed_mono [where i = "wk_doc w"]) (use assms that in \<open>auto simp: worker_inv_def other_step_def\<close>)
  qed
  then show ?thesis
    using assms unfolding worker_inv_def other_step_def by metis
qed

section \<open>The environment\<close>

lemma subseq_set: "subseq xs ys \<Longrightarrow> set xs \<subseteq> set ys"
  using subseq_set_distinct by blast

lemma key_parts: "unique_key x = (\<lambda>(i, v, n, t). (i, n, v)) (chunk_key x)"
  by (simp add: unique_key_def chunk_key_def)

lemma subseq_distinct_map:
  assumes "subseq (map chunk_key xs) (map chunk_key ys)" "distinct (map unique_key ys)"
  shows "distinct (map unique_key xs)"
proof -
  have eq: "map unique_key zs = map (\<lambda>(i, v, n, t). (i, n, v)) (map chunk_key zs)" for zs
    by (simp add: key_parts)
  have "subseq (map unique_key xs) (map unique_key ys)"
    unfolding eq by (rule subseq_map) (rule assms(1))
  with assms(2) show ?thesis by (simp add: subseq_set_distinct)
qed

lemma env_ok_target: "env_ok d d' \<Longrightarrow> target_ok d \<Longrightarrow> target_ok d'"
  by (auto simp: env_ok_def target_ok_def next_version_def)

lemma env_step_wf:
  assumes "env_step s t" "wf_db s"
  shows "wf_db t"
  using assms(1)
proof cases
  case quiet
  have "target_ok d'" if "d' \<in> set (docs t)" for d'
    using quiet that assms(2) env_ok_target by (meson quiet_step_def wf_db_def)
  moreover have "distinct (map unique_key (chunks t))"
    using quiet assms(2) subseq_distinct_map by (auto simp: quiet_step_def wf_db_def)
  ultimately show ?thesis
    using quiet assms(2) by (simp add: wf_db_def quiet_step_def)
next
  case (insert d)
  then show ?thesis
    using assms(2) by (auto simp: wf_db_def doc_ids_def target_ok_def new_doc_def)
qed

lemma env_step_other:
  assumes "env_step s t" "wf_db s"
  shows "other_step w s t"
  using assms(1)
proof cases
  case quiet
  have "\<exists>d \<in> set (docs s). holds w d \<and> d_target d = d_target d'"
    if d': "d' \<in> set (docs t)" "holds w d'" for d'
  proof -
    obtain d where d: "d \<in> set (docs s)" "env_ok d d'" using quiet d' by (auto simp: quiet_step_def)
    then have "holds w d" using d' by (auto simp: holds_def env_ok_def)
    moreover have "d_target d = d_target d'"
      using d \<open>holds w d\<close> assms(2) by (auto simp: wf_db_def target_ok_def env_ok_def holds_def)
    ultimately show ?thesis using d by blast
  qed
  moreover have "chunk_key ` set (chunks t) \<subseteq> chunk_key ` set (chunks s)"
  proof -
    have "subseq (map chunk_key (chunks t)) (map chunk_key (chunks s))"
      using quiet by (simp add: quiet_step_def)
    from subseq_set [OF this] show ?thesis by simp
  qed
  ultimately show ?thesis unfolding other_step_def by blast
next
  case (insert d)
  then show ?thesis
    by (auto simp: other_step_def holds_def new_doc_def)
qed

section \<open>The steps of a worker on the database\<close>

text \<open>A worker updates rows of its own document only, never gives the row another worker's lease,
  and adds chunks only to its own document and while it holds the lease.\<close>

definition own_docs :: "worker \<Rightarrow> sys \<Rightarrow> sys \<Rightarrow> bool" where
  "own_docs w s t \<longleftrightarrow> (\<exists>P f. docs t = update_where P f (docs s) \<and>
     (\<forall>d. P d \<longrightarrow> d_id d = wk_doc w \<and> d_id (f d) = d_id d \<and> d_token (f d) \<in> {None, Some (wk_token w)} \<and>
        (target_ok d \<longrightarrow> target_ok (f d))))"

definition own_chunks :: "worker \<Rightarrow> sys \<Rightarrow> sys \<Rightarrow> bool" where
  "own_chunks w s t \<longleftrightarrow> subseq (map chunk_key (chunks t)) (map chunk_key (chunks s)) \<or>
     (\<exists>rows. chunks t = chunks s @ rows \<and> (\<forall>x \<in> set rows. c_doc x = wk_doc w) \<and>
        distinct (map unique_key (chunks t)) \<and> holder w s \<and> holder w t)"

definition own_step :: "worker \<Rightarrow> sys \<Rightarrow> sys \<Rightarrow> bool" where
  "own_step w s t \<longleftrightarrow> own_docs w s t \<and> own_chunks w s t"

lemma own_docs_same: "docs t = docs s \<Longrightarrow> own_docs w s t"
  unfolding own_docs_def by (intro exI [of _ "\<lambda>_. False"]) (simp add: update_where_def)

lemma own_chunks_same: "chunks t = chunks s \<Longrightarrow> own_chunks w s t"
  by (simp add: own_chunks_def)

lemma own_step_same [simp]: "docs t = docs s \<Longrightarrow> chunks t = chunks s \<Longrightarrow> own_step w s t"
  by (simp add: own_step_def own_docs_same own_chunks_same)

lemma own_step_update:
  assumes "docs t = update_where P f (docs s)" "chunks t = chunks s"
    and "\<And>d. P d \<Longrightarrow> d_id d = wk_doc w \<and> d_id (f d) = d_id d \<and> d_token (f d) \<in> {None, Some (wk_token w)} \<and>
        (target_ok d \<longrightarrow> target_ok (f d))"
  shows "own_step w s t"
  unfolding own_step_def own_docs_def using assms own_chunks_same by blast

lemma own_step_wf:
  assumes "own_step w s t" "wf_db s"
  shows "wf_db t"
proof -
  obtain P f where f: "docs t = update_where P f (docs s)"
      "\<And>d. P d \<Longrightarrow> d_id (f d) = d_id d \<and> (target_ok d \<longrightarrow> target_ok (f d))"
    using assms(1) by (auto simp: own_step_def own_docs_def)
  have "doc_ids t = doc_ids s"
    unfolding doc_ids_def f(1) by (rule map_update_where) (use f(2) in blast)
  moreover have "target_ok d'" if "d' \<in> set (docs t)" for d'
    using that assms(2) f(2) unfolding f(1) in_update_where wf_db_def by (auto split: if_splits)
  moreover have "distinct (map unique_key (chunks t))"
    using assms subseq_distinct_map by (auto simp: own_step_def own_chunks_def wf_db_def)
  ultimately show ?thesis using assms(2) by (simp add: wf_db_def)
qed

lemma own_step_row:
  assumes "own_docs w s t" "d' \<in> set (docs t)" "holds w2 d'" "wk_token w2 \<noteq> wk_token w"
  shows "d' \<in> set (docs s)"
proof -
  obtain P f where f: "docs t = update_where P f (docs s)"
      "\<And>d. P d \<Longrightarrow> d_token (f d) \<in> {None, Some (wk_token w)}"
    using assms(1) unfolding own_docs_def by blast
  obtain d where d: "d \<in> set (docs s)" "d' = (if P d then f d else d)"
    using assms(2) unfolding f(1) in_update_where by blast
  with assms(3,4) f(2) [of d] show ?thesis by (auto simp: holds_def split: if_splits)
qed

lemma own_step_other:
  assumes "own_step w s t" "wf_db s" "wk_token w2 \<noteq> wk_token w"
  shows "other_step w2 s t"
  unfolding other_step_def
proof (intro ballI impI conjI)
  fix d' assume d': "d' \<in> set (docs t)" "holds w2 d'"
  have row: "d' \<in> set (docs s)"
    using own_step_row [OF _ d' assms(3)] assms(1) by (simp add: own_step_def)
  with d' show "\<exists>d \<in> set (docs s). holds w2 d \<and> d_target d = d_target d'" by blast
  fix x assume x: "x \<in> set (chunks t)" "c_doc x = wk_doc w2"
  from assms(1) consider "subseq (map chunk_key (chunks t)) (map chunk_key (chunks s))"
    | rows where "chunks t = chunks s @ rows" "\<forall>x \<in> set rows. c_doc x = wk_doc w" "holder w s"
    by (auto simp: own_step_def own_chunks_def)
  then show "chunk_key x \<in> chunk_key ` set (chunks s)"
  proof cases
    case 1
    then have "set (map chunk_key (chunks t)) \<subseteq> set (map chunk_key (chunks s))"
      by (rule subseq_set)
    with x show ?thesis by auto
  next
    case (2 rows)
    then obtain d where d: "d \<in> set (docs s)" "holds w d" by (auto simp: holder_def)
    have "x \<notin> set rows"
    proof
      assume "x \<in> set rows"
      with 2 x d d' have "d_id d = d_id d'" by (auto simp: holds_def)
      with d row assms(2) have "d = d'"
        by (metis wf_db_def doc_ids_def distinct_map inj_onD)
      with d d' assms(3) show False by (simp add: holds_def)
    qed
    with 2 x show ?thesis by auto
  qed
qed

lemma target_ok_changes:
  "target_ok d \<Longrightarrow> target_ok (claimed c w d)"
  "target_ok d \<Longrightarrow> target_ok (set_status st d\<lparr>d_heartbeat := h, d_updated := y\<rparr>)"
  "target_ok d \<Longrightarrow> target_ok (failed_row c st e d)"
  "target_ok (activated pl cfg c v n q d)"
  "target_ok d \<Longrightarrow> target_ok (stamp c (d\<lparr>d_heartbeat := h\<rparr>))"
  "target_ok d \<Longrightarrow> target_ok (d\<lparr>d_fingerprint := fp, d_updated := y\<rparr>)"
  by (auto simp: target_ok_def claimed_def set_status_def failed_row_def activated_def drop_lease_def
      stamp_def next_version_def coalesce_def split: option.splits)

lemma row_simps [simp]:
  "d_id (claimed c w d) = d_id d" "d_token (claimed c w d) = Some (wk_token w)"
  "d_status (claimed c w d) = Parsing"
  "d_id (failed_row c st e d) = d_id d" "d_token (failed_row c st e d) = None"
  "d_id (activated pl cfg c v n q d) = d_id d" "d_token (activated pl cfg c v n q d) = None"
  "d_active (activated pl cfg c v n q d) = Some v" "d_status (activated pl cfg c v n q d) = Ready"
  by (simp_all add: claimed_def failed_row_def activated_def set_status_def drop_lease_def)

lemma claim_own: "claim_phase c w s = (t, ph) \<Longrightarrow> own_step w s t"
proof (cases "t = s")
  case False
  assume "claim_phase c w s = (t, ph)"
  with False have "t = upd_docs (\<lambda>d. d_id d = wk_doc w \<and> d_status d \<in> set claimable) (claimed c w) s"
    by (auto simp: claim_phase_def Let_def split: if_splits)
  then show ?thesis
    by (intro own_step_update [where f = "claimed c w" and
          P = "\<lambda>d. d_id d = wk_doc w \<and> d_status d \<in> set claimable"])
      (auto simp: target_ok_changes)
qed simp

lemma load_own: "load_phase w s = (t, ph) \<Longrightarrow> own_step w s t"
  by (auto simp: load_phase_def split: option.splits)

lemma holds_rows:
  "docs t = update_where (holds w) f (docs s) \<Longrightarrow> chunks t = chunks s \<Longrightarrow>
   (\<And>d. d_id (f d) = d_id d \<and> d_token (f d) \<in> {None, d_token d} \<and> (target_ok d \<longrightarrow> target_ok (f d))) \<Longrightarrow>
   own_step w s t"
  by (rule own_step_update [where P = "holds w" and f = f]) (simp_all add: holds_def, metis)

lemma fingerprint_own: "fingerprint_phase pl cfg c w d s = (t, ph) \<Longrightarrow> own_step w s t"
proof (cases "t = s")
  case False
  assume "fingerprint_phase pl cfg c w d s = (t, ph)"
  with False obtain fp where "t = upd_docs (holds w) (\<lambda>x. x\<lparr>d_fingerprint := fp, d_updated := now c\<rparr>) s"
    by (auto simp: fingerprint_phase_def Let_def split: if_splits)
  then show ?thesis
    by (intro holds_rows [where f = "\<lambda>x. x\<lparr>d_fingerprint := fp, d_updated := now c\<rparr>"])
      (auto simp: target_ok_changes)
qed simp

lemma set_stage_own:
  assumes "set_stage c w st s = Inr t"
  shows "own_step w s t \<and> chunks t = chunks s \<and> holder w t"
proof -
  let ?f = "\<lambda>d. set_status st d\<lparr>d_heartbeat := Some (now c), d_updated := now c\<rparr>"
  have t: "t = upd_docs (holds w) ?f s" and "holder w s"
    using assms by (auto simp: set_stage_def split: if_splits)
  then obtain d where "d \<in> set (docs s)" "holds w d" by (auto simp: holder_def)
  then have "?f d \<in> set (docs t)" "holds w (?f d)"
    by (auto simp: t in_update_where holds_def intro!: bexI [of _ d])
  moreover have "own_step w s t"
    unfolding t by (rule holds_rows [where f = ?f]) (auto simp: target_ok_changes)
  ultimately show ?thesis by (auto simp: holder_def t)
qed

lemma stage_then_publish:
  assumes "set_stage c w st s = Inr s1" "docs t = docs s1" "chunks t = chunks s1"
  shows "own_step w s t"
proof -
  have "own_step w s s1" using set_stage_own [OF assms(1)] by simp
  with assms(2,3) show ?thesis
    by (simp add: own_step_def own_docs_def own_chunks_def holder_def)
qed

lemma parse_own: "parse_phase pl c w d reuse s = Inr (t, ph) \<Longrightarrow> own_step w s t"
  by (auto simp: parse_phase_def Let_def intro: stage_then_publish split: if_splits sum.splits)

lemma split_own: "split_phase pl cfg c w d reuse segs s = Inr (t, ph) \<Longrightarrow> own_step w s t"
  by (auto simp: split_phase_def Let_def intro: stage_then_publish split: if_splits sum.splits)

lemma indexing_own: "indexing_phase c w d ws pieces q s = Inr (t, ph) \<Longrightarrow> own_step w s t"
  by (auto simp: indexing_phase_def Let_def intro: stage_then_publish split: if_splits sum.splits)

lemma prepare_own: "prepare_phase cfg w d reuse pieces q s = Inr (t, ph) \<Longrightarrow> own_step w s t"
  by (auto simp: prepare_phase_def Let_def delete_chunks_def own_step_def own_chunks_def own_docs_same
      subseq_delete_where split: option.splits)

lemma in_batch_rows:
  assumes "x \<in> set (batch_rows pl c d ws v batch vectors)"
  obtains n p where "(n, p) \<in> set batch" "c_doc x = d_id d" "c_version x = v" "c_seq x = n"
    "c_content x = p_content p"
proof -
  obtain k n p vec where "(k, ((n, p), vec)) \<in> set (enum (zip batch vectors))"
      and x: "x = chunk_row pl c d ws v (fresh c k) n p vec"
    using assms by (auto simp: batch_rows_def)
  then have "((n, p), vec) \<in> set (zip batch vectors)" by (simp only: in_enum nth_mem)
  then have "(n, p) \<in> set batch" by (rule set_zip_leftD)
  then show ?thesis by (rule that) (simp_all add: x chunk_row_def)
qed

lemma batch_own:
  assumes "batch_phase pl cfg c w d ws pieces q batch rest s = Inr (t, ph)" "d_id d = wk_doc w"
  shows "own_step w s t"
proof -
  let ?f = "\<lambda>x. stamp c (x\<lparr>d_heartbeat := Some (now c)\<rparr>)"
  obtain rows where rows: "rows = batch_rows pl c d ws (the (d_target d)) batch
      (pl_embed pl (map (\<lambda>(n, p). p_content p) batch))"
    and t: "t = upd_docs (holds w) ?f (s\<lparr>chunks := chunks s @ rows\<rparr>)" "holder w s"
      "distinct (map unique_key (chunks s @ rows))"
    using assms(1) by (auto simp: batch_phase_def Let_def split: if_splits)
  obtain d' where "d' \<in> set (docs s)" "holds w d'" using t(2) by (auto simp: holder_def)
  then have "?f d' \<in> set (docs t)" "holds w (?f d')"
    by (auto simp: t(1) in_update_where holds_def stamp_def intro!: bexI [of _ d'])
  then have "holder w t" by (auto simp: holder_def)
  moreover have "\<forall>x \<in> set rows. c_doc x = wk_doc w"
    using assms(2) by (auto simp: rows elim: in_batch_rows)
  moreover have "own_docs w s t"
    unfolding own_docs_def
    by (intro exI [of _ "holds w"] exI [of _ ?f])
      (auto simp: t(1) holds_def target_ok_changes stamp_def target_ok_def next_version_def)
  ultimately show ?thesis
    using t by (auto simp: own_step_def own_chunks_def)
qed

lemma activate_own:
  assumes "activate_phase pl cfg c w d ws pieces q s = Inr (t, ph)"
  shows "own_step w s t"
proof (rule own_step_update)
  let ?P = "\<lambda>x. holds w x \<and> d_status x = Indexing"
  show "docs t = update_where ?P (activated pl cfg c (the (d_target d)) (length pieces) q) (docs s)"
    "chunks t = chunks s"
    using assms by (auto simp: activate_phase_def Let_def split: if_splits)
qed (auto simp: holds_def target_ok_changes)

lemma announce_own: "announce_phase d pieces q s = (t, ph) \<Longrightarrow> own_step w s t"
  by (auto simp: announce_phase_def Let_def)

lemma fail_own:
  assumes "fail_phase c w e stage s = (t, ph)"
  shows "own_step w s t"
proof (cases "e = LeaseLost")
  case False
  define st where "st = (if is_retryable e \<and> wk_retries w < max_task_retries then Retrying else Failed)"
  have "docs t = update_where (holds w) (failed_row c st e) (docs s)" "chunks t = chunks s"
    using assms False
    by (auto simp: fail_phase_def Let_def st_def split: if_splits option.splits)
  then show ?thesis by (rule holds_rows) (auto simp: target_ok_changes)
qed (use assms in \<open>simp add: fail_phase_def\<close>)

lemma run_phase_own:
  assumes "run_phase pl cfg c w ph s = Inr (t, ph')" "\<forall>d0. snapshot ph = Some d0 \<longrightarrow> d_id d0 = wk_doc w"
  shows "own_step w s t"
  using assms
proof (cases "(pl, cfg, c, w, ph, s)" rule: run_phase.cases)
qed (auto intro: claim_own load_own fingerprint_own parse_own split_own prepare_own batch_own
    indexing_own activate_own announce_own)

lemma worker_step_own:
  assumes "worker_step pl cfg c w s = (t, w')" "worker_inv s w"
  shows "own_step w s t \<and> wk_token w' = wk_token w \<and> wk_doc w' = wk_doc w"
proof (cases "\<exists>e st. wk_phase w = Failing e st")
  case True
  then show ?thesis using assms(1)
    by (auto simp: Let_def split: prod.splits intro: fail_own)
next
  case False
  have "own_step w s t" if "run_phase pl cfg c w (wk_phase w) s = Inr (t, ph')" for ph'
    using run_phase_own [OF that] assms(2) by (simp add: worker_inv_def)
  with False assms(1) show ?thesis
    by (auto split: phase.splits sum.splits prod.splits)
qed

section \<open>A worker keeps its own invariant\<close>

definition kept :: "worker \<Rightarrow> sys \<Rightarrow> sys \<Rightarrow> bool" where
  "kept w s t \<longleftrightarrow> (\<forall>d' \<in> set (docs t). holds w d' \<longrightarrow>
     (\<exists>d \<in> set (docs s). holds w d \<and> d_target d = d_target d'))"

lemma kept_same [simp]: "docs t = docs s \<Longrightarrow> kept w s t"
  by (auto simp: kept_def)

lemma kept_update:
  assumes "docs t = update_where P f (docs s)"
    and "\<And>d. P d \<Longrightarrow> d_token (f d) = None \<or> (holds w d \<and> d_target (f d) = d_target d)"
  shows "kept w s t"
  unfolding kept_def
proof (intro ballI impI)
  fix d' assume d': "d' \<in> set (docs t)" "holds w d'"
  then obtain d where d: "d \<in> set (docs s)" "d' = (if P d then f d else d)"
    unfolding assms(1) in_update_where by blast
  with d' assms(2) [of d] show "\<exists>d \<in> set (docs s). holds w d \<and> d_target d = d_target d'"
    by (cases "P d") (auto simp: holds_def)
qed

lemma kept_stage: "set_stage c w st s = Inr s1 \<Longrightarrow> docs t = docs s1 \<Longrightarrow> kept w s t"
  by (rule kept_update [where P = "holds w"])
    (auto simp: set_stage_def set_status_def split: if_splits)

lemma phases_kept:
  "fingerprint_phase pl cfg c w d s = (t, ph) \<Longrightarrow> kept w s t"
  "parse_phase pl c w d reuse s = Inr (t, ph) \<Longrightarrow> kept w s t"
  "split_phase pl cfg c w d reuse segs s = Inr (t, ph) \<Longrightarrow> kept w s t"
  "prepare_phase cfg w d reuse pieces q s = Inr (t, ph) \<Longrightarrow> kept w s t"
  "indexing_phase c w d ws pieces q s = Inr (t, ph) \<Longrightarrow> kept w s t"
  "announce_phase d pieces q s = (t, ph) \<Longrightarrow> kept w s t"
  subgoal by (cases "t = s") (auto simp: fingerprint_phase_def Let_def intro: kept_update split: if_splits)
  subgoal by (auto simp: parse_phase_def Let_def intro: kept_stage split: if_splits sum.splits)
  subgoal by (auto simp: split_phase_def Let_def intro: kept_stage split: if_splits sum.splits)
  subgoal by (auto simp: prepare_phase_def Let_def delete_chunks_def split: option.splits)
  subgoal by (auto simp: indexing_phase_def Let_def intro: kept_stage split: sum.splits)
  subgoal by (auto simp: announce_phase_def Let_def)
  done

lemma batch_kept:
  assumes "batch_phase pl cfg c w d ws pieces q batch rest s = Inr (t, ph)"
  shows "kept w s t"
proof (rule kept_update)
  show "docs t = update_where (holds w) (\<lambda>x. stamp c (x\<lparr>d_heartbeat := Some (now c)\<rparr>)) (docs s)"
    using assms by (auto simp: batch_phase_def Let_def split: if_splits)
qed (simp add: stamp_def)

lemma activate_kept:
  assumes "activate_phase pl cfg c w d ws pieces q s = Inr (t, ph)"
  shows "kept w s t"
proof (rule kept_update)
  show "docs t = update_where (\<lambda>x. holds w x \<and> d_status x = Indexing)
      (activated pl cfg c (the (d_target d)) (length pieces) q) (docs s)"
    using assms by (auto simp: activate_phase_def Let_def split: if_splits)
qed simp

lemma worker_inv_passive:
  "snapshot ph = None \<Longrightarrow> ph \<noteq> Claim \<Longrightarrow> worker_inv t (w\<lparr>wk_phase := ph\<rparr>)"
  by (cases ph) (auto simp: worker_inv_def)

lemma worker_inv_kept:
  assumes "worker_inv s w" "snapshot (wk_phase w) = Some d" "snapshot ph = Some d" "kept w s t"
    and "phase_wf ph" "holder w s \<Longrightarrow> indexed ph t"
  shows "worker_inv t (w\<lparr>wk_phase := ph\<rparr>)"
proof -
  have "d_id d = wk_doc w" "ph \<noteq> Claim" using assms(1-3) by (auto simp: worker_inv_def)
  moreover have "d_target d = d_target d' \<and> holder w s" if d': "d' \<in> set (docs t)" "holds w d'" for d'
  proof -
    obtain d1 where "d1 \<in> set (docs s)" "holds w d1" "d_target d1 = d_target d'"
      using assms(4) d' unfolding kept_def by blast
    then show ?thesis using assms(1,2) by (auto simp: worker_inv_def holder_def)
  qed
  ultimately show ?thesis
    using assms(3,5,6) by (auto simp: worker_inv_def holds_def [of "w\<lparr>wk_phase := ph\<rparr>"] holds_def [of w])
qed

lemma unique_doc:
  assumes "wf_db s" "a \<in> set (docs s)" "b \<in> set (docs s)" "d_id a = d_id b"
  shows "a = b"
proof -
  have "inj_on d_id (set (docs s))" using assms(1) by (simp add: wf_db_def doc_ids_def distinct_map)
  then show ?thesis using assms(2-4) by (auto dest: inj_onD)
qed

lemma load_inv:
  assumes "load_phase w s = (t, ph)" "wf_db s"
  shows "worker_inv t (w\<lparr>wk_phase := ph\<rparr>)"
proof (cases "get_doc s (wk_doc w)")
  case None
  with assms(1) show ?thesis by (auto simp: load_phase_def intro!: worker_inv_passive)
next
  case (Some d)
  have "d' = d" if "d' \<in> set (docs s)" "d_id d' = wk_doc w" for d'
    using get_doc_Some [OF Some] that unique_doc [OF assms(2)] by simp
  moreover have "docs t = docs s" "ph = Fingerprint d" using assms(1) Some by (auto simp: load_phase_def)
  ultimately show ?thesis
    using get_doc_Some [OF Some] by (auto simp: worker_inv_def holds_def)
qed

lemma version_chunks_seqs: "wf_db s \<Longrightarrow> distinct (map c_seq (version_chunks i v s))"
  by (auto simp: wf_db_def version_chunks_def distinct_map inj_on_def unique_key_def)

lemma reusable_content:
  assumes "wf_db s" "n \<in> set (reusable i v pieces s)"
  shows "n < length pieces"
    and "x \<in> set (version_chunks i v s) \<Longrightarrow> c_seq x = n \<Longrightarrow> c_content x = p_content (pieces ! n)"
proof -
  let ?kv = "rev (map (\<lambda>x. (c_seq x, c_content x)) (version_chunks i v s))"
  have n: "n < length pieces" "map_of ?kv n = Some (p_content (pieces ! n))"
    using assms(2) by (auto simp: reusable_def)
  then show "n < length pieces" by simp
  assume x: "x \<in> set (version_chunks i v s)" "c_seq x = n"
  have "distinct (map fst ?kv)"
    using version_chunks_seqs [OF assms(1), of i v] by (simp add: rev_map [symmetric] comp_def)
  moreover have "(n, c_content x) \<in> set ?kv" using x by auto
  ultimately have "map_of ?kv n = Some (c_content x)" by (simp add: map_of_eq_Some_iff)
  with n show "c_content x = p_content (pieces ! n)" by simp
qed

lemma prepare_inv:
  assumes "prepare_phase cfg w d reuse pieces q s = Inr (t, ph)" "wf_db s"
  shows "phase_wf ph \<and> indexed ph t \<and> snapshot ph = Some d"
proof -
  obtain v where v: "d_target d = Some v"
    using assms(1) by (auto simp: prepare_phase_def split: option.splits)
  define keep where keep: "keep = (if reuse then reusable (d_id d) v pieces s else [])"
  obtain kb where kb: "get_kb s (d_kb d) = Some kb"
    using assms(1) v by (auto simp: prepare_phase_def split: option.splits)
  have t: "t = delete_chunks (\<lambda>x. c_doc x = d_id d \<and> c_version x = v \<and> c_seq x \<notin> set keep) s"
    and ph: "ph = Batches d (k_ws kb) pieces q (batches (nat (max 1 (ingestion_embed_batch_size cfg)))
        (filter (\<lambda>(n, p). n \<notin> set keep) (enum pieces)))"
    using assms(1) v kb by (simp_all add: prepare_phase_def Let_def keep)
  have "clean t (d_id d) v pieces"
    unfolding clean_def
  proof
    fix x assume "x \<in> set (version_chunks (d_id d) v t)"
    then have x: "x \<in> set (version_chunks (d_id d) v s)" "c_seq x \<in> set keep"
      by (auto simp: t delete_chunks_def Let_def in_version_chunks in_delete_where)
    then have "c_seq x \<in> set (reusable (d_id d) v pieces s)" by (auto simp: keep split: if_splits)
    with reusable_content [OF assms(2) this] x
    show "c_seq x < length pieces \<and> c_content x = p_content (pieces ! c_seq x)" by auto
  qed
  moreover have "0 < nat (max 1 (ingestion_embed_batch_size cfg))" by simp
  ultimately show ?thesis by (auto simp: ph v concat_batches)
qed

lemma batch_inv:
  assumes "batch_phase pl cfg c w d ws pieces q batch rest s = Inr (t, ph)"
    and "phase_wf (Batches d ws pieces q (batch # rest))"
    and "holder w s \<Longrightarrow> clean s (d_id d) (the (d_target d)) pieces"
  shows "phase_wf ph \<and> (holder w s \<longrightarrow> indexed ph t) \<and> snapshot ph = Some d"
proof -
  let ?v = "the (d_target d)"
  obtain vs where ph: "ph = Batches d ws pieces q rest"
    and t: "chunks t = chunks s @ batch_rows pl c d ws ?v batch vs"
    using assms(1) by (auto simp: batch_phase_def Let_def split: if_splits)
  have "clean t (d_id d) ?v pieces" if "holder w s"
    unfolding clean_def
  proof
    fix x assume "x \<in> set (version_chunks (d_id d) ?v t)"
    then consider "x \<in> set (version_chunks (d_id d) ?v s)" | "x \<in> set (batch_rows pl c d ws ?v batch vs)"
      by (auto simp: in_version_chunks t)
    then show "c_seq x < length pieces \<and> c_content x = p_content (pieces ! c_seq x)"
    proof cases
      case 1
      then show ?thesis using assms(3) [OF that] by (simp add: clean_def)
    next
      case 2
      then obtain n p where "(n, p) \<in> set batch" "c_seq x = n" "c_content x = p_content p"
        by (rule in_batch_rows)
      moreover have "set batch \<subseteq> set (enum pieces)" using assms(2) by auto
      ultimately show ?thesis by auto
    qed
  qed
  then show ?thesis using assms(2) by (auto simp: ph)
qed

lemma indexing_inv:
  assumes "indexing_phase c w d ws pieces q s = Inr (t, ph)" "d_target d \<noteq> None"
    and "holder w s \<Longrightarrow> clean s (d_id d) (the (d_target d)) pieces"
  shows "phase_wf ph \<and> (holder w s \<longrightarrow> indexed ph t) \<and> snapshot ph = Some d"
proof -
  have "ph = Activate d ws pieces q" "chunks t = chunks s"
    using assms(1) set_stage_own by (auto simp: indexing_phase_def split: sum.splits)
  then show ?thesis using assms(2,3) by (auto simp: clean_def version_chunks_def)
qed

lemma run_phase_inv:
  assumes "run_phase pl cfg c w (wk_phase w) s = Inr (t, ph)" "worker_inv s w" "wf_db s"
  shows "worker_inv t (w\<lparr>wk_phase := ph\<rparr>)"
proof (cases "wk_phase w")
  case Claim
  then show ?thesis using assms(1)
    by (auto simp: claim_phase_def Let_def split: if_splits intro!: worker_inv_passive)
next
  case Load
  then show ?thesis using assms by (auto intro: load_inv)
next
  case (Fingerprint d)
  then have eq: "fingerprint_phase pl cfg c w d s = (t, ph)" using assms(1) by simp
  then show ?thesis
    using Fingerprint phases_kept(1) [OF eq]
    by (intro worker_inv_kept [OF assms(2), of d]) (auto simp: fingerprint_phase_def Let_def split: if_splits)
next
  case (Parse d reuse)
  then have eq: "parse_phase pl c w d reuse s = Inr (t, ph)" using assms(1) by simp
  then show ?thesis
    using Parse phases_kept(2) [OF eq]
    by (intro worker_inv_kept [OF assms(2), of d]) (auto simp: parse_phase_def Let_def split: if_splits sum.splits)
next
  case (Split d reuse segs)
  then have eq: "split_phase pl cfg c w d reuse segs s = Inr (t, ph)" using assms(1) by simp
  then show ?thesis
    using Split phases_kept(3) [OF eq]
    by (intro worker_inv_kept [OF assms(2), of d]) (auto simp: split_phase_def Let_def split: if_splits sum.splits)
next
  case (Prepare d reuse pieces q)
  then have eq: "prepare_phase cfg w d reuse pieces q s = Inr (t, ph)" using assms(1) by simp
  then show ?thesis
    using Prepare phases_kept(4) [OF eq] prepare_inv [OF eq assms(3)]
    by (intro worker_inv_kept [OF assms(2), of d]) auto
next
  case (Batches d ws pieces q bs)
  have ok: "phase_wf (Batches d ws pieces q bs)"
      "holder w s \<Longrightarrow> clean s (d_id d) (the (d_target d)) pieces"
    using assms(2) Batches by (auto simp: worker_inv_def holder_def)
  show ?thesis
  proof (cases bs)
    case Nil
    then have eq: "indexing_phase c w d ws pieces q s = Inr (t, ph)" using assms(1) Batches by simp
    show ?thesis
      using Batches phases_kept(5) [OF eq] indexing_inv [OF eq _ ok(2)] ok(1)
      by (intro worker_inv_kept [OF assms(2), of d]) auto
  next
    case (Cons b rest)
    then have eq: "batch_phase pl cfg c w d ws pieces q b rest s = Inr (t, ph)"
      using assms(1) Batches by simp
    show ?thesis
      using Batches batch_kept [OF eq] batch_inv [OF eq ok(1) [unfolded Cons] ok(2)]
      by (intro worker_inv_kept [OF assms(2), of d]) auto
  qed
next
  case (Activate d ws pieces q)
  then have eq: "activate_phase pl cfg c w d ws pieces q s = Inr (t, ph)" using assms(1) by simp
  then show ?thesis
    using Activate activate_kept [OF eq]
    by (intro worker_inv_kept [OF assms(2), of d]) (auto simp: activate_phase_def Let_def split: if_splits)
next
  case (Announce d pieces q)
  then show ?thesis using assms(1)
    by (auto simp: announce_phase_def Let_def intro!: worker_inv_passive)
next
  case (Failing e st)
  then have "ph = Failing e st" using assms(1) by simp
  then show ?thesis by (simp add: worker_inv_passive)
next
  case (Finished out)
  then have "ph = Finished out" using assms(1) by simp
  then show ?thesis by (simp add: worker_inv_passive)
qed

lemma fail_phase_outcome: "fail_phase c w e stage s = (t, ph) \<Longrightarrow> \<exists>out. ph = Finished out"
  by (auto simp: fail_phase_def Let_def split: if_splits)

lemma worker_step_cases:
  assumes "worker_step pl cfg c w s = (t, w')"
  obtains (handled) e st ph where "wk_phase w = Failing e st" "fail_phase c w e st s = (t, ph)"
      "w' = w\<lparr>wk_phase := ph\<rparr>"
  | (raised) e where "run_phase pl cfg c w (wk_phase w) s = Inl e" "t = s"
      "w' = w\<lparr>wk_phase := Failing e (coalesce (try_stage (wk_phase w)) [])\<rparr>"
  | (ran) ph where "run_phase pl cfg c w (wk_phase w) s = Inr (t, ph)" "w' = w\<lparr>wk_phase := ph\<rparr>"
  using assms by (auto simp: Let_def split: phase.splits sum.splits prod.splits)

lemma worker_step_inv:
  assumes "worker_step pl cfg c w s = (t, w')" "worker_inv s w" "wf_db s"
  shows "worker_inv t w'"
  using assms(1)
proof (cases rule: worker_step_cases)
  case (handled e st ph)
  then show ?thesis using fail_phase_outcome [OF handled(2)] by (auto intro: worker_inv_passive)
next
  case (ran ph)
  then show ?thesis using run_phase_inv assms(2,3) by blast
qed (simp add: worker_inv_passive)

section \<open>The invariant of the world\<close>

lemma world_inv_start: "ingest_start w \<Longrightarrow> world_inv w"
  by (simp add: ingest_start_def world_inv_def)

lemma world_inv_others:
  assumes "world_inv (s, ws)" "wf_db t" "\<And>w. w \<in> set ws \<Longrightarrow> other_step w s t"
  shows "world_inv (t, ws)"
  using assms other_step_inv by (auto simp: world_inv_def)

lemma world_inv_replace:
  assumes "world_inv (s, ws)" "k < length ws" "wk_token w = wk_token (ws ! k)" "worker_inv t w" "wf_db t"
    and "\<And>j. j < length ws \<Longrightarrow> j \<noteq> k \<Longrightarrow> worker_inv t (ws ! j)"
  shows "world_inv (t, ws[k := w])"
proof -
  have "map wk_token (ws[k := w]) = map wk_token ws"
    using assms(2,3) by (simp add: map_update list_update_same_conv)
  moreover have "worker_inv t x" if x: "x \<in> set (ws[k := w])" for x
  proof -
    obtain j where "j < length ws" "x = ws[k := w] ! j" using x by (auto simp: in_set_conv_nth)
    then show ?thesis using assms(2,4,6) by (cases "j = k") auto
  qed
  ultimately show ?thesis using assms(1,5) by (simp add: world_inv_def)
qed

lemma world_inv_passive:
  assumes "world_inv (s, ws)" "k < length ws" "snapshot ph = None" "ph \<noteq> Claim"
  shows "world_inv (s, ws[k := (ws ! k)\<lparr>wk_phase := ph\<rparr>])"
  using assms by (intro world_inv_replace [of s]) (auto simp: worker_inv_passive world_inv_def)

lemma world_inv_start_worker:
  assumes "fresh_token tok (s, ws)" "world_inv (s, ws)"
  shows "world_inv (s\<lparr>broker := b\<rparr>, ws @ [new_worker i r tok host])"
proof -
  have none: "\<not> holds (new_worker i r tok host) d" if "d \<in> set (docs s)" for d
    using assms(1) that by (force simp: fresh_token_def holds_def new_worker_def)
  have "other_step x s (s\<lparr>broker := b\<rparr>)" for x by (auto simp: other_step_def)
  then have "worker_inv (s\<lparr>broker := b\<rparr>) x" if "x \<in> set ws" for x
    using assms(2) that other_step_inv by (fastforce simp: world_inv_def)
  moreover have "worker_inv (s\<lparr>broker := b\<rparr>) (new_worker i r tok host)"
    using none by (auto simp: worker_inv_def new_worker_def)
  ultimately show ?thesis
    using assms by (auto simp: world_inv_def wf_db_def doc_ids_def fresh_token_def new_worker_def)
qed

lemma world_inv_work:
  assumes "k < length ws" "worker_step pl cfg c (ws ! k) s = (t, x)" "world_inv (s, ws)"
  shows "world_inv (t, ws[k := x])"
proof -
  have inv: "wf_db s" "worker_inv s (ws ! k)" using assms(1,3) by (auto simp: world_inv_def)
  note own = worker_step_own [OF assms(2) inv(2)]
  have "worker_inv t (ws ! j)" if j: "j < length ws" "j \<noteq> k" for j
  proof -
    have "wk_token (ws ! j) \<noteq> wk_token (ws ! k)"
      using assms(1,3) j by (auto simp: world_inv_def distinct_conv_nth)
    then have "other_step (ws ! j) s t" using own inv(1) own_step_other by blast
    then show ?thesis using assms(3) j other_step_inv by (fastforce simp: world_inv_def)
  qed
  moreover have "wf_db t" using own inv(1) own_step_wf by blast
  ultimately show ?thesis
    using assms own worker_step_inv [OF assms(2) inv(2,1)] by (intro world_inv_replace [of s]) auto
qed

lemma world_inv_step:
  assumes "ingest_step pl cfg w w'" "world_inv w"
  shows "world_inv w'"
  using assms(1)
proof cases
  case (env s t ws)
  have "env_step s t" using env by (simp add: env_move_step)
  moreover have "wf_db s" using assms(2) env by (simp add: world_inv_def)
  ultimately show ?thesis
    using assms(2) env by (auto intro: world_inv_others env_step_wf env_step_other)
next
  case start
  then show ?thesis using assms(2) by (auto intro: world_inv_start_worker)
next
  case work
  then show ?thesis using assms(2) by (auto intro: world_inv_work)
next
  case fault
  then show ?thesis using assms(2) by (auto intro: world_inv_passive)
next
  case crash
  then show ?thesis using assms(2) by (auto intro: world_inv_passive)
qed

lemma world_invariant: "ingest_reach pl cfg w \<Longrightarrow> world_inv w"
  by (rule ingest.invariant [of world_inv]) (auto intro: world_inv_start world_inv_step)

end
