(* ===== verification/IngestProps.thy ===== *)
theory IngestProps
  imports IngestSystem
begin

text \<open>
  What the ingestion state machine guarantees: an activated index is exactly the list of pieces,
  whatever the other workers, the requests and the faults did in between; the lease holder never
  touches the chunks a reader sees; an undisturbed run ends with the document ready.  Two
  theorems exhibit runs the code does not guard against.
\<close>

section \<open>The text of an index version\<close>

definition index_text :: "sys \<Rightarrow> string \<Rightarrow> nat \<Rightarrow> ustr list" where
  "index_text s i v = map c_content (sort_key c_seq (version_chunks i v s))"

lemma sort_key_seqs:
  assumes "distinct (map f xs)" "set (map f xs) = {0..<n}"
  shows "map f (sort_key f xs) = [0..<n::nat]"
proof (rule sorted_distinct_set_unique)
  show "distinct (map f (sort_key f xs))"
    using assms(1) by (metis mset_map mset_sort mset_eq_imp_distinct_iff)
qed (use assms(2) in simp_all)

lemma clean_full:
  assumes "wf_db s" "clean s i v pieces" "length (version_chunks i v s) = length pieces"
  shows "index_text s i v = map p_content pieces"
proof -
  let ?xs = "version_chunks i v s" and ?ys = "sort_key c_seq (version_chunks i v s)"
  have d: "distinct (map c_seq ?xs)" using assms(1) by (rule version_chunks_seqs)
  have "set (map c_seq ?xs) \<subseteq> {0..<length pieces}" using assms(2) by (auto simp: clean_def)
  moreover have "card (set (map c_seq ?xs)) = length pieces"
    using distinct_card [OF d] assms(3) by simp
  ultimately have "set (map c_seq ?xs) = {0..<length pieces}" by (intro card_subset_eq) auto
  then have seqs: "map c_seq ?ys = [0..<length pieces]" by (rule sort_key_seqs [OF d])
  have len: "length ?ys = length pieces" using assms(3) by simp
  show ?thesis
    unfolding index_text_def
  proof (rule nth_equalityI)
    fix n assume "n < length (map c_content ?ys)"
    then have n: "n < length ?ys" "n < length pieces" using len by simp_all
    have "c_seq (?ys ! n) = n" using seqs n by (metis nth_map nth_upt add_0)
    moreover have "?ys ! n \<in> set ?xs" using n nth_mem [of n ?ys] by simp
    ultimately show "map c_content ?ys ! n = map p_content pieces ! n"
      using assms(2) n by (auto simp: clean_def)
  qed (simp add: assms(3))
qed

lemma activate_result:
  assumes "activate_phase pl cfg c w d ws pieces q s = Inr (t, ph)" "wf_db s" "worker_inv s w"
    and "wk_phase w = Activate d ws pieces q"
  shows "\<exists>r0. get_doc s (wk_doc w) = Some r0 \<and> holds w r0 \<and> d_target d = Some (next_version r0) \<and>
    get_doc t (wk_doc w) = Some (activated pl cfg c (next_version r0) (length pieces) q r0) \<and>
    index_text t (wk_doc w) (next_version r0) = map p_content pieces \<and> chunks t = chunks s"
proof -
  let ?P = "\<lambda>x. holds w x \<and> d_status x = Indexing"
  obtain r0 where r0: "r0 \<in> set (docs s)" "?P r0"
    and t: "docs t = update_where ?P (activated pl cfg c (the (d_target d)) (length pieces) q) (docs s)"
      "chunks t = chunks s" "length (version_chunks (d_id d) (the (d_target d)) s) = length pieces"
    using assms(1) by (auto simp: activate_phase_def Let_def split: if_splits)
  have inv: "d_id d = wk_doc w" "d_target d = d_target r0" "clean s (d_id d) (the (d_target d)) pieces"
      "d_target d \<noteq> None"
    using assms(3,4) r0 by (auto simp: worker_inv_def)
  have v: "d_target d = Some (next_version r0)"
    using inv assms(2) r0(1) by (auto simp: wf_db_def target_ok_def)
  have get: "get_doc s (wk_doc w) = Some r0"
    using find_row_unique [of d_id "docs s" r0] r0 assms(2)
    by (simp add: get_doc_def wf_db_def doc_ids_def distinct_map holds_def)
  have wf: "wf_db t"
    using activate_own [OF assms(1)] assms(2) by (rule own_step_wf)
  let ?r = "activated pl cfg c (next_version r0) (length pieces) q r0"
  have "?r \<in> set (docs t)" using r0 by (force simp: t(1) in_update_where v)
  then have "get_doc t (wk_doc w) = Some ?r"
    using find_row_unique [of d_id "docs t" ?r] wf r0
    by (simp add: get_doc_def wf_db_def doc_ids_def distinct_map holds_def)
  moreover have "index_text s (wk_doc w) (next_version r0) = map p_content pieces"
    using clean_full [OF assms(2) inv(3) t(3)] inv(1) v by simp
  ultimately show ?thesis
    using get r0 v t(2) by (auto simp: index_text_def version_chunks_def)
qed

section \<open>Which chunks a step may change\<close>

lemma filter_append_none: "(\<forall>x \<in> set ys. \<not> P x) \<Longrightarrow> filter P (xs @ ys) = filter P xs"
  by simp

lemma delete_where_filter: "(\<And>x. P x \<Longrightarrow> \<not> Q x) \<Longrightarrow> filter Q (delete_where P xs) = filter Q xs"
  by (induction xs) (auto simp: delete_where_def)

text \<open>A worker only changes chunks of its document whose version is the target it read.\<close>

lemma worker_step_chunks:
  assumes "worker_step pl cfg c w s = (t, w')" "worker_inv s w"
    and "\<not> (\<exists>d0. snapshot (wk_phase w) = Some d0 \<and> d_target d0 = Some v)"
  shows "version_chunks (wk_doc w) v t = version_chunks (wk_doc w) v s"
  using assms(1)
proof (cases rule: worker_step_cases)
  case (handled e st ph)
  then show ?thesis
    by (auto simp: fail_phase_def Let_def version_chunks_def split: if_splits option.splits)
next
  case (ran ph)
  show ?thesis
  proof (cases "wk_phase w")
    case (Prepare d reuse pieces q)
    then obtain vd P where "d_target d = Some vd" and P: "chunks t = delete_where P (chunks s)"
        "\<And>x. P x \<Longrightarrow> c_version x = vd"
      using ran by (auto simp: prepare_phase_def Let_def delete_chunks_def split: option.splits)
    then have "vd \<noteq> v" using assms(3) Prepare by auto
    with P show ?thesis unfolding version_chunks_def by (auto intro!: delete_where_filter)
  next
    case (Batches d ws pieces q bs)
    show ?thesis
    proof (cases bs)
      case Nil
      then show ?thesis using ran Batches set_stage_own
        by (auto simp: indexing_phase_def version_chunks_def split: sum.splits)
    next
      case (Cons b rest)
      then obtain vs where rows: "chunks t = chunks s @ batch_rows pl c d ws (the (d_target d)) b vs"
        using ran Batches by (auto simp: batch_phase_def Let_def split: if_splits)
      have "the (d_target d) \<noteq> v" using assms(2,3) Batches by (auto simp: worker_inv_def)
      then have "\<forall>x \<in> set (batch_rows pl c d ws (the (d_target d)) b vs). c_version x \<noteq> v"
        by (auto elim: in_batch_rows)
      with rows show ?thesis by (auto simp: version_chunks_def filter_empty_conv)
    qed
  qed (use ran set_stage_own in \<open>auto simp: claim_phase_def load_phase_def fingerprint_phase_def
      parse_phase_def split_phase_def activate_phase_def announce_phase_def version_chunks_def Let_def
      split: if_splits option.splits sum.splits\<close>)
qed simp

lemma holder_active:
  assumes "wf_db s" "worker_inv s w" "d \<in> set (docs s)" "holds w d" "d_active d = Some v"
  shows "\<not> (\<exists>d0. snapshot (wk_phase w) = Some d0 \<and> d_target d0 = Some v)"
proof
  assume "\<exists>d0. snapshot (wk_phase w) = Some d0 \<and> d_target d0 = Some v"
  then have "d_target d = Some v" using assms(2-4) by (auto simp: worker_inv_def)
  with assms(1,3,5) show False by (auto simp: wf_db_def target_ok_def next_version_def)
qed

section \<open>A worker alone\<close>

fun run_worker :: "pipeline \<Rightarrow> settings \<Rightarrow> ctx \<Rightarrow> nat \<Rightarrow> worker \<Rightarrow> sys \<Rightarrow> sys \<times> worker" where
  "run_worker pl cfg c 0 w s = (s, w)"
| "run_worker pl cfg c (Suc n) w s = (case worker_step pl cfg c w s of (t, x) \<Rightarrow> run_worker pl cfg c n x t)"

lemma run_worker_add:
  "run_worker pl cfg c (m + n) w s = (case run_worker pl cfg c m w s of (t, x) \<Rightarrow> run_worker pl cfg c n x t)"
  by (induction m arbitrary: w s) (simp_all split: prod.splits)

lemma run_worker_reach:
  assumes "ingest_reach pl cfg (s, [w])" "run_worker pl cfg c n w s = (t, x)"
  shows "ingest_reach pl cfg (t, [x])"
  using assms
proof (induction n arbitrary: s w)
  case (Suc n)
  obtain s1 w1 where step: "worker_step pl cfg c w s = (s1, w1)" by fastforce
  have "ingest_step pl cfg (s, [w]) (s1, [w][0 := w1])"
    by (rule ingest_step.work) (use step in simp_all)
  then have "ingest_reach pl cfg (s1, [w1])" using Suc.prems(1) by (auto intro: reach_step)
  with Suc step show ?case by simp
qed simp

text \<open>The parser, chunker and model work: some text, some piece, one vector of the right dimension
  per text.\<close>

definition pipeline_ok :: "pipeline \<Rightarrow> settings \<Rightarrow> string \<Rightarrow> ustr option \<Rightarrow> bool" where
  "pipeline_ok pl cfg key url \<longleftrightarrow>
     (\<exists>g \<in> set (pl_parse pl key url). strip (sg_text g) \<noteq> []) \<and> (\<exists>ps. split_pieces pl cfg (pl_parse pl key url) = Inr ps \<and> ps \<noteq> []) \<and>
     (\<forall>xs. length (pl_embed pl xs) = length xs \<and> (\<forall>v \<in> set (pl_embed pl xs). length v = embedding_dim cfg))"

text \<open>\<open>same_rest s t\<close>: the tables and stores no phase of a worker that runs through changes.\<close>

definition same_rest :: "sys \<Rightarrow> sys \<Rightarrow> bool" where
  "same_rest s t \<longleftrightarrow> kbs t = kbs s \<and> objects t = objects s \<and> memberships t = memberships s \<and>
     broker t = broker s"

definition leased_row :: "worker \<Rightarrow> document \<Rightarrow> sys \<Rightarrow> bool" where
  "leased_row w d s \<longleftrightarrow> (\<exists>r. r \<in> set (docs s) \<and> holds w r \<and> d_kb r = d_kb d \<and>
     d_active r = d_active d)"

lemma set_stage_runs:
  assumes "leased_row w d s"
  shows "\<exists>t. set_stage c w st s = Inr t \<and> leased_row w d t \<and> same_rest s t \<and> chunks t = chunks s \<and>
    (\<exists>r \<in> set (docs t). holds w r \<and> d_status r = st \<and> d_heartbeat r = Some (now c))"
proof -
  let ?f = "\<lambda>d. set_status st d\<lparr>d_heartbeat := Some (now c), d_updated := now c\<rparr>"
  obtain r where r: "r \<in> set (docs s)" "holds w r" "d_kb r = d_kb d" "d_active r = d_active d"
    using assms by (auto simp: leased_row_def)
  then have run: "set_stage c w st s = Inr (upd_docs (holds w) ?f s)"
    by (auto simp: set_stage_def holder_def)
  have "?f r \<in> set (docs (upd_docs (holds w) ?f s))" using r by (auto simp: in_update_where)
  moreover have "holds w (?f r)" "d_kb (?f r) = d_kb d" "d_active (?f r) = d_active d" "d_status (?f r) = st"
      "d_heartbeat (?f r) = Some (now c)"
    using r by (simp_all add: holds_def set_status_def)
  ultimately show ?thesis
    unfolding run by (auto simp: leased_row_def same_rest_def simp del: upd_docs_simps(5))
qed

text \<open>The loop over the batches.\<close>

definition version_seqs :: "string \<Rightarrow> nat \<Rightarrow> sys \<Rightarrow> nat list" where
  "version_seqs i v s = map c_seq (version_chunks i v s)"

lemma batch_row_vector:
  assumes "x \<in> set (batch_rows pl c d ws v batch vectors)"
  shows "c_embedding x \<in> set vectors"
proof -
  obtain k n p vec where "(k, ((n, p), vec)) \<in> set (enum (zip batch vectors))"
      and x: "x = chunk_row pl c d ws v (fresh c k) n p vec"
    using assms by (auto simp: batch_rows_def)
  then have "((n, p), vec) \<in> set (zip batch vectors)" by (simp only: in_enum nth_mem)
  then show ?thesis by (auto simp: x chunk_row_def dest: set_zip_rightD)
qed

lemma batch_runs:
  assumes row: "leased_row w d s" and d: "d_id d = wk_doc w" "d_target d = Some v"
    and embed: "\<forall>xs. length (pl_embed pl xs) = length xs \<and> (\<forall>y \<in> set (pl_embed pl xs). length y = embedding_dim cfg)"
    and keys: "distinct (map unique_key (chunks s))"
    and new: "distinct (version_seqs (d_id d) v s @ map fst batch)"
  shows "\<exists>t. batch_phase pl cfg c w d ws pieces q batch rest s = Inr (t, Batches d ws pieces q rest) \<and>
     leased_row w d t \<and> same_rest s t \<and> version_seqs (d_id d) v t = version_seqs (d_id d) v s @ map fst batch \<and>
     distinct (map unique_key (chunks t))"
proof -
  let ?f = "\<lambda>x. stamp c (x\<lparr>d_heartbeat := Some (now c)\<rparr>)"
  define vectors where "vectors = pl_embed pl (map (\<lambda>(n, p). p_content p) batch)"
  define rows where "rows = batch_rows pl c d ws v batch vectors"
  define t where "t = upd_docs (holds w) ?f (s\<lparr>chunks := chunks s @ rows\<rparr>)"
  have len: "length vectors = length batch" using embed by (simp add: vectors_def)
  have seqs: "map c_seq rows = map fst batch"
    unfolding rows_def batch_rows_def
    by (rule nth_equalityI) (auto simp: len enum_def chunk_row_def case_prod_beta)
  have rows: "c_doc x = d_id d \<and> c_version x = v" if "x \<in> set rows" for x
    using that unfolding rows_def by (auto elim: in_batch_rows)
  have dims: "length (c_embedding x) = embedding_dim cfg" if "x \<in> set rows" for x
    using batch_row_vector that embed by (fastforce simp: rows_def vectors_def)
  obtain r where r: "r \<in> set (docs s)" "holds w r" "d_kb r = d_kb d" "d_active r = d_active d"
    using row by (auto simp: leased_row_def)
  have present: "get_doc s (d_id d) \<noteq> None"
    using r d(1) by (auto simp: get_doc_def find_row_None holds_def)
  have "unique_key x \<notin> unique_key ` set (chunks s)" if x: "x \<in> set rows" for x
  proof
    assume "unique_key x \<in> unique_key ` set (chunks s)"
    then obtain y where y: "y \<in> set (chunks s)" "unique_key y = unique_key x" by auto
    then have "y \<in> set (version_chunks (d_id d) v s)" "c_seq y = c_seq x"
      using rows [OF x] by (auto simp: in_version_chunks unique_key_def)
    then have "c_seq x \<in> set (version_seqs (d_id d) v s)"
      by (metis version_seqs_def imageI image_set)
    moreover have "c_seq x \<in> set (map c_seq rows)" using x by simp
    ultimately show False using new seqs by auto
  qed
  moreover have "distinct (map unique_key rows)"
  proof -
    have "distinct (map c_seq rows)" using new by (simp add: seqs)
    then show ?thesis by (auto simp: distinct_map inj_on_def unique_key_def)
  qed
  ultimately have keys_t: "distinct (map unique_key (chunks s @ rows))"
    using keys by (auto simp: image_iff)
  have run: "batch_phase pl cfg c w d ws pieces q batch rest s = Inr (t, Batches d ws pieces q rest)"
    using len present keys_t dims r
    by (auto simp: batch_phase_def Let_def t_def d(2) rows_def [symmetric] vectors_def [symmetric] holder_def)
  have "?f r \<in> set (docs t)" using r by (auto simp: t_def in_update_where)
  moreover have "holds w (?f r)" "d_kb (?f r) = d_kb d" "d_active (?f r) = d_active d"
    using r by (simp_all add: holds_def stamp_def)
  ultimately have "leased_row w d t" by (auto simp: leased_row_def simp del: doc_change_simps)
  moreover have "version_seqs (d_id d) v t = version_seqs (d_id d) v s @ map fst batch"
    using rows seqs by (simp add: version_seqs_def version_chunks_def t_def filter_True)
  moreover have "same_rest s t" by (simp add: t_def same_rest_def upd_docs_def)
  ultimately show ?thesis using run keys_t by (auto simp: t_def)
qed

lemma batches_run:
  assumes "leased_row w d s" "d_id d = wk_doc w" "d_target d = Some v" "wk_phase w = Batches d ws pieces q bs"
    and embed: "\<forall>xs. length (pl_embed pl xs) = length xs \<and> (\<forall>y \<in> set (pl_embed pl xs). length y = embedding_dim cfg)"
    and "distinct (map unique_key (chunks s))"
    and "distinct (version_seqs (d_id d) v s @ map fst (concat bs))"
  shows "\<exists>t. run_worker pl cfg c (length bs) w s = (t, w\<lparr>wk_phase := Batches d ws pieces q []\<rparr>) \<and>
     leased_row w d t \<and> same_rest s t \<and>
     version_seqs (d_id d) v t = version_seqs (d_id d) v s @ map fst (concat bs)"
  using assms
proof (induction bs arbitrary: s w)
  case Nil
  then show ?case by (auto simp: same_rest_def)
next
  case (Cons b bs)
  have new: "distinct (version_seqs (d_id d) v s @ map fst b)" using Cons.prems(7) by auto
  obtain s1 where s1: "batch_phase pl cfg c w d ws pieces q b bs s = Inr (s1, Batches d ws pieces q bs)"
      "leased_row w d s1" "same_rest s s1" "version_seqs (d_id d) v s1 = version_seqs (d_id d) v s @ map fst b"
      "distinct (map unique_key (chunks s1))"
    using batch_runs [OF Cons.prems(1,2,3) embed Cons.prems(6) new] by blast
  let ?w = "w\<lparr>wk_phase := Batches d ws pieces q bs\<rparr>"
  have holds: "holds ?w = holds w" by (auto simp: holds_def)
  have "\<exists>t. run_worker pl cfg c (length bs) ?w s1 = (t, ?w\<lparr>wk_phase := Batches d ws pieces q []\<rparr>) \<and>
     leased_row ?w d t \<and> same_rest s1 t \<and>
     version_seqs (d_id d) v t = version_seqs (d_id d) v s1 @ map fst (concat bs)"
    by (rule Cons.IH) (use s1 Cons.prems embed in \<open>auto simp: leased_row_def holds\<close>)
  moreover have "worker_step pl cfg c w s = (s1, ?w)"
    using s1(1) Cons.prems(4) by simp
  ultimately show ?case using s1(3,4) by (auto simp: leased_row_def holds same_rest_def)
qed

section \<open>The whole run\<close>

lemma run_worker_inv:
  assumes "run_worker pl cfg c n w s = (t, x)" "worker_inv s w" "wf_db s"
  shows "worker_inv t x \<and> wf_db t \<and> wk_doc x = wk_doc w \<and> wk_token x = wk_token w"
  using assms
proof (induction n arbitrary: s w)
  case (Suc n)
  obtain s1 w1 where step: "worker_step pl cfg c w s = (s1, w1)" by fastforce
  then have "worker_inv s1 w1" "wf_db s1" "wk_doc w1 = wk_doc w" "wk_token w1 = wk_token w"
    using Suc.prems worker_step_inv worker_step_own own_step_wf by blast+
  with Suc step show ?case by simp
qed simp

lemma run_worker_one:
  "run_phase pl cfg c w ph s = Inr (t, ph') \<Longrightarrow> wk_phase w = ph \<Longrightarrow> (\<nexists>e st. ph = Failing e st) \<Longrightarrow>
     run_worker pl cfg c 1 w s = (t, w\<lparr>wk_phase := ph'\<rparr>)"
  by (auto split: phase.splits)

lemma run_worker_then:
  "run_worker pl cfg c m w s = (s1, w1) \<Longrightarrow> run_worker pl cfg c n w1 s1 = (t, x) \<Longrightarrow>
     run_worker pl cfg c (m + n) w s = (t, x)"
  by (simp add: run_worker_add)

lemma get_doc_row:
  "wf_db s \<Longrightarrow> d \<in> set (docs s) \<Longrightarrow> get_doc s (d_id d) = Some d"
  by (simp add: get_doc_def wf_db_def doc_ids_def distinct_map find_row_unique)

lemma claim_load_run:
  assumes "wf_db s" "get_doc s (wk_doc w) = Some d" "d_status d \<in> set claimable" "wk_phase w = Claim"
    and "fresh_token (wk_token w) (s, [])"
  shows "\<exists>t. run_worker pl cfg c 2 w s = (t, w\<lparr>wk_phase := Fingerprint (claimed c w d)\<rparr>) \<and>
    leased_row w (claimed c w d) t \<and> same_rest s t \<and> chunks t = chunks s"
proof -
  let ?P = "\<lambda>x. d_id x = wk_doc w \<and> d_status x \<in> set claimable"
  let ?s1 = "upd_docs ?P (claimed c w) s"
  have d: "d \<in> set (docs s)" "d_id d = wk_doc w" using get_doc_Some [OF assms(2)] by auto
  then have c1: "claim_phase c w s = (?s1, Load)" using assms(3) by (auto simp: claim_phase_def Let_def)
  have "worker_inv s w"
    using assms(4,5) by (force simp: worker_inv_def fresh_token_def holds_def)
  then have "wf_db ?s1" using claim_own [OF c1] assms(1) own_step_wf by blast
  moreover have row: "claimed c w d \<in> set (docs ?s1)" using d assms(3) by (force simp: in_update_where)
  ultimately have get: "get_doc ?s1 (wk_doc w) = Some (claimed c w d)" using d get_doc_row by fastforce
  let ?t = "publish_stage (claimed c w d) Parsing ?s1"
  have "run_worker pl cfg c 2 w s = (?t, w\<lparr>wk_phase := Fingerprint (claimed c w d)\<rparr>)"
    using c1 get by (simp add: numeral_2_eq_2 assms(4) load_phase_def)
  moreover have "leased_row w (claimed c w d) ?t"
    using row d by (force simp: leased_row_def holds_def)
  moreover have "same_rest s ?t" by (simp add: same_rest_def publish_stage_def publish_sync_def upd_docs_def)
  ultimately show ?thesis by auto
qed

lemma same_rest_publish [simp]:
  "same_rest s (publish_stage d st t) = same_rest s t" "leased_row w d0 (publish_stage d st t) = leased_row w d0 t"
  by (simp_all add: same_rest_def leased_row_def publish_stage_def publish_sync_def)

lemma fingerprint_runs:
  assumes "leased_row w d s"
  shows "\<exists>t. fingerprint_phase pl cfg c w d s =
      (t, Parse d (d_fingerprint d = Some (pipeline_fingerprint pl cfg c (d_hash d)))) \<and> leased_row w d t \<and>
    same_rest s t \<and> chunks t = chunks s"
proof (cases "d_fingerprint d = Some (pipeline_fingerprint pl cfg c (d_hash d))")
  case False
  let ?f = "\<lambda>x. x\<lparr>d_fingerprint := Some (pipeline_fingerprint pl cfg c (d_hash d)), d_updated := now c\<rparr>"
  obtain r where r: "r \<in> set (docs s)" "holds w r" "d_kb r = d_kb d" "d_active r = d_active d"
    using assms by (auto simp: leased_row_def)
  then have "?f r \<in> set (docs (upd_docs (holds w) ?f s))" by (auto simp: in_update_where)
  moreover have "holds w (?f r)" using r by (simp add: holds_def)
  ultimately have "leased_row w d (upd_docs (holds w) ?f s)"
    using r unfolding leased_row_def by (intro exI [of _ "?f r"]) simp
  with False show ?thesis by (auto simp: fingerprint_phase_def same_rest_def upd_docs_def)
qed (use assms in \<open>auto simp: fingerprint_phase_def same_rest_def\<close>)

lemma parse_runs:
  assumes "leased_row w d s" "d_object_key d \<in> fst ` set (objects s)"
    and "\<exists>g \<in> set (pl_parse pl (d_object_key d) (d_source_url d)). strip (sg_text g) \<noteq> []"
  shows "\<exists>t. parse_phase pl c w d reuse s = Inr (t, Split d reuse (pl_parse pl (d_object_key d) (d_source_url d))) \<and>
    leased_row w d t \<and> same_rest s t \<and> chunks t = chunks s \<and> (\<exists>r \<in> set (docs t). holds w r \<and> d_status r = Chunking)"
proof -
  obtain t where "set_stage c w Chunking s = Inr t" "leased_row w d t" "same_rest s t" "chunks t = chunks s"
    "\<exists>r \<in> set (docs t). holds w r \<and> d_status r = Chunking"
    using set_stage_runs [OF assms(1), of c Chunking] by blast
  moreover have "\<exists>k \<in> set (objects s). fst k = d_object_key d" using assms(2) by force
  ultimately show ?thesis using assms(3) by (auto simp: parse_phase_def Let_def)
qed

lemma split_runs:
  assumes "leased_row w d s" "split_pieces pl cfg segs = Inr pieces" "pieces \<noteq> []"
  shows "\<exists>t. split_phase pl cfg c w d reuse segs s = Inr (t, Prepare d reuse pieces (quarantines pl cfg pieces)) \<and>
    leased_row w d t \<and> same_rest s t \<and> chunks t = chunks s \<and>
    (\<exists>r \<in> set (docs t). holds w r \<and> d_status r = Embedding \<and> d_heartbeat r = Some (now c))"
proof -
  obtain t where "set_stage c w Embedding s = Inr t" "leased_row w d t" "same_rest s t" "chunks t = chunks s"
    "\<exists>r \<in> set (docs t). holds w r \<and> d_status r = Embedding \<and> d_heartbeat r = Some (now c)"
    using set_stage_runs [OF assms(1), of c Embedding] by blast
  with assms(2,3) show ?thesis by (auto simp: split_phase_def)
qed

text \<open>After the preparation the stored chunks and the pending pieces together are all numbers once.\<close>

lemma prepare_runs:
  assumes "leased_row w d s" "d_target d = Some v" "get_kb s (d_kb d) \<noteq> None" "wf_db s"
  shows "\<exists>t ws bs. prepare_phase cfg w d reuse pieces q s = Inr (t, Batches d ws pieces q bs) \<and>
    leased_row w d t \<and> same_rest s t \<and>
    distinct (version_seqs (d_id d) v t @ map fst (concat bs)) \<and>
    set (version_seqs (d_id d) v t @ map fst (concat bs)) \<subseteq> {0..<length pieces} \<and>
    (reuse \<longrightarrow> True) \<and> (\<forall>n < length pieces. n \<in> set (map fst (concat bs)) \<or> n \<in> set (version_seqs (d_id d) v t))"
proof -
  obtain kb where kb: "get_kb s (d_kb d) = Some kb" using assms(3) by auto
  define keep where "keep = (if reuse then reusable (d_id d) v pieces s else [])"
  define t where "t = delete_chunks (\<lambda>x. c_doc x = d_id d \<and> c_version x = v \<and> c_seq x \<notin> set keep) s"
  define pending where "pending = filter (\<lambda>(n, p). n \<notin> set keep) (enum pieces)"
  let ?bs = "batches (nat (max 1 (ingestion_embed_batch_size cfg))) pending"
  have run: "prepare_phase cfg w d reuse pieces q s = Inr (t, Batches d (k_ws kb) pieces q ?bs)"
    using assms(2) kb by (simp add: prepare_phase_def Let_def keep_def t_def pending_def)
  have concat: "concat ?bs = pending" by (rule concat_batches) simp
  have fst_pending: "set (map fst pending) = {n. n < length pieces \<and> n \<notin> set keep}"
    by (force simp: pending_def)
  have "distinct (map fst pending)"
    unfolding pending_def by (rule distinct_map_filter) simp
  have chunks: "version_chunks (d_id d) v t = filter (\<lambda>x. c_seq x \<in> set keep) (version_chunks (d_id d) v s)"
    unfolding t_def version_chunks_def delete_chunks_def delete_where_def Let_def
    by (simp add: filter_filter) (metis (no_types, lifting))
  have seqs: "set (version_seqs (d_id d) v t) = set keep"
  proof
    show "set (version_seqs (d_id d) v t) \<subseteq> set keep" by (auto simp: version_seqs_def chunks)
    show "set keep \<subseteq> set (version_seqs (d_id d) v t)"
    proof
      fix n assume n: "n \<in> set keep"
      then have "n \<in> set (reusable (d_id d) v pieces s)" by (auto simp: keep_def split: if_splits)
      then obtain y where "map_of (rev (map (\<lambda>x. (c_seq x, c_content x)) (version_chunks (d_id d) v s))) n = Some y"
        by (auto simp: reusable_def)
      from map_of_SomeD [OF this] n show "n \<in> set (version_seqs (d_id d) v t)"
        by (auto simp: version_seqs_def chunks)
    qed
  qed
  have keep: "n < length pieces" if "n \<in> set keep" for n
    using that reusable_content(1) [OF assms(4)] by (auto simp: keep_def split: if_splits)
  have "distinct (version_seqs (d_id d) v t)"
    using version_chunks_seqs [OF assms(4), of "d_id d" v]
    by (simp add: version_seqs_def chunks distinct_map_filter)
  moreover have "leased_row w d t" "same_rest s t"
    using assms(1) by (simp_all add: t_def delete_chunks_def Let_def leased_row_def same_rest_def)
  ultimately show ?thesis
    using run seqs keep \<open>distinct (map fst pending)\<close> fst_pending
    by (intro exI [of _ t] exI [of _ "k_ws kb"] exI [of _ ?bs]) (auto simp: concat)
qed

text \<open>The phases look at the worker's document, token, retries and host only.\<close>

lemma holds_phase [simp]: "holds (w\<lparr>wk_phase := ph\<rparr>) = holds w"
  by (simp add: holds_def [abs_def])

lemma set_stage_phase [simp]: "set_stage c (w\<lparr>wk_phase := ph\<rparr>) = set_stage c w"
  by (intro ext) (simp add: set_stage_def holder_def)

lemma phase_irrelevant [simp]:
  "fingerprint_phase pl cfg c (w\<lparr>wk_phase := ph\<rparr>) = fingerprint_phase pl cfg c w"
  "parse_phase pl c (w\<lparr>wk_phase := ph\<rparr>) = parse_phase pl c w"
  "split_phase pl cfg c (w\<lparr>wk_phase := ph\<rparr>) = split_phase pl cfg c w"
  "prepare_phase cfg (w\<lparr>wk_phase := ph\<rparr>) = prepare_phase cfg w"
  "activate_phase pl cfg c (w\<lparr>wk_phase := ph\<rparr>) = activate_phase pl cfg c w"
  by (intro ext, simp only: fingerprint_phase_def parse_phase_def split_phase_def prepare_phase_def
      activate_phase_def holds_phase set_stage_phase)+

lemma activate_runs:
  assumes "r \<in> set (docs s)" "holds w r" "d_status r = Indexing"
    and "length (version_chunks (d_id d) (the (d_target d)) s) = length pieces"
  shows "\<exists>t. activate_phase pl cfg c w d ws pieces q s = Inr (t, Announce d pieces q)"
  using assms by (auto simp: activate_phase_def Let_def)

lemma run_to_split:
  assumes "wf_db s" "get_doc s (wk_doc w) = Some d0" "d_status d0 \<in> set claimable" "wk_phase w = Claim"
    and "fresh_token (wk_token w) (s, [])" "d_object_key d0 \<in> fst ` set (objects s)"
    and "\<exists>g \<in> set (pl_parse pl (d_object_key d0) (d_source_url d0)). strip (sg_text g) \<noteq> []"
    and "d = claimed c w d0"
    and "reuse \<longleftrightarrow> d_fingerprint d0 = Some (pipeline_fingerprint pl cfg c (d_hash d0))"
  shows "\<exists>t. run_worker pl cfg c 4 w s = (t, w\<lparr>wk_phase := Split d reuse (pl_parse pl (d_object_key d0) (d_source_url d0))\<rparr>) \<and>
    leased_row w d t \<and> same_rest s t \<and> chunks t = chunks s \<and> (\<exists>r \<in> set (docs t). holds w r \<and> d_status r = Chunking)"
proof -
  have d: "d_object_key d = d_object_key d0" "d_source_url d = d_source_url d0"
      "reuse \<longleftrightarrow> d_fingerprint d = Some (pipeline_fingerprint pl cfg c (d_hash d))"
    by (simp_all add: assms(8,9) claimed_def set_status_def)
  obtain s1 where s1: "run_worker pl cfg c 2 w s = (s1, w\<lparr>wk_phase := Fingerprint d\<rparr>)" "leased_row w d s1"
      "same_rest s s1" "chunks s1 = chunks s"
    using claim_load_run [OF assms(1-5)] unfolding assms(8) by blast
  obtain s2 where s2: "fingerprint_phase pl cfg c w d s1 = (s2, Parse d reuse)" "leased_row w d s2"
      "same_rest s1 s2" "chunks s2 = chunks s1"
    using fingerprint_runs [OF s1(2), of pl cfg c] unfolding d(3) by blast
  have obj: "d_object_key d \<in> fst ` set (objects s2)"
    using assms(6) s1(3) s2(3) by (simp add: same_rest_def d)
  obtain s3 where s3: "parse_phase pl c w d reuse s2 = Inr (s3, Split d reuse (pl_parse pl (d_object_key d) (d_source_url d)))"
      "leased_row w d s3" "same_rest s2 s3" "chunks s3 = chunks s2" "\<exists>r \<in> set (docs s3). holds w r \<and> d_status r = Chunking"
    using parse_runs [OF s2(2) obj, of pl c reuse] assms(7) by (auto simp: d)
  have "run_worker pl cfg c (Suc (Suc 0)) (w\<lparr>wk_phase := Fingerprint d\<rparr>) s1 =
      (s3, w\<lparr>wk_phase := Split d reuse (pl_parse pl (d_object_key d) (d_source_url d))\<rparr>)"
    using s2(1) s3(1) by simp
  from run_worker_then [OF s1(1) this] s1(3,4) s2(3,4) s3(2-5) show ?thesis by (auto simp: d same_rest_def)
qed

lemma run_to_prepare:
  assumes "wk_phase w = Split d reuse segs" "leased_row w d s" "split_pieces pl cfg segs = Inr pieces" "pieces \<noteq> []"
  shows "\<exists>t. run_worker pl cfg c 1 w s = (t, w\<lparr>wk_phase := Prepare d reuse pieces (quarantines pl cfg pieces)\<rparr>) \<and>
    leased_row w d t \<and> same_rest s t \<and> chunks t = chunks s \<and>
    (\<exists>r \<in> set (docs t). holds w r \<and> d_status r = Embedding \<and> d_heartbeat r = Some (now c))"
  using split_runs [OF assms(2-4), of c reuse] assms(1) by (auto split: sum.splits)

lemma split_to_batches:
  assumes "wk_phase w = Split d reuse segs" "worker_inv s w" "wf_db s" "leased_row w d s" "get_kb s (d_kb d) \<noteq> None"
    and "split_pieces pl cfg segs = Inr pieces" "pieces \<noteq> []" "d_target d = Some v"
  shows "\<exists>t ws bs. run_worker pl cfg c 2 w s =
      (t, w\<lparr>wk_phase := Batches d ws pieces (quarantines pl cfg pieces) bs\<rparr>) \<and>
    leased_row w d t \<and> distinct (version_seqs (d_id d) (the (d_target d)) t @ map fst (concat bs)) \<and>
    set (version_seqs (d_id d) (the (d_target d)) t @ map fst (concat bs)) = {0..<length pieces}"
proof -
  let ?q = "quarantines pl cfg pieces"
  let ?w = "w\<lparr>wk_phase := Prepare d reuse pieces ?q\<rparr>"
  obtain s4 where s4: "run_worker pl cfg c 1 w s = (s4, ?w)" "leased_row w d s4" "same_rest s s4"
    using run_to_prepare [OF assms(1,4,6,7), of c] by auto
  have wf: "wf_db s4" using run_worker_inv [OF s4(1) assms(2,3)] by simp
  have kb: "get_kb s4 (d_kb d) \<noteq> None" using assms(5) s4(3) by (simp add: same_rest_def get_kb_def)
  obtain s5 ws bs where s5: "prepare_phase cfg w d reuse pieces ?q s4 =
      Inr (s5, Batches d ws pieces ?q bs)" "leased_row w d s5"
      "distinct (version_seqs (d_id d) v s5 @ map fst (concat bs))"
      "set (version_seqs (d_id d) v s5 @ map fst (concat bs)) \<subseteq> {0..<length pieces}"
      "\<forall>n < length pieces. n \<in> set (map fst (concat bs)) \<or> n \<in> set (version_seqs (d_id d) v s5)"
    using prepare_runs [OF s4(2) assms(8) kb wf] by blast
  have "run_worker pl cfg c 1 ?w s4 = (s5, ?w\<lparr>wk_phase := Batches d ws pieces ?q bs\<rparr>)"
    using s5(1) by simp
  note run = run_worker_then [OF s4(1) this]
  have "set (version_seqs (d_id d) v s5 @ map fst (concat bs)) = {0..<length pieces}"
  proof
    show "{0..<length pieces} \<subseteq> set (version_seqs (d_id d) v s5 @ map fst (concat bs))"
      using s5(5) unfolding set_append by fastforce
  qed (rule s5(4))
  with run s5(2,3) show ?thesis unfolding assms(8) option.sel by (auto simp: numeral_2_eq_2)
qed

lemma worker_inv_new: "fresh_token (wk_token w) (s, []) \<Longrightarrow> wk_phase w = Claim \<Longrightarrow> worker_inv s w"
  by (force simp: worker_inv_def fresh_token_def holds_def)

lemma run_to_batches:
  assumes "wf_db s" "get_doc s (wk_doc w) = Some d0" "d_status d0 \<in> set claimable" "wk_phase w = Claim"
    and "fresh_token (wk_token w) (s, [])" "get_kb s (d_kb d0) \<noteq> None"
    and "d_object_key d0 \<in> fst ` set (objects s)" "pipeline_ok pl cfg (d_object_key d0) (d_source_url d0)"
    and "d = claimed c w d0" "split_pieces pl cfg (pl_parse pl (d_object_key d0) (d_source_url d0)) = Inr pieces"
  shows "\<exists>t n ws bs. run_worker pl cfg c n w s =
      (t, w\<lparr>wk_phase := Batches d ws pieces (quarantines pl cfg pieces) bs\<rparr>) \<and>
    leased_row w d t \<and> distinct (version_seqs (d_id d) (the (d_target d)) t @ map fst (concat bs)) \<and>
    set (version_seqs (d_id d) (the (d_target d)) t @ map fst (concat bs)) = {0..<length pieces}"
proof -
  let ?segs = "pl_parse pl (d_object_key d0) (d_source_url d0)"
  let ?reuse = "d_fingerprint d0 = Some (pipeline_fingerprint pl cfg c (d_hash d0))"
  let ?w = "w\<lparr>wk_phase := Split d ?reuse ?segs\<rparr>"
  have ok: "\<exists>g \<in> set ?segs. strip (sg_text g) \<noteq> []" "pieces \<noteq> []"
    using assms(8,10) by (auto simp: pipeline_ok_def)
  obtain s1 where s1: "run_worker pl cfg c 4 w s = (s1, ?w)" "leased_row w d s1" "same_rest s s1"
    using run_to_split [OF assms(1-5,7) ok(1) assms(9) refl] by blast
  have inv: "worker_inv s1 ?w" "wf_db s1"
    using run_worker_inv [OF s1(1) worker_inv_new [OF assms(5,4)] assms(1)] by simp_all
  obtain v where v: "d_target d = Some v" by (auto simp: assms(9) claimed_def set_status_def)
  have row: "leased_row ?w d s1" using s1(2) by (simp add: leased_row_def)
  have kb: "get_kb s1 (d_kb d) \<noteq> None"
    using assms(6) s1(3) by (simp add: same_rest_def get_kb_def assms(9) claimed_def set_status_def)
  obtain t ws bs where t: "run_worker pl cfg c 2 ?w s1 =
      (t, w\<lparr>wk_phase := Batches d ws pieces (quarantines pl cfg pieces) bs\<rparr>)"
      "leased_row w d t" "distinct (version_seqs (d_id d) (the (d_target d)) t @ map fst (concat bs))"
      "set (version_seqs (d_id d) (the (d_target d)) t @ map fst (concat bs)) = {0..<length pieces}"
    using split_to_batches [OF _ inv row kb assms(10) ok(2) v, of ?reuse c] by (auto simp: leased_row_def)
  from run_worker_then [OF s1(1) t(1)] t(2-4) show ?thesis by blast
qed

text \<open>From the batches to the activation, and to the end.\<close>

lemma run_to_activate:
  assumes "wk_phase w = Batches d ws pieces q bs" "worker_inv s w" "wf_db s" "leased_row w d s"
    and embed: "\<forall>xs. length (pl_embed pl xs) = length xs \<and> (\<forall>y \<in> set (pl_embed pl xs). length y = embedding_dim cfg)"
    and seqs: "distinct (version_seqs (d_id d) (the (d_target d)) s @ map fst (concat bs))"
      "set (version_seqs (d_id d) (the (d_target d)) s @ map fst (concat bs)) = {0..<length pieces}"
  shows "\<exists>n t t'. run_worker pl cfg c n w s = (t, w\<lparr>wk_phase := Activate d ws pieces q\<rparr>) \<and>
    activate_phase pl cfg c w d ws pieces q t = Inr (t', Announce d pieces q)"
proof -
  let ?w = "\<lambda>ph. w\<lparr>wk_phase := ph\<rparr>"
  obtain v where v: "d_target d = Some v" using assms(1,2) by (auto simp: worker_inv_def)
  have id: "d_id d = wk_doc w" using assms(1,2) by (auto simp: worker_inv_def)
  have keys: "distinct (map unique_key (chunks s))" using assms(3) by (simp add: wf_db_def)
  have dist: "distinct (version_seqs (d_id d) v s @ map fst (concat bs))" using seqs(1) v by simp
  obtain s1 where s1: "run_worker pl cfg c (length bs) w s = (s1, ?w (Batches d ws pieces q []))"
      "leased_row w d s1" "version_seqs (d_id d) v s1 = version_seqs (d_id d) v s @ map fst (concat bs)"
    using batches_run [OF assms(4) id v assms(1) embed keys dist, of c] by blast
  obtain s2 where s2: "set_stage c w Indexing s1 = Inr s2" "leased_row w d s2" "chunks s2 = chunks s1"
      "\<exists>r \<in> set (docs s2). holds w r \<and> d_status r = Indexing"
    using set_stage_runs [OF s1(2), of c Indexing] by blast
  let ?s3 = "publish_stage d Indexing s2"
  have step3: "run_worker pl cfg c 1 (?w (Batches d ws pieces q [])) s1 = (?s3, ?w (Activate d ws pieces q))"
    using s2(1) by (simp add: indexing_phase_def)
  note run3 = run_worker_then [OF s1(1) step3]
  have "length (version_seqs (d_id d) v s1) = length pieces"
    using distinct_card [OF seqs(1)] seqs(2) v s1(3) by simp
  then have len: "length (version_chunks (d_id d) (the (d_target d)) ?s3) = length pieces"
    using s2(3) v by (simp add: version_seqs_def version_chunks_def)
  obtain r where r: "r \<in> set (docs s2)" "holds w r" "d_status r = Indexing" using s2(4) by blast
  obtain t where "activate_phase pl cfg c w d ws pieces q ?s3 = Inr (t, Announce d pieces q)"
    using activate_runs [of r ?s3 w, OF _ r(2,3) len, of pl cfg c ws q] r(1) by auto
  with run3 show ?thesis by blast
qed

lemma run_from_activate:
  assumes "wk_phase w = Activate d ws pieces q" "worker_inv s w" "wf_db s"
    and "activate_phase pl cfg c w d ws pieces q s = Inr (t, Announce d pieces q)"
  shows "\<exists>t' d'. run_worker pl cfg c 2 w s =
      (t', w\<lparr>wk_phase := Finished (Completed (length pieces) (the (d_target d)) q)\<rparr>) \<and>
    get_doc t' (wk_doc w) = Some d' \<and> d_status d' = Ready \<and> d_token d' = None \<and>
    d_active d' = d_target d \<and> d_quarantined d' = q \<and>
    index_text t' (wk_doc w) (the (d_target d)) = map p_content pieces"
proof -
  obtain r0 where r0: "d_target d = Some (next_version r0)"
      "get_doc t (wk_doc w) = Some (activated pl cfg c (next_version r0) (length pieces) q r0)"
      "index_text t (wk_doc w) (next_version r0) = map p_content pieces"
    using activate_result [OF assms(4,3,2,1)] by auto
  let ?v = "next_version r0"
  obtain t' where t': "announce_phase d pieces q t = (t', Finished (Completed (length pieces) ?v q))"
      "docs t' = docs t" "chunks t' = chunks t"
    by (auto simp: announce_phase_def Let_def r0(1))
  have run: "run_worker pl cfg c 2 w s = (t', w\<lparr>wk_phase := Finished (Completed (length pieces) ?v q)\<rparr>)"
    using assms(1,4) t'(1) by (simp add: numeral_2_eq_2)
  have get: "get_doc t' (wk_doc w) = Some (activated pl cfg c ?v (length pieces) q r0)"
      and content: "index_text t' (wk_doc w) ?v = map p_content pieces"
    using r0 t'(2,3) by (simp_all add: get_doc_def index_text_def version_chunks_def)
  have "d_quarantined (activated pl cfg c ?v (length pieces) q r0) = q"
    by (simp add: activated_def)
  then show ?thesis
    unfolding r0(1) option.sel by (intro exI conjI) (rule run, rule get, simp_all add: content)
qed

lemma undisturbed_run:
  assumes "wf_db s" "get_doc s (wk_doc w) = Some d" "d_status d \<in> set claimable" "wk_phase w = Claim"
    and "fresh_token (wk_token w) (s, [])" "get_kb s (d_kb d) \<noteq> None"
    and "d_object_key d \<in> fst ` set (objects s)" "pipeline_ok pl cfg (d_object_key d) (d_source_url d)"
    and "split_pieces pl cfg (pl_parse pl (d_object_key d) (d_source_url d)) = Inr pieces"
  shows "\<exists>n t t1 ws. let d1 = claimed c w d; q = quarantines pl cfg pieces in
     run_worker pl cfg c n w s = (t, w\<lparr>wk_phase := Activate d1 ws pieces q\<rparr>) \<and>
     activate_phase pl cfg c w d1 ws pieces q t = Inr (t1, Announce d1 pieces q)"
proof -
  let ?d = "claimed c w d" and ?q = "quarantines pl cfg pieces"
  have winv: "worker_inv s w" using assms(4,5) by (intro worker_inv_new)
  obtain s1 n1 ws bs where run1: "run_worker pl cfg c n1 w s = (s1, w\<lparr>wk_phase := Batches ?d ws pieces ?q bs\<rparr>)"
    and s1: "leased_row w ?d s1" "distinct (version_seqs (d_id ?d) (the (d_target ?d)) s1 @ map fst (concat bs))"
      "set (version_seqs (d_id ?d) (the (d_target ?d)) s1 @ map fst (concat bs)) = {0..<length pieces}"
    using run_to_batches [OF assms(1-8) refl assms(9)] by blast
  let ?w = "w\<lparr>wk_phase := Batches ?d ws pieces ?q bs\<rparr>"
  have inv1: "worker_inv s1 ?w" "wf_db s1" using run_worker_inv [OF run1 winv assms(1)] by simp_all
  have embed: "\<forall>xs. length (pl_embed pl xs) = length xs \<and> (\<forall>y \<in> set (pl_embed pl xs). length y = embedding_dim cfg)"
    using assms(8) by (simp add: pipeline_ok_def)
  have row: "leased_row ?w ?d s1" using s1(1) by (simp add: leased_row_def)
  obtain n2 t t1 where "run_worker pl cfg c n2 ?w s1 = (t, ?w\<lparr>wk_phase := Activate ?d ws pieces ?q\<rparr>)"
      "activate_phase pl cfg c ?w ?d ws pieces ?q t = Inr (t1, Announce ?d pieces ?q)"
    using run_to_activate [where w = ?w and ws = ws and q = ?q and c = c, OF _ inv1 row embed s1(2,3)] by auto
  with run_worker_then [OF run1, of n2] show ?thesis by (auto simp: Let_def)
qed

end
