(* ===== verification/Demo.thy ===== *)
theory Demo
  imports Ingest
begin

text \<open>
  A small concrete deployment on which the witnesses evaluate the model: one owner, one workspace,
  one knowledge base, one document waiting for ingestion, and simple stand-ins for the external
  functions (the digest of a text is the text, the parser returns the object's key as the text of
  the document, every piece is one character, every vector has dimension one).
\<close>

definition demo_unicode :: unicode where
  "demo_unicode = \<lparr>casefold = (\<lambda>x. x), lower = (\<lambda>x. x), nfkc = (\<lambda>x. x), is_word = (\<lambda>x. 97 \<le> x \<and> x \<le> 122)\<rparr>"

definition demo_request :: request where
  "demo_request = \<lparr>rq_client = Some ''10.0.0.1'', rq_state_id = Some ''r1'', rq_header_id = None\<rparr>"

definition demo_ctx :: "int \<Rightarrow> string \<Rightarrow> ctx" where
  "demo_ctx t pre = \<lparr>now = t, req = demo_request, trace_id = None, pii_redaction = False,
     uni = demo_unicode, fresh = (\<lambda>n. pre @ replicate n CHR ''x''), sha256 = map char_of,
     carrier = JObj [], show_time = (\<lambda>t. ''t'')\<rparr>"

definition demo_settings :: settings where
  "demo_settings = \<lparr>max_upload_mb = 1, workspace_storage_quota_mb = 1, allowed_mime_types = [],
     outbox_batch_size = 10, outbox_max_retries = 2, outbox_base_retry_seconds = 2,
     orphan_object_grace_seconds = 60, audit_retention_days = 1, audit_archive_before_purge = True,
     ingestion_embed_batch_size = 2, resource_delete_max_retries = 1, chunk_strategy = ''fixed'',
     chunk_size = 1, chunk_overlap = 0, embedding_model = ''m'', embedding_dim = 1,
     graph_retrieval_enabled = False, injection_quarantine_enabled = False,
     injection_quarantine_ratio = 1 / 2, injection_llm_check_enabled = False,
     prompt_injection_detection_enabled = True, llm_api_key = []\<rparr>"

definition demo_user :: user where
  "demo_user = \<lparr>u_id = ''u1'', u_username = u ''ann'', u_phone = None, u_password_hash = [], u_created = 0\<rparr>"

definition demo_workspace :: workspace where
  "demo_workspace = \<lparr>w_id = ''w1'', w_org = ''g1'', w_name = u ''Default'', w_created = 0\<rparr>"

definition demo_member :: membership where
  "demo_member = \<lparr>m_id = ''m1'', m_ws = ''w1'', m_user = ''u1'', m_role = Owner, m_created = 0\<rparr>"

definition demo_kb :: knowledge_base where
  "demo_kb = \<lparr>k_id = ''k1'', k_owner = ''u1'', k_ws = ''w1'', k_name = u ''kb'', k_desc = [], k_created = 0\<rparr>"

definition demo_doc :: document where
  "demo_doc = \<lparr>d_id = ''d1'', d_owner = ''u1'', d_kb = ''k1'', d_filename = u ''a.md'', d_object_key = ''old'',
     d_hash = ''old'', d_mime = None, d_size = 3, d_status = Queued, d_stage = ''queued'', d_error = None,
     d_retry = 0, d_token = None, d_worker = None, d_started = None, d_finished = None,
     d_heartbeat = None, d_chunk_count = 0, d_active = None, d_target = None,
     d_embedding_model = None, d_chunk_strategy = ''recursive'', d_config_hash = None,
     d_fingerprint = None, d_source_type = ''upload'', d_source_url = None, d_source_metadata = JObj [],
     d_department = None, d_tags = [], d_language = None, d_embedding_dim = None,
     d_quarantined = False, d_created = 0, d_updated = 0\<rparr>"

definition demo_sys :: sys where
  "demo_sys = \<lparr>users = [demo_user], api_keys = [], orgs = [], workspaces = [demo_workspace],
     memberships = [demo_member], kbs = [demo_kb], docs = [demo_doc], chunks = [], outbox = [],
     dead = [], audits = [], entities = [], relations = [], conversations = [], messages = [],
     usage = [], feedback = [], objects = [(''old'', 0)], broker = [IngestTask ''d1'' 0],
     published = [], invalidated = []\<rparr>"

definition demo_piece :: "nat \<Rightarrow> piece" where
  "demo_piece x = \<lparr>p_content = [x], p_parent_content = u ''old'', p_parent_seq = 0, p_page = None,
     p_section = None, p_content_type = ''text'', p_source_url = None\<rparr>"

definition demo_pipeline :: pipeline where
  "demo_pipeline = \<lparr>
     pl_parse = (\<lambda>key url. [\<lparr>sg_text = u key, sg_page = None, sg_section = None, sg_content_type = ''text'',
        sg_source_url = url\<rparr>]),
     pl_embed = map (\<lambda>x. [1]), pl_vectorize = (\<lambda>xs. None), pl_semantic_threshold = 0,
     pl_judge = \<lparr>completion = (\<lambda>x. None), loads = (\<lambda>x. None)\<rparr>, pl_cut = (\<lambda>x. [x]), pl_tags = (\<lambda>x. []),
     pl_threshold = ''t''\<rparr>"

definition demo_pieces :: "piece list" where
  "demo_pieces = map demo_piece (u ''old'')"

lemmas demo_defs = demo_unicode_def demo_request_def demo_ctx_def demo_settings_def demo_user_def
  demo_workspace_def demo_member_def demo_kb_def demo_doc_def demo_sys_def demo_piece_def
  demo_pipeline_def

lemma demo_contents:
  "map p_content demo_pieces = [u ''o'', u ''l'', u ''d'']" "length demo_pieces = 3" "demo_pieces \<noteq> []"
  by (simp_all add: demo_pieces_def demo_piece_def u_def)

text \<open>The demonstration deployment cuts its text into single characters.\<close>

lemma demo_splits:
  "split_pieces demo_pipeline demo_settings (pl_parse demo_pipeline ''old'' None) = Inr demo_pieces"
  by (simp add: split_pieces_def split_segments_def demo_pipeline_def demo_settings_def STRATEGIES_def split_with.simps fixed_split_def
      valid_sizes_def normalize_text_def is_blank_def strip_def lstrip_def rstrip_def is_space_def u_def
      piece_of_def demo_pieces_def demo_piece_def Let_def)

lemma demo_spares: "quarantines demo_pipeline demo_settings pieces = False"
  by (simp add: quarantines_def should_quarantine_def demo_settings_def)

end
