(* ===== verification/IngestClaims.thy ===== *)
theory IngestClaims
  imports IngestProps Demo
begin

text \<open>
  The properties of the ingestion state machine, with witnesses on the demonstration deployment.
\<close>

section \<open>The demonstration run\<close>

definition demo_worker :: worker where
  "demo_worker = new_worker ''d1'' 0 ''tok'' ''host''"

definition demo_c :: ctx where
  "demo_c = demo_ctx 1 ''a''"

lemma demo_start: "ingest_start (demo_sys, [])"
  by (simp add: ingest_start_def wf_db_def doc_ids_def target_ok_def demo_defs)

lemma demo_splits_doc:
  "split_pieces demo_pipeline demo_settings (pl_parse demo_pipeline (d_object_key demo_doc) (d_source_url demo_doc)) =
     Inr demo_pieces"
  using demo_splits by (simp add: demo_doc_def)

lemma demo_claimable:
  "wf_db demo_sys" "get_doc demo_sys ''d1'' = Some demo_doc" "d_status demo_doc \<in> set claimable"
  "get_kb demo_sys (d_kb demo_doc) \<noteq> None" "d_object_key demo_doc \<in> fst ` set (objects demo_sys)"
  "pipeline_ok demo_pipeline demo_settings (d_object_key demo_doc) (d_source_url demo_doc)"
  "fresh_token ''tok'' (demo_sys, [])"
proof -
  show "pipeline_ok demo_pipeline demo_settings (d_object_key demo_doc) (d_source_url demo_doc)"
    unfolding pipeline_ok_def demo_splits_doc
    by (simp add: demo_contents demo_defs u_def strip_def lstrip_def rstrip_def is_space_def)
qed (simp_all add: demo_defs wf_db_def doc_ids_def target_ok_def get_doc_def get_kb_def claimable_def fresh_token_def)

lemma demo_worker_simps [simp]:
  "wk_doc demo_worker = ''d1''" "wk_phase demo_worker = Claim" "wk_token demo_worker = ''tok''"
  by (simp_all add: demo_worker_def new_worker_def)

lemma demo_reach_start: "ingest_reach demo_pipeline demo_settings (demo_sys, [demo_worker])"
proof -
  have "ingest_step demo_pipeline demo_settings (demo_sys, []) (demo_sys\<lparr>broker := broker demo_sys\<rparr>, [] @ [demo_worker])"
    unfolding demo_worker_def
    by (rule ingest_step.start) (use demo_claimable(7) in \<open>simp_all add: demo_sys_def\<close>)
  then show ?thesis using demo_start by (auto intro: ingest_reach.intros)
qed

lemma demo_worker_ready:
  "get_doc demo_sys (wk_doc demo_worker) = Some demo_doc" "wk_phase demo_worker = Claim"
  "fresh_token (wk_token demo_worker) (demo_sys, [])"
  using demo_claimable by simp_all

lemma demo_activation:
  obtains t t1 d ws where "ingest_reach demo_pipeline demo_settings (t, [demo_worker\<lparr>wk_phase := Activate d ws demo_pieces False\<rparr>])"
    "worker_step demo_pipeline demo_settings demo_c (demo_worker\<lparr>wk_phase := Activate d ws demo_pieces False\<rparr>) t =
       (t1, demo_worker\<lparr>wk_phase := Announce d demo_pieces False\<rparr>)"
    "d = claimed demo_c demo_worker demo_doc"
proof -
  let ?d = "claimed demo_c demo_worker demo_doc"
  obtain n t t1 ws where run: "run_worker demo_pipeline demo_settings demo_c n demo_worker demo_sys =
       (t, demo_worker\<lparr>wk_phase := Activate ?d ws demo_pieces False\<rparr>)"
      "activate_phase demo_pipeline demo_settings demo_c demo_worker ?d ws demo_pieces False t =
        Inr (t1, Announce ?d demo_pieces False)"
    using undisturbed_run [where c = demo_c, OF demo_claimable(1) demo_worker_ready(1) demo_claimable(3)
        demo_worker_ready(2,3) demo_claimable(4-6) demo_splits_doc]
    by (auto simp: demo_spares Let_def)
  show ?thesis
    by (rule that [OF run_worker_reach [OF demo_reach_start run(1)] _ refl]) (use run(2) in simp)
qed

section \<open>Properties\<close>

text \<open>C1: whatever happened before, other workers, requests, maintenance tasks and faults included,
  when a worker's activation transaction commits, the document is ready, its lease is gone, its
  active version is the one after the previous active version, and the chunks stored under it are
  exactly the pieces of the worker, each once and in order.\<close>

theorem activation_exact:
  assumes "ingest_reach pl cfg (s, ws)" "k < length ws" "wk_phase (ws ! k) = Activate d kb_ws pieces q"
    and "worker_step pl cfg c (ws ! k) s = (t, x)" "wk_phase x = Announce d pieces q"
  shows "\<exists>r0 r. get_doc s (wk_doc x) = Some r0 \<and> get_doc t (wk_doc x) = Some r \<and> d_status r = Ready \<and>
    d_token r = None \<and> d_target r = None \<and> d_active r = Some (next_version r0) \<and> d_quarantined r = q \<and>
    d_chunk_count r = length pieces \<and> index_text t (d_id r) (next_version r0) = map p_content pieces"
proof -
  have inv: "worker_inv s (ws ! k)" "wf_db s"
    using world_invariant [OF assms(1)] assms(2) by (auto simp: world_inv_def)
  have act: "activate_phase pl cfg c (ws ! k) d kb_ws pieces q s = Inr (t, Announce d pieces q)"
    and x: "wk_doc x = wk_doc (ws ! k)"
    using assms(3-5) by (auto split: sum.splits)
  obtain r0 where r0: "get_doc s (wk_doc x) = Some r0" "holds (ws ! k) r0"
      "get_doc t (wk_doc x) = Some (activated pl cfg c (next_version r0) (length pieces) q r0)"
      "index_text t (wk_doc x) (next_version r0) = map p_content pieces"
    using activate_result [OF act inv(2,1) assms(3)] unfolding x by blast
  let ?r = "activated pl cfg c (next_version r0) (length pieces) q r0"
  have "d_quarantined ?r = q" "d_chunk_count ?r = length pieces" "d_target ?r = None" "d_id ?r = wk_doc x"
    using r0(2) by (simp_all add: activated_def holds_def x)
  with r0 show ?thesis by (intro exI [of _ r0] exI [of _ ?r]) simp
qed

theorem activation_exact_witness:
  "\<exists>t t1 r. ingest_reach demo_pipeline demo_settings t \<and> get_doc t1 ''d1'' = Some r \<and> d_status r = Ready \<and>
     d_active r = Some 1 \<and> index_text t1 ''d1'' 1 = [u ''o'', u ''l'', u ''d'']"
proof -
  obtain t t1 d ws where run: "ingest_reach demo_pipeline demo_settings (t, [demo_worker\<lparr>wk_phase := Activate d ws demo_pieces False\<rparr>])"
    "worker_step demo_pipeline demo_settings demo_c (demo_worker\<lparr>wk_phase := Activate d ws demo_pieces False\<rparr>) t =
       (t1, demo_worker\<lparr>wk_phase := Announce d demo_pieces False\<rparr>)"
    and d: "d = claimed demo_c demo_worker demo_doc"
    by (rule demo_activation)
  let ?w = "demo_worker\<lparr>wk_phase := Activate d ws demo_pieces False\<rparr>"
  have inv: "worker_inv t ?w" "wf_db t" using world_invariant [OF run(1)] by (auto simp: world_inv_def)
  have target: "d_target d = Some 1"
    by (simp add: d claimed_def set_status_def next_version_def demo_doc_def)
  obtain r0 r where r: "get_doc t ''d1'' = Some r0" "get_doc t1 ''d1'' = Some r" "d_status r = Ready"
      "d_active r = Some (next_version r0)" "index_text t1 (d_id r) (next_version r0) = map p_content demo_pieces"
    using activation_exact [OF run(1), of 0 d ws demo_pieces False demo_c t1
        "demo_worker\<lparr>wk_phase := Announce d demo_pieces False\<rparr>"] run(2) by auto
  have act: "activate_phase demo_pipeline demo_settings demo_c ?w d ws demo_pieces False t =
      Inr (t1, Announce d demo_pieces False)"
    using run(2) by (auto split: sum.splits)
  have v: "next_version r0 = 1"
    using activate_result [OF act inv(2,1)] r(1) target by auto
  have "index_text t1 ''d1'' 1 = [u ''o'', u ''l'', u ''d'']"
    using r(5) v get_doc_Some [OF r(2)]
    by (simp add: demo_contents)
  moreover have "d_active r = Some 1" using r(4) v by simp
  ultimately show ?thesis using run(1) r(2,3) by blast
qed

text \<open>C2: a worker that nobody disturbs finishes: from any well-formed state with a claimable
  document, its file and its knowledge base, and parser, chunker and model that answer, it reaches
  completion in finitely many steps, with the document ready and its active index the pieces of
  the file.\<close>

theorem undisturbed_ingestion:
  assumes "wf_db s" "get_doc s (wk_doc w) = Some d" "d_status d \<in> set claimable" "wk_phase w = Claim"
    and "fresh_token (wk_token w) (s, [])" "get_kb s (d_kb d) \<noteq> None"
    and "d_object_key d \<in> fst ` set (objects s)" "pipeline_ok pl cfg (d_object_key d) (d_source_url d)"
    and "target_ok d" "split_pieces pl cfg (pl_parse pl (d_object_key d) (d_source_url d)) = Inr pieces"
  shows "\<exists>n t x r. run_worker pl cfg c n w s = (t, x) \<and>
    wk_phase x = Finished (Completed (length pieces) (next_version d) (quarantines pl cfg pieces)) \<and>
    get_doc t (wk_doc w) = Some r \<and> d_status r = Ready \<and> d_token r = None \<and>
    d_active r = Some (next_version d) \<and> index_text t (wk_doc w) (next_version d) = map p_content pieces"
proof -
  let ?d = "claimed c w d" and ?q = "quarantines pl cfg pieces"
  have target: "d_target ?d = Some (next_version d)"
    using assms(9) by (auto simp: claimed_def set_status_def target_ok_def coalesce_def split: option.splits)
  obtain n t t1 ws where run: "run_worker pl cfg c n w s = (t, w\<lparr>wk_phase := Activate ?d ws pieces ?q\<rparr>)"
      "activate_phase pl cfg c w ?d ws pieces ?q t = Inr (t1, Announce ?d pieces ?q)"
    using undisturbed_run [OF assms(1-8,10), of c] by (auto simp: Let_def)
  let ?w = "w\<lparr>wk_phase := Activate ?d ws pieces ?q\<rparr>"
  have inv: "worker_inv t ?w" "wf_db t"
    using run_worker_inv [OF run(1) worker_inv_new [OF assms(5,4)] assms(1)] by simp_all
  obtain t' d' where end_run: "run_worker pl cfg c 2 ?w t =
      (t', ?w\<lparr>wk_phase := Finished (Completed (length pieces) (the (d_target ?d)) ?q)\<rparr>)"
    and d': "get_doc t' (wk_doc w) = Some d'" "d_status d' = Ready" "d_token d' = None" "d_active d' = d_target ?d"
      "index_text t' (wk_doc w) (the (d_target ?d)) = map p_content pieces"
    using run_from_activate [OF _ inv, of ?d ws pieces ?q pl cfg c t1] run(2) by auto
  have same: "?w\<lparr>wk_phase := ph\<rparr> = w\<lparr>wk_phase := ph\<rparr>" for ph by simp
  obtain m where final: "run_worker pl cfg c m w s =
      (t', w\<lparr>wk_phase := Finished (Completed (length pieces) (next_version d) ?q)\<rparr>)"
    using run_worker_then [OF run(1) end_run [unfolded target option.sel same]] by blast
  have finished: "wk_phase (w\<lparr>wk_phase := Finished (Completed (length pieces) (next_version d) ?q)\<rparr>) =
      Finished (Completed (length pieces) (next_version d) ?q)" by simp
  show ?thesis
    using final finished d'(1-3) d'(4,5) [unfolded target option.sel] by blast
qed

theorem undisturbed_ingestion_witness:
  "\<exists>n t x r. run_worker demo_pipeline demo_settings demo_c n demo_worker demo_sys = (t, x) \<and>
     wk_phase x = Finished (Completed 3 1 False) \<and> get_doc t ''d1'' = Some r \<and> d_status r = Ready \<and>
     index_text t ''d1'' 1 = [u ''o'', u ''l'', u ''d'']"
proof -
  have v: "next_version demo_doc = 1" by (simp add: next_version_def demo_doc_def)
  have "target_ok demo_doc" by (simp add: target_ok_def demo_doc_def)
  from undisturbed_ingestion [where c = demo_c, OF demo_claimable(1) demo_worker_ready(1) demo_claimable(3)
      demo_worker_ready(2,3) demo_claimable(4-6) this demo_splits_doc]
  show ?thesis unfolding v demo_spares demo_contents demo_worker_simps by blast
qed

text \<open>C3: the worker that holds a document's lease never changes the chunks of the document's active
  version, so readers keep a complete index while the next version is built.\<close>

theorem lease_holder_spares_active_index:
  assumes "ingest_reach pl cfg (s, ws)" "k < length ws" "worker_step pl cfg c (ws ! k) s = (t, x)"
    and "d \<in> set (docs s)" "holds (ws ! k) d" "d_active d = Some v"
  shows "version_chunks (d_id d) v t = version_chunks (d_id d) v s"
proof -
  have inv: "worker_inv s (ws ! k)" "wf_db s"
    using world_invariant [OF assms(1)] assms(2) by (auto simp: world_inv_def)
  have "d_id d = wk_doc (ws ! k)" using assms(5) by (simp add: holds_def)
  with worker_step_chunks [OF assms(3) inv(1) holder_active [OF inv(2,1) assms(4-6)]] show ?thesis by simp
qed

text \<open>The witness: the demonstration document already has an active version, and a worker claims it.\<close>

definition demo_active :: document where
  "demo_active = demo_doc\<lparr>d_active := Some 1\<rparr>"

definition demo_indexed :: sys where
  "demo_indexed = demo_sys\<lparr>docs := [demo_active], chunks := [chunk_row demo_pipeline demo_c demo_doc ''w1'' 1 ''c1'' 0 (demo_piece 7) [1]]\<rparr>"

theorem lease_holder_spares_active_index_witness:
  "\<exists>s w t x d. ingest_reach demo_pipeline demo_settings (s, [w]) \<and> d \<in> set (docs s) \<and> holds w d \<and> d_active d = Some 1 \<and>
     worker_step demo_pipeline demo_settings demo_c w s = (t, x) \<and> map c_content (version_chunks ''d1'' 1 t) = [[7]]"
proof -
  have "ingest_start (demo_indexed, [])"
    by (simp add: ingest_start_def wf_db_def doc_ids_def target_ok_def demo_indexed_def demo_active_def demo_doc_def)
  then have r0: "ingest_reach demo_pipeline demo_settings (demo_indexed, [])" by (rule ingest_reach.reach_start)
  have "ingest_step demo_pipeline demo_settings (demo_indexed, []) (demo_indexed\<lparr>broker := broker demo_indexed\<rparr>, [] @ [demo_worker])"
    unfolding demo_worker_def
    by (rule ingest_step.start) (simp_all add: demo_indexed_def demo_sys_def fresh_token_def demo_active_def demo_doc_def)
  then have r1: "ingest_reach demo_pipeline demo_settings (demo_indexed, [demo_worker])"
    using ingest_reach.reach_step [OF r0] by simp
  let ?d = "claimed demo_c demo_worker demo_active"
  let ?s = "demo_indexed\<lparr>docs := [?d]\<rparr>" and ?w = "demo_worker\<lparr>wk_phase := Load\<rparr>"
  have "claim_phase demo_c demo_worker demo_indexed = (?s, Load)"
    by (simp add: claim_phase_def demo_indexed_def claimable_def upd_docs_def demo_active_def) (simp add: demo_doc_def)
  then have "worker_step demo_pipeline demo_settings demo_c demo_worker demo_indexed = (?s, ?w)" by simp
  then have "ingest_step demo_pipeline demo_settings (demo_indexed, [demo_worker]) (?s, [demo_worker][0 := ?w])"
    by (intro ingest_step.work) simp_all
  then have r2: "ingest_reach demo_pipeline demo_settings (?s, [?w])"
    using ingest_reach.reach_step [OF r1] by simp
  obtain t x where run: "worker_step demo_pipeline demo_settings demo_c ([?w] ! 0) ?s = (t, x)" by fastforce
  have d: "?d \<in> set (docs ?s)" "holds ([?w] ! 0) ?d" "d_active ?d = Some 1" "d_id ?d = ''d1''"
    by (simp_all add: holds_def claimed_def set_status_def demo_active_def demo_doc_def)
  have "0 < length [?w]" by simp
  from lease_holder_spares_active_index [OF r2 this run d(1-3)]
  have "version_chunks ''d1'' 1 t = version_chunks ''d1'' 1 ?s" unfolding d(4) .
  then have "map c_content (version_chunks ''d1'' 1 t) = [[7]]"
    by (simp add: version_chunks_def demo_indexed_def chunk_row_def demo_doc_def demo_piece_def)
  with r2 d(1-3) run show ?thesis by (metis nth_Cons_0)
qed

end
