(* ===== verification/IngestFindings.thy ===== *)
theory IngestFindings
  imports IngestClaims
begin

text \<open>
  Interleavings the ingestion worker does not guard against: new content stored while a worker
  processes the old one, a worker that lost its lease before it prepares the index, and the dead
  letter of a worker that lost its lease.  Each run is built from the lemmas of the theory on
  ingestion properties, so that every step of it is a step of the system.
\<close>

section \<open>What a step leaves alone\<close>

definition content_of :: "document \<Rightarrow> string \<times> string \<times> string \<times> ustr option" where
  "content_of d = (d_id d, d_object_key d, d_hash d, d_source_url d)"

lemma content_update:
  "docs t = update_where P f (docs s) \<Longrightarrow> (\<And>d. content_of (f d) = content_of d) \<Longrightarrow>
     map content_of (docs t) = map content_of (docs s)"
  by (simp add: map_update_where)

lemma content_of_changes [simp]:
  "content_of (claimed c w d) = content_of d" "content_of (failed_row c st e d) = content_of d"
  "content_of (activated pl cfg c v n q d) = content_of d"
  "content_of (set_status st d\<lparr>d_heartbeat := h, d_updated := y\<rparr>) = content_of d"
  "content_of (stamp c d) = content_of d" "content_of (d\<lparr>d_heartbeat := h\<rparr>) = content_of d"
  "content_of (d\<lparr>d_fingerprint := fp, d_updated := y\<rparr>) = content_of d"
  by (simp_all add: content_of_def claimed_def failed_row_def activated_def set_status_def drop_lease_def stamp_def)

lemma upd_docs_content:
  "(\<And>d. content_of (f d) = content_of d) \<Longrightarrow> map content_of (update_where P f xs) = map content_of xs"
  by (simp add: map_update_where)

lemma set_stage_content: "set_stage c w st s = Inr t \<Longrightarrow> map content_of (docs t) = map content_of (docs s)"
  by (auto simp: set_stage_def upd_docs_content split: if_splits)

lemma phases_content:
  "claim_phase c w s = (t, ph) \<Longrightarrow> map content_of (docs t) = map content_of (docs s)"
  "load_phase w s = (t, ph) \<Longrightarrow> map content_of (docs t) = map content_of (docs s)"
  "fingerprint_phase pl cfg c w d s = (t, ph) \<Longrightarrow> map content_of (docs t) = map content_of (docs s)"
  "parse_phase pl c w d reuse s = Inr (t, ph) \<Longrightarrow> map content_of (docs t) = map content_of (docs s)"
  "split_phase pl cfg c w d reuse segs s = Inr (t, ph) \<Longrightarrow> map content_of (docs t) = map content_of (docs s)"
  "prepare_phase cfg w d reuse pieces q s = Inr (t, ph) \<Longrightarrow> map content_of (docs t) = map content_of (docs s)"
  "batch_phase pl cfg c w d ws pieces q batch rest s = Inr (t, ph) \<Longrightarrow> map content_of (docs t) = map content_of (docs s)"
  "indexing_phase c w d ws pieces q s = Inr (t, ph) \<Longrightarrow> map content_of (docs t) = map content_of (docs s)"
  "activate_phase pl cfg c w d ws pieces q s = Inr (t, ph) \<Longrightarrow> map content_of (docs t) = map content_of (docs s)"
  "announce_phase d pieces q s = (t, ph) \<Longrightarrow> map content_of (docs t) = map content_of (docs s)"
  subgoal by (auto simp: claim_phase_def Let_def upd_docs_content split: if_splits)
  subgoal by (auto simp: load_phase_def split: option.splits)
  subgoal by (auto simp: fingerprint_phase_def Let_def upd_docs_content split: if_splits)
  subgoal by (auto simp: parse_phase_def Let_def dest!: set_stage_content split: if_splits sum.splits)
  subgoal by (auto simp: split_phase_def Let_def dest!: set_stage_content split: if_splits sum.splits)
  subgoal by (auto simp: prepare_phase_def Let_def delete_chunks_def split: option.splits)
  subgoal by (auto simp: batch_phase_def Let_def upd_docs_content split: if_splits)
  subgoal by (auto simp: indexing_phase_def dest!: set_stage_content split: sum.splits)
  subgoal by (auto simp: activate_phase_def Let_def upd_docs_content split: if_splits)
  subgoal by (auto simp: announce_phase_def Let_def)
  done

lemma run_phase_content:
  assumes "run_phase pl cfg c w ph s = Inr (t, ph')"
  shows "map content_of (docs t) = map content_of (docs s)"
  using assms
proof (cases "(pl, cfg, c, w, ph, s)" rule: run_phase.cases)
qed (auto intro: phases_content)

lemma worker_step_content:
  assumes "worker_step pl cfg c w s = (t, x)"
  shows "map content_of (docs t) = map content_of (docs s)"
  using assms
proof (cases rule: worker_step_cases)
  case (handled e st ph)
  then show ?thesis
    by (auto simp: fail_phase_def Let_def upd_docs_content split: if_splits option.splits)
qed (auto intro: run_phase_content)

lemma run_worker_content:
  "run_worker pl cfg c n w s = (t, x) \<Longrightarrow> map content_of (docs t) = map content_of (docs s)"
proof (induction n arbitrary: w s)
  case (Suc n)
  obtain s1 w1 where step: "worker_step pl cfg c w s = (s1, w1)" by fastforce
  with Suc worker_step_content [OF step] show ?case by simp
qed simp

lemma set_stage_kbs: "set_stage c w st s = Inr t \<Longrightarrow> kbs t = kbs s"
  by (auto simp: set_stage_def split: if_splits)

lemma run_phase_kbs:
  assumes "run_phase pl cfg c w ph s = Inr (t, ph')"
  shows "kbs t = kbs s"
  using assms
proof (cases "(pl, cfg, c, w, ph, s)" rule: run_phase.cases)
qed (auto simp: claim_phase_def load_phase_def fingerprint_phase_def parse_phase_def split_phase_def prepare_phase_def
    delete_chunks_def batch_phase_def indexing_phase_def activate_phase_def announce_phase_def Let_def
    dest!: set_stage_kbs split: if_splits option.splits sum.splits)

lemma worker_step_kbs:
  assumes "worker_step pl cfg c w s = (t, x)"
  shows "kbs t = kbs s"
  using assms
proof (cases rule: worker_step_cases)
  case (handled e st ph)
  then show ?thesis
    by (auto simp: fail_phase_def Let_def split: if_splits option.splits)
qed (auto intro: run_phase_kbs)

lemma run_worker_kbs: "run_worker pl cfg c n w s = (t, x) \<Longrightarrow> kbs t = kbs s"
proof (induction n arbitrary: w s)
  case (Suc n)
  obtain s1 w1 where step: "worker_step pl cfg c w s = (s1, w1)" by fastforce
  with Suc worker_step_kbs [OF step] show ?case by simp
qed simp

section \<open>A worker without the lease\<close>

lemma not_holder_rows [simp]: "\<not> holder w s \<Longrightarrow> update_where (holds w) f (docs s) = docs s"
  by (rule update_where_none) (auto simp: holder_def)

lemma not_holder_activate [simp]:
  "\<not> holder w s \<Longrightarrow> update_where (\<lambda>x. holds w x \<and> P x) f (docs s) = docs s"
  by (rule update_where_none) (auto simp: holder_def)

lemma lost_phase:
  assumes "run_phase pl cfg c w ph s = Inr (t, ph')" "\<not> holder w s" "ph \<noteq> Claim" "\<nexists>d reuse pieces q. ph = Prepare d reuse pieces q"
  shows "docs t = docs s \<and> chunks t = chunks s"
  using assms
proof (cases "(pl, cfg, c, w, ph, s)" rule: run_phase.cases)
qed (auto simp: load_phase_def fingerprint_phase_def parse_phase_def split_phase_def batch_phase_def
    indexing_phase_def activate_phase_def announce_phase_def set_stage_def holder_def Let_def
    split: if_splits option.splits sum.splits)

lemma prepare_effect:
  assumes "prepare_phase cfg w d reuse pieces q s = Inr (t, ph)"
  shows "docs t = docs s \<and> (\<exists>P. chunks t = delete_where P (chunks s) \<and>
    (\<forall>y. P y \<longrightarrow> c_doc y = d_id d \<and> d_target d = Some (c_version y)))"
proof (cases "d_target d")
  case (Some v)
  let ?keep = "if reuse then reusable (d_id d) v pieces s else []"
  let ?P = "\<lambda>x. c_doc x = d_id d \<and> c_version x = v \<and> c_seq x \<notin> set ?keep"
  have "docs t = docs s" "chunks t = delete_where ?P (chunks s)"
    using assms Some by (simp_all add: prepare_phase_def Let_def delete_chunks_def split: option.splits)
      (auto)
  then show ?thesis using Some by (intro conjI exI [of _ ?P]) auto
qed (use assms in \<open>simp add: prepare_phase_def\<close>)

lemma lost_step:
  assumes "worker_step pl cfg c w s = (t, x)" "\<not> holder w s" "wk_phase w \<noteq> Claim"
  shows "docs t = docs s \<and> (chunks t = chunks s \<or> (\<exists>d reuse pieces q. wk_phase w = Prepare d reuse pieces q \<and>
    (\<exists>P. chunks t = delete_where P (chunks s) \<and> (\<forall>y. P y \<longrightarrow> c_doc y = d_id d \<and> d_target d = Some (c_version y)))))"
  using assms(1)
proof (cases rule: worker_step_cases)
  case (handled e st ph)
  then show ?thesis using assms(2)
    by (auto simp: fail_phase_def Let_def split: if_splits option.splits)
next
  case (ran ph)
  show ?thesis
  proof (cases "\<exists>d reuse pieces q. wk_phase w = Prepare d reuse pieces q")
    case True
    then obtain d reuse pieces q where ph: "wk_phase w = Prepare d reuse pieces q" by blast
    then obtain P where "docs t = docs s" "chunks t = delete_where P (chunks s)"
        "\<forall>y. P y \<longrightarrow> c_doc y = d_id d \<and> d_target d = Some (c_version y)"
      using ran prepare_effect by (metis run_phase.simps(6))
    then show ?thesis using ph by blast
  qed (use lost_phase [OF ran(1) assms(2,3)] in blast)
qed simp

section \<open>Runs inside a world\<close>

lemma run_worker_reach_at:
  assumes "ingest_reach pl cfg (s, ws)" "k < length ws" "run_worker pl cfg c n (ws ! k) s = (t, x)"
  shows "ingest_reach pl cfg (t, ws[k := x])"
  using assms
proof (induction n arbitrary: s ws)
  case 0
  then have "x = ws ! k" "t = s" by simp_all
  with 0 show ?case by (metis list_update_id)
next
  case (Suc n)
  obtain s1 w1 where step: "worker_step pl cfg c (ws ! k) s = (s1, w1)" by fastforce
  have "ingest_step pl cfg (s, ws) (s1, ws[k := w1])"
    by (rule ingest_step.work) (use step Suc.prems(2) in simp_all)
  then have "ingest_reach pl cfg (s1, ws[k := w1])" using Suc.prems(1) by (auto intro: reach_step)
  from Suc.IH [OF this] Suc.prems step show ?case by simp
qed

lemma run_from_split:
  assumes "wk_phase w = Split d reuse segs" "worker_inv s w" "wf_db s" "leased_row w d s" "get_kb s (d_kb d) \<noteq> None"
    and "split_pieces pl cfg segs = Inr pieces" "pieces \<noteq> []" "d_target d = Some v"
    and embed: "\<forall>xs. length (pl_embed pl xs) = length xs \<and> (\<forall>y \<in> set (pl_embed pl xs). length y = embedding_dim cfg)"
  shows "\<exists>n t x r. run_worker pl cfg c n w s = (t, x) \<and> get_doc t (wk_doc w) = Some r \<and> d_status r = Ready \<and>
    d_token r = None \<and> d_active r = Some v \<and> index_text t (wk_doc w) v = map p_content pieces"
proof -
  let ?q = "quarantines pl cfg pieces"
  obtain s1 ws bs where run1: "run_worker pl cfg c 2 w s = (s1, w\<lparr>wk_phase := Batches d ws pieces ?q bs\<rparr>)"
    and s1: "leased_row w d s1" "distinct (version_seqs (d_id d) (the (d_target d)) s1 @ map fst (concat bs))"
      "set (version_seqs (d_id d) (the (d_target d)) s1 @ map fst (concat bs)) = {0..<length pieces}"
    using split_to_batches [OF assms(1-8), of c] by blast
  let ?w = "w\<lparr>wk_phase := Batches d ws pieces ?q bs\<rparr>"
  have inv1: "worker_inv s1 ?w" "wf_db s1" using run_worker_inv [OF run1 assms(2,3)] by simp_all
  have row: "leased_row ?w d s1" using s1(1) by (simp add: leased_row_def)
  obtain n2 t t1 where run2: "run_worker pl cfg c n2 ?w s1 = (t, ?w\<lparr>wk_phase := Activate d ws pieces ?q\<rparr>)"
      "activate_phase pl cfg c ?w d ws pieces ?q t = Inr (t1, Announce d pieces ?q)"
    using run_to_activate [where w = ?w and ws = ws and q = ?q and c = c, OF _ inv1 row embed s1(2,3)] by auto
  let ?x = "?w\<lparr>wk_phase := Activate d ws pieces ?q\<rparr>"
  have inv2: "worker_inv t ?x" "wf_db t" using run_worker_inv [OF run2(1) inv1] by simp_all
  obtain t' d' where run3: "run_worker pl cfg c 2 ?x t =
      (t', ?x\<lparr>wk_phase := Finished (Completed (length pieces) (the (d_target d)) ?q)\<rparr>)"
    and d': "get_doc t' (wk_doc w) = Some d'" "d_status d' = Ready" "d_token d' = None" "d_active d' = d_target d"
      "index_text t' (wk_doc w) (the (d_target d)) = map p_content pieces"
    using run_from_activate [OF _ inv2, of d ws pieces ?q pl cfg c t1] run2(2) by auto
  have "run_worker pl cfg c (2 + n2 + 2) w s =
      (t', ?x\<lparr>wk_phase := Finished (Completed (length pieces) (the (d_target d)) ?q)\<rparr>)"
    using run_worker_then [OF run_worker_then [OF run1 run2(1)] run3] .
  then show ?thesis using d' assms(8) by fastforce
qed

section \<open>Replaced content and a worker at work\<close>

definition demo_segments :: "segment list" where
  "demo_segments = pl_parse demo_pipeline ''old'' None"

lemma demo_parses: "\<exists>g \<in> set (pl_parse demo_pipeline (d_object_key demo_doc) (d_source_url demo_doc)). strip (sg_text g) \<noteq> []"
  using demo_claimable(6) by (simp add: pipeline_ok_def)

lemma demo_embed:
  "\<forall>xs. length (pl_embed demo_pipeline xs) = length xs \<and>
     (\<forall>y \<in> set (pl_embed demo_pipeline xs). length y = embedding_dim demo_settings)"
  using demo_claimable(6) by (simp add: pipeline_ok_def)

abbreviation (input) demo_row :: document where
  "demo_row \<equiv> claimed demo_c demo_worker demo_doc"

lemma demo_row_simps:
  "d_target demo_row = Some 1" "d_id demo_row = ''d1''" "d_kb demo_row = ''k1''" "d_active demo_row = None"
  by (simp_all add: claimed_def set_status_def next_version_def demo_doc_def)

text \<open>The first worker up to the point where the file is parsed.\<close>

lemma demo_split_state:
  obtains s r where "ingest_reach demo_pipeline demo_settings (s, [demo_worker\<lparr>wk_phase := Split demo_row False demo_segments\<rparr>])"
    "docs s = [r]" "holds demo_worker r" "d_status r = Chunking" "d_kb r = ''k1''" "d_active r = None"
    "d_target r = Some 1" "content_of r = (''d1'', ''old'', ''old'', None)" "same_rest demo_sys s"
    "chunks s = []"
proof -
  have reuse: "False \<longleftrightarrow> d_fingerprint demo_doc = Some fp" for fp by (simp add: demo_doc_def)
  have segs: "pl_parse demo_pipeline (d_object_key demo_doc) (d_source_url demo_doc) = demo_segments"
    by (simp add: demo_segments_def demo_doc_def)
  obtain s where s: "run_worker demo_pipeline demo_settings demo_c 4 demo_worker demo_sys =
      (s, demo_worker\<lparr>wk_phase := Split demo_row False demo_segments\<rparr>)"
      "leased_row demo_worker demo_row s" "same_rest demo_sys s" "chunks s = chunks demo_sys"
      "\<exists>r \<in> set (docs s). holds demo_worker r \<and> d_status r = Chunking"
    using run_to_split [OF demo_claimable(1) demo_worker_ready(1) demo_claimable(3) demo_worker_ready(2,3)
        demo_claimable(5) demo_parses refl reuse, where c = demo_c] unfolding segs by blast
  note reach = run_worker_reach [OF demo_reach_start s(1)]
  have "map content_of (docs s) = map content_of (docs demo_sys)" by (rule run_worker_content [OF s(1)])
  then have "map content_of (docs s) = [(''d1'', ''old'', ''old'', None)]"
    by (simp add: demo_sys_def content_of_def demo_doc_def)
  then obtain r where r: "docs s = [r]" "content_of r = (''d1'', ''old'', ''old'', None)" by auto
  have inv: "worker_inv s (demo_worker\<lparr>wk_phase := Split demo_row False demo_segments\<rparr>)"
    using world_invariant [OF reach] by (simp add: world_inv_def)
  have h: "holds demo_worker r" "d_status r = Chunking" "d_kb r = ''k1''" "d_active r = None"
    using s(2,5) r(1) by (auto simp: leased_row_def demo_row_simps)
  then have "d_target r = Some 1" using inv r(1) by (simp add: worker_inv_def demo_row_simps)
  with that [OF reach r(1) h _ r(2) s(3)] s(4) show ?thesis by (simp add: demo_sys_def)
qed

definition demo_new :: upload where
  "demo_new = \<lparr>up_filename = Some (u ''a.md''), up_content_type = None, up_blocks = [[110, 101], [119]]\<rparr>"

lemma demo_replaces:
  assumes "docs s = [r]" "d_kb r = ''k1''" "content_of r = (''d1'', ''old'', ''old'', None)" "d_status r = Chunking"
    and "d_active r = None" "same_rest demo_sys s"
  shows "\<exists>t d x. replace_document_content demo_settings (demo_ctx 2 ''b'') ''u1'' ''d1'' demo_new True True s = Inr (t, d) \<and>
    docs t = [x] \<and> d_hash x = ''new'' \<and> d_token x = d_token r \<and> d_id x = ''d1'' \<and> d_kb x = ''k1'' \<and> d_active x = None \<and>
    d_target x = Some 1 \<and> d_status x = Queued \<and> kbs t = kbs s \<and> chunks t = chunks s \<and>
    d_object_key x \<noteq> ''old'' \<and> length (outbox t) = length (outbox s) + 1"
proof -
  have s: "memberships s = [demo_member]" "kbs s = [demo_kb]" "d_id r = ''d1''" "d_hash r = ''old''" "d_object_key r = ''old''"
    using assms(3,6) by (simp_all add: same_rest_def content_of_def demo_sys_def)
  show ?thesis
    using s assms(1,2,4,5)
    by (simp add: replace_document_content_def get_document_with_permission_def get_doc_def get_kb_def member_with_def
        role_sets stage_upload_def demo_new_def path_suffix_def path_name_def split_char_def SUPPORTED_EXTENSIONS_def
        validate_magic_def image_signatures_def used_bytes_def quota_bytes_def Let_def u_def startswith_def
        char_of_def bit_iff_odd demo_defs next_version_def stamp_def set_status_def upd_doc_def upd_docs_def put_object_def
        delete_object_def object_key_for_def)
qed

lemma replaced_run:
  assumes "ingest_reach demo_pipeline demo_settings (s, [demo_worker\<lparr>wk_phase := Split demo_row False demo_segments\<rparr>])"
    and "docs s = [x]" "holds demo_worker x" "d_kb x = ''k1''" "d_active x = None" "kbs s = [demo_kb]"
  obtains t y r where "ingest_reach demo_pipeline demo_settings (t, [y])" "get_doc t ''d1'' = Some r"
    "d_status r = Ready" "d_active r = Some 1" "index_text t ''d1'' 1 = [u ''o'', u ''l'', u ''d'']"
    "map content_of (docs t) = [content_of x]"
proof -
  let ?w = "demo_worker\<lparr>wk_phase := Split demo_row False demo_segments\<rparr>"
  have inv: "worker_inv s ?w" "wf_db s" using world_invariant [OF assms(1)] by (simp_all add: world_inv_def)
  have row: "leased_row ?w demo_row s" using assms(2-5) by (simp add: leased_row_def demo_row_simps)
  have kb: "get_kb s (d_kb demo_row) \<noteq> None" by (simp add: demo_row_simps get_kb_def assms(6) demo_kb_def)
  obtain n t y r where run: "run_worker demo_pipeline demo_settings demo_c n ?w s = (t, y)" "get_doc t ''d1'' = Some r"
      "d_status r = Ready" "d_active r = Some 1" "index_text t ''d1'' 1 = [u ''o'', u ''l'', u ''d'']"
    using run_from_split [OF _ inv row kb demo_splits [folded demo_segments_def] demo_contents(3) demo_row_simps(1) demo_embed, of False demo_c]
    by (auto simp: demo_contents)
  have "map content_of (docs t) = [content_of x]" using run_worker_content [OF run(1)] assms(2) by simp
  with that [OF run_worker_reach [OF assms(1) run(1)] run(2-5)] show ?thesis by blast
qed

section \<open>Properties\<close>

text \<open>Replacing a document's content does not take the lease of a worker busy with the old content:
  a run exists in which the document ends ready, with the hash of the new file and an active index
  that holds the text of the old one, and no later ingestion message changes that.\<close>

theorem replaced_content_keeps_old_index:
  "\<exists>t ws r. ingest_reach demo_pipeline demo_settings (t, ws) \<and> get_doc t ''d1'' = Some r \<and> d_status r = Ready \<and>
     d_hash r = ''new'' \<and> d_active r = Some 1 \<and> index_text t ''d1'' 1 = [u ''o'', u ''l'', u ''d''] \<and>
     (\<forall>c n tok h. claim_phase c (new_worker ''d1'' n tok h) t = (t, Finished Skipped))"
proof -
  obtain s r0 where s: "ingest_reach demo_pipeline demo_settings (s, [demo_worker\<lparr>wk_phase := Split demo_row False demo_segments\<rparr>])"
    "docs s = [r0]" "holds demo_worker r0" "d_status r0 = Chunking" "d_kb r0 = ''k1''" "d_active r0 = None"
    "content_of r0 = (''d1'', ''old'', ''old'', None)" "same_rest demo_sys s"
    using demo_split_state by metis
  obtain s1 d x where rep: "replace_document_content demo_settings (demo_ctx 2 ''b'') ''u1'' ''d1'' demo_new True True s = Inr (s1, d)"
    and x: "docs s1 = [x]" "d_hash x = ''new''" "d_token x = d_token r0" "d_id x = ''d1''" "d_kb x = ''k1''" "d_active x = None"
      "kbs s1 = kbs s"
    using demo_replaces [OF s(2,5,7,4,6,8)] by blast
  have "ingest_step demo_pipeline demo_settings (s, [demo_worker\<lparr>wk_phase := Split demo_row False demo_segments\<rparr>])
      (s1, [demo_worker\<lparr>wk_phase := Split demo_row False demo_segments\<rparr>])"
    by (rule ingest_step.env, rule env_move.replace [OF rep])
  note reach = ingest_reach.reach_step [OF s(1) this]
  have "holds demo_worker x" using s(3) x(3,4) by (simp add: holds_def)
  moreover have "kbs s1 = [demo_kb]" using s(8) x(7) by (simp add: same_rest_def demo_sys_def)
  ultimately obtain t y r where t: "ingest_reach demo_pipeline demo_settings (t, [y])" "get_doc t ''d1'' = Some r"
    "d_status r = Ready" "d_active r = Some 1" "index_text t ''d1'' 1 = [u ''o'', u ''l'', u ''d'']"
    "map content_of (docs t) = [content_of x]"
    using replaced_run [OF reach x(1) _ x(5,6)] by metis
  obtain r' where r': "docs t = [r']" "content_of r' = content_of x" using t(6) by auto
  with t(2) have r: "r = r'" by (auto simp: get_doc_def split: if_splits)
  have "d_hash r = ''new''" using r'(2) x(2) by (simp add: r content_of_def)
  moreover have "claim_phase c (new_worker ''d1'' n tok h) t = (t, Finished Skipped)" for c n tok h
    using r'(1) t(3) by (simp add: claim_phase_def Let_def new_worker_def claimable_def r)
  ultimately show ?thesis using t(1-5) by blast
qed

lemma demo_now: "now demo_c = 1"
  by (simp add: demo_c_def demo_ctx_def)

lemma demo_prepare_state:
  obtains s r where "ingest_reach demo_pipeline demo_settings (s, [demo_worker\<lparr>wk_phase := Prepare demo_row False demo_pieces False\<rparr>])"
    "docs s = [r]" "d_id r = ''d1''" "d_status r = Embedding" "d_heartbeat r = Some 1" "d_kb r = ''k1''" "d_active r = None"
    "d_target r = Some 1" "content_of r = (''d1'', ''old'', ''old'', None)" "same_rest demo_sys s" "d_source_url r = None"
proof -
  obtain s r where s: "ingest_reach demo_pipeline demo_settings (s, [demo_worker\<lparr>wk_phase := Split demo_row False demo_segments\<rparr>])"
    "docs s = [r]" "holds demo_worker r" "d_status r = Chunking" "d_kb r = ''k1''" "d_active r = None"
    "d_target r = Some 1" "content_of r = (''d1'', ''old'', ''old'', None)" "same_rest demo_sys s" "chunks s = []"
    by (rule demo_split_state)
  let ?w = "demo_worker\<lparr>wk_phase := Split demo_row False demo_segments\<rparr>"
  have row: "leased_row ?w demo_row s" using s(2,3,5,6) by (simp add: leased_row_def demo_row_simps)
  obtain t where t: "run_worker demo_pipeline demo_settings demo_c 1 ?w s =
      (t, demo_worker\<lparr>wk_phase := Prepare demo_row False demo_pieces False\<rparr>)" "leased_row ?w demo_row t" "same_rest s t"
      "\<exists>r \<in> set (docs t). holds ?w r \<and> d_status r = Embedding \<and> d_heartbeat r = Some (now demo_c)"
    using run_to_prepare [OF _ row demo_splits [folded demo_segments_def] demo_contents(3), of False demo_c] demo_spares by auto
  note reach = run_worker_reach [OF s(1) t(1)]
  have "map content_of (docs t) = [(''d1'', ''old'', ''old'', None)]" using run_worker_content [OF t(1)] s(2,8) by simp
  then obtain x where x: "docs t = [x]" "content_of x = (''d1'', ''old'', ''old'', None)" by auto
  have inv: "worker_inv t (demo_worker\<lparr>wk_phase := Prepare demo_row False demo_pieces False\<rparr>)"
    using world_invariant [OF reach] by (simp add: world_inv_def)
  have h: "holds demo_worker x" "d_status x = Embedding" "d_heartbeat x = Some 1" "d_kb x = ''k1''" "d_active x = None"
    using t(2,4) x(1) by (auto simp: leased_row_def demo_row_simps demo_now)
  then have tgt: "d_target x = Some 1" using inv x(1) by (simp add: worker_inv_def demo_row_simps)
  have id: "d_id x = ''d1''" using x(2) by (simp add: content_of_def)
  have rest: "same_rest demo_sys t" using s(9) t(3) by (simp add: same_rest_def)
  have "d_source_url x = None" using x(2) by (simp add: content_of_def)
  with that [OF reach x(1) id h(2-5) tgt x(2) rest] show ?thesis .
qed


text \<open>The worker that reached its preparation, and the one that starts after the recovery took the lease.\<close>

abbreviation stale_worker :: worker where
  "stale_worker \<equiv> demo_worker\<lparr>wk_phase := Prepare demo_row False demo_pieces False\<rparr>"

abbreviation second_worker :: worker where
  "second_worker \<equiv> new_worker ''d1'' 0 ''tok2'' ''host2''"

abbreviation later_c :: ctx where
  "later_c \<equiv> demo_ctx 999000000 ''c''"

lemma demo_recovered_state:
  obtains s r where "ingest_reach demo_pipeline demo_settings (s, [stale_worker, second_worker])" "docs s = [r]" "d_id r = ''d1''"
    "d_status r = Retrying" "d_kb r = ''k1''" "d_target r = Some 1" "d_object_key r = ''old''" "d_source_url r = None"
    "kbs s = [demo_kb]" "objects s = [(''old'', 0)]" "fresh_token ''tok2'' (s, [])"
proof -
  obtain s r where s: "ingest_reach demo_pipeline demo_settings (s, [stale_worker])" "docs s = [r]" "d_id r = ''d1''"
    "d_status r = Embedding" "d_heartbeat r = Some 1" "d_kb r = ''k1''" "d_active r = None"
    "d_target r = Some 1" "content_of r = (''d1'', ''old'', ''old'', None)" "same_rest demo_sys s" "d_source_url r = None"
    by (rule demo_prepare_state)
  let ?s = "reconcile_stale_ingestion later_c 300 s" and ?r = "reclaim later_c r"
  have "stale later_c 300 r" using s(4,5) by (simp add: stale_def working_def seconds_def demo_ctx_def)
  then have docs: "docs ?s = [?r]" "broker ?s = broker s" "kbs ?s = kbs s" "objects ?s = objects s"
    using s(2) by (simp_all add: reconcile_stale_ingestion_def Let_def)
  have env: "ingest_step demo_pipeline demo_settings (s, [stale_worker]) (?s, [stale_worker])"
    by (rule ingest_step.env, rule env_move.reconcile)
  have row: "d_id ?r = ''d1''" "d_status ?r = Retrying" "d_token ?r = None" "d_kb ?r = ''k1''"
      "d_target ?r = Some 1" "d_object_key ?r = ''old''" "d_source_url ?r = None"
    using s(3,6-9) by (simp_all add: reclaim_def stamp_def drop_lease_def set_status_def content_of_def)
  have fresh: "fresh_token ''tok2'' (?s, [stale_worker])" using docs row
    by (simp add: fresh_token_def demo_worker_simps)
  have "IngestTask ''d1'' 0 \<in> set (broker ?s)" using s(10) docs(2) by (simp add: same_rest_def demo_sys_def)
  then have "ingest_step demo_pipeline demo_settings (?s, [stale_worker]) (?s\<lparr>broker := broker ?s\<rparr>, [stale_worker] @ [second_worker])"
    by (rule ingest_step.start) (rule fresh)
  note reach = ingest_reach.reach_step [OF ingest_reach.reach_step [OF s(1) env] this]
  have rest: "kbs ?s = [demo_kb]" "objects ?s = [(''old'', 0)]" using docs s(10) by (simp_all add: same_rest_def demo_sys_def)
  have "fresh_token ''tok2'' (?s, [])" using fresh by (simp add: fresh_token_def)
  with reach docs(1) row rest show ?thesis by (intro that [of ?s ?r]) simp_all
qed

lemma demo_second_completes:
  obtains t y r where "ingest_reach demo_pipeline demo_settings (t, [stale_worker, y])" "get_doc t ''d1'' = Some r"
    "d_status r = Ready" "d_token r = None" "d_active r = Some 1" "kbs t = [demo_kb]"
proof -
  obtain s r where s: "ingest_reach demo_pipeline demo_settings (s, [stale_worker, second_worker])" "docs s = [r]" "d_id r = ''d1''"
    "d_status r = Retrying" "d_kb r = ''k1''" "d_target r = Some 1" "d_object_key r = ''old''" "d_source_url r = None"
    "kbs s = [demo_kb]" "objects s = [(''old'', 0)]" "fresh_token ''tok2'' (s, [])"
    by (rule demo_recovered_state)
  have wf: "wf_db s" using world_invariant [OF s(1)] by (simp add: world_inv_def)
  have b: "get_doc s (wk_doc second_worker) = Some r" "d_status r \<in> set claimable" "wk_phase second_worker = Claim"
      "fresh_token (wk_token second_worker) (s, [])" "get_kb s (d_kb r) \<noteq> None" "d_object_key r \<in> fst ` set (objects s)"
    using s(2-11) by (simp_all add: get_doc_def claimable_def new_worker_def get_kb_def demo_kb_def)
  have ok: "pipeline_ok demo_pipeline demo_settings (d_object_key r) (d_source_url r)"
    using demo_claimable(6) s(7,8) by (simp add: demo_doc_def)
  have splits: "split_pieces demo_pipeline demo_settings (pl_parse demo_pipeline (d_object_key r) (d_source_url r)) = Inr demo_pieces"
    unfolding s(7,8) by (rule demo_splits)
  obtain n t t1 ws where run: "run_worker demo_pipeline demo_settings later_c n second_worker s =
       (t, second_worker\<lparr>wk_phase := Activate (claimed later_c second_worker r) ws demo_pieces False\<rparr>)"
     "activate_phase demo_pipeline demo_settings later_c second_worker (claimed later_c second_worker r) ws demo_pieces False t =
       Inr (t1, Announce (claimed later_c second_worker r) demo_pieces False)"
    using undisturbed_run [OF wf b ok splits, of later_c] by (auto simp: Let_def demo_spares)
  let ?d = "claimed later_c second_worker r" and ?x = "second_worker\<lparr>wk_phase := Activate (claimed later_c second_worker r) ws demo_pieces False\<rparr>"
  have "worker_inv s second_worker" using worker_inv_new [OF b(4,3)] .
  then have inv: "worker_inv t ?x" "wf_db t" using run_worker_inv [OF run(1) _ wf] by simp_all
  have tgt: "d_target ?d = Some 1" using s(6) by (simp add: claimed_def set_status_def)
  have act: "activate_phase demo_pipeline demo_settings later_c ?x ?d ws demo_pieces False t = Inr (t1, Announce ?d demo_pieces False)"
    and phx: "wk_phase ?x = Activate ?d ws demo_pieces False" and docx: "wk_doc ?x = ''d1''"
    using run(2) by (simp_all only: phase_irrelevant) (simp_all add: new_worker_def)
  obtain t' d' where t': "run_worker demo_pipeline demo_settings later_c 2 ?x t =
      (t', ?x\<lparr>wk_phase := Finished (Completed (length demo_pieces) 1 False)\<rparr>)"
      "get_doc t' ''d1'' = Some d'" "d_status d' = Ready" "d_token d' = None" "d_active d' = Some 1"
    using run_from_activate [OF phx inv act, unfolded tgt option.sel docx] by blast
  note whole = run_worker_then [OF run(1) t'(1)]
  let ?y = "?x\<lparr>wk_phase := Finished (Completed (length demo_pieces) 1 False)\<rparr>"
  have "ingest_reach demo_pipeline demo_settings (t', [stale_worker, ?y])"
    using run_worker_reach_at [OF s(1), of 1 later_c "n + 2" t' ?y] whole by simp
  moreover have "kbs t' = [demo_kb]" using run_worker_kbs [OF whole] s(9) by simp
  ultimately show ?thesis using t'(2-5) that by blast
qed

text \<open>A worker that lost its lease before it prepares the index still deletes the stored chunks of the
  version it was given: a run exists in which the recovery takes the lease, another worker
  completes the document, and the first worker then empties the active index of the ready
  document.\<close>

theorem stale_worker_empties_active_index:
  "\<exists>t ws r. ingest_reach demo_pipeline demo_settings (t, ws) \<and> get_doc t ''d1'' = Some r \<and> d_status r = Ready \<and>
     d_token r = None \<and> d_active r = Some 1 \<and> version_chunks ''d1'' 1 t = []"
proof -
  obtain t y r where t: "ingest_reach demo_pipeline demo_settings (t, [stale_worker, y])" "get_doc t ''d1'' = Some r"
    "d_status r = Ready" "d_token r = None" "d_active r = Some 1" "kbs t = [demo_kb]"
    by (rule demo_second_completes)
  have kb: "get_kb t ''k1'' = Some demo_kb" using t(6) by (simp add: get_kb_def demo_kb_def)
  let ?bs = "batches (nat (max 1 (ingestion_embed_batch_size demo_settings))) (filter (\<lambda>(n, p). n \<notin> set []) (enum demo_pieces))"
  let ?t = "delete_chunks (\<lambda>x. c_doc x = ''d1'' \<and> c_version x = 1 \<and> c_seq x \<notin> set []) t"
  have "prepare_phase demo_settings stale_worker demo_row False demo_pieces False t =
      Inr (?t, Batches demo_row (k_ws demo_kb) demo_pieces False ?bs)"
    by (simp only: prepare_phase_def demo_row_simps kb option.case if_False Let_def)
  then have step: "worker_step demo_pipeline demo_settings demo_c stale_worker t =
      (?t, demo_worker\<lparr>wk_phase := Batches demo_row (k_ws demo_kb) demo_pieces False ?bs\<rparr>)"
    by simp
  have "ingest_step demo_pipeline demo_settings (t, [stale_worker, y])
      (?t, [stale_worker, y][0 := demo_worker\<lparr>wk_phase := Batches demo_row (k_ws demo_kb) demo_pieces False ?bs\<rparr>])"
    by (rule ingest_step.work) (use step in simp_all)
  note final = ingest_reach.reach_step [OF t(1) this]
  have "version_chunks ''d1'' 1 ?t = []"
    by (auto simp: version_chunks_def delete_chunks_def Let_def filter_empty_conv in_delete_where)
  moreover have "get_doc ?t ''d1'' = Some r" using t(2) by (simp add: get_doc_def delete_chunks_def Let_def)
  ultimately show ?thesis using final t(3-5) by blast
qed

text \<open>A worker that no longer holds the lease changes no document row and adds no chunk, whatever it
  does next; the only chunks it can remove are those its preparation deletes.\<close>

theorem lost_lease_changes_no_row:
  assumes "worker_step pl cfg c w s = (t, x)" "\<not> holder w s" "wk_phase w \<noteq> Claim"
  shows "docs t = docs s \<and> set (chunks t) \<subseteq> set (chunks s) \<and>
    ((\<exists>d reuse pieces q. wk_phase w = Prepare d reuse pieces q) \<or> chunks t = chunks s)"
  using lost_step [OF assms] by (auto simp: in_delete_where)

theorem lost_lease_changes_no_row_witness:
  "\<exists>t x. worker_step demo_pipeline demo_settings demo_c (demo_worker\<lparr>wk_phase := Split demo_row False demo_segments\<rparr>) demo_sys = (t, x) \<and>
     docs t = [demo_doc] \<and> chunks t = []"
proof -
  let ?w = "demo_worker\<lparr>wk_phase := Split demo_row False demo_segments\<rparr>"
  obtain t x where run: "worker_step demo_pipeline demo_settings demo_c ?w demo_sys = (t, x)" by fastforce
  have "\<not> holder ?w demo_sys" by (simp add: holder_def demo_sys_def holds_def demo_doc_def)
  moreover have "wk_phase ?w \<noteq> Claim" by simp
  ultimately have "docs t = docs demo_sys \<and> set (chunks t) \<subseteq> set (chunks demo_sys)"
    using lost_lease_changes_no_row [OF run] by blast
  then have "docs t = [demo_doc] \<and> chunks t = []" by (simp add: demo_sys_def)
  with run show ?thesis by blast
qed

text \<open>The exception handler files a dead letter for the document even when the worker has lost its
  lease and the failure was not recorded in the row.\<close>

theorem lost_lease_files_dead_letter:
  assumes "\<not> holder w s" "get_doc s (wk_doc w) = Some d"
  shows "\<exists>t out l. fail_phase c w (NonRetryable m) st s = (t, out) \<and> docs t = docs s \<and> dead t = dead s @ [l] \<and>
    l_doc l = Some (wk_doc w) \<and> l_status l = LPending"
proof -
  have "docs (upd_docs (holds w) (failed_row c Failed (NonRetryable m)) s) = docs s" using assms(1) by simp
  then have "get_doc (upd_docs (holds w) (failed_row c Failed (NonRetryable m)) s) (wk_doc w) = Some d"
    using assms(2) by (simp add: get_doc_def)
  moreover have "d_id d = wk_doc w" using get_doc_Some [OF assms(2)] by simp
  ultimately show ?thesis using assms
    by (simp add: fail_phase_def Let_def record_dead_letter_def get_doc_def publish_sync_def)
qed

theorem lost_lease_files_dead_letter_witness:
  "\<exists>t out. fail_phase demo_c demo_worker (NonRetryable (u ''x'')) ''parsing'' demo_sys = (t, out) \<and>
     docs t = [demo_doc] \<and> length (dead t) = 1"
proof -
  have "\<not> holder demo_worker demo_sys" "get_doc demo_sys (wk_doc demo_worker) = Some demo_doc"
    by (simp_all add: holder_def demo_sys_def holds_def demo_doc_def get_doc_def)
  from lost_lease_files_dead_letter [OF this, of demo_c "u ''x''" "''parsing''"]
  obtain t out l where "fail_phase demo_c demo_worker (NonRetryable (u ''x'')) ''parsing'' demo_sys = (t, out)"
      "docs t = docs demo_sys" "dead t = dead demo_sys @ [l]" by blast
  then show ?thesis by (auto simp: demo_sys_def)
qed

end
