(* ===== verification/AccessClaims.thy ===== *)
theory AccessClaims
  imports Demo
begin

text \<open>
  The properties of permissions, tenancy and audit, over single requests and sequences of them.
\<close>

section \<open>Sequences of requests\<close>

fun run_requests :: "(ctx \<times> string \<times> tenancy_op) list \<Rightarrow> sys \<Rightarrow> sys" where
  "run_requests [] s = s"
| "run_requests ((c, uid, op) # rs) s = run_requests rs (run_tenancy c uid op s)"

text \<open>The identifiers a request draws are not those of existing workspaces.\<close>

fun fresh_requests :: "(ctx \<times> string \<times> tenancy_op) list \<Rightarrow> sys \<Rightarrow> bool" where
  "fresh_requests [] s \<longleftrightarrow> True"
| "fresh_requests ((c, uid, op) # rs) s \<longleftrightarrow> fresh_workspaces c s \<and> fresh_requests rs (run_tenancy c uid op s)"

lemma run_requests_owners:
  "unique_members s \<Longrightarrow> fresh_requests rs s \<Longrightarrow>
     unique_members (run_requests rs s) \<and> prefix (owner_rows s) (owner_rows (run_requests rs s))"
proof (induction rs arbitrary: s)
  case (Cons r rs)
  obtain c uid op where r: "r = (c, uid, op)" by (cases r)
  let ?t = "run_tenancy c uid op s"
  have "unique_members ?t" using Cons.prems by (simp add: r run_tenancy_unique)
  moreover have "prefix (owner_rows s) (owner_rows ?t)"
    using run_tenancy_owners [OF Cons.prems(1), of c uid op] by (auto simp: prefix_def)
  ultimately show ?case using Cons by (auto simp: r intro: prefix_order.trans)
qed simp

definition demo_invite :: "(ctx \<times> string \<times> tenancy_op) list" where
  "demo_invite = [(demo_ctx 5 ''b'', ''u1'', RemoveMember ''w1'' ''u1''),
     (demo_ctx 6 ''c'', ''u1'', UpdateMemberRole ''w1'' ''u1'' ''viewer'')]"

lemma demo_members: "unique_members demo_sys" "fresh_requests demo_invite demo_sys"
  "owner_rows demo_sys = [demo_member]"
  by (simp_all add: unique_members_def demo_invite_def fresh_workspaces_def owner_rows_def demo_defs
      committed_def remove_member_def update_member_role_def body_role_def membership_of_def
      member_with_def member_row_def get_user_def role_sets)

section \<open>Properties\<close>

text \<open>C5: no sequence of tenancy requests removes or demotes an owner: the owner rows at the start are,
  in order, a prefix of the owner rows at the end, and a user is a member of a workspace at most
  once throughout.\<close>

theorem owners_are_kept:
  assumes "unique_members s" "fresh_requests rs s"
  shows "prefix (owner_rows s) (owner_rows (run_requests rs s)) \<and> unique_members (run_requests rs s)"
  using run_requests_owners [OF assms] by blast

theorem owners_are_kept_witness:
  "demo_member \<in> set (memberships (run_requests demo_invite demo_sys))"
proof -
  have "prefix [demo_member] (owner_rows (run_requests demo_invite demo_sys))"
    using owners_are_kept [OF demo_members(1,2)] by (simp add: demo_members(3))
  then have "demo_member \<in> set (owner_rows (run_requests demo_invite demo_sys))"
    by (auto simp: prefix_def)
  then show ?thesis by (simp add: owner_rows_def)
qed

text \<open>A change of somebody's role, and a removal, is made only by an owner or administrator of that
  workspace, and on an administrator's row only by an owner.\<close>

theorem member_changes_authorised:
  assumes "update_member_role c uid ws member role s = Inr (t, r) \<or> remove_member c uid ws member s = Inr (t, y)"
    and "member_row s ws member = Some m"
  shows "\<exists>a \<in> set (memberships s). m_ws a = ws \<and> m_user a = uid \<and> m_role a \<in> {Owner, Admin} \<and>
    (m_role m = Admin \<longrightarrow> m_role a = Owner) \<and> m_role m \<noteq> Owner"
  using assms(1)
proof
  assume u: "update_member_role c uid ws member role s = Inr (t, r)"
  from update_member_role_actor [OF u] update_member_role_members [OF u] assms(2) show ?thesis by auto
next
  assume u: "remove_member c uid ws member s = Inr (t, y)"
  from remove_member_actor [OF u] remove_member_members [OF u] assms(2) show ?thesis by auto
qed

definition demo_guest :: membership where
  "demo_guest = \<lparr>m_id = ''m2'', m_ws = ''w1'', m_user = ''u2'', m_role = Admin, m_created = 1\<rparr>"

definition demo_team :: sys where
  "demo_team = demo_sys\<lparr>memberships := [demo_member, demo_guest]\<rparr>"

lemma demo_team_member: "member_row demo_team ''w1'' ''u2'' = Some demo_guest"
  by (simp add: member_row_def demo_team_def demo_guest_def demo_defs)

lemma demo_team_remove:
  "\<exists>t. remove_member (demo_ctx 5 ''b'') ''u1'' ''w1'' ''u2'' demo_team = Inr (t, ())"
  by (simp add: remove_member_def membership_of_def member_with_def member_row_def org_of_def
      get_workspace_def role_sets demo_team_def demo_guest_def demo_defs)

theorem member_changes_authorised_witness:
  "\<exists>a \<in> set (memberships demo_team). m_user a = ''u1'' \<and> m_role a = Owner"
proof -
  obtain t where "remove_member (demo_ctx 5 ''b'') ''u1'' ''w1'' ''u2'' demo_team = Inr (t, ())"
    using demo_team_remove by blast
  from member_changes_authorised [OF disjI2 [OF this] demo_team_member]
  show ?thesis by (auto simp: demo_guest_def)
qed

text \<open>C6: a request either changes nothing or appends exactly one audit row: successful, by that user, at
  that time, and, when redaction is on, without a value under a credential key at any depth.\<close>

theorem every_change_is_audited:
  "run_tenancy c uid op s = s \<or>
   (\<exists>a. audits (run_tenancy c uid op s) = audits s @ [a] \<and> a_actor a = Some uid \<and> a_created a = now c \<and>
      a_outcome a = ''success'' \<and> (pii_redaction c \<longrightarrow> row_clean (uni c) a))"
  using run_tenancy_audited [of c uid op s] by (simp add: audited_def)

text \<open>The hypothesis inside the statement, redaction being on, holds here.\<close>

theorem every_change_is_audited_witness:
  "let c = (demo_ctx 5 ''b'')\<lparr>pii_redaction := True\<rparr>; t = run_tenancy c ''u1'' (RemoveMember ''w1'' ''u2'') demo_team
   in \<exists>a. audits t = [a] \<and> row_clean demo_unicode a"
proof -
  let ?c = "(demo_ctx 5 ''b'')\<lparr>pii_redaction := True\<rparr>"
  have changed: "memberships (run_tenancy ?c ''u1'' (RemoveMember ''w1'' ''u2'') demo_team) = [demo_member]"
    by (simp add: committed_def remove_member_def membership_of_def member_with_def member_row_def org_of_def
        get_workspace_def role_sets demo_team_def demo_guest_def demo_defs)
  then have "run_tenancy ?c ''u1'' (RemoveMember ''w1'' ''u2'') demo_team \<noteq> demo_team"
    by (auto simp: demo_team_def)
  with every_change_is_audited [of ?c "''u1''" "RemoveMember ''w1'' ''u2''" demo_team]
  show ?thesis by (auto simp: Let_def demo_team_def demo_sys_def demo_ctx_def)
qed


end
