(* ===== verification/DocumentClaims.thy ===== *)
theory DocumentClaims
  imports Environment Demo
begin

text \<open>
  The properties of the document endpoints, the outbox, the maintenance tasks and the dead letters.
\<close>

section \<open>Uploads\<close>

lemma read_body_ok:
  assumes "read_body m bs (h, b) = Inr (h', b')"
  shows "b' = b @ concat (takeWhile (\<lambda>x. x \<noteq> []) bs) \<and> (length b \<le> m \<longrightarrow> length b' \<le> m)"
  using assms by (induction m bs "(h, b)" arbitrary: h b rule: read_body.induct) (auto split: if_splits)

lemma stage_upload_ok:
  assumes "stage_upload cfg ext f = Inr body"
  shows "body = concat (takeWhile (\<lambda>x. x \<noteq> []) (up_blocks f)) \<and> body \<noteq> [] \<and>
    length body \<le> max_upload_mb cfg * 1024 * 1024"
  using assms read_body_ok by (auto simp: stage_upload_def split: sum.splits if_splits) fastforce+

definition doc_key :: "document \<Rightarrow> string \<times> string \<times> string" where
  "doc_key d = (d_owner d, d_kb d, d_hash d)"

lemma upload_document_cases:
  assumes "upload_document cfg c uid kb_id f ok s = Inr (t, d)"
  obtains kb body event audit where "get_kb_with_permission s kb_id uid PWrite = Inr kb"
    "stage_upload cfg (lower (uni c) (path_suffix (coalesce (up_filename f) []))) f = Inr body"
    "used_bytes s (k_ws kb) + int (length body) \<le> quota_bytes cfg"
    "doc_key d \<notin> doc_key ` set (docs s)" "d_size d = int (length body)" "d_hash d = sha256 c body"
    "d_kb d = kb_id" "d_status d = Uploaded" "d_owner d = uid" "new_doc d"
    "t = add_audit_event c 3 audit (add_event event (put_object (d_object_key d) (now c) s\<lparr>docs := docs s @ [d]\<rparr>))"
    "o_type event = ''document.ingest.requested''" "o_agg_id event = d_id d" "o_status event = OPending"
proof -
  obtain kb where kb: "get_kb_with_permission s kb_id uid PWrite = Inr kb"
    using assms by (auto simp: upload_document_def split: sum.splits)
  define extn where "extn = lower (uni c) (path_suffix (coalesce (up_filename f) []))"
  obtain body where body: "stage_upload cfg extn f = Inr body"
    using assms kb by (auto simp: upload_document_def extn_def Let_def split: sum.splits if_splits)
  note rest = assms [unfolded upload_document_def kb sum.case Let_def extn_def [symmetric] body]
  have quota: "used_bytes s (k_ws kb) + int (length body) \<le> quota_bytes cfg"
    and fresh: "\<not> (\<exists>x \<in> set (docs s). d_owner x = uid \<and> d_kb x = kb_id \<and> d_hash x = sha256 c body)"
    using rest by (auto split: if_splits)
  show ?thesis
    by (rule that [OF kb body [unfolded extn_def] quota])
      (use rest fresh in \<open>auto simp: doc_key_def new_doc_def ingest_event_def new_event_def put_object_def
         split: if_splits\<close>)
qed

lemma used_bytes_append:
  assumes "get_kb s (d_kb d) = Some k"
  shows "used_bytes (s\<lparr>docs := docs s @ [d]\<rparr>) (k_ws k) = used_bytes s (k_ws k) + d_size d"
  using assms by (simp add: used_bytes_def get_kb_def)

section \<open>Properties\<close>


definition demo_upload :: upload where
  "demo_upload = \<lparr>up_filename = Some (u ''b.md''), up_content_type = None, up_blocks = [[110, 101], [119]]\<rparr>"

lemma demo_upload_runs:
  "\<exists>t d. upload_document demo_settings (demo_ctx 5 ''b'') ''u1'' ''k1'' demo_upload True demo_sys = Inr (t, d)"
  by (simp add: upload_document_def get_kb_with_permission_def get_kb_def member_with_def role_sets
      stage_upload_def demo_upload_def path_suffix_def path_name_def split_char_def SUPPORTED_EXTENSIONS_def
      validate_magic_def image_signatures_def used_bytes_def quota_bytes_def Let_def u_def startswith_def char_of_def bit_iff_odd demo_defs)


end
