(* ===== verification/RecoveryClaims.thy ===== *)
theory RecoveryClaims
  imports Environment Demo
begin

text \<open>
  The properties of deletion, the outbox, the maintenance tasks and the dead letters.
\<close>

section \<open>Strings in payloads\<close>

lemma map_char_of_u [simp]: "map char_of (u x) = x"
  by (induction x) (simp_all add: u_def)

lemma jstring_jid [simp]: "jstring (Some (jid x)) = Some x"
  by (simp add: jstring_def jid_def)

lemma jkeys_jids [simp]: "jkeys (Some (JList (map jid xs))) = xs"
  by (induction xs) (simp_all add: jkeys_def List.map_filter_simps)

section \<open>Accounted events\<close>

text \<open>The message an event stands for.\<close>

definition message_of :: "outbox_event \<Rightarrow> task" where
  "message_of e = (if o_type e = ''document.ingest.requested'' then IngestTask (o_agg_id e) 0
     else DeleteTask (o_payload e) 0)"

definition accounted :: "sys \<Rightarrow> outbox_event \<Rightarrow> bool" where
  "accounted s e \<longleftrightarrow> o_status e \<in> {OPending, OPublishing} \<or>
     (o_status e = OSent \<and> message_of e \<in> set (broker s)) \<or>
     (o_status e = OFailed \<and> (\<exists>l \<in> set (dead s). l_source l = ''outbox'' \<and> l_status l = LPending \<and>
        l_payload l = json_update (o_payload e) ''outbox_event_id'' (jid (o_id e))))"

definition outbox_ok :: "sys \<Rightarrow> bool" where
  "outbox_ok s \<longleftrightarrow> distinct (map o_id (outbox s)) \<and> (\<forall>e \<in> set (outbox s). accounted s e)"

lemma accounted_mono:
  "accounted s e \<Longrightarrow> set (broker s) \<subseteq> set (broker t) \<Longrightarrow> set (dead s) \<subseteq> set (dead t) \<Longrightarrow> accounted t e"
  by (auto simp: accounted_def)

lemma outbox_ok_update:
  assumes "outbox_ok s" "outbox t = update_where P f (outbox s)"
    and "set (broker s) \<subseteq> set (broker t)" "set (dead s) \<subseteq> set (dead t)"
    and "\<And>e. e \<in> set (outbox s) \<Longrightarrow> P e \<Longrightarrow> o_id (f e) = o_id e \<and> accounted t (f e)"
  shows "outbox_ok t"
proof -
  have "map o_id (update_where P f xs) = map o_id xs" if "set xs \<subseteq> set (outbox s)" for xs
    using that assms(5) by (induction xs) auto
  then have "distinct (map o_id (outbox t))" using assms(1,2) by (simp add: outbox_ok_def)
  moreover have "accounted t e'" if e': "e' \<in> set (outbox t)" for e'
  proof -
    obtain e where "e \<in> set (outbox s)" "e' = (if P e then f e else e)"
      using e' unfolding assms(2) in_update_where by blast
    then show ?thesis using assms(1,3-5) accounted_mono by (auto simp: outbox_ok_def split: if_splits)
  qed
  ultimately show ?thesis by (simp add: outbox_ok_def)
qed

lemma publish_event_frame:
  "publish_event c send e s = Inr t \<Longrightarrow> outbox t = outbox s \<and> dead t = dead s \<and>
     broker t = broker s @ [message_of e]"
  by (auto simp: publish_event_def message_of_def split: if_splits option.splits)

lemma outbox_ok_set:
  assumes "outbox_ok s" "e \<in> set (outbox s)" "o_id e = i"
    and "outbox t = update_where (\<lambda>e. o_id e = i) f (outbox s)"
    and "set (broker s) \<subseteq> set (broker t)" "set (dead s) \<subseteq> set (dead t)"
    and "o_id (f e) = i" "accounted t (f e)"
  shows "outbox_ok t"
proof (rule outbox_ok_update [OF assms(1,4-6)])
  fix x assume x: "x \<in> set (outbox s)" "o_id x = i"
  have "inj_on o_id (set (outbox s))" using assms(1) by (simp add: outbox_ok_def distinct_map)
  with x assms(2,3) have "x = e" by (auto dest: inj_onD)
  with x assms(7,8) show "o_id (f x) = o_id x \<and> accounted t (f x)" by simp
qed

lemma lease_events_ok: "outbox_ok s \<Longrightarrow> outbox_ok (fst (lease_events cfg c s))"
  by (rule outbox_ok_update [where s = s and f = "\<lambda>e. e\<lparr>o_status := OPublishing, o_last_attempt := Some (now c),
        o_next := now c + seconds 60\<rparr>"])
    (auto simp: lease_events_def Let_def accounted_def)

lemma dispatch_sent:
  assumes "outbox_ok s" "get_event s i = Some e" "publish_event c send e s = Inr t"
  shows "outbox_ok (set_event i (\<lambda>x. x\<lparr>o_status := OSent, o_sent := Some (now c), o_last_error := None\<rparr>) t)"
proof (rule outbox_ok_set [OF assms(1)])
  show "e \<in> set (outbox s)" "o_id e = i" using get_event_Some [OF assms(2)] by simp_all
  then show "o_id (e\<lparr>o_status := OSent, o_sent := Some (now c), o_last_error := None\<rparr>) = i" by simp
qed (use publish_event_frame [OF assms(3)] in \<open>auto simp: accounted_def message_of_def\<close>)

lemma dispatch_failed:
  assumes "outbox_ok s" "get_event s i = Some e" "o_status e = OPublishing" "publish_event c send e s = Inl err"
  shows "outbox_ok (dispatch_event cfg c send l i s)"
proof -
  let ?n = "o_retry e + 1"
  let ?st = "if outbox_max_retries cfg \<le> ?n then OFailed else OPending"
  let ?f = "\<lambda>x. x\<lparr>o_retry := ?n, o_last_error := Some (take 2000 err), o_status := ?st,
        o_next := now c + seconds (int (backoff cfg ?n))\<rparr>"
  let ?t = "dispatch_event cfg c send l i s"
  have id: "e \<in> set (outbox s)" "o_id e = i" using get_event_Some [OF assms(2)] by simp_all
  have out: "outbox ?t = update_where (\<lambda>e. o_id e = i) ?f (outbox s)" "broker ?t = broker s"
    using assms(2-4) by (simp_all add: dispatch_event_def Let_def)
  have dead: "set (dead s) \<subseteq> set (dead ?t)"
    using assms(2-4) by (simp add: dispatch_event_def Let_def record_dead_letter_def subset_insertI)
  have letter: "\<exists>x \<in> set (dead ?t). l_source x = ''outbox'' \<and> l_status x = LPending \<and>
      l_payload x = json_update (o_payload e) ''outbox_event_id'' (jid i)" if "outbox_max_retries cfg \<le> ?n"
    using assms(2-4) that by (simp add: dispatch_event_def Let_def record_dead_letter_def)
  have "accounted ?t (?f e)"
    using letter id(2) by (cases "outbox_max_retries cfg \<le> ?n") (simp_all add: accounted_def)
  then show ?thesis
    by (intro outbox_ok_set [OF assms(1) id out(1)]) (use out(2) dead id(2) in simp_all)
qed

lemma dispatch_event_ok:
  assumes "outbox_ok s"
  shows "outbox_ok (dispatch_event cfg c send l i s)"
proof (cases "get_event s i")
  case (Some e)
  show ?thesis
  proof (cases "o_status e = OPublishing")
    case True
    show ?thesis
    proof (cases "publish_event c send e s")
      case (Inr t)
      with dispatch_sent [OF assms Some Inr] Some True show ?thesis by (simp add: dispatch_event_def)
    qed (rule dispatch_failed [OF assms Some True])
  qed (use assms Some in \<open>simp add: dispatch_event_def\<close>)
qed (use assms in \<open>simp add: dispatch_event_def\<close>)

lemma dispatch_all_ok: "outbox_ok s \<Longrightarrow> outbox_ok (dispatch_all cfg c send n es s)"
  by (induction es arbitrary: n s) (simp_all add: dispatch_event_ok)

lemma get_doc_update:
  assumes "get_doc s i = Some d" "docs t = update_where (\<lambda>x. d_id x = i) f (docs s)" "d_id (f d) = i"
  shows "get_doc t i = Some (f d)"
proof -
  have "find_row (\<lambda>d. d_id d = i) (update_where (\<lambda>x. d_id x = i) f xs) = Some (f d)"
    if "find_row (\<lambda>d. d_id d = i) xs = Some d" for xs
    using that assms(3) by (induction xs) (auto split: if_splits)
  then show ?thesis using assms(1,2) by (simp add: get_doc_def)
qed

section \<open>Properties\<close>


definition demo_event :: outbox_event where
  "demo_event = (new_event ''e1'' ''document.ingest.requested'' ''document'' ''d1'' (JObj []) ''k'' 0)\<lparr>o_retry := 1\<rparr>"

definition demo_outbox :: sys where
  "demo_outbox = demo_sys\<lparr>outbox := [demo_event], broker := []\<rparr>"


definition deletion_event :: "ctx \<Rightarrow> document \<Rightarrow> string \<Rightarrow> sys \<Rightarrow> outbox_event" where
  "deletion_event c d uid s = delete_event c (fresh c 1) ''document'' (d_id d)
     (JObj [(''document_id'', jid (d_id d)), (''kb_id'', jid (d_kb d)),
            (''workspace_id'', jopt (map_option k_ws (get_kb s (d_kb d)))),
            (''object_keys'', JList [jid (d_object_key d)]), (''requested_by'', jid uid)])
     (''resource.delete.document:'' @ d_id d @ '':'' @ fresh c 1)"

lemma jkeys_one: "jkeys (Some (JList [jid x])) = [x]"
  using jkeys_jids [of "[x]"] by simp

lemma delete_resources_tombstone:
  assumes "\<And>x. x \<in> set (docs t) \<Longrightarrow> d_id x = i \<Longrightarrow> d_status x = Deleting" "\<exists>x \<in> set (docs t). d_id x = i"
    and "jget p ''document_id'' = Some (jid i)" "jkeys (jget p ''object_keys'') = [key]" "key \<noteq> []"
  shows "get_doc (delete_resources cfg c p n None t) i = None \<and>
    (\<forall>x \<in> set (chunks (delete_resources cfg c p n None t)). c_doc x \<noteq> i) \<and>
    key \<notin> fst ` set (objects (delete_resources cfg c p n None t))"
proof -
  define t1 where "t1 = delete_object key t"
  let ?r = "delete_resources cfg c p n None t"
  have "get_doc t1 i \<noteq> None" using assms(2) by (auto simp: t1_def get_doc_def find_row_None)
  then obtain d where d: "get_doc t1 i = Some d" by auto
  then have "d \<in> set (docs t)" "d_id d = i" using get_doc_Some [OF d] by (simp_all add: t1_def)
  moreover from this have "d_status d = Deleting" by (rule assms(1))
  ultimately have r: "docs ?r = docs (cascade_documents (\<lambda>x. d_id x = i) t1)"
      "chunks ?r = chunks (cascade_documents (\<lambda>x. d_id x = i) t1)"
      "objects ?r = objects (cascade_documents (\<lambda>x. d_id x = i) t1)"
      "i \<in> set (map d_id (filter (\<lambda>x. d_id x = i) (docs t1)))"
    using assms(3-5) d by (auto simp: delete_resources_def t1_def Let_def split: option.splits)
  have "get_doc ?r i = None"
    unfolding get_doc_def find_row_None r(1) by (auto simp: cascade_documents_def Let_def in_delete_where)
  moreover have "c_doc x \<noteq> i" if "x \<in> set (chunks ?r)" for x
    using that r(4) unfolding r(2) by (auto simp: cascade_documents_def Let_def in_delete_where)
  moreover have "key \<notin> fst ` set (objects ?r)"
    unfolding r(3) by (auto simp: cascade_documents_def Let_def t1_def delete_object_def)
  ultimately show ?thesis by blast
qed

text \<open>C9: deleting a document and running the cleanup its outbox event asks for removes the row, its
  chunks and its object, whatever the token of a worker still busy with it; until then the row is
  a tombstone without a lease.\<close>

theorem deletion_completes:
  assumes "delete_document c uid i s = Inr (t, y)" "get_doc s i = Some d" "d_object_key d \<noteq> []"
  shows "\<exists>e. outbox t = outbox s @ [e] \<and> o_status e = OPending \<and>
    (\<forall>x \<in> set (docs t). d_id x = i \<longrightarrow> d_status x = Deleting \<and> d_token x = None) \<and>
    (let r = delete_resources cfg c' (o_payload e) n None t in
       get_doc r i = None \<and> (\<forall>x \<in> set (chunks r). c_doc x \<noteq> i) \<and> d_object_key d \<notin> fst ` set (objects r))"
proof -
  have id: "d_id d = i" using get_doc_Some [OF assms(2)] by simp
  obtain audit where t: "t = delete_document_resources c 1 d uid (add_audit_event c 0 audit s)"
    using assms(1,2) by (auto simp: delete_document_def get_document_with_permission_def Let_def split: option.splits sum.splits)
  define e where "e = deletion_event c d uid s"
  have out: "outbox t = outbox s @ [e]" and e: "o_status e = OPending"
      "jget (o_payload e) ''document_id'' = Some (jid i)" "jkeys (jget (o_payload e) ''object_keys'') = [d_object_key d]"
    by (simp_all add: t e_def delete_document_resources_def deletion_event_def Let_def delete_event_def new_event_def
        id jkeys_one get_kb_def)
  have docs: "docs t = update_where (\<lambda>d. d_id d = i) (tombstone c) (docs s)"
    by (simp add: t delete_document_resources_def Let_def id)
  have tomb: "\<forall>x \<in> set (docs t). d_id x = i \<longrightarrow> d_status x = Deleting \<and> d_token x = None"
    unfolding docs by (rule update_where_all) (simp_all add: tombstone_def)
  have "map d_id (docs t) = map d_id (docs s)"
    unfolding docs by (rule map_update_where) (simp add: tombstone_def)
  then have "i \<in> set (map d_id (docs t))" using get_doc_Some [OF assms(2)] by auto
  then have "\<exists>x \<in> set (docs t). d_id x = i" by auto
  with delete_resources_tombstone [OF tomb [rule_format, THEN conjunct1] _ e(2,3) assms(3)]
  show ?thesis using out e(1) tomb by (intro exI [of _ e]) (simp add: Let_def)
qed


lemma demo_delete_runs: "\<exists>t y. delete_document (demo_ctx 5 ''b'') ''u1'' ''d1'' demo_sys = Inr (t, y)"
  by (simp add: delete_document_def get_document_with_permission_def get_doc_def get_kb_def member_with_def
      role_sets Let_def demo_defs)

theorem deletion_completes_witness:
  "\<exists>t y e. delete_document (demo_ctx 5 ''b'') ''u1'' ''d1'' demo_sys = Inr (t, y) \<and> outbox t = [e] \<and>
     get_doc (delete_resources demo_settings (demo_ctx 6 ''c'') (o_payload e) 0 None t) ''d1'' = None"
proof -
  obtain t y where run: "delete_document (demo_ctx 5 ''b'') ''u1'' ''d1'' demo_sys = Inr (t, y)"
    using demo_delete_runs by blast
  have "get_doc demo_sys ''d1'' = Some demo_doc" "d_object_key demo_doc \<noteq> []"
    by (simp_all add: get_doc_def demo_defs)
  from deletion_completes [OF run this, of demo_settings "demo_ctx 6 ''c''" 0]
  obtain e where "outbox t = outbox demo_sys @ [e]"
      "get_doc (delete_resources demo_settings (demo_ctx 6 ''c'') (o_payload e) 0 None t) ''d1'' = None"
    by (auto simp: Let_def)
  then show ?thesis using run by (auto simp: demo_sys_def)
qed

text \<open>Replaying an ingestion dead letter does not look at the document: when the document is a
  tombstone, the replay queues it again, and the deletion task still waiting in the broker then
  removes its file but not its row, so a queued document without a file is left.\<close>

theorem replay_undoes_deletion:
  assumes "replay_dead_letter c uid lid stage s = Inr (t, y)" "get_letter s lid = Some l"
    and "l_source l = ''ingest''" "l_doc l = Some i" "i \<noteq> []" "get_doc s i = Some d" "d_status d = Deleting"
    and "jget p ''document_id'' = Some (jid i)" "jkeys (jget p ''object_keys'') = [d_object_key d]"
    and "d_object_key d \<noteq> []"
  shows "\<exists>r. get_doc (delete_resources cfg c' p n None t) i = Some r \<and> d_status r = Queued \<and>
    d_object_key r = d_object_key d \<and> d_object_key r \<notin> fst ` set (objects (delete_resources cfg c' p n None t))"
proof -
  have "docs t = update_where (\<lambda>x. d_id x = d_id d) (requeue c) (docs s)"
    using assms(1-7) by (auto simp: replay_dead_letter_def Let_def split: option.splits sum.splits if_splits)
  then have "get_doc t i = Some (requeue c d)"
    using get_doc_update [OF assms(6), where f = "requeue c" and t = t] get_doc_Some [OF assms(6)]
    by (simp add: requeue_def)
  then have "get_doc (delete_object (d_object_key d) t) i = Some (requeue c d)" by (simp add: get_doc_def)
  moreover have st: "d_status (requeue c d) = Queued" "d_object_key (requeue c d) = d_object_key d"
    by (simp_all add: requeue_def stamp_def ensure_target_def drop_lease_def set_status_def)
  ultimately have "docs (delete_resources cfg c' p n None t) = docs t"
      "objects (delete_resources cfg c' p n None t) = objects (delete_object (d_object_key d) t)"
    using assms(8-10) by (auto simp: delete_resources_def Let_def split: option.splits)
  then show ?thesis
    using \<open>get_doc t i = Some (requeue c d)\<close> st by (auto simp: get_doc_def delete_object_def)
qed

definition demo_letter :: dead_letter where
  "demo_letter = \<lparr>l_id = ''l1'', l_source = ''ingest'', l_task = ''ingest_document'', l_doc = Some ''d1'',
     l_kb = Some ''k1'', l_ws = Some ''w1'', l_payload = JObj [], l_error = None, l_stage = Some ''parsing'',
     l_retry = 3, l_status = LPending, l_created = 0, l_resolved = None, l_resolved_by = None\<rparr>"

definition demo_tombstone :: sys where
  "demo_tombstone = demo_sys\<lparr>docs := [demo_doc\<lparr>d_status := Deleting\<rparr>], dead := [demo_letter]\<rparr>"

theorem replay_undoes_deletion_witness:
  "\<exists>t y r. replay_dead_letter (demo_ctx 5 ''b'') ''u1'' ''l1'' None demo_tombstone = Inr (t, y) \<and>
     get_doc (delete_resources demo_settings (demo_ctx 6 ''c'')
       (JObj [(''document_id'', jid ''d1''), (''object_keys'', JList [jid ''old''])]) 0 None t) ''d1'' = Some r \<and>
     d_status r = Queued"
proof -
  have "\<exists>t y. replay_dead_letter (demo_ctx 5 ''b'') ''u1'' ''l1'' None demo_tombstone = Inr (t, y)"
    by (simp add: replay_dead_letter_def get_letter_def get_doc_def require_workspace_admin_def member_with_def
        role_sets Let_def demo_tombstone_def demo_letter_def or_str_def str_or_def RESUMABLE_STAGES_def demo_defs)
  then obtain t y where run: "replay_dead_letter (demo_ctx 5 ''b'') ''u1'' ''l1'' None demo_tombstone = Inr (t, y)"
    by blast
  have "get_letter demo_tombstone ''l1'' = Some demo_letter" "l_source demo_letter = ''ingest''"
      "l_doc demo_letter = Some ''d1''" "''d1'' \<noteq> ([]::string)"
      "get_doc demo_tombstone ''d1'' = Some (demo_doc\<lparr>d_status := Deleting\<rparr>)"
      "d_status (demo_doc\<lparr>d_status := Deleting\<rparr>) = Deleting"
    by (simp_all add: get_letter_def get_doc_def demo_tombstone_def demo_letter_def demo_defs)
  from replay_undoes_deletion [OF run this, of "JObj [(''document_id'', jid ''d1''), (''object_keys'', JList [jid ''old''])]"]
  show ?thesis using run by (fastforce simp: jkeys_one demo_doc_def)
qed


section \<open>Maintenance\<close>

lemma fold_delete_objects:
  "objects (fold (\<lambda>(k, _). delete_object k) xs s) = filter (\<lambda>(k, _). k \<notin> fst ` set xs) (objects s) \<and>
   docs (fold (\<lambda>(k, _). delete_object k) xs s) = docs s"
proof (induction xs arbitrary: s)
  case (Cons x xs)
  then show ?case by (auto simp: delete_object_def split_beta intro!: filter_cong)
qed simp

lemma key_in_image: "(\<And>t'. (k, t') \<in> A \<Longrightarrow> t' = t) \<Longrightarrow> k \<in> fst ` A \<longleftrightarrow> (k, t) \<in> A"
  by (auto simp: image_iff) force

text \<open>The orphan sweep removes an object exactly when no document refers to it and its grace period
  is over; a dry run only counts; the documents are never changed.\<close>

theorem orphan_sweep_exact:
  assumes "distinct (map fst (objects s))"
  shows "objects (fst (reconcile_orphan_objects cfg c dry s)) =
     (if dry then objects s else filter (\<lambda>(k, t). k \<in> d_object_key ` set (docs s) \<or>
        now c - seconds (orphan_object_grace_seconds cfg) \<le> t) (objects s)) \<and>
    docs (fst (reconcile_orphan_objects cfg c dry s)) = docs s"
proof -
  have "k \<notin> fst ` set (orphans cfg c s) \<longleftrightarrow> k \<in> d_object_key ` set (docs s) \<or>
      now c - seconds (orphan_object_grace_seconds cfg) \<le> t" if kt: "(k, t) \<in> set (objects s)" for k t
  proof -
    have "t' = t" if "(k, t') \<in> set (orphans cfg c s)" for t'
      using that kt assms by (simp add: orphans_def) (metis eq_key_imp_eq_value)
    then have "k \<in> fst ` set (orphans cfg c s) \<longleftrightarrow> (k, t) \<in> set (orphans cfg c s)"
      by (rule key_in_image)
    then show ?thesis using kt by (auto simp: orphans_def)
  qed
  then have "filter (\<lambda>(k, _). k \<notin> fst ` set (orphans cfg c s)) (objects s) = filter (\<lambda>(k, t). k \<in> d_object_key ` set (docs s) \<or>
        now c - seconds (orphan_object_grace_seconds cfg) \<le> t) (objects s)"
    by (intro filter_cong) auto
  then show ?thesis using fold_delete_objects [of "orphans cfg c s" s]
    by (simp add: reconcile_orphan_objects_def Let_def)
qed

definition demo_objects :: sys where
  "demo_objects = demo_sys\<lparr>objects := [(''old'', 0), (''lost'', 0), (''new'', 99000000)]\<rparr>"

theorem orphan_sweep_exact_witness:
  "objects (fst (reconcile_orphan_objects demo_settings (demo_ctx 100000000 ''b'') False demo_objects)) =
     [(''old'', 0), (''new'', 99000000)]"
proof -
  have "distinct (map fst (objects demo_objects))" by (simp add: demo_objects_def)
  from orphan_sweep_exact [OF this, of demo_settings "demo_ctx 100000000 ''b''" False]
  show ?thesis by (simp add: demo_objects_def seconds_def demo_defs)
qed

text \<open>The audit purge removes expired rows only, and when archiving is on it removes nothing unless
  the archive holding exactly the removed rows was stored first.\<close>

theorem purge_archives_first:
  assumes "purge_expired_audit_logs cfg c key stored s = (t, archived)"
  shows "(audits t = audits s \<or> audits t = filter (\<lambda>a. \<not> expired cfg c a) (audits s)) \<and>
    (audits t \<noteq> audits s \<and> audit_archive_before_purge cfg \<longrightarrow>
       mset archived = mset (filter (expired cfg c) (audits s)) \<and> (key, now c) \<in> set (objects t))"
proof -
  have "mset (chain_order rows) = mset rows" for rows
    by (simp add: chain_order_def union_commute flip: multiset_partition)
  then show ?thesis
    using assms by (auto simp: purge_expired_audit_logs_def Let_def put_object_def delete_where_def split: if_splits)
qed

definition demo_audit :: "string \<Rightarrow> int \<Rightarrow> audit_log" where
  "demo_audit i t = \<lparr>a_id = i, a_org = None, a_ws = Some ''w1'', a_actor = Some ''u1'', a_action = ''document.upload'',
     a_resource_type = ''document'', a_resource_id = None, a_outcome = ''success'', a_ip = None, a_request_id = None,
     a_trace_id = None, a_before = None, a_after = None, a_created = t, a_chain_seq = None, a_prev_hash = None,
     a_entry_hash = None\<rparr>"

definition demo_audits :: sys where
  "demo_audits = demo_sys\<lparr>audits := [demo_audit ''a1'' 0, demo_audit ''a2'' 99000000000]\<rparr>"

theorem purge_archives_first_witness:
  "\<exists>t archived. purge_expired_audit_logs demo_settings (demo_ctx 100000000000 ''b'') ''arch'' True demo_audits = (t, archived) \<and>
     map a_id (audits t) = [''a2''] \<and> mset archived = {#demo_audit ''a1'' 0#}"
proof -
  let ?c = "demo_ctx 100000000000 ''b''"
  obtain t archived where run: "purge_expired_audit_logs demo_settings ?c ''arch'' True demo_audits = (t, archived)"
    by fastforce
  have t: "map a_id (audits t) = [''a2'']"
    using run by (auto simp: purge_expired_audit_logs_def Let_def chain_order_def expired_def seconds_def
        put_object_def demo_audits_def demo_audit_def demo_defs)
  have old: "audits demo_audits = [demo_audit ''a1'' 0, demo_audit ''a2'' 99000000000]" by (simp add: demo_audits_def)
  have "audits t \<noteq> audits demo_audits"
  proof
    assume "audits t = audits demo_audits"
    with t show False by (simp add: old demo_audit_def)
  qed
  moreover have "audit_archive_before_purge demo_settings" by (simp add: demo_settings_def)
  moreover have "filter (expired demo_settings ?c) (audits demo_audits) = [demo_audit ''a1'' 0]"
    by (simp add: old expired_def seconds_def demo_audit_def demo_ctx_def demo_settings_def)
  ultimately have m: "mset archived = {#demo_audit ''a1'' 0#}"
    using purge_archives_first [OF run] by auto
  show ?thesis by (intro exI conjI) (rule run t m)+
qed

text \<open>Stale lease recovery takes the lease of exactly the documents whose worker's heartbeat is too old,
  leaves every other row alone, and in the same transaction writes one pending ingestion event for each.\<close>

theorem stale_recovery_exact:
  "docs (reconcile_stale_ingestion c secs s) = map (\<lambda>d. if stale c secs d then reclaim c d else d) (docs s) \<and>
   (\<forall>d \<in> set (docs s). stale c secs d \<longrightarrow> d_status (reclaim c d) = Retrying \<and> d_token (reclaim c d) = None \<and>
      d_active (reclaim c d) = d_active d \<and> \<not> stale c secs (reclaim c d)) \<and>
   (\<exists>es. outbox (reconcile_stale_ingestion c secs s) = outbox s @ es \<and>
      map o_agg_id es = map d_id (filter (stale c secs) (docs s)) \<and>
      (\<forall>e \<in> set es. o_status e = OPending \<and> o_next e = now c))"
proof (intro conjI)
  show "docs (reconcile_stale_ingestion c secs s) = map (\<lambda>d. if stale c secs d then reclaim c d else d) (docs s)"
    by (simp add: reconcile_stale_ingestion_def Let_def update_where_def)
  show "\<forall>d \<in> set (docs s). stale c secs d \<longrightarrow> d_status (reclaim c d) = Retrying \<and> d_token (reclaim c d) = None \<and>
      d_active (reclaim c d) = d_active d \<and> \<not> stale c secs (reclaim c d)"
    by (auto simp: reclaim_def stale_def working_def stamp_def drop_lease_def set_status_def)
  let ?es = "map (\<lambda>(n, i). ingest_event c (fresh c n) i (JObj [(''reason'', jid ''stale-worker-recovery'')])
      (''document.ingest.recovery:'' @ i @ '':'' @ show_time c (now c)))
      (enum (map d_id (filter (stale c secs) (docs s))))"
  have "map o_agg_id (map (\<lambda>(n, i). ingest_event c (fresh c n) i j (k i)) (enum xs)) = xs" for j k xs
    by (rule nth_equalityI) (simp_all add: ingest_event_def new_event_def enum_def)
  then have "map o_agg_id ?es = map d_id (filter (stale c secs) (docs s))" .
  moreover have "\<forall>e \<in> set ?es. o_status e = OPending \<and> o_next e = now c"
    by (auto simp: ingest_event_def new_event_def)
  moreover have "outbox (reconcile_stale_ingestion c secs s) = outbox s @ ?es"
    by (simp add: reconcile_stale_ingestion_def Let_def)
  ultimately show "\<exists>es. outbox (reconcile_stale_ingestion c secs s) = outbox s @ es \<and>
      map o_agg_id es = map d_id (filter (stale c secs) (docs s)) \<and>
      (\<forall>e \<in> set es. o_status e = OPending \<and> o_next e = now c)" by blast
qed

theorem stale_recovery_exact_witness:
  "map d_status (docs (reconcile_stale_ingestion (demo_ctx 99000000 ''b'') 60
     (demo_sys\<lparr>docs := [demo_doc\<lparr>d_status := Parsing, d_heartbeat := Some 0\<rparr>, demo_doc]\<rparr>))) = [Retrying, Queued]"
  using stale_recovery_exact [of "demo_ctx 99000000 ''b''" 60
     "demo_sys\<lparr>docs := [demo_doc\<lparr>d_status := Parsing, d_heartbeat := Some 0\<rparr>, demo_doc]\<rparr>"]
  by (simp add: stale_def working_def seconds_def demo_defs)

section \<open>Automatic retry\<close>

text \<open>What the automatic retry may do to a row.\<close>

definition retried :: "document \<Rightarrow> document \<Rightarrow> bool" where
  "retried d d' \<longleftrightarrow> d' = d \<or> (d_id d' = d_id d \<and> d_status d \<in> {Failed, Retrying} \<and> d_status d' = Queued \<and>
     d_token d' = None \<and> d_active d' = d_active d)"

lemma retry_letter_docs:
  assumes "distinct (map d_id (docs s))"
  shows "list_all2 retried (docs s) (docs (retry_letter c n l s)) \<and> distinct (map d_id (docs (retry_letter c n l s)))"
proof (cases "docs (retry_letter c n l s) = docs s")
  case True
  then show ?thesis using assms by (simp add: list_all2_same retried_def)
next
  case False
  then obtain d where d: "get_doc s (the (l_doc l)) = Some d" "d_status d \<in> {Failed, Retrying}"
      "docs (retry_letter c n l s) = update_where (\<lambda>x. d_id x = d_id d) (requeue c) (docs s)"
    by (auto simp: retry_letter_def Let_def split: option.splits if_splits)
  have ids: "map d_id (update_where (\<lambda>x. d_id x = d_id d) (requeue c) (docs s)) = map d_id (docs s)"
    by (rule map_update_where) (simp add: requeue_def)
  have "retried x (if d_id x = d_id d then requeue c x else x)" if x: "x \<in> set (docs s)" for x
  proof (cases "d_id x = d_id d")
    case True
    then have "x = d" using x get_doc_Some [OF d(1)] assms by (auto simp: distinct_map inj_on_def)
    then show ?thesis using d(2)
      by (simp add: retried_def requeue_def stamp_def ensure_target_def drop_lease_def set_status_def)
  qed (simp add: retried_def)
  then have "list_all2 retried (docs s) (update_where (\<lambda>x. d_id x = d_id d) (requeue c) (docs s))"
    by (simp add: update_where_def list_all2_map2 list_all2_same)
  then show ?thesis using d(3) ids assms by simp
qed

lemma retried_trans: "retried a b \<Longrightarrow> retried b c \<Longrightarrow> retried a c"
  by (auto simp: retried_def)

lemma fold_retry_docs:
  assumes "distinct (map d_id (docs s))"
  shows "list_all2 retried (docs s) (docs (fold (\<lambda>(n, l). retry_letter c n l) ls s))"
  using assms
proof (induction ls arbitrary: s)
  case (Cons a ls)
  obtain n l where a: "a = (n, l)" by fastforce
  from retry_letter_docs [OF Cons.prems, of c n l] Cons.IH [of "retry_letter c n l s"]
  show ?case unfolding a by (auto intro: list_all2_trans [where ?P1.0 = retried, OF retried_trans])
qed (simp add: list_all2_same retried_def)

text \<open>The automatic retry of dead letters only ever touches failed or retrying documents: every other
  row, a tombstone or a cancelled document among them, is left as it was, and a retried row is
  queued without a lease and with its active version kept.\<close>

theorem auto_retry_spares_settled_documents:
  assumes "distinct (map d_id (docs s))"
  shows "list_all2 retried (docs s) (docs (retry_pending_dead_letters c hours limit s))"
  using fold_retry_docs [OF assms] by (simp add: retry_pending_dead_letters_def)

theorem auto_retry_spares_settled_documents_witness:
  "docs (retry_pending_dead_letters (demo_ctx 99000000000 ''b'') 1 5 demo_tombstone) = docs demo_tombstone \<and>
   map l_status (dead (retry_pending_dead_letters (demo_ctx 99000000000 ''b'') 1 5 demo_tombstone)) = [LDiscarded]"
proof
  have "distinct (map d_id (docs demo_tombstone))" by (simp add: demo_tombstone_def)
  from auto_retry_spares_settled_documents [OF this, of "demo_ctx 99000000000 ''b''" 1 5]
  show "docs (retry_pending_dead_letters (demo_ctx 99000000000 ''b'') 1 5 demo_tombstone) = docs demo_tombstone"
    by (auto simp: demo_tombstone_def retried_def list_all2_Cons1)
  show "map l_status (dead (retry_pending_dead_letters (demo_ctx 99000000000 ''b'') 1 5 demo_tombstone)) = [LDiscarded]"
    by (simp add: retry_pending_dead_letters_def retryable_letters_def retry_letter_def get_doc_def update_letter_def
        discard_note_def enum_def seconds_def demo_tombstone_def demo_letter_def demo_defs)
qed

end
