(* ===== verification/Capacity.thy ===== *)
theory Capacity
  imports Prelude
begin

text \<open>
  \<open>app/services/concurrency.py\<close>: leases on chat capacity.  A key holds a table of tokens with
  deadlines; a Redis sorted set in the distributed backend, a dictionary in the process-local one.
  The locale \<open>slot_backend\<close> is the contract both keep, the theory interprets it for the two Lua
  scripts and for the Python fallback, and a machine of arbitrary requests at arbitrary times runs
  over either.  Times are integers (milliseconds for Redis, monotonic time for the fallback).
\<close>

section \<open>Slots\<close>

type_synonym slots = "(string \<times> int) list"
type_synonym slot_table = "(string \<times> slots) list"

definition slots_of :: "string \<Rightarrow> slot_table \<Rightarrow> slots" where
  "slots_of k s = coalesce (map_of s k) []"

definition set_slots :: "string \<Rightarrow> slots \<Rightarrow> slot_table \<Rightarrow> slot_table" where
  "set_slots k v s = (k, v) # filter (\<lambda>(k', _). k' \<noteq> k) s"

text \<open>\<open>ZREMRANGEBYSCORE key -inf now\<close>, \<open>ZADD key deadline token\<close>, \<open>ZREM key token\<close>.\<close>

definition prune :: "int \<Rightarrow> slots \<Rightarrow> slots" where
  "prune now v = filter (\<lambda>(t, d). now < d) v"

definition zadd :: "string \<Rightarrow> int \<Rightarrow> slots \<Rightarrow> slots" where
  "zadd tok d v = filter (\<lambda>(t, _). t \<noteq> tok) v @ [(tok, d)]"

definition zrem :: "string \<Rightarrow> slots \<Rightarrow> slots" where
  "zrem tok v = filter (\<lambda>(t, _). t \<noteq> tok) v"

definition on_key :: "string \<Rightarrow> (slots \<Rightarrow> slots) \<Rightarrow> slot_table \<Rightarrow> slot_table" where
  "on_key k f s = set_slots k (f (slots_of k s)) s"

definition on_keys :: "string list \<Rightarrow> (slots \<Rightarrow> slots) \<Rightarrow> slot_table \<Rightarrow> slot_table" where
  "on_keys ks f s = fold (\<lambda>k. on_key k f) ks s"

lemma map_of_filter_key: "map_of (filter (\<lambda>(k', _). k' \<noteq> k) s) j = (if j = k then None else map_of s j)"
  by (induction s) auto

lemma slots_of_set [simp]: "slots_of j (set_slots k v s) = (if j = k then v else slots_of j s)"
  by (simp add: slots_of_def set_slots_def map_of_filter_key)

lemma slots_of_on_key [simp]: "slots_of j (on_key k f s) = (if j = k then f (slots_of j s) else slots_of j s)"
  by (simp add: on_key_def)

lemma slots_of_on_keys:
  "distinct ks \<Longrightarrow> slots_of j (on_keys ks f s) = (if j \<in> set ks then f (slots_of j s) else slots_of j s)"
  unfolding on_keys_def by (induction ks arbitrary: s) auto

lemma slots_of_Nil [simp]: "slots_of k [] = []"
  by (simp add: slots_of_def)

section \<open>The keys and limits of a request\<close>

record capacity_settings =
  chat_global_concurrency :: int
  chat_user_concurrency :: int
  chat_slot_lease_seconds :: int

definition global_key :: string where "global_key = ''rag:capacity:{chat}:global''"

definition user_key :: "string \<Rightarrow> string" where "user_key uid = ''rag:capacity:{chat}:user:'' @ uid"

definition conversation_key :: "string \<Rightarrow> string \<Rightarrow> string" where
  "conversation_key uid cid = ''rag:capacity:{chat}:conversation:'' @ uid @ '':'' @ cid"

definition keys_and_limits :: "capacity_settings \<Rightarrow> string \<Rightarrow> string option \<Rightarrow> (string \<times> nat) list" where
  "keys_and_limits cfg uid conversation =
     [(global_key, nat (max 1 (chat_global_concurrency cfg))), (user_key uid, nat (max 1 (chat_user_concurrency cfg)))] @
     (case conversation of None \<Rightarrow> [] | Some cid \<Rightarrow> if cid = [] then [] else [(conversation_key uid cid, 1)])"

text \<open>The limit of a key is determined by its kind.\<close>

definition limit_of :: "capacity_settings \<Rightarrow> string \<Rightarrow> nat" where
  "limit_of cfg k = (if k = global_key then nat (max 1 (chat_global_concurrency cfg))
     else if take 24 k = ''rag:capacity:{chat}:user'' then nat (max 1 (chat_user_concurrency cfg)) else 1)"

lemma keys_and_limits_limit: "(k, n) \<in> set (keys_and_limits cfg uid cv) \<Longrightarrow> n = limit_of cfg k"
  by (auto simp: keys_and_limits_def limit_of_def global_key_def user_key_def conversation_key_def
      split: option.splits if_splits)

lemma keys_distinct: "distinct (map fst (keys_and_limits cfg uid cv))"
  by (auto simp: keys_and_limits_def global_key_def user_key_def conversation_key_def split: option.splits if_splits)

section \<open>The two backends\<close>

text \<open>The acquire script: prune and count key by key, stop at the first full one; otherwise add the
  token to every key.\<close>

fun blocked_scope :: "int \<Rightarrow> (string \<times> nat) list \<Rightarrow> slot_table \<Rightarrow> slot_table \<times> bool" where
  "blocked_scope now [] s = (s, False)"
| "blocked_scope now ((k, n) # ks) s =
     (let s1 = on_key k (prune now) s
      in if n \<le> length (slots_of k s1) then (s1, True) else blocked_scope now ks s1)"

definition acquire_redis :: "int \<Rightarrow> int \<Rightarrow> string \<Rightarrow> (string \<times> nat) list \<Rightarrow> slot_table \<Rightarrow> slot_table \<times> bool" where
  "acquire_redis now expires tok ks s =
     (case blocked_scope now ks s of
        (s1, True) \<Rightarrow> (s1, False)
      | (s1, False) \<Rightarrow> (on_keys (map fst ks) (zadd tok expires) s1, True))"

text \<open>The fallback prunes every key first and sets the token's deadline in every dictionary.\<close>

definition acquire_local :: "int \<Rightarrow> int \<Rightarrow> string \<Rightarrow> (string \<times> nat) list \<Rightarrow> slot_table \<Rightarrow> slot_table \<times> bool" where
  "acquire_local now expires tok ks s =
     (let s1 = on_keys (map fst ks) (prune now) s
      in if \<exists>(k, n) \<in> set ks. n \<le> length (slots_of k s1) then (s1, False)
         else (on_keys (map fst ks) (zadd tok expires) s1, True))"

definition renew_slots :: "int \<Rightarrow> string \<Rightarrow> string list \<Rightarrow> slot_table \<Rightarrow> slot_table \<times> bool" where
  "renew_slots expires tok ks s =
     (if \<exists>k \<in> set ks. tok \<notin> fst ` set (slots_of k s) then (s, False)
      else (on_keys ks (map (\<lambda>(t, d). if t = tok then (t, expires) else (t, d))) s, True))"

definition release_redis :: "string \<Rightarrow> string list \<Rightarrow> slot_table \<Rightarrow> slot_table" where
  "release_redis tok ks s = on_keys ks (zrem tok) s"

text \<open>The fallback drops a dictionary that became empty.\<close>

definition release_local :: "string \<Rightarrow> string list \<Rightarrow> slot_table \<Rightarrow> slot_table" where
  "release_local tok ks s = fold (\<lambda>k s. case map_of s k of None \<Rightarrow> s
     | Some v \<Rightarrow> if zrem tok v = [] then filter (\<lambda>(k', _). k' \<noteq> k) s else set_slots k (zrem tok v) s) ks s"

section \<open>The contract of a backend\<close>

text \<open>\<open>used\<close> counts the slots stored under a key, \<open>live\<close> those whose deadline is after a time.\<close>

locale slot_backend =
  fixes acquire :: "int \<Rightarrow> int \<Rightarrow> string \<Rightarrow> (string \<times> nat) list \<Rightarrow> 's \<Rightarrow> 's \<times> bool"
    and renew :: "int \<Rightarrow> string \<Rightarrow> string list \<Rightarrow> 's \<Rightarrow> 's \<times> bool"
    and release :: "string \<Rightarrow> string list \<Rightarrow> 's \<Rightarrow> 's"
    and used :: "string \<Rightarrow> 's \<Rightarrow> nat"
    and live :: "int \<Rightarrow> string \<Rightarrow> 's \<Rightarrow> nat"
  assumes acquire_used: "distinct (map fst ks) \<Longrightarrow> acquire t e tok ks s = (s', b) \<Longrightarrow>
      used k s' \<le> used k s \<or> (\<exists>n. (k, n) \<in> set ks \<and> used k s' \<le> n)"
    and acquire_grants: "distinct (map fst ks) \<Longrightarrow>
      snd (acquire t e tok ks s) \<longleftrightarrow> (\<forall>(k, n) \<in> set ks. live t k s < n)"
    and acquire_live: "distinct (map fst ks) \<Longrightarrow> acquire t e tok ks s = (s', True) \<Longrightarrow> (k, n) \<in> set ks \<Longrightarrow>
      t' < e \<Longrightarrow> 0 < live t' k s'"
    and renew_used: "distinct ks' \<Longrightarrow> renew e tok ks' s = (s', b) \<Longrightarrow> used k s' \<le> used k s"
    and release_used: "distinct ks' \<Longrightarrow> used k (release tok ks' s) \<le> used k s"

text \<open>What clients ask for: the keys are always those of a request.\<close>

datatype slot_op = Acquire int int string string "string option" | Renew int string string "string option"
  | Release string string "string option"

type_synonym 's acquire_fn = "int \<Rightarrow> int \<Rightarrow> string \<Rightarrow> (string \<times> nat) list \<Rightarrow> 's \<Rightarrow> 's \<times> bool"
type_synonym 's renew_fn = "int \<Rightarrow> string \<Rightarrow> string list \<Rightarrow> 's \<Rightarrow> 's \<times> bool"
type_synonym 's release_fn = "string \<Rightarrow> string list \<Rightarrow> 's \<Rightarrow> 's"

fun run_slot :: "'s acquire_fn \<Rightarrow> 's renew_fn \<Rightarrow> 's release_fn \<Rightarrow> capacity_settings \<Rightarrow> slot_op \<Rightarrow> 's \<Rightarrow> 's" where
  "run_slot acq ren rel cfg (Acquire t e tok uid cv) s = fst (acq t e tok (keys_and_limits cfg uid cv) s)"
| "run_slot acq ren rel cfg (Renew e tok uid cv) s = fst (ren e tok (map fst (keys_and_limits cfg uid cv)) s)"
| "run_slot acq ren rel cfg (Release tok uid cv) s = rel tok (map fst (keys_and_limits cfg uid cv)) s"

context slot_backend
begin

lemma run_slot_within:
  assumes "\<forall>k. used k s \<le> limit_of cfg k"
  shows "\<forall>k. used k (run_slot acquire renew release cfg op s) \<le> limit_of cfg k"
proof (intro allI)
  fix k
  show "used k (run_slot acquire renew release cfg op s) \<le> limit_of cfg k"
  proof (cases op)
    case (Acquire t e tok uid cv)
    obtain s' b where run: "acquire t e tok (keys_and_limits cfg uid cv) s = (s', b)" by fastforce
    from acquire_used [OF keys_distinct run, of k] keys_and_limits_limit assms
    show ?thesis by (auto simp: Acquire run intro: le_trans)
  next
    case (Renew e tok uid cv)
    obtain s' b where run: "renew e tok (map fst (keys_and_limits cfg uid cv)) s = (s', b)" by fastforce
    from renew_used [OF keys_distinct run, of k] assms show ?thesis by (auto simp: Renew run intro: le_trans)
  next
    case (Release tok uid cv)
    from release_used [OF keys_distinct, of k tok cfg uid cv s] assms show ?thesis
      by (auto simp: Release intro: le_trans)
  qed
qed

lemma runs_within:
  "\<forall>k. used k s \<le> limit_of cfg k \<Longrightarrow> used k (fold (run_slot acquire renew release cfg) ops s) \<le> limit_of cfg k"
proof (induction ops arbitrary: s)
  case (Cons op ops)
  then show ?case using run_slot_within [OF Cons.prems, of op] by simp
qed simp

lemma acquire_refused:
  assumes "acquire t e tok (keys_and_limits cfg uid (Some cid)) s = (s', True)" "cid \<noteq> []" "t' < e"
  shows "\<not> snd (acquire t' e' tok' (keys_and_limits cfg uid (Some cid)) s')"
proof -
  have "(conversation_key uid cid, 1) \<in> set (keys_and_limits cfg uid (Some cid))"
    using assms(2) by (simp add: keys_and_limits_def)
  with acquire_live [OF keys_distinct assms(1) this assms(3)] show ?thesis
    unfolding acquire_grants [OF keys_distinct] by fastforce
qed

end

section \<open>Both backends keep it\<close>

definition used_slots :: "string \<Rightarrow> slot_table \<Rightarrow> nat" where
  "used_slots k s = length (slots_of k s)"

definition live_slots :: "int \<Rightarrow> string \<Rightarrow> slot_table \<Rightarrow> nat" where
  "live_slots t k s = length (prune t (slots_of k s))"

lemma prune_idem [simp]: "prune t (prune t v) = prune t v"
  by (simp add: prune_def)

lemma length_prune_le: "length (prune t v) \<le> length v"
  by (simp add: prune_def)

lemma zadd_live: "t < d \<Longrightarrow> 0 < length (prune t (zadd tok d v))"
  by (simp add: prune_def zadd_def)

lemma length_zadd_le: "length (zadd tok d v) \<le> Suc (length v)"
  by (simp add: zadd_def)

lemma blocked_scope_slots:
  "distinct (map fst ks) \<Longrightarrow> blocked_scope t ks s = (s', b) \<Longrightarrow>
     (b \<longleftrightarrow> (\<exists>(k, n) \<in> set ks. n \<le> live_slots t k s)) \<and>
     (\<forall>k. slots_of k s' = slots_of k s \<or> slots_of k s' = prune t (slots_of k s)) \<and>
     (\<not> b \<longrightarrow> (\<forall>k \<in> fst ` set ks. slots_of k s' = prune t (slots_of k s)))"
proof (induction ks arbitrary: s)
  case (Cons x ks)
  obtain k n where x: "x = (k, n)" by fastforce
  let ?s = "on_key k (prune t) s"
  show ?case
  proof (cases "n \<le> length (slots_of k ?s)")
    case True
    with Cons.prems show ?thesis by (auto simp: x Let_def live_slots_def)
  next
    case False
    have run: "blocked_scope t ks ?s = (s', b)" using Cons.prems(2) False by (simp add: x Let_def)
    have d: "distinct (map fst ks)" "k \<notin> fst ` set ks" using Cons.prems(1) by (simp_all add: x)
    have same: "live_slots t j ?s = live_slots t j s" for j by (simp add: live_slots_def)
    have step: "slots_of j ?s = (if j = k then prune t (slots_of j s) else slots_of j s)" for j by simp
    have ih: "b \<longleftrightarrow> (\<exists>(k, n) \<in> set ks. n \<le> live_slots t k s)"
      "\<forall>j. slots_of j s' = slots_of j ?s \<or> slots_of j s' = prune t (slots_of j ?s)"
      "\<not> b \<longrightarrow> (\<forall>j \<in> fst ` set ks. slots_of j s' = prune t (slots_of j ?s))"
      using Cons.IH [OF d(1) run] unfolding same by blast+
    have "b \<longleftrightarrow> (\<exists>(k, n) \<in> set (x # ks). n \<le> live_slots t k s)"
      using ih(1) False by (simp add: x live_slots_def)
    moreover have "slots_of j s' = slots_of j s \<or> slots_of j s' = prune t (slots_of j s)" for j
      using ih(2) [rule_format, of j] by (auto simp: step split: if_splits)
    moreover have "\<not> b \<longrightarrow> (\<forall>j \<in> fst ` set (x # ks). slots_of j s' = prune t (slots_of j s))"
      using ih(2) [rule_format, of k] ih(3) by (auto simp: x)
    ultimately show ?thesis by blast
  qed
qed simp

lemma acquire_redis_slots:
  assumes "distinct (map fst ks)" "acquire_redis t e tok ks s = (s', b)"
  shows "b \<longleftrightarrow> (\<forall>(k, n) \<in> set ks. live_slots t k s < n)"
    and "b \<Longrightarrow> k \<in> fst ` set ks \<Longrightarrow> slots_of k s' = zadd tok e (prune t (slots_of k s))"
    and "\<not> b \<or> k \<notin> fst ` set ks \<Longrightarrow> slots_of k s' = slots_of k s \<or> slots_of k s' = prune t (slots_of k s)"
proof -
  obtain s1 x where run: "blocked_scope t ks s = (s1, x)" by fastforce
  note b = blocked_scope_slots [OF assms(1) run]
  show "b \<longleftrightarrow> (\<forall>(k, n) \<in> set ks. live_slots t k s < n)"
    using assms(2) run b by (cases x) (auto simp: acquire_redis_def not_less [symmetric] case_prod_beta)
  show "slots_of k s' = zadd tok e (prune t (slots_of k s))" if "b" "k \<in> fst ` set ks"
  proof -
    have "\<not> x" "s' = on_keys (map fst ks) (zadd tok e) s1"
      using that(1) assms(2) run by (auto simp: acquire_redis_def split: bool.splits)
    moreover from this b that(2) have "slots_of k s1 = prune t (slots_of k s)" by blast
    ultimately show ?thesis using assms(1) that(2) by (simp add: slots_of_on_keys)
  qed
  show "slots_of k s' = slots_of k s \<or> slots_of k s' = prune t (slots_of k s)" if "\<not> b \<or> k \<notin> fst ` set ks"
    using that assms run b by (cases x) (auto simp: acquire_redis_def slots_of_on_keys)
qed

lemma acquire_local_slots:
  assumes "distinct (map fst ks)" "acquire_local t e tok ks s = (s', b)"
  shows "b \<longleftrightarrow> (\<forall>(k, n) \<in> set ks. live_slots t k s < n)"
    and "b \<Longrightarrow> k \<in> fst ` set ks \<Longrightarrow> slots_of k s' = zadd tok e (prune t (slots_of k s))"
    and "\<not> b \<or> k \<notin> fst ` set ks \<Longrightarrow> slots_of k s' = slots_of k s \<or> slots_of k s' = prune t (slots_of k s)"
proof -
  let ?s1 = "on_keys (map fst ks) (prune t) s"
  have s1: "slots_of j ?s1 = (if j \<in> fst ` set ks then prune t (slots_of j s) else slots_of j s)" for j
    using assms(1) by (simp add: slots_of_on_keys)
  have full: "(\<exists>(k, n) \<in> set ks. n \<le> length (slots_of k ?s1)) \<longleftrightarrow> (\<exists>(k, n) \<in> set ks. n \<le> live_slots t k s)"
  proof (rule bex_cong)
    fix x assume x: "x \<in> set ks"
    then have "slots_of (fst x) ?s1 = prune t (slots_of (fst x) s)" using s1 [of "fst x"] by simp
    then show "(case x of (k, n) \<Rightarrow> n \<le> length (slots_of k ?s1)) = (case x of (k, n) \<Rightarrow> n \<le> live_slots t k s)"
      by (simp add: live_slots_def case_prod_beta)
  qed simp
  show "b \<longleftrightarrow> (\<forall>(k, n) \<in> set ks. live_slots t k s < n)"
    using assms(2) full by (auto simp: acquire_local_def Let_def not_less [symmetric] case_prod_beta split: if_splits)
  show "slots_of k s' = zadd tok e (prune t (slots_of k s))" if "b" "k \<in> fst ` set ks"
  proof -
    have "s' = on_keys (map fst ks) (zadd tok e) ?s1"
      using that(1) assms(2) by (auto simp: acquire_local_def Let_def split: if_splits)
    moreover have "slots_of k ?s1 = prune t (slots_of k s)" using s1 [of k] that(2) by simp
    ultimately show ?thesis using assms(1) that(2) by (simp add: slots_of_on_keys)
  qed
  show "slots_of k s' = slots_of k s \<or> slots_of k s' = prune t (slots_of k s)" if "\<not> b \<or> k \<notin> fst ` set ks"
    using that assms s1 by (auto simp: acquire_local_def Let_def slots_of_on_keys split: if_splits)
qed

lemma slots_contract:
  assumes "distinct (map fst ks)" "b \<longleftrightarrow> (\<forall>(k, n) \<in> set ks. live_slots t k s < n)"
    and "b \<Longrightarrow> k \<in> fst ` set ks \<Longrightarrow> slots_of k s' = zadd tok e (prune t (slots_of k s))"
    and "\<not> b \<or> k \<notin> fst ` set ks \<Longrightarrow> slots_of k s' = slots_of k s \<or> slots_of k s' = prune t (slots_of k s)"
  shows "used_slots k s' \<le> used_slots k s \<or> (\<exists>n. (k, n) \<in> set ks \<and> used_slots k s' \<le> n)"
proof (cases "b \<and> k \<in> fst ` set ks")
  case True
  then obtain n where n: "(k, n) \<in> set ks" by auto
  then have "live_slots t k s < n" using True assms(2) by blast
  with True assms(3) n length_zadd_le [of tok e "prune t (slots_of k s)"] show ?thesis
    by (intro disjI2 exI [of _ n]) (simp add: used_slots_def live_slots_def)
next
  case False
  with assms(4) length_prune_le [of t "slots_of k s"] show ?thesis by (auto simp: used_slots_def)
qed

lemma renew_slots_used:
  "distinct ks \<Longrightarrow> renew_slots e tok ks s = (s', b) \<Longrightarrow> used_slots k s' \<le> used_slots k s"
  by (auto simp: renew_slots_def used_slots_def slots_of_on_keys split: if_splits)

lemma slots_of_release_local:
  "distinct ks \<Longrightarrow> slots_of k (release_local tok ks s) = (if k \<in> set ks then zrem tok (slots_of k s) else slots_of k s)"
proof (induction ks arbitrary: s)
  case Nil
  then show ?case by (simp add: release_local_def)
next
  case (Cons j ks)
  let ?f = "\<lambda>k s. case map_of s k of None \<Rightarrow> s
     | Some v \<Rightarrow> if zrem tok v = [] then filter (\<lambda>(k', _). k' \<noteq> k) s else set_slots k (zrem tok v) s"
  have step: "slots_of i (?f j s) = (if i = j then zrem tok (slots_of i s) else slots_of i s)" for i
    by (auto simp: slots_of_def map_of_filter_key set_slots_def zrem_def split: option.splits)
  have "release_local tok (j # ks) s = release_local tok ks (?f j s)" by (simp add: release_local_def)
  then show ?case using Cons step by auto
qed

interpretation redis_slots: slot_backend acquire_redis renew_slots release_redis used_slots live_slots
proof (unfold_locales, goal_cases)
  case (1 ks t e tok s s' b k)
  show ?case by (rule slots_contract [OF 1(1)]) (use acquire_redis_slots [OF 1] in blast)+
next
  case (2 ks t e tok s)
  obtain s' b where "acquire_redis t e tok ks s = (s', b)" by fastforce
  with acquire_redis_slots(1) [OF 2 this] show ?case by simp
next
  case (3 ks t e tok s s' k n t')
  then have "slots_of k s' = zadd tok e (prune t (slots_of k s))"
    using acquire_redis_slots(2) [OF 3(1,2)] by force
  with zadd_live [OF 3(4)] show ?case by (simp add: live_slots_def)
next
  case 4
  then show ?case by (rule renew_slots_used)
next
  case 5
  then show ?case by (simp add: used_slots_def release_redis_def slots_of_on_keys zrem_def)
qed

interpretation local_slots: slot_backend acquire_local renew_slots release_local used_slots live_slots
proof (unfold_locales, goal_cases)
  case (1 ks t e tok s s' b k)
  show ?case by (rule slots_contract [OF 1(1)]) (use acquire_local_slots [OF 1] in blast)+
next
  case (2 ks t e tok s)
  obtain s' b where "acquire_local t e tok ks s = (s', b)" by fastforce
  with acquire_local_slots(1) [OF 2 this] show ?case by simp
next
  case (3 ks t e tok s s' k n t')
  then have "slots_of k s' = zadd tok e (prune t (slots_of k s))"
    using acquire_local_slots(2) [OF 3(1,2)] by force
  with zadd_live [OF 3(4)] show ?case by (simp add: live_slots_def)
next
  case 4
  then show ?case by (rule renew_slots_used)
next
  case 5
  then show ?case by (simp add: used_slots_def slots_of_release_local zrem_def)
qed

section \<open>The leases of the chat endpoints\<close>

datatype backend = RedisBackend | LocalBackend

record capacity_lease =
  cl_token :: string
  cl_keys :: "string list"
  cl_backend :: backend

record capacity_state =
  redis_table :: slot_table
  local_table :: slot_table

definition lease_seconds :: "capacity_settings \<Rightarrow> int" where
  "lease_seconds cfg = max 1 (chat_slot_lease_seconds cfg)"

text \<open>\<open>redis_up\<close> says whether the call of Redis succeeds; \<open>now_ms\<close> is the wall clock, \<open>mono_s\<close> the
  monotonic clock in seconds.\<close>

definition acquire_chat_slot ::
  "capacity_settings \<Rightarrow> bool \<Rightarrow> int \<Rightarrow> int \<Rightarrow> string \<Rightarrow> string \<Rightarrow> string option \<Rightarrow> capacity_state \<Rightarrow>
   capacity_state \<times> capacity_lease option" where
  "acquire_chat_slot cfg redis_up now_ms mono_s tok uid conversation s =
     (let ks = keys_and_limits cfg uid conversation in
      if redis_up then
        (case acquire_redis now_ms (now_ms + lease_seconds cfg * 1000) tok ks (redis_table s) of
           (r, granted) \<Rightarrow> (s\<lparr>redis_table := r\<rparr>,
             if granted then Some \<lparr>cl_token = tok, cl_keys = map fst ks, cl_backend = RedisBackend\<rparr> else None))
      else
        (case acquire_local mono_s (mono_s + lease_seconds cfg) tok ks (local_table s) of
           (l, granted) \<Rightarrow> (s\<lparr>local_table := l\<rparr>,
             if granted then Some \<lparr>cl_token = tok, cl_keys = map fst ks, cl_backend = LocalBackend\<rparr> else None)))"

definition renew_chat_slot ::
  "capacity_settings \<Rightarrow> bool \<Rightarrow> int \<Rightarrow> int \<Rightarrow> capacity_lease \<Rightarrow> capacity_state \<Rightarrow> capacity_state \<times> bool" where
  "renew_chat_slot cfg redis_up now_ms mono_s lease s = (case cl_backend lease of
     RedisBackend \<Rightarrow> if \<not> redis_up then (s, False)
       else (case renew_slots (now_ms + lease_seconds cfg * 1000) (cl_token lease) (cl_keys lease) (redis_table s) of
           (r, ok) \<Rightarrow> (s\<lparr>redis_table := r\<rparr>, ok))
   | LocalBackend \<Rightarrow> (case renew_slots (mono_s + lease_seconds cfg) (cl_token lease) (cl_keys lease) (local_table s) of
           (l, ok) \<Rightarrow> (s\<lparr>local_table := l\<rparr>, ok)))"

definition release_chat_slot :: "bool \<Rightarrow> capacity_lease \<Rightarrow> capacity_state \<Rightarrow> capacity_state" where
  "release_chat_slot redis_up lease s = (case cl_backend lease of
     RedisBackend \<Rightarrow> if redis_up then s\<lparr>redis_table := release_redis (cl_token lease) (cl_keys lease) (redis_table s)\<rparr> else s
   | LocalBackend \<Rightarrow> s\<lparr>local_table := release_local (cl_token lease) (cl_keys lease) (local_table s)\<rparr>)"

text \<open>Runs: leases are those granted before, and Redis may lose slots at any time (a key's time to live).\<close>

inductive capacity_step :: "capacity_settings \<Rightarrow> capacity_state \<times> capacity_lease list \<Rightarrow>
    capacity_state \<times> capacity_lease list \<Rightarrow> bool" for cfg where
  grant: "acquire_chat_slot cfg up t m tok uid cv s = (s', Some l) \<Longrightarrow> capacity_step cfg (s, ls) (s', ls @ [l])"
| refuse: "acquire_chat_slot cfg up t m tok uid cv s = (s', None) \<Longrightarrow> capacity_step cfg (s, ls) (s', ls)"
| renew: "l \<in> set ls \<Longrightarrow> renew_chat_slot cfg up t m l s = (s', ok) \<Longrightarrow> capacity_step cfg (s, ls) (s', ls)"
| release: "l \<in> set ls \<Longrightarrow> capacity_step cfg (s, ls) (release_chat_slot up l s, ls)"
| expire: "capacity_step cfg (s, ls) (s\<lparr>redis_table := filter (\<lambda>(k, _). k \<noteq> key) (redis_table s)\<rparr>, ls)"

inductive capacity_reach :: "capacity_settings \<Rightarrow> capacity_state \<times> capacity_lease list \<Rightarrow> bool" for cfg where
  reach_start: "capacity_reach cfg (\<lparr>redis_table = [], local_table = []\<rparr>, [])"
| reach_step: "capacity_reach cfg w \<Longrightarrow> capacity_step cfg w w' \<Longrightarrow> capacity_reach cfg w'"

interpretation capacity: transition_system
  "\<lambda>w. w = (\<lparr>redis_table = [], local_table = []\<rparr>, [])" "capacity_step cfg" "capacity_reach cfg" for cfg
proof
  fix w P
  assume "capacity_reach cfg w" "\<And>s. s = (\<lparr>redis_table = [], local_table = []\<rparr>, []) \<Longrightarrow> P s"
    "\<And>s t. capacity_reach cfg s \<Longrightarrow> P s \<Longrightarrow> capacity_step cfg s t \<Longrightarrow> P t"
  then show "P w" by (induction rule: capacity_reach.induct) blast+
qed (auto intro: capacity_reach.intros)

definition within :: "capacity_settings \<Rightarrow> slot_table \<Rightarrow> bool" where
  "within cfg s \<longleftrightarrow> (\<forall>k. used_slots k s \<le> limit_of cfg k)"

definition capacity_inv :: "capacity_settings \<Rightarrow> capacity_state \<times> capacity_lease list \<Rightarrow> bool" where
  "capacity_inv cfg w \<longleftrightarrow> within cfg (redis_table (fst w)) \<and> within cfg (local_table (fst w)) \<and>
     (\<forall>l \<in> set (snd w). \<exists>uid cv. cl_keys l = map fst (keys_and_limits cfg uid cv))"

lemma within_less: "within cfg s \<Longrightarrow> (\<And>k. used_slots k s' \<le> used_slots k s) \<Longrightarrow> within cfg s'"
  unfolding within_def by (meson le_trans)

lemma acquire_chat_inv:
  assumes "acquire_chat_slot cfg up t m tok uid cv s = (s', l)" "capacity_inv cfg (s, ls)"
  shows "capacity_inv cfg (s', ls)" and "l = Some x \<Longrightarrow> cl_keys x = map fst (keys_and_limits cfg uid cv)"
proof -
  show "capacity_inv cfg (s', ls)"
    using assms redis_slots.run_slot_within [of "redis_table s" cfg "Acquire t (t + lease_seconds cfg * 1000) tok uid cv"]
      local_slots.run_slot_within [of "local_table s" cfg "Acquire m (m + lease_seconds cfg) tok uid cv"]
    by (auto simp: acquire_chat_slot_def Let_def capacity_inv_def within_def split: if_splits prod.splits)
  show "cl_keys x = map fst (keys_and_limits cfg uid cv)" if "l = Some x"
    using that assms(1) by (auto simp: acquire_chat_slot_def Let_def split: if_splits prod.splits)
qed

lemma capacity_step_inv:
  assumes "capacity_step cfg w w'" "capacity_inv cfg w"
  shows "capacity_inv cfg w'"
  using assms
proof (induction rule: capacity_step.induct)
  case (grant up t m tok uid cv s s' l ls)
  from acquire_chat_inv [OF this] show ?case by (auto simp: capacity_inv_def)
next
  case (refuse up t m tok uid cv s s' ls)
  from acquire_chat_inv(1) [OF this] show ?case .
next
  case (renew l ls up t m s s' ok)
  then obtain uid cv where keys: "distinct (cl_keys l)" using keys_distinct by (auto simp: capacity_inv_def)
  have "used_slots k r \<le> used_slots k x" if "renew_slots e tok (cl_keys l) x = (r, b)" for e tok x r b k
    using renew_slots_used [OF keys that] .
  with renew show ?case
    by (auto simp: renew_chat_slot_def capacity_inv_def intro: within_less split: backend.splits if_splits prod.splits)
next
  case (release l ls s up)
  then obtain uid cv where keys: "distinct (cl_keys l)" using keys_distinct by (auto simp: capacity_inv_def)
  have "used_slots k (release_redis tok (cl_keys l) x) \<le> used_slots k x"
      "used_slots k (release_local tok (cl_keys l) x) \<le> used_slots k x" for tok x k
    using redis_slots.release_used [OF keys] local_slots.release_used [OF keys] by blast+
  with release show ?case
    by (auto simp: release_chat_slot_def capacity_inv_def intro: within_less split: backend.splits)
next
  case (expire s ls key)
  have "used_slots k (filter (\<lambda>(k, _). k \<noteq> key) x) \<le> used_slots k x" for k and x :: slot_table
    by (simp add: used_slots_def slots_of_def map_of_filter_key)
  with expire show ?case by (auto simp: capacity_inv_def intro: within_less)
qed

section \<open>Properties\<close>

text \<open>C24: whatever leases are requested, renewed, released or lost, in whatever order and at whatever
  times, and whether or not Redis answers, no key ever holds more slots than its limit, in the
  distributed table and in the local one: at most the global limit of chats, at most the user
  limit per user, at most one chat per conversation.\<close>

theorem capacity_never_exceeded:
  assumes "capacity_reach cfg (s, ls)"
  shows "used_slots k (redis_table s) \<le> limit_of cfg k \<and> used_slots k (local_table s) \<le> limit_of cfg k"
proof -
  have "capacity_inv cfg (s, ls)"
  proof (rule capacity.invariant [OF _ _ assms])
    fix w :: "capacity_state \<times> capacity_lease list"
    assume "w = (\<lparr>redis_table = [], local_table = []\<rparr>, [])"
    then show "capacity_inv cfg w" by (simp add: capacity_inv_def within_def used_slots_def)
  qed (rule capacity_step_inv)
  then show ?thesis by (simp add: capacity_inv_def within_def)
qed

definition demo_capacity :: capacity_settings where
  "demo_capacity = \<lparr>chat_global_concurrency = 2, chat_user_concurrency = 2, chat_slot_lease_seconds = 60\<rparr>"

theorem capacity_never_exceeded_witness:
  "\<exists>s l. capacity_reach demo_capacity (s, [l]) \<and> used_slots global_key (redis_table s) \<le> 2"
proof -
  have "\<exists>s l. acquire_chat_slot demo_capacity True 0 0 ''t1'' ''u1'' None \<lparr>redis_table = [], local_table = []\<rparr> = (s, Some l)"
    by (simp add: acquire_chat_slot_def Let_def acquire_redis_def keys_and_limits_def demo_capacity_def prune_def)
  then obtain s l where "acquire_chat_slot demo_capacity True 0 0 ''t1'' ''u1'' None \<lparr>redis_table = [], local_table = []\<rparr> = (s, Some l)"
    by blast
  from capacity_reach.reach_step [OF capacity_reach.reach_start capacity_step.grant [OF this]]
  have reach: "capacity_reach demo_capacity (s, [l])" by simp
  from capacity_never_exceeded [OF this, of global_key] reach show ?thesis
    by (auto simp: limit_of_def demo_capacity_def)
qed

text \<open>The Lua script and its fallback give the same answer on the same slots, grant a lease exactly
  when every key has a live slot free, and leave the same live slots.\<close>

theorem backends_agree:
  "snd (acquire_redis t e tok (keys_and_limits cfg uid cv) s) =
     snd (acquire_local t e tok (keys_and_limits cfg uid cv) s) \<and>
   (snd (acquire_redis t e tok (keys_and_limits cfg uid cv) s) \<longleftrightarrow>
     list_all (\<lambda>(k, n). live_slots t k s < n) (keys_and_limits cfg uid cv)) \<and>
   prune t (slots_of k (fst (acquire_redis t e tok (keys_and_limits cfg uid cv) s))) =
     prune t (slots_of k (fst (acquire_local t e tok (keys_and_limits cfg uid cv) s)))"
proof -
  let ?ks = "keys_and_limits cfg uid cv"
  obtain s1 b1 s2 b2 where run: "acquire_redis t e tok ?ks s = (s1, b1)" "acquire_local t e tok ?ks s = (s2, b2)"
    by (metis surj_pair)
  note r = acquire_redis_slots [OF keys_distinct run(1)] and l = acquire_local_slots [OF keys_distinct run(2)]
  have b: "b1 = b2" using r(1) l(1) by simp
  have "prune t (slots_of k s1) = prune t (slots_of k s2)"
  proof (cases "b1 \<and> k \<in> fst ` set ?ks")
    case True
    then show ?thesis using r(2) l(2) b by simp
  next
    case False
    then have "prune t (slots_of k s1) = prune t (slots_of k s)" "prune t (slots_of k s2) = prune t (slots_of k s)"
      using r(3) [of k] l(3) [of k] b by (metis prune_idem)+
    then show ?thesis by simp
  qed
  with b r(1) run show ?thesis by (simp add: list_all_iff)
qed

text \<open>While a lease on a conversation is live, every other request for that conversation is refused.\<close>

theorem conversation_is_exclusive:
  assumes "acquire_redis t e tok (keys_and_limits cfg uid (Some cid)) s = (s', True)" "cid \<noteq> []" "t' < e"
  shows "\<not> snd (acquire_redis t' e' tok' (keys_and_limits cfg uid (Some cid)) s')"
  using assms by (rule redis_slots.acquire_refused)

theorem conversation_is_exclusive_witness:
  "\<exists>s'. acquire_redis 0 60000 ''t1'' (keys_and_limits demo_capacity ''u1'' (Some ''c1'')) [] = (s', True) \<and>
     \<not> snd (acquire_redis 1000 61000 ''t2'' (keys_and_limits demo_capacity ''u1'' (Some ''c1'')) s')"
proof -
  obtain s' b where run: "acquire_redis 0 60000 ''t1'' (keys_and_limits demo_capacity ''u1'' (Some ''c1'')) [] = (s', b)"
    by fastforce
  have "b" using acquire_redis_slots(1) [OF keys_distinct run]
    by (simp add: keys_and_limits_def demo_capacity_def live_slots_def prune_def)
  with run conversation_is_exclusive [of 0 60000 "''t1''" demo_capacity "''u1''" "''c1''" "[]" s' 1000 61000 "''t2''"]
  show ?thesis by simp
qed

end
