(* ===== verification/Tokens.thy ===== *)
theory Tokens
  imports Models
begin

text \<open>
  \<open>app/services/tokens.py\<close> and the token functions of \<open>app/security.py\<close>: refresh tokens are
  one-time records of a Redis store, grouped in families that are revoked together when a token is
  replayed.  The store of expiring keys is an interface with laws, interpreted for the model of
  Redis; a rotation is a small machine with one Redis command per step, so that requests interleave
  between commands.  A pipeline of the Redis client is one transaction.
\<close>

section \<open>Keys that expire\<close>

type_synonym 'v kv = "(string \<times> 'v \<times> int) list"

definition kv_get :: "int \<Rightarrow> string \<Rightarrow> 'v kv \<Rightarrow> 'v option" where
  "kv_get t k s = (case map_of s k of None \<Rightarrow> None | Some (v, e) \<Rightarrow> if t < e then Some v else None)"

definition kv_del :: "string \<Rightarrow> 'v kv \<Rightarrow> 'v kv" where
  "kv_del k s = filter (\<lambda>(j, _). j \<noteq> k) s"

definition kv_setex :: "int \<Rightarrow> int \<Rightarrow> string \<Rightarrow> 'v \<Rightarrow> 'v kv \<Rightarrow> 'v kv" where
  "kv_setex t ttl k v s = (k, v, t + ttl) # kv_del k s"

text \<open>\<open>GETDEL\<close> is one command.\<close>

definition kv_getdel :: "int \<Rightarrow> string \<Rightarrow> 'v kv \<Rightarrow> 'v option \<times> 'v kv" where
  "kv_getdel t k s = (kv_get t k s, kv_del k s)"

locale expiring_store =
  fixes get :: "int \<Rightarrow> string \<Rightarrow> 's \<Rightarrow> 'v option"
    and setex :: "int \<Rightarrow> int \<Rightarrow> string \<Rightarrow> 'v \<Rightarrow> 's \<Rightarrow> 's"
    and del :: "string \<Rightarrow> 's \<Rightarrow> 's"
  assumes get_setex: "get t k (setex t0 ttl j v s) = (if k = j then if t < t0 + ttl then Some v else None else get t k s)"
    and get_del: "get t k (del j s) = (if k = j then None else get t k s)"
    and get_later: "t \<le> t' \<Longrightarrow> get t' k s = Some v \<Longrightarrow> get t k s = Some v"
begin

lemma taken_stays_taken: "get t' k (del k s) = None"
  by (simp add: get_del)

lemma get_setex_later: "get t' k s = Some v \<Longrightarrow> j \<noteq> k \<Longrightarrow> get t' k (setex t0 ttl j w s) = Some v"
  by (simp add: get_setex)

lemma unset_stays_unset: "get t k s = None \<Longrightarrow> t \<le> t' \<Longrightarrow> get t' k s = None"
  using get_later by (cases "get t' k s") fastforce+

end

lemma map_of_kv_del: "map_of (kv_del k s) j = (if j = k then None else map_of s j)"
  unfolding kv_del_def by (induction s) auto

interpretation redis_kv: expiring_store kv_get kv_setex kv_del
  by unfold_locales (auto simp: kv_get_def kv_setex_def map_of_kv_del split: option.splits if_splits)

lemmas kv_simps = redis_kv.get_setex redis_kv.get_del

section \<open>Tokens\<close>

record claims =
  tk_sub :: string
  tk_type :: string
  tk_jti :: string
  tk_iat :: int
  tk_exp :: int
  tk_family :: "string option"

text \<open>PyJWT: \<open>jwt_decode\<close> returns the claims of a text with a valid signature and raises, here
  \<open>None\<close>, otherwise; the expiry is checked against the time of the call.\<close>

record jwt_library =
  jwt_encode :: "claims \<Rightarrow> string"
  jwt_verify :: "string \<Rightarrow> claims option"

definition jwt_decode :: "jwt_library \<Rightarrow> int \<Rightarrow> string \<Rightarrow> claims option" where
  "jwt_decode j t x = (case jwt_verify j x of None \<Rightarrow> None | Some cl \<Rightarrow> if t < tk_exp cl then Some cl else None)"

definition create_token ::
  "jwt_library \<Rightarrow> int \<Rightarrow> string \<Rightarrow> string \<Rightarrow> int \<Rightarrow> string \<Rightarrow> string option \<Rightarrow> string" where
  "create_token j t user_id token_type lifetime jti family_id =
     jwt_encode j \<lparr>tk_sub = user_id, tk_type = token_type, tk_jti = jti, tk_iat = t, tk_exp = t + lifetime,
       tk_family = (case family_id of None \<Rightarrow> None | Some f \<Rightarrow> if f = [] then None else Some f)\<rparr>"

definition decode_token :: "jwt_library \<Rightarrow> int \<Rightarrow> string \<Rightarrow> string \<Rightarrow> claims option" where
  "decode_token j t token expected_type = (case jwt_decode j t token of None \<Rightarrow> None
     | Some cl \<Rightarrow> if tk_type cl \<noteq> expected_type \<or> tk_sub cl = [] then None else Some cl)"

definition decode_access_token :: "jwt_library \<Rightarrow> int \<Rightarrow> string \<Rightarrow> string option" where
  "decode_access_token j t token = map_option tk_sub (decode_token j t token ''access'')"

record token_settings =
  access_token_expire_minutes :: int
  refresh_token_expire_days :: int
  websocket_ticket_ttl_seconds :: int

definition access_lifetime :: "token_settings \<Rightarrow> int" where
  "access_lifetime cfg = seconds (access_token_expire_minutes cfg * 60)"

definition refresh_ttl :: "token_settings \<Rightarrow> int" where
  "refresh_ttl cfg = seconds (refresh_token_expire_days cfg * 86400)"

section \<open>The store\<close>

record refresh_record =
  rr_user :: string
  rr_family :: string

text \<open>One table per key prefix; a refresh record that is not valid JSON is \<open>None\<close>.\<close>

record redis =
  rd_refresh :: "refresh_record option kv"
  rd_family :: "string list kv"
  rd_revoked :: "unit kv"
  rd_family_user :: "string kv"
  rd_user_families :: "string list kv"
  rd_tickets :: "string kv"

definition empty_redis :: redis where
  "empty_redis = \<lparr>rd_refresh = [], rd_family = [], rd_revoked = [], rd_family_user = [], rd_user_families = [], rd_tickets = []\<rparr>"

text \<open>\<open>SADD\<close> followed by \<open>EXPIRE\<close>; \<open>SREM\<close>, which keeps the time to live.\<close>

definition sadd_expire :: "int \<Rightarrow> int \<Rightarrow> string \<Rightarrow> string \<Rightarrow> string list kv \<Rightarrow> string list kv" where
  "sadd_expire t ttl k x s = kv_setex t ttl k (List.insert x (coalesce (kv_get t k s) [])) s"

definition srem :: "string \<Rightarrow> string \<Rightarrow> string list kv \<Rightarrow> string list kv" where
  "srem k x s = map (\<lambda>(j, v, e). if j = k then (j, removeAll x v, e) else (j, v, e)) s"

definition smembers :: "int \<Rightarrow> string \<Rightarrow> string list kv \<Rightarrow> string list" where
  "smembers t k s = coalesce (kv_get t k s) []"

text \<open>The pipeline of \<open>issue_token_pair\<close>.\<close>

definition issue_pipeline :: "token_settings \<Rightarrow> int \<Rightarrow> string \<Rightarrow> string \<Rightarrow> string \<Rightarrow> redis \<Rightarrow> redis" where
  "issue_pipeline cfg t user_id family_id jti rd =
     (let ttl = refresh_ttl cfg in
      rd\<lparr>rd_refresh := kv_setex t ttl jti (Some \<lparr>rr_user = user_id, rr_family = family_id\<rparr>) (rd_refresh rd),
         rd_family := sadd_expire t ttl family_id jti (rd_family rd),
         rd_family_user := kv_setex t ttl family_id user_id (rd_family_user rd),
         rd_user_families := sadd_expire t ttl user_id family_id (rd_user_families rd)\<rparr>)"

definition issue_token_pair ::
  "jwt_library \<Rightarrow> token_settings \<Rightarrow> int \<Rightarrow> (nat \<Rightarrow> string) \<Rightarrow> string \<Rightarrow> string option \<Rightarrow> redis \<Rightarrow> redis \<times> string \<times> string" where
  "issue_token_pair j cfg t uuid user_id family rd =
     (let family_id = (case family of None \<Rightarrow> uuid 0 | Some f \<Rightarrow> if f = [] then uuid 0 else f); jti = uuid 1
      in (issue_pipeline cfg t user_id family_id jti rd,
        create_token j t user_id ''access'' (access_lifetime cfg) (uuid 2) None,
        create_token j t user_id ''refresh'' (refresh_ttl cfg) jti (Some family_id)))"

text \<open>The pipeline of \<open>revoke_token_family\<close>, from the members and the user read before.\<close>

definition revoke_pipeline ::
  "token_settings \<Rightarrow> int \<Rightarrow> string \<Rightarrow> string list \<Rightarrow> string option \<Rightarrow> redis \<Rightarrow> redis" where
  "revoke_pipeline cfg t family_id members user_id rd =
     rd\<lparr>rd_refresh := fold kv_del members (rd_refresh rd), rd_family := kv_del family_id (rd_family rd),
        rd_family_user := kv_del family_id (rd_family_user rd),
        rd_user_families := (case user_id of None \<Rightarrow> rd_user_families rd
           | Some x \<Rightarrow> if x = [] then rd_user_families rd else srem x family_id (rd_user_families rd)),
        rd_revoked := kv_setex t (refresh_ttl cfg) family_id () (rd_revoked rd)\<rparr>"

definition revoke_token_family :: "token_settings \<Rightarrow> int \<Rightarrow> string \<Rightarrow> redis \<Rightarrow> redis" where
  "revoke_token_family cfg t family_id rd =
     revoke_pipeline cfg t family_id (smembers t family_id (rd_family rd)) (kv_get t family_id (rd_family_user rd)) rd"

definition revoke_all_user_families :: "token_settings \<Rightarrow> int \<Rightarrow> string \<Rightarrow> redis \<Rightarrow> redis" where
  "revoke_all_user_families cfg t user_id rd =
     (let rd1 = fold (revoke_token_family cfg t) (smembers t user_id (rd_user_families rd)) rd
      in rd1\<lparr>rd_user_families := kv_del user_id (rd_user_families rd1)\<rparr>)"

definition issue_websocket_ticket :: "token_settings \<Rightarrow> int \<Rightarrow> string \<Rightarrow> string \<Rightarrow> redis \<Rightarrow> redis \<times> string" where
  "issue_websocket_ticket cfg t ticket user_id rd =
     (rd\<lparr>rd_tickets := kv_setex t (seconds (websocket_ticket_ttl_seconds cfg)) ticket user_id (rd_tickets rd)\<rparr>, ticket)"

definition consume_websocket_ticket :: "int \<Rightarrow> string \<Rightarrow> redis \<Rightarrow> redis \<times> string option" where
  "consume_websocket_ticket t ticket rd =
     (if ticket = [] then (rd, None)
      else case kv_getdel t ticket (rd_tickets rd) of (v, s) \<Rightarrow> (rd\<lparr>rd_tickets := s\<rparr>, v))"

section \<open>Rotation, command by command\<close>

text \<open>Where a request of \<open>rotate_refresh_token\<close> stands: before its next Redis command, or finished with
  the identifier of the new refresh token or without one.  Revocations by other requests are the
  same machine started at \<open>RevokeMembers\<close>.\<close>

datatype rotation_phase =
    CheckRevoked
  | TakeToken
  | DropMember
  | IssuePair
  | RevokeMembers
  | RevokeUser "string list"
  | RevokeCommit "string list" "string option"
  | Done "string option"

record rotation =
  ro_sub :: string
  ro_jti :: string
  ro_family :: string
  ro_phase :: rotation_phase

definition at_phase :: "rotation_phase \<Rightarrow> rotation \<Rightarrow> rotation" where
  "at_phase ph r = r\<lparr>ro_phase := ph\<rparr>"

lemma at_phase_simps [simp]:
  "ro_phase (at_phase ph r) = ph" "ro_jti (at_phase ph r) = ro_jti r" "ro_family (at_phase ph r) = ro_family r"
  "ro_sub (at_phase ph r) = ro_sub r"
  by (simp_all add: at_phase_def)

fun rotate_step :: "token_settings \<Rightarrow> int \<Rightarrow> string \<Rightarrow> redis \<times> rotation \<Rightarrow> redis \<times> rotation" where
  "rotate_step cfg t new_jti (rd, r) = (case ro_phase r of
     CheckRevoked \<Rightarrow> (rd, at_phase (if kv_get t (ro_family r) (rd_revoked rd) \<noteq> None then Done None else TakeToken) r)
   | TakeToken \<Rightarrow>
       (case kv_getdel t (ro_jti r) (rd_refresh rd) of (stored, s) \<Rightarrow>
          (rd\<lparr>rd_refresh := s\<rparr>, at_phase (case stored of
               Some (Some rec) \<Rightarrow> if rr_user rec \<noteq> ro_sub r \<or> rr_family rec \<noteq> ro_family r then RevokeMembers else DropMember
             | _ \<Rightarrow> RevokeMembers) r))
   | DropMember \<Rightarrow> (rd\<lparr>rd_family := srem (ro_family r) (ro_jti r) (rd_family rd)\<rparr>, at_phase IssuePair r)
   | IssuePair \<Rightarrow> (issue_pipeline cfg t (ro_sub r) (ro_family r) new_jti rd, at_phase (Done (Some new_jti)) r)
   | RevokeMembers \<Rightarrow> (rd, at_phase (RevokeUser (smembers t (ro_family r) (rd_family rd))) r)
   | RevokeUser ms \<Rightarrow> (rd, at_phase (RevokeCommit ms (kv_get t (ro_family r) (rd_family_user rd))) r)
   | RevokeCommit ms x \<Rightarrow> (revoke_pipeline cfg t (ro_family r) ms x rd, at_phase (Done None) r)
   | Done x \<Rightarrow> (rd, r))"

text \<open>The whole function, undisturbed: at most six commands.\<close>

definition rotate_refresh_token ::
  "jwt_library \<Rightarrow> token_settings \<Rightarrow> int \<Rightarrow> (nat \<Rightarrow> string) \<Rightarrow> string \<Rightarrow> redis \<Rightarrow> redis \<times> (string \<times> string) option" where
  "rotate_refresh_token j cfg t uuid token rd = (case decode_token j t token ''refresh'' of None \<Rightarrow> (rd, None)
     | Some cl \<Rightarrow> (case tk_family cl of None \<Rightarrow> (rd, None) | Some f \<Rightarrow> if f = [] then (rd, None)
        else case (rotate_step cfg t (uuid 1) ^^ 6) (rd, \<lparr>ro_sub = tk_sub cl, ro_jti = tk_jti cl, ro_family = f, ro_phase = CheckRevoked\<rparr>) of
          (rd1, r) \<Rightarrow> (rd1, (case ro_phase r of Done (Some jti) \<Rightarrow>
             Some (create_token j t (tk_sub cl) ''access'' (access_lifetime cfg) (uuid 2) None,
                   create_token j t (tk_sub cl) ''refresh'' (refresh_ttl cfg) jti (Some f)) | _ \<Rightarrow> None))))"

definition revoke_refresh_token :: "jwt_library \<Rightarrow> token_settings \<Rightarrow> int \<Rightarrow> string \<Rightarrow> redis \<Rightarrow> redis" where
  "revoke_refresh_token j cfg t token rd = (case decode_token j t token ''refresh'' of None \<Rightarrow> rd
     | Some cl \<Rightarrow> (case tk_family cl of None \<Rightarrow> rd | Some f \<Rightarrow> if f = [] then rd else revoke_token_family cfg t f rd))"

section \<open>Interleaved requests\<close>

text \<open>The store, the requests so far, the identifiers issued so far, the clock.\<close>

record token_world =
  tw_store :: redis
  tw_rotations :: "rotation list"
  tw_issued :: "string list"
  tw_clock :: int

inductive token_step :: "token_settings \<Rightarrow> token_world \<Rightarrow> token_world \<Rightarrow> bool" for cfg where
  login: "jti \<notin> set (tw_issued w) \<Longrightarrow> token_step cfg w
     (w\<lparr>tw_store := issue_pipeline cfg (tw_clock w) uid fam jti (tw_store w), tw_issued := jti # tw_issued w\<rparr>)"
| request: "ph \<in> {CheckRevoked, RevokeMembers} \<Longrightarrow> token_step cfg w
     (w\<lparr>tw_rotations := tw_rotations w @ [\<lparr>ro_sub = uid, ro_jti = jti, ro_family = fam, ro_phase = ph\<rparr>]\<rparr>)"
| work: "k < length (tw_rotations w) \<Longrightarrow> ro_phase (tw_rotations w ! k) \<noteq> IssuePair \<Longrightarrow>
     rotate_step cfg (tw_clock w) jti (tw_store w, tw_rotations w ! k) = (rd, r) \<Longrightarrow> token_step cfg w
     (w\<lparr>tw_store := rd, tw_rotations := (tw_rotations w)[k := r]\<rparr>)"
| issue: "k < length (tw_rotations w) \<Longrightarrow> ro_phase (tw_rotations w ! k) = IssuePair \<Longrightarrow> jti \<notin> set (tw_issued w) \<Longrightarrow>
     rotate_step cfg (tw_clock w) jti (tw_store w, tw_rotations w ! k) = (rd, r) \<Longrightarrow> token_step cfg w
     (w\<lparr>tw_store := rd, tw_rotations := (tw_rotations w)[k := r], tw_issued := jti # tw_issued w\<rparr>)"
| wait: "tw_clock w \<le> t \<Longrightarrow> token_step cfg w (w\<lparr>tw_clock := t\<rparr>)"

definition token_start :: "token_world \<Rightarrow> bool" where
  "token_start w \<longleftrightarrow> tw_store w = empty_redis \<and> tw_rotations w = [] \<and> tw_issued w = []"

inductive token_reach :: "token_settings \<Rightarrow> token_world \<Rightarrow> bool" for cfg where
  reach_start: "token_start w \<Longrightarrow> token_reach cfg w"
| reach_step: "token_reach cfg w \<Longrightarrow> token_step cfg w w' \<Longrightarrow> token_reach cfg w'"

inductive_cases token_stepE: "token_step cfg w w'"

interpretation tokens: transition_system token_start "token_step cfg" "token_reach cfg" for cfg
proof
  fix w P
  assume "token_reach cfg w" "\<And>s. token_start s \<Longrightarrow> P s"
    "\<And>s t. token_reach cfg s \<Longrightarrow> P s \<Longrightarrow> token_step cfg s t \<Longrightarrow> P t"
  then show "P w" by (induction rule: token_reach.induct) blast+
qed (auto intro: token_reach.intros)

text \<open>A request that has taken a live record.\<close>

definition redeemed :: "rotation \<Rightarrow> bool" where
  "redeemed r \<longleftrightarrow> (case ro_phase r of DropMember \<Rightarrow> True | IssuePair \<Rightarrow> True | Done (Some _) \<Rightarrow> True | _ \<Rightarrow> False)"

definition redeemers :: "string \<Rightarrow> token_world \<Rightarrow> rotation list" where
  "redeemers j w = filter (\<lambda>r. ro_jti r = j \<and> redeemed r) (tw_rotations w)"

definition stored :: "string \<Rightarrow> token_world \<Rightarrow> bool" where
  "stored j w \<longleftrightarrow> map_of (rd_refresh (tw_store w)) j \<noteq> None"

definition once_inv :: "token_world \<Rightarrow> bool" where
  "once_inv w \<longleftrightarrow> (\<forall>j. length (redeemers j w) + (if stored j w then 1 else 0) \<le> (if j \<in> set (tw_issued w) then 1 else 0))"

section \<open>A refresh token is redeemed once\<close>

lemma length_filter_update:
  "k < length xs \<Longrightarrow> length (filter P (xs[k := y])) + (if P (xs ! k) then 1 else 0) =
     length (filter P xs) + (if P y then 1 else 0)"
proof (induction xs arbitrary: k)
  case (Cons x xs)
  then show ?case by (cases k) auto
qed simp

lemma map_of_fold_kv_del: "map_of (fold kv_del ms s) j = (if j \<in> set ms then None else map_of s j)"
  by (induction ms arbitrary: s) (auto simp: map_of_kv_del)

text \<open>What one command of a rotation does to the records and to whether the request has redeemed one.\<close>

lemma rotate_step_stored:
  assumes "rotate_step cfg t new (rd, r) = (rd', r')"
  shows "ro_jti r' = ro_jti r"
    and "ro_phase r \<noteq> IssuePair \<Longrightarrow> map_of (rd_refresh rd') j \<noteq> None \<Longrightarrow> map_of (rd_refresh rd) j \<noteq> None"
    and "redeemed r' \<Longrightarrow> redeemed r \<or> (ro_phase r = TakeToken \<and> map_of (rd_refresh rd) (ro_jti r) \<noteq> None \<and>
        map_of (rd_refresh rd') (ro_jti r) = None)"
    and "ro_phase r = IssuePair \<Longrightarrow> redeemed r' \<and> redeemed r \<and>
        (map_of (rd_refresh rd') j \<noteq> None \<longrightarrow> j = new \<or> map_of (rd_refresh rd) j \<noteq> None)"
  using assms
  by (auto simp: kv_getdel_def kv_get_def map_of_kv_del issue_pipeline_def revoke_pipeline_def kv_setex_def Let_def
      map_of_fold_kv_del redeemed_def at_phase_def split: rotation_phase.splits option.splits if_splits prod.splits)

lemma redeemers_update:
  assumes "k < length (tw_rotations w)" "tw_rotations w' = (tw_rotations w)[k := r']" "ro_jti r' = ro_jti (tw_rotations w ! k)"
  shows "length (redeemers j w') + (if ro_jti r' = j \<and> redeemed (tw_rotations w ! k) then 1 else 0) =
    length (redeemers j w) + (if ro_jti r' = j \<and> redeemed r' then 1 else 0)"
  using length_filter_update [OF assms(1), of "\<lambda>r. ro_jti r = j \<and> redeemed r" r'] assms(2,3)
  by (simp add: redeemers_def)

lemma once_work:
  assumes "once_inv w" "k < length (tw_rotations w)" "ro_phase (tw_rotations w ! k) \<noteq> IssuePair"
    and "rotate_step cfg t jti (tw_store w, tw_rotations w ! k) = (rd, r)"
  shows "once_inv (w\<lparr>tw_store := rd, tw_rotations := (tw_rotations w)[k := r]\<rparr>)"
  unfolding once_inv_def
proof
  fix j
  let ?w = "w\<lparr>tw_store := rd, tw_rotations := (tw_rotations w)[k := r]\<rparr>" and ?r = "tw_rotations w ! k"
  note step = rotate_step_stored [OF assms(4)]
  have n: "length (redeemers j ?w) + (if ro_jti r = j \<and> redeemed ?r then 1 else 0) =
      length (redeemers j w) + (if ro_jti r = j \<and> redeemed r then 1 else 0)"
    by (rule redeemers_update) (use assms(2) step(1) in simp_all)
  have st: "stored j ?w \<Longrightarrow> stored j w" using step(2) [OF assms(3)] by (simp add: stored_def)
  have new: "\<lbrakk>ro_jti r = j; redeemed r; \<not> redeemed ?r\<rbrakk> \<Longrightarrow> stored j w \<and> \<not> stored j ?w"
    using step(1,3) by (auto simp: stored_def)
  have "length (redeemers j ?w) + (if stored j ?w then 1 else 0) \<le> length (redeemers j w) + (if stored j w then 1 else 0)"
    using n st new by (auto split: if_splits)
  also have "\<dots> \<le> (if j \<in> set (tw_issued w) then 1 else 0)" using assms(1) by (simp add: once_inv_def)
  finally show "length (redeemers j ?w) + (if stored j ?w then 1 else 0) \<le> (if j \<in> set (tw_issued ?w) then 1 else 0)"
    by simp
qed

lemma once_new_record:
  assumes "once_inv w" "jti \<notin> set (tw_issued w)" "\<And>j. length (redeemers j w') = length (redeemers j w)"
    and "\<And>j. stored j w' \<Longrightarrow> j = jti \<or> stored j w" "tw_issued w' = jti # tw_issued w"
  shows "once_inv w'"
  unfolding once_inv_def
proof
  fix j
  have "length (redeemers j w) + (if stored j w then 1 else 0) \<le> (if j \<in> set (tw_issued w) then 1 else 0)"
    using assms(1) by (simp add: once_inv_def)
  then show "length (redeemers j w') + (if stored j w' then 1 else 0) \<le> (if j \<in> set (tw_issued w') then 1 else 0)"
    using assms(2,3,5) assms(4) [of j] by (cases "j = jti") (auto split: if_splits)
qed

lemma once_step: "token_step cfg w w' \<Longrightarrow> once_inv w \<Longrightarrow> once_inv w'"
proof (induction rule: token_step.induct)
  case (login jti w uid fam)
  show ?case
    by (rule once_new_record [OF login(2,1)])
      (auto simp: redeemers_def stored_def issue_pipeline_def Let_def kv_setex_def map_of_kv_del split: if_splits)
next
  case (request ph w uid jti fam)
  let ?r = "\<lparr>ro_sub = uid, ro_jti = jti, ro_family = fam, ro_phase = ph\<rparr>"
  have "\<not> redeemed ?r" using request(1) by (auto simp: redeemed_def)
  then have "redeemers j (w\<lparr>tw_rotations := tw_rotations w @ [?r]\<rparr>) = redeemers j w"
      "stored j (w\<lparr>tw_rotations := tw_rotations w @ [?r]\<rparr>) = stored j w" for j
    by (simp_all add: redeemers_def stored_def)
  then show ?case using request(2) by (simp add: once_inv_def)
next
  case (work k w jti rd r)
  then show ?case by (intro once_work)
next
  case (issue k w jti rd r)
  note step = rotate_step_stored [OF issue(4)]
  show ?case
  proof (rule once_new_record [OF issue.prems issue(3)])
    fix j
    let ?w = "w\<lparr>tw_store := rd, tw_rotations := (tw_rotations w)[k := r], tw_issued := jti # tw_issued w\<rparr>"
    have "length (redeemers j ?w) + (if ro_jti r = j \<and> redeemed (tw_rotations w ! k) then 1 else 0) =
        length (redeemers j w) + (if ro_jti r = j \<and> redeemed r then 1 else 0)"
      by (rule redeemers_update) (use issue(1) step(1) in simp_all)
    then show "length (redeemers j ?w) = length (redeemers j w)" using step(4) [OF issue(2)] by (auto split: if_splits)
    show "j = jti \<or> stored j w" if "stored j ?w"
      using that step(4) [OF issue(2)] by (simp add: stored_def)
  qed simp
next
  case (wait w t)
  then show ?case by (simp add: once_inv_def redeemers_def stored_def)
qed

lemma once_reach: "token_reach cfg w \<Longrightarrow> once_inv w"
proof (rule tokens.invariant [of once_inv])
  fix s :: token_world
  assume "token_start s"
  then show "once_inv s" by (simp add: token_start_def once_inv_def redeemers_def stored_def empty_redis_def)
qed (auto intro: once_step)

section \<open>A revoked family stays revoked\<close>

definition revoked_until :: "int \<Rightarrow> string \<Rightarrow> redis \<Rightarrow> bool" where
  "revoked_until e fam rd \<longleftrightarrow> (\<exists>e'. map_of (rd_revoked rd) fam = Some ((), e') \<and> e \<le> e')"

lemma revoked_until_step:
  assumes "rotate_step cfg t new (rd, r) = (rd', r')" "revoked_until e fam rd" "e \<le> t + refresh_ttl cfg"
  shows "revoked_until e fam rd'"
  using assms
  by (auto simp: revoked_until_def kv_getdel_def issue_pipeline_def revoke_pipeline_def kv_setex_def Let_def
      map_of_kv_del split: rotation_phase.splits option.splits if_splits prod.splits)

lemma token_step_revoked:
  assumes "token_step cfg w w'" "revoked_until e fam (tw_store w)" "e \<le> tw_clock w + refresh_ttl cfg"
  shows "revoked_until e fam (tw_store w') \<and> e \<le> tw_clock w' + refresh_ttl cfg"
  using assms
proof (induction rule: token_step.induct)
  case (login jti w uid fam')
  then show ?case by (simp add: revoked_until_def issue_pipeline_def Let_def)
next
  case (work k w jti rd r)
  from revoked_until_step [OF work(3-5)] work(5) show ?case by simp
next
  case (issue k w jti rd r)
  from revoked_until_step [OF issue(4-6)] issue(6) show ?case by simp
qed simp_all

lemma revoked_until_steps:
  assumes "(token_step cfg)\<^sup>*\<^sup>* w w'" "revoked_until e fam (tw_store w)" "e \<le> tw_clock w + refresh_ttl cfg"
  shows "revoked_until e fam (tw_store w')"
proof -
  have "revoked_until e fam (tw_store w') \<and> e \<le> tw_clock w' + refresh_ttl cfg"
    using assms by (induction rule: rtranclp_induct) (use token_step_revoked in blast)+
  then show ?thesis ..
qed

section \<open>Tickets\<close>

lemma ticket_once:
  "consume_websocket_ticket t ticket rd = (rd', Some uid) \<Longrightarrow> consume_websocket_ticket t' ticket rd' = (rd'', x) \<Longrightarrow> x = None"
  by (auto simp: consume_websocket_ticket_def kv_getdel_def redis_kv.taken_stays_taken split: if_splits)

end
