(* ===== verification/Auth.thy ===== *)
theory Auth
  imports Lifecycle Tokens
begin

text \<open>
  Authentication: the request schemas of \<open>app/schemas.py\<close>, the endpoints of
  \<open>app/routers/auth.py\<close> and \<open>get_current_user\<close> of \<open>app/deps.py\<close>.  The state is the
  database and the Redis store of the theory Tokens.  The password library is a parameter.  Reading
  endpoints run on a snapshot; a registration reads in one snapshot and inserts in a later state,
  because concurrent registrations commit in between.
\<close>

lemma add_audit_event_api_keys [simp]: "api_keys (add_audit_event c i e s) = api_keys s"
  by (simp add: add_audit_event_def)

section \<open>Input validation\<close>

definition normalize_username :: "unicode \<Rightarrow> ustr \<Rightarrow> ustr" where
  "normalize_username U value = strip (nfkc U value)"

text \<open>\<open>re.sub(r"[\s-]+", "", phone)\<close>, the prefixes, \<open>re.fullmatch(r"1[3-9]\d{9}", phone)\<close>.\<close>

definition phone_ok :: "ustr \<Rightarrow> bool" where
  "phone_ok p \<longleftrightarrow> length p = 11 \<and> p ! 0 = 49 \<and> p ! 1 \<in> {51..57} \<and> list_all is_decimal (drop 2 p)"

definition normalize_phone :: "unicode \<Rightarrow> ustr \<Rightarrow> ustr option" where
  "normalize_phone U value =
     (let compact = filter (\<lambda>x. \<not> is_space x \<and> x \<noteq> 45) (strip (nfkc U value));
          phone = (if startswith compact (u ''+86'') then drop 3 compact
                   else if startswith compact (u ''0086'') then drop 4 compact else compact)
      in if phone_ok phone then Some phone else None)"

record register_body =
  rb_username :: ustr
  rb_phone :: ustr
  rb_password :: ustr

definition validate_register :: "unicode \<Rightarrow> register_body \<Rightarrow> (ustr \<times> ustr \<times> ustr) http" where
  "validate_register U b =
     (let name = normalize_username U (rb_username b) in
      if length name < 3 \<or> 64 < length name \<or> length (rb_password b) < 6 \<or> 128 < length (rb_password b) then Inl 422
      else case normalize_phone U (rb_phone b) of None \<Rightarrow> Inl 422 | Some phone \<Rightarrow> Inr (name, phone, rb_password b))"

section \<open>Parameters and state\<close>

record password_library =
  hash_password :: "nat \<Rightarrow> ustr \<Rightarrow> string"
  verify_password :: "ustr \<Rightarrow> string \<Rightarrow> bool"

record auth_state =
  au_db :: sys
  au_redis :: redis

record auth_env =
  ev_jwt :: jwt_library
  ev_tokens :: token_settings
  ev_passwords :: password_library
  ev_expose_refresh :: bool

text \<open>What the refresh and logout endpoints read from the request, and what they do to the cookie.\<close>

record cookie_request =
  cr_origin :: "string option"
  cr_base_url :: string
  cr_body_token :: "string option"
  cr_cookie :: "string option"

datatype cookie = KeepCookie | SetCookie string | ClearCookie

definition rstrip_slash :: "string \<Rightarrow> string" where
  "rstrip_slash x = rev (dropWhile (\<lambda>c. c = CHR ''/'') (rev x))"

definition same_origin :: "cookie_request \<Rightarrow> bool" where
  "same_origin r = (case cr_origin r of None \<Rightarrow> True | Some x \<Rightarrow> x = [] \<or> rstrip_slash x = rstrip_slash (cr_base_url r))"

definition refresh_from_request :: "cookie_request \<Rightarrow> string option" where
  "refresh_from_request r = str_or (cr_body_token r) (cr_cookie r)"

definition body_refresh :: "auth_env \<Rightarrow> string \<Rightarrow> string option" where
  "body_refresh ev token = (if ev_expose_refresh ev then Some token else None)"

definition user_named :: "sys \<Rightarrow> ustr \<Rightarrow> user option" where
  "user_named s name = find_row (\<lambda>x. u_username x = name) (users s)"

definition user_by_id :: "sys \<Rightarrow> string \<Rightarrow> user option" where
  "user_by_id s i = find_row (\<lambda>x. u_id x = i) (users s)"

section \<open>Registration and login\<close>

text \<open>\<open>seen\<close> is the snapshot of the two reads, \<open>s\<close> the state in which the rows are inserted; the
  insert is flushed before the \<open>try\<close> around the commit.\<close>

definition register :: "ctx \<Rightarrow> auth_env \<Rightarrow> register_body \<Rightarrow> sys \<Rightarrow> sys \<Rightarrow> (sys \<times> ustr) http" where
  "register c ev body seen s =
     (case validate_register (uni c) body of Inl e \<Rightarrow> Inl e | Inr (name, phone, password) \<Rightarrow>
      if user_named seen name \<noteq> None then Inl 409
      else if \<exists>x \<in> set (users seen). u_phone x = Some phone then Inl 409
      else if \<exists>x \<in> set (users s). u_username x = name \<or> u_phone x = Some phone then Inl 500
      else
        let usr = \<lparr>u_id = fresh c 0, u_username = name, u_phone = Some phone,
                   u_password_hash = hash_password (ev_passwords ev) 0 password, u_created = now c\<rparr>;
            organization = \<lparr>g_id = fresh c 1, g_name = name @ u '' organization'', g_created_by = fresh c 0, g_created = now c\<rparr>;
            workspace = \<lparr>w_id = fresh c 2, w_org = fresh c 1, w_name = u ''Personal'', w_created = now c\<rparr>;
            membership = \<lparr>m_id = fresh c 3, m_ws = fresh c 2, m_user = fresh c 0, m_role = Owner, m_created = now c\<rparr>;
            event = (audit_event ''identity.register'' ''user'' (Some (fresh c 0)))
              \<lparr>ae_resource := Some (fresh c 0), ae_ws := Some (fresh c 2), ae_org := Some (fresh c 1),
               ae_request := Some (req c), ae_after := Some (JObj [(''username'', JStr name)])\<rparr>
        in Inr (add_audit_event c 4 event (s\<lparr>users := users s @ [usr], orgs := orgs s @ [organization],
              workspaces := workspaces s @ [workspace], memberships := memberships s @ [membership]\<rparr>), name))"

definition login ::
  "ctx \<Rightarrow> auth_env \<Rightarrow> ustr \<Rightarrow> ustr \<Rightarrow> auth_state \<Rightarrow> (auth_state \<times> cookie \<times> string \<times> string option) http" where
  "login c ev username password s =
     (case user_named (au_db s) (normalize_username (uni c) username) of None \<Rightarrow> Inl 401 | Some usr \<Rightarrow>
      if \<not> verify_password (ev_passwords ev) password (u_password_hash usr) then Inl 401
      else case issue_token_pair (ev_jwt ev) (ev_tokens ev) (now c) (fresh c) (u_id usr) None (au_redis s) of
        (rd, access, refresh) \<Rightarrow> Inr (s\<lparr>au_redis := rd\<rparr>, SetCookie refresh, access, body_refresh ev refresh))"

definition refresh_tokens ::
  "ctx \<Rightarrow> auth_env \<Rightarrow> cookie_request \<Rightarrow> auth_state \<Rightarrow> auth_state \<times> (cookie \<times> string \<times> string option) http" where
  "refresh_tokens c ev r s =
     (if \<not> same_origin r then (s, Inl 403)
      else case refresh_from_request r of None \<Rightarrow> (s, Inl 401) | Some token \<Rightarrow> if token = [] then (s, Inl 401)
      else case rotate_refresh_token (ev_jwt ev) (ev_tokens ev) (now c) (fresh c) token (au_redis s) of
        (rd, None) \<Rightarrow> (s\<lparr>au_redis := rd\<rparr>, Inl 401)
      | (rd, Some (access, refresh)) \<Rightarrow> (s\<lparr>au_redis := rd\<rparr>, Inr (SetCookie refresh, access, body_refresh ev refresh)))"

definition logout :: "ctx \<Rightarrow> auth_env \<Rightarrow> cookie_request \<Rightarrow> auth_state \<Rightarrow> (auth_state \<times> cookie) http" where
  "logout c ev r s =
     (if \<not> same_origin r then Inl 403
      else Inr (case refresh_from_request r of
          None \<Rightarrow> s
        | Some token \<Rightarrow> if token = [] then s
            else s\<lparr>au_redis := revoke_refresh_token (ev_jwt ev) (ev_tokens ev) (now c) token (au_redis s)\<rparr>,
        ClearCookie))"

definition websocket_ticket :: "ctx \<Rightarrow> auth_env \<Rightarrow> user \<Rightarrow> auth_state \<Rightarrow> auth_state \<times> string \<times> int" where
  "websocket_ticket c ev usr s =
     (case issue_websocket_ticket (ev_tokens ev) (now c) (fresh c 0) (u_id usr) (au_redis s) of
        (rd, ticket) \<Rightarrow> (s\<lparr>au_redis := rd\<rparr>, ticket, websocket_ticket_ttl_seconds (ev_tokens ev)))"

definition change_password ::
  "ctx \<Rightarrow> auth_env \<Rightarrow> user \<Rightarrow> ustr \<Rightarrow> ustr \<Rightarrow> auth_state \<Rightarrow> (auth_state \<times> cookie) http" where
  "change_password c ev usr current new s =
     (if length new < 8 \<or> 128 < length new then Inl 422
      else if \<not> verify_password (ev_passwords ev) current (u_password_hash usr) then Inl 401
      else
        let db = au_db s;
            db1 = db\<lparr>users := update_where (\<lambda>x. u_id x = u_id usr)
              (\<lambda>x. x\<lparr>u_password_hash := hash_password (ev_passwords ev) 0 new\<rparr>) (users db)\<rparr>;
            event = (audit_event ''identity.password.change'' ''user'' (Some (u_id usr)))
              \<lparr>ae_resource := Some (u_id usr), ae_request := Some (req c)\<rparr>
        in Inr (s\<lparr>au_db := add_audit_event c 0 event db1,
               au_redis := revoke_all_user_families (ev_tokens ev) (now c) (u_id usr) (au_redis s)\<rparr>, ClearCookie))"

section \<open>API keys\<close>

definition create_api_key ::
  "ctx \<Rightarrow> string \<Rightarrow> ustr \<Rightarrow> datetime option \<Rightarrow> string \<Rightarrow> sys \<Rightarrow> (sys \<times> api_key \<times> string) http" where
  "create_api_key c user_id name expires_at random s =
     (if length name < 1 \<or> 100 < length name then Inl 422
      else if (case expires_at of None \<Rightarrow> False | Some e \<Rightarrow> e \<le> now c) then Inl 422
      else
        let secret = ''rag_'' @ random;
            credential = \<lparr>ak_id = fresh c 0, ak_owner = user_id, ak_name = name, ak_prefix = take 12 secret,
              ak_secret_hash = sha256 c (u secret), ak_expires = expires_at, ak_revoked = None,
              ak_last_used = None, ak_created = now c\<rparr>;
            event = (audit_event ''api_key.create'' ''api_key'' (Some user_id))
              \<lparr>ae_resource := Some (ak_id credential), ae_request := Some (req c),
               ae_after := Some (JObj [(''name'', JStr name), (''prefix'', jid (ak_prefix credential)),
                  (''expires_at'', jid (case expires_at of None \<Rightarrow> ''None'' | Some e \<Rightarrow> show_time c e))])\<rparr>
        in if \<exists>k \<in> set (api_keys s). ak_secret_hash k = ak_secret_hash credential then Inl 500
           else Inr (add_audit_event c 1 event (s\<lparr>api_keys := api_keys s @ [credential]\<rparr>), credential, secret))"

definition list_api_keys :: "sys \<Rightarrow> string \<Rightarrow> api_key list" where
  "list_api_keys s user_id = sort_desc ak_created (filter (\<lambda>k. ak_owner k = user_id) (api_keys s))"

definition revoke_api_key :: "ctx \<Rightarrow> string \<Rightarrow> string \<Rightarrow> sys \<Rightarrow> (sys \<times> unit) http" where
  "revoke_api_key c user_id key_id s =
     (let P = (\<lambda>k. ak_id k = key_id \<and> ak_owner k = user_id);
          event = (audit_event ''api_key.revoke'' ''api_key'' (Some user_id))
            \<lparr>ae_resource := Some key_id, ae_request := Some (req c)\<rparr>
      in if \<not> (\<exists>k \<in> set (api_keys s). P k) then Inl 404
         else Inr (add_audit_event c 0 event
           (s\<lparr>api_keys := update_where P (\<lambda>k. k\<lparr>ak_revoked := Some (now c)\<rparr>) (api_keys s)\<rparr>), ()))"

section \<open>The current user\<close>

definition active_key :: "ctx \<Rightarrow> string \<Rightarrow> sys \<Rightarrow> api_key option" where
  "active_key c key s = (case find_row (\<lambda>k. ak_secret_hash k = sha256 c (u key) \<and> ak_revoked k = None) (api_keys s) of
     None \<Rightarrow> None
   | Some k \<Rightarrow> (case ak_expires k of None \<Rightarrow> Some k | Some e \<Rightarrow> if now c < e then Some k else None))"

definition get_current_user ::
  "ctx \<Rightarrow> jwt_library \<Rightarrow> string option \<Rightarrow> string option \<Rightarrow> sys \<Rightarrow> sys \<times> user http" where
  "get_current_user c j bearer key s =
     (case Option.bind bearer (decode_access_token j (now c)) of
        Some uid \<Rightarrow> (s, (case user_by_id s uid of None \<Rightarrow> Inl 401 | Some usr \<Rightarrow> Inr usr))
      | None \<Rightarrow> (case key of None \<Rightarrow> (s, Inl 401) | Some k \<Rightarrow> if k = [] then (s, Inl 401)
          else case active_key c k s of None \<Rightarrow> (s, Inl 401) | Some cred \<Rightarrow>
            let s1 = s\<lparr>api_keys := update_where (\<lambda>x. ak_id x = ak_id cred) (\<lambda>x. x\<lparr>ak_last_used := Some (now c)\<rparr>) (api_keys s)\<rparr>
            in (s1, (case user_by_id s1 (ak_owner cred) of None \<Rightarrow> Inl 401 | Some usr \<Rightarrow> Inr usr))))"

end
