(* ===== verification/AuthClaims.thy ===== *)
theory AuthClaims
  imports Auth Demo
begin

text \<open>
  The properties of tokens, registration, login and API keys.
\<close>

section \<open>Lemmas\<close>

definition jwt_ok :: "jwt_library \<Rightarrow> bool" where
  "jwt_ok j \<longleftrightarrow> (\<forall>cl. jwt_verify j (jwt_encode j cl) = Some cl)"

definition passwords_ok :: "password_library \<Rightarrow> bool" where
  "passwords_ok p \<longleftrightarrow> (\<forall>salt x. verify_password p x (hash_password p salt x))"

lemma decode_created:
  assumes "jwt_ok j" "t' < t + life" "uid \<noteq> []"
  shows "decode_token j t' (create_token j t uid typ life jti fam) typ =
    Some \<lparr>tk_sub = uid, tk_type = typ, tk_jti = jti, tk_iat = t, tk_exp = t + life,
      tk_family = (case fam of None \<Rightarrow> None | Some f \<Rightarrow> if f = [] then None else Some f)\<rparr>"
  using assms by (simp add: decode_token_def create_token_def jwt_decode_def jwt_ok_def)

lemma register_cases:
  assumes "register c ev body seen s = Inr (t, name)"
  obtains phone usr where "validate_register (uni c) body = Inr (name, phone, rb_password body)"
    "users t = users s @ [usr]" "u_username usr = name" "u_phone usr = Some phone" "u_id usr = fresh c 0"
    "u_password_hash usr = hash_password (ev_passwords ev) 0 (rb_password body)"
    "\<forall>x \<in> set (users s). u_username x \<noteq> name \<and> u_phone x \<noteq> Some phone"
    "memberships t = memberships s @ [\<lparr>m_id = fresh c 3, m_ws = fresh c 2, m_user = fresh c 0, m_role = Owner, m_created = now c\<rparr>]"
proof -
  obtain phone where v: "validate_register (uni c) body = Inr (name, phone, rb_password body)"
    using assms by (auto simp: register_def validate_register_def Let_def split: sum.splits if_splits option.splits)
  with assms show ?thesis
    by (intro that [of phone]) (auto simp: register_def Let_def split: if_splits)
qed

lemma rotate_revoked:
  assumes "kv_get t f (rd_revoked rd) \<noteq> None" "decode_token j t token ''refresh'' = Some cl" "tk_family cl = Some f"
  shows "rotate_refresh_token j cfg t uuid token rd = (rd, None)"
  using assms by (auto simp: rotate_refresh_token_def eval_nat_numeral)

lemma revoke_family_marks: "t' < t + refresh_ttl cfg \<Longrightarrow> kv_get t' f (rd_revoked (revoke_token_family cfg t f rd)) \<noteq> None"
  by (simp add: revoke_token_family_def revoke_pipeline_def kv_simps)

lemma revoke_family_keeps_marks:
  "t' < t + refresh_ttl cfg \<Longrightarrow> kv_get t' f (rd_revoked rd) \<noteq> None \<Longrightarrow>
     kv_get t' f (rd_revoked (revoke_token_family cfg t g rd)) \<noteq> None"
  by (simp add: revoke_token_family_def revoke_pipeline_def kv_simps)

lemma fold_revoke_marks:
  "t' < t + refresh_ttl cfg \<Longrightarrow> f \<in> set fs \<or> kv_get t' f (rd_revoked rd) \<noteq> None \<Longrightarrow>
     kv_get t' f (rd_revoked (fold (revoke_token_family cfg t) fs rd)) \<noteq> None"
proof (induction fs arbitrary: rd)
  case (Cons g fs)
  then have "f \<in> set fs \<or> kv_get t' f (rd_revoked (revoke_token_family cfg t g rd)) \<noteq> None"
    using revoke_family_marks revoke_family_keeps_marks by auto
  with Cons.IH [OF Cons.prems(1)] show ?case by simp
qed simp

section \<open>Properties\<close>

text \<open>C25: however requests interleave between their Redis commands, a refresh token is redeemed at most
  once: of all rotations with its identifier, at most one gets past the one-time record.\<close>

theorem refresh_token_redeemed_once:
  assumes "token_reach cfg w"
  shows "length (redeemers j w) \<le> 1"
proof -
  have "length (redeemers j w) + (if stored j w then 1 else 0) \<le> (if j \<in> set (tw_issued w) then 1 else 0)"
    using once_reach [OF assms] by (simp add: once_inv_def)
  then show ?thesis by (auto split: if_splits)
qed

definition demo_tokens :: token_settings where
  "demo_tokens = \<lparr>access_token_expire_minutes = 30, refresh_token_expire_days = 7, websocket_ticket_ttl_seconds = 60\<rparr>"

theorem refresh_token_redeemed_once_witness:
  "\<exists>w. token_reach demo_tokens w \<and> tw_issued w = [''j1''] \<and> length (redeemers ''j1'' w) \<le> 1"
proof -
  let ?w = "\<lparr>tw_store = empty_redis, tw_rotations = [], tw_issued = [], tw_clock = 0\<rparr>"
  let ?v = "?w\<lparr>tw_store := issue_pipeline demo_tokens (tw_clock ?w) ''u1'' ''f1'' ''j1'' (tw_store ?w), tw_issued := ''j1'' # tw_issued ?w\<rparr>"
  have "token_reach demo_tokens ?w" by (rule token_reach.reach_start) (simp add: token_start_def)
  moreover have "token_step demo_tokens ?w ?v" by (rule token_step.login) simp
  ultimately have "token_reach demo_tokens ?v" by (rule token_reach.reach_step)
  from refresh_token_redeemed_once [OF this, of "''j1''"] this show ?thesis by (intro exI [of _ ?v]) simp
qed

text \<open>Once a family has been revoked, no rotation of that family that starts before the tokens have
  expired gets a new pair, whatever other requests did in between.\<close>

theorem revoked_family_refused:
  assumes "ro_phase r = RevokeCommit ms x" "rotate_step cfg (tw_clock w) j (tw_store w, r) = (rd, r')"
    and "(token_step cfg)\<^sup>*\<^sup>* (w\<lparr>tw_store := rd\<rparr>) w'" "tw_clock w' < tw_clock w + refresh_ttl cfg"
    and "ro_phase q = CheckRevoked" "ro_family q = ro_family r"
  shows "rotate_step cfg (tw_clock w') j' (tw_store w', q) = (tw_store w', at_phase (Done None) q)"
proof -
  let ?e = "tw_clock w + refresh_ttl cfg"
  have "revoked_until ?e (ro_family r) rd"
    using assms(1,2) by (auto simp: revoked_until_def revoke_pipeline_def kv_setex_def)
  then have "revoked_until ?e (ro_family r) (tw_store w')"
    using revoked_until_steps [OF assms(3), of ?e] by simp
  then have "kv_get (tw_clock w') (ro_family q) (rd_revoked (tw_store w')) \<noteq> None"
    using assms(4,6) by (auto simp: revoked_until_def kv_get_def)
  then show ?thesis using assms(5) by simp
qed

theorem revoked_family_refused_witness:
  "rotate_step demo_tokens 5 ''n'' (revoke_pipeline demo_tokens 0 ''f1'' [] None empty_redis,
     \<lparr>ro_sub = ''u1'', ro_jti = ''j1'', ro_family = ''f1'', ro_phase = CheckRevoked\<rparr>) =
   (revoke_pipeline demo_tokens 0 ''f1'' [] None empty_redis,
     \<lparr>ro_sub = ''u1'', ro_jti = ''j1'', ro_family = ''f1'', ro_phase = Done None\<rparr>)"
proof -
  let ?w = "\<lparr>tw_store = empty_redis, tw_rotations = [], tw_issued = [], tw_clock = 0\<rparr>"
  let ?r = "\<lparr>ro_sub = ''u1'', ro_jti = ''j0'', ro_family = ''f1'', ro_phase = RevokeCommit [] None\<rparr>"
  let ?q = "\<lparr>ro_sub = ''u1'', ro_jti = ''j1'', ro_family = ''f1'', ro_phase = CheckRevoked\<rparr>"
  let ?rd = "revoke_pipeline demo_tokens 0 ''f1'' [] None empty_redis"
  have run: "rotate_step demo_tokens (tw_clock ?w) ''n'' (tw_store ?w, ?r) = (?rd, at_phase (Done None) ?r)" by simp
  have "token_step demo_tokens (?w\<lparr>tw_store := ?rd\<rparr>) (?w\<lparr>tw_store := ?rd\<rparr>\<lparr>tw_clock := 5\<rparr>)"
    by (rule token_step.wait) simp
  then have steps: "(token_step demo_tokens)\<^sup>*\<^sup>* (?w\<lparr>tw_store := ?rd\<rparr>) (?w\<lparr>tw_store := ?rd\<rparr>\<lparr>tw_clock := 5\<rparr>)" by blast
  show ?thesis
    using revoked_family_refused [OF _ run steps, of "[]" None ?q "''n''"]
    by (simp add: refresh_ttl_def demo_tokens_def seconds_def at_phase_def)
qed


definition demo_register :: register_body where
  "demo_register = \<lparr>rb_username = u ''bob'', rb_phone = u ''+86 138-0000-0000'', rb_password = u ''secret1''\<rparr>"

text \<open>A concrete token format for the witnesses: fields with their length in front.\<close>

definition put :: "string \<Rightarrow> string" where
  "put x = replicate (length x) CHR ''1'' @ CHR ''0'' # x"

definition get_field :: "string \<Rightarrow> string \<times> string" where
  "get_field t = (let n = length (takeWhile (\<lambda>c. c = CHR ''1'') t) in (take n (drop (Suc n) t), drop (Suc (n + n)) t))"

lemma get_put [simp]: "get_field (put x @ r) = (x, r)"
proof -
  have tw: "takeWhile (\<lambda>c. c = CHR ''1'') (replicate n CHR ''1'' @ CHR ''0'' # y) = replicate n CHR ''1''" for n y
    by (induction n) auto
  have "takeWhile (\<lambda>c. c = CHR ''1'') (put x @ r) = replicate (length x) CHR ''1''"
    by (simp add: put_def tw)
  then show ?thesis by (simp add: get_field_def Let_def) (simp add: put_def)
qed

definition put_int :: "int \<Rightarrow> string" where
  "put_int i = put ((if i < 0 then ''-'' else ''+'') @ replicate (nat \<bar>i\<bar>) CHR ''1'')"

definition int_of :: "string \<Rightarrow> int" where
  "int_of x = (if hd x = CHR ''-'' then - int (length (tl x)) else int (length (tl x)))"

lemma int_of_put: "int_of ((if i < 0 then ''-'' else ''+'') @ replicate (nat \<bar>i\<bar>) CHR ''1'') = i"
  by (simp add: int_of_def)

definition demo_jwt :: jwt_library where
  "demo_jwt = \<lparr>jwt_encode = (\<lambda>cl. put (tk_sub cl) @ put (tk_type cl) @ put (tk_jti cl) @ put_int (tk_iat cl) @
       put_int (tk_exp cl) @ put (case tk_family cl of None \<Rightarrow> [] | Some f \<Rightarrow> CHR ''s'' # f)),
     jwt_verify = (\<lambda>x. case get_field x of (a, r1) \<Rightarrow> case get_field r1 of (b, r2) \<Rightarrow> case get_field r2 of (d, r3) \<Rightarrow>
       case get_field r3 of (e, r4) \<Rightarrow> case get_field r4 of (f, r5) \<Rightarrow> case get_field r5 of (g, _) \<Rightarrow>
       Some \<lparr>tk_sub = a, tk_type = b, tk_jti = d, tk_iat = int_of e, tk_exp = int_of f,
         tk_family = (if g = [] then None else Some (tl g))\<rparr>)\<rparr>"

lemma demo_jwt_ok: "jwt_ok demo_jwt"
  unfolding jwt_ok_def
proof
  fix cl
  have g: "get_field (put x) = (x, [])" for x using get_put [of x "[]"] by simp
  show "jwt_verify demo_jwt (jwt_encode demo_jwt cl) = Some cl"
    by (cases cl) (simp add: demo_jwt_def put_int_def int_of_put g del: append.simps append_assoc split: option.splits)
qed

definition demo_env :: auth_env where
  "demo_env = \<lparr>ev_jwt = demo_jwt, ev_tokens = demo_tokens,
     ev_passwords = \<lparr>hash_password = (\<lambda>salt p. map char_of p), verify_password = (\<lambda>p h. h = map char_of p)\<rparr>,
     ev_expose_refresh = False\<rparr>"

definition demo_bob :: user where
  "demo_bob = \<lparr>u_id = ''u9'', u_username = u ''bob'', u_phone = None, u_password_hash = [], u_created = 0\<rparr>"


text \<open>Who registers can log in: after a registration, login with the same name and password succeeds,
  and until it expires the access token it returns names the new user.\<close>

theorem register_then_login:
  assumes "register c ev body seen s = Inr (t, name)" "jwt_ok (ev_jwt ev)" "passwords_ok (ev_passwords ev)"
    and "uni c' = uni c" "fresh c 0 \<noteq> []" "now c' \<le> t'" "t' < now c' + access_lifetime (ev_tokens ev)"
  shows "\<exists>st ck access body_token. login c' ev (rb_username body) (rb_password body) \<lparr>au_db = t, au_redis = rd\<rparr> =
      Inr (st, ck, access, body_token) \<and> decode_access_token (ev_jwt ev) t' access = Some (fresh c 0)"
proof -
  obtain phone usr where r: "validate_register (uni c) body = Inr (name, phone, rb_password body)"
    "users t = users s @ [usr]" "u_username usr = name" "u_id usr = fresh c 0"
    "u_password_hash usr = hash_password (ev_passwords ev) 0 (rb_password body)"
    "\<forall>x \<in> set (users s). u_username x \<noteq> name \<and> u_phone x \<noteq> Some phone"
    using register_cases [OF assms(1)] by metis
  have name: "normalize_username (uni c) (rb_username body) = name"
    using r(1) by (auto simp: validate_register_def Let_def split: if_splits option.splits)
  have none: "find_row (\<lambda>x. u_username x = name) (users s) = None" using r(6) by (simp add: find_row_None)
  have "user_named t name = Some usr" by (simp add: user_named_def r(2,3) find_row_append none)
  moreover have "verify_password (ev_passwords ev) (rb_password body) (u_password_hash usr)"
    using assms(3) by (simp add: passwords_ok_def r(5))
  ultimately have "login c' ev (rb_username body) (rb_password body) \<lparr>au_db = t, au_redis = rd\<rparr> =
      (case issue_token_pair (ev_jwt ev) (ev_tokens ev) (now c') (fresh c') (fresh c 0) None rd of
        (rd, access, refresh) \<Rightarrow> Inr (\<lparr>au_db = t, au_redis = rd\<rparr>, SetCookie refresh, access, body_refresh ev refresh))"
    by (simp add: login_def assms(4) name r(4))
  moreover have "decode_access_token (ev_jwt ev) t'
      (create_token (ev_jwt ev) (now c') (fresh c 0) ''access'' (access_lifetime (ev_tokens ev)) (fresh c' 2) None) = Some (fresh c 0)"
    unfolding decode_access_token_def using decode_created [OF assms(2,7,5)] by simp
  ultimately show ?thesis by (simp add: issue_token_pair_def Let_def)
qed


text \<open>An API key authenticates its owner from its creation until it expires or is revoked, and never
  after its owner revoked it.\<close>

theorem api_key_lifecycle:
  assumes "create_api_key c uid name expires random s = Inr (t, cred, secret)"
    and "user_by_id t uid = Some usr" "sha256 c' = sha256 c" "sha256 c'' = sha256 c"
    and "\<forall>e. expires = Some e \<longrightarrow> now c' < e" "distinct (map ak_id (api_keys t))"
  shows "snd (get_current_user c' j None (Some secret) t) = Inr usr \<and>
    (\<exists>v. revoke_api_key c'' uid (ak_id cred) t = Inr (v, ()) \<and> snd (get_current_user c' j None (Some secret) v) = Inl 401)"
proof -
  have k: "api_keys t = api_keys s @ [cred]" "ak_owner cred = uid" "ak_secret_hash cred = sha256 c (u secret)"
    "ak_revoked cred = None" "ak_expires cred = expires" "secret \<noteq> []"
    "\<forall>x \<in> set (api_keys s). ak_secret_hash x \<noteq> sha256 c (u secret)"
    using assms(1) by (auto simp: create_api_key_def Let_def split: if_splits)
  have "find_row (\<lambda>k. ak_secret_hash k = sha256 c (u secret) \<and> ak_revoked k = None) (api_keys s) = None"
    using k(7) by (simp add: find_row_None)
  then have "active_key c' secret t = Some cred"
    using assms(3,5) k by (auto simp: active_key_def find_row_append split: option.splits)
  then have auth: "snd (get_current_user c' j None (Some secret) t) = Inr usr"
    using assms(2) k(2,6) by (simp add: get_current_user_def Let_def user_by_id_def)
  let ?P = "\<lambda>x. ak_id x = ak_id cred \<and> ak_owner x = uid"
  obtain v where v: "revoke_api_key c'' uid (ak_id cred) t = Inr (v, ())"
      "api_keys v = update_where ?P (\<lambda>x. x\<lparr>ak_revoked := Some (now c'')\<rparr>) (api_keys t)"
    using k(1,2) by (auto simp: revoke_api_key_def Let_def add_audit_event_def)
  have "find_row (\<lambda>x. ak_secret_hash x = sha256 c (u secret) \<and> ak_revoked x = None) (api_keys v) = None"
    unfolding find_row_None v(2) k(1) using k(2,7) by (auto simp: in_update_where split: if_splits)
  then have "active_key c' secret v = None" by (simp add: active_key_def assms(3))
  then have "snd (get_current_user c' j None (Some secret) v) = Inl 401" using k(6) by (simp add: get_current_user_def)
  with auth v(1) show ?thesis by blast
qed

lemma demo_env_ok: "jwt_ok (ev_jwt demo_env)" "passwords_ok (ev_passwords demo_env)"
  using demo_jwt_ok by (simp_all add: demo_env_def passwords_ok_def)

lemma demo_register_valid: "validate_register demo_unicode demo_register = Inr (u ''bob'', u ''13800000000'', u ''secret1'')"
  by (simp add: validate_register_def demo_register_def normalize_username_def normalize_phone_def demo_unicode_def u_def
      strip_def lstrip_def rstrip_def is_space_def startswith_def phone_ok_def is_decimal_def digit_value_def
      decimal_zeros_def Let_def)

theorem register_then_login_witness:
  "\<exists>t st ck access x. register (demo_ctx 1 ''r'') demo_env demo_register demo_sys demo_sys = Inr (t, u ''bob'') \<and>
     login (demo_ctx 2 ''l'') demo_env (u ''bob'') (u ''secret1'') \<lparr>au_db = t, au_redis = empty_redis\<rparr> = Inr (st, ck, access, x) \<and>
     decode_access_token demo_jwt 3 access = Some ''r''"
proof -
  have uni: "uni (demo_ctx 1 ''r'') = demo_unicode" "uni (demo_ctx 2 ''l'') = uni (demo_ctx 1 ''r'')"
    by (simp_all add: demo_ctx_def)
  have "\<exists>t. register (demo_ctx 1 ''r'') demo_env demo_register demo_sys demo_sys = Inr (t, u ''bob'')"
    by (simp add: register_def uni(1) demo_register_valid user_named_def Let_def demo_sys_def demo_user_def u_def)
  then obtain t where reg: "register (demo_ctx 1 ''r'') demo_env demo_register demo_sys demo_sys = Inr (t, u ''bob'')" by blast
  have f: "fresh (demo_ctx 1 ''r'') 0 = ''r''" "ev_jwt demo_env = demo_jwt" "rb_username demo_register = u ''bob''"
    "rb_password demo_register = u ''secret1''" by (simp_all add: demo_ctx_def demo_env_def demo_register_def)
  have t: "fresh (demo_ctx 1 ''r'') 0 \<noteq> []" "now (demo_ctx 2 ''l'') \<le> 3"
      "3 < now (demo_ctx 2 ''l'') + access_lifetime (ev_tokens demo_env)"
    by (simp_all add: demo_ctx_def demo_env_def demo_tokens_def access_lifetime_def seconds_def)
  from register_then_login [OF reg demo_env_ok uni(2) t, of empty_redis] reg show ?thesis
    unfolding f by blast
qed

definition demo_login :: redis where
  "demo_login = issue_pipeline demo_tokens 0 ''u1'' ''f1'' ''j1'' empty_redis"


theorem api_key_lifecycle_witness:
  "\<exists>t cred v. create_api_key (demo_ctx 5 ''b'') ''u1'' (u ''ci'') None ''abc'' demo_sys = Inr (t, cred, ''rag_abc'') \<and>
     snd (get_current_user (demo_ctx 6 ''c'') demo_jwt None (Some ''rag_abc'') t) = Inr demo_user \<and>
     revoke_api_key (demo_ctx 7 ''d'') ''u1'' (ak_id cred) t = Inr (v, ()) \<and>
     snd (get_current_user (demo_ctx 6 ''c'') demo_jwt None (Some ''rag_abc'') v) = Inl 401"
proof -
  have "\<exists>t cred. create_api_key (demo_ctx 5 ''b'') ''u1'' (u ''ci'') None ''abc'' demo_sys = Inr (t, cred, ''rag_abc'') \<and>
      users t = [demo_user] \<and> length (api_keys t) = 1"
    by (simp add: create_api_key_def Let_def demo_sys_def)
  then obtain t cred where run: "create_api_key (demo_ctx 5 ''b'') ''u1'' (u ''ci'') None ''abc'' demo_sys = Inr (t, cred, ''rag_abc'')"
    and t: "users t = [demo_user]" "length (api_keys t) = 1" by blast
  have "user_by_id t ''u1'' = Some demo_user" by (simp add: user_by_id_def t(1)) (simp add: demo_user_def)
  moreover have "distinct (map ak_id (api_keys t))" using t(2) by (cases "api_keys t") simp_all
  moreover have "sha256 (demo_ctx 6 ''c'') = sha256 (demo_ctx 5 ''b'')" "sha256 (demo_ctx 7 ''d'') = sha256 (demo_ctx 5 ''b'')"
    by (simp_all add: demo_ctx_def)
  ultimately show ?thesis
    using api_key_lifecycle [OF run, of demo_user "demo_ctx 6 ''c''" "demo_ctx 7 ''d''" demo_jwt] run by auto
qed

text \<open>An accepted phone number has eleven characters, a one, a digit from three to nine, and nine
  decimal digits of any script: numbers that differ only in the script of their digits count as
  different, although the table calls them canonical.\<close>

theorem phone_shape:
  "(case normalize_phone U raw of None \<Rightarrow> True | Some p \<Rightarrow> length p = 11 \<and> p ! 0 = 49 \<and> p ! 1 \<in> {51..57} \<and>
     list_all (\<lambda>x. digit_value x \<noteq> None) (drop 2 p)) \<and>
   (\<exists>a b. normalize_phone demo_unicode a \<noteq> None \<and> normalize_phone demo_unicode b \<noteq> None \<and>
     normalize_phone demo_unicode a \<noteq> normalize_phone demo_unicode b \<and> map digit_value a = map digit_value b)"
proof (intro conjI)
  show "case normalize_phone U raw of None \<Rightarrow> True | Some p \<Rightarrow> length p = 11 \<and> p ! 0 = 49 \<and> p ! 1 \<in> {51..57} \<and>
     list_all (\<lambda>x. digit_value x \<noteq> None) (drop 2 p)"
    by (auto simp: normalize_phone_def phone_ok_def Let_def is_decimal_def [abs_def])
  let ?a = "[49, 51, 48, 48, 48, 48, 48, 48, 48, 48, 48] :: nat list"
  let ?b = "[49, 51, 1632, 1632, 1632, 1632, 1632, 1632, 1632, 1632, 1632] :: nat list"
  have "normalize_phone demo_unicode ?a = Some ?a" "normalize_phone demo_unicode ?b = Some ?b"
    by (simp_all add: normalize_phone_def demo_unicode_def strip_def lstrip_def rstrip_def is_space_def startswith_def phone_ok_def
        is_decimal_def digit_value_def decimal_zeros_def Let_def u_def)
  moreover have "?a \<noteq> ?b" "map digit_value ?a = map digit_value ?b"
    by (simp_all add: digit_value_def decimal_zeros_def)
  ultimately show "\<exists>a b. normalize_phone demo_unicode a \<noteq> None \<and> normalize_phone demo_unicode b \<noteq> None \<and>
     normalize_phone demo_unicode a \<noteq> normalize_phone demo_unicode b \<and> map digit_value a = map digit_value b"
    by (metis option.distinct(1) option.inject)
qed

end
