(* ===== verification/ChunkerClaims.thy ===== *)
theory ChunkerClaims
  imports IngestClaims
begin

text \<open>
  What the chunker guarantees to the ingestion worker and to a reader of the index: bounded pieces
  with the right origin, no visible character lost, the reconstruction of a text from its fixed
  windows, which inputs fail, and the bound on every piece an activated index holds.
\<close>

section \<open>Errors of the splitters\<close>

definition size_error :: "'a chunked \<Rightarrow> bool" where
  "size_error r \<longleftrightarrow> r = Inl BadSize \<or> r = Inl UnknownStrategy"

lemma size_error_simps [simp]: "\<not> size_error (Inr x)" "\<not> size_error (Inl NoPiece)" "\<not> size_error (Inl EmbedIndex)"
  by (simp_all add: size_error_def)

lemma fixed_size_error: "0 < limit \<Longrightarrow> 0 \<le> overlap \<Longrightarrow> overlap < limit \<Longrightarrow> \<exists>xs. fixed_split limit overlap t = Inr xs"
  by (simp add: fixed_split_def valid_sizes_def)

lemma merge_size_error: "valid_sizes limit overlap \<Longrightarrow> \<not> size_error (merge_loop limit overlap units pieces current)"
proof (induction limit overlap units pieces current rule: merge_loop.induct)
  case (2 limit overlap unit units pieces current)
  obtain hard where f: "fixed_split limit overlap unit = Inr hard"
    using 2(4) by (auto simp: fixed_split_def)
  let ?tail = "if current \<noteq> [] \<and> overlap \<noteq> 0 then last_n (nat overlap) current else []"
  consider "int (length (glue current unit)) \<le> limit"
    | "\<not> int (length (glue current unit)) \<le> limit" "int (length (glue ?tail unit)) \<le> limit"
    | "\<not> int (length (glue current unit)) \<le> limit" "\<not> int (length (glue ?tail unit)) \<le> limit" by blast
  then show ?case
  proof cases
    case 1
    with 2(1,4) show ?thesis by simp
  next
    case 2
    with "2.IH"(2) [OF 2(1) refl refl 2(2)] "2.prems" show ?thesis by (simp add: Let_def)
  next
    case 3
    show ?thesis
    proof (cases "hard = []")
      case False
      with "2.IH"(3) [OF 3(1) refl refl 3(2) f False] "2.prems" 3 f show ?thesis by (simp add: Let_def)
    qed (use 3 f in \<open>simp add: Let_def\<close>)
  qed
qed simp

lemma concat_units_total: "(\<And>p. p \<in> set ps \<Longrightarrow> \<exists>xs. f p = Inr xs) \<Longrightarrow> \<exists>ys. concat_units f ps = Inr ys"
proof (induction ps)
  case (Cons p ps)
  then obtain xs ys where "f p = Inr xs" "concat_units f ps = Inr ys" by (metis list.set_intros(1,2))
  then show ?case by simp
qed simp

lemma splitter_size_error:
  "size_error (split_with strategy vectorize threshold limit overlap t) \<longleftrightarrow> \<not> valid_sizes limit overlap"
proof (cases "valid_sizes limit overlap")
  case True
  have m: "\<not> size_error (merge_units limit overlap us)" for us
    by (simp add: merge_units_def merge_size_error True)
  have r: "\<not> size_error (recursive_split limit overlap t)" using True m by (simp add: recursive_split_def Let_def)
  have s: "\<not> size_error (semantic_split vectorize threshold limit overlap t)"
    using True m r by (simp add: semantic_split_def Let_def split: option.splits)
  obtain us where "concat_units (\<lambda>p. if limit < int (length p) then fixed_split limit 0 p else Inr [p])
      (paragraphs (normalize_text t)) = Inr us"
    using True concat_units_total [of _ "\<lambda>p. if limit < int (length p) then fixed_split limit 0 p else Inr [p]"]
    by (fastforce simp: fixed_split_def valid_sizes_def)
  then have "\<not> size_error (paragraph_split limit overlap t)" using True m by (simp add: paragraph_split_def)
  with r s True show ?thesis by (simp add: split_with.simps fixed_split_def)
next
  case False
  then show ?thesis
    by (simp add: split_with.simps size_error_def fixed_split_def paragraph_split_def semantic_split_def recursive_split_def)
qed

lemma splitter_bad_size:
  "(split_with strategy vectorize threshold limit overlap t = Inl BadSize) = (\<not> valid_sizes limit overlap)"
  "split_with strategy vectorize threshold limit overlap t \<noteq> Inl UnknownStrategy"
proof -
  have "\<not> valid_sizes limit overlap \<Longrightarrow> split_with strategy vectorize threshold limit overlap t = Inl BadSize"
    by (simp add: split_with.simps fixed_split_def paragraph_split_def semantic_split_def recursive_split_def)
  then show "(split_with strategy vectorize threshold limit overlap t = Inl BadSize) = (\<not> valid_sizes limit overlap)"
    "split_with strategy vectorize threshold limit overlap t \<noteq> Inl UnknownStrategy"
    using splitter_size_error [of strategy vectorize threshold limit overlap t] unfolding size_error_def
    by (metis chunk_error.distinct(1) sum.inject(1))+
qed

lemma loop_refuses:
  "split_loop (split_with strategy vectorize threshold limit overlap) n gs \<noteq> Inl UnknownStrategy \<and>
   (split_loop (split_with strategy vectorize threshold limit overlap) n gs = Inl BadSize \<longrightarrow> \<not> valid_sizes limit overlap \<and>
      list_ex (\<lambda>g. normalize_text (sg_text g) \<noteq> []) gs) \<and>
   (\<not> valid_sizes limit overlap \<and> list_ex (\<lambda>g. normalize_text (sg_text g) \<noteq> []) gs \<longrightarrow>
      split_loop (split_with strategy vectorize threshold limit overlap) n gs = Inl BadSize)"
proof (induction gs arbitrary: n)
  case (Cons g gs)
  let ?f = "split_with strategy vectorize threshold limit overlap"
  note f = splitter_bad_size [of strategy vectorize threshold limit overlap "normalize_text (sg_text g)"]
  show ?case
  proof (cases "normalize_text (sg_text g) = []")
    case True
    then have eq: "split_loop ?f n (g # gs) = split_loop ?f (n + 1) gs"
      "list_ex (\<lambda>g. normalize_text (sg_text g) \<noteq> []) (g # gs) = list_ex (\<lambda>g. normalize_text (sg_text g) \<noteq> []) gs"
      by (simp_all split: sum.splits)
    show ?thesis unfolding eq by (rule Cons.IH)
  next
    case nonempty: False
    then have ex: "list_ex (\<lambda>g. normalize_text (sg_text g) \<noteq> []) (g # gs)" by simp
    show ?thesis
    proof (cases "valid_sizes limit overlap")
      case False
      then have "?f (normalize_text (sg_text g)) = Inl BadSize" using f(1) by blast
      then have "split_loop ?f n (g # gs) = Inl BadSize" using nonempty by simp
      with False ex show ?thesis by simp
    next
      case True
      then have "?f (normalize_text (sg_text g)) \<noteq> Inl BadSize" using f(1) by blast
      then have "split_loop ?f n (g # gs) \<noteq> Inl BadSize \<and> split_loop ?f n (g # gs) \<noteq> Inl UnknownStrategy"
        using nonempty True f(2) Cons.IH [of "Suc n"]
        by (cases "?f (normalize_text (sg_text g))"; cases "split_loop ?f (Suc n) gs") (simp_all add: Let_def)
      with True show ?thesis by blast
    qed
  qed
qed simp

section \<open>White space longer than a piece\<close>

lemma no_breaks:
  "13 \<notin> set s \<Longrightarrow> unify_newlines s = s" "list_all (\<lambda>c. \<not> is_blank c) s \<Longrightarrow> collapse_blanks s = s"
  "10 \<notin> set s \<Longrightarrow> collapse_newlines s = s" "10 \<notin> set s \<Longrightarrow> split_double acc s = [rev acc @ s]"
  "set s \<inter> set (46 # end_marks) = {} \<Longrightarrow> split_sentences acc s = [rev acc @ s]"
  subgoal by (induction s rule: unify_newlines.induct) auto
  subgoal by (induction s rule: collapse_blanks.induct) auto
  subgoal by (induction s rule: collapse_newlines.induct) auto
  subgoal by (induction acc s rule: split_double.induct) auto
  subgoal by (induction acc s rule: split_sentences.induct) auto
  done

definition gap_text :: "nat \<Rightarrow> ustr" where
  "gap_text n = 97 # replicate (n - 1) 12288 @ replicate n 12288 @ [98]"

definition segment_of :: "ustr \<Rightarrow> segment" where
  "segment_of t = \<lparr>sg_text = t, sg_page = None, sg_section = None, sg_content_type = ''text'', sg_source_url = None\<rparr>"

lemma gap_text_set: "set (gap_text n) \<subseteq> {97, 12288, 98}"
  by (auto simp: gap_text_def)

lemma plain_normal:
  assumes "set s \<subseteq> {97, 12288, 98}"
  shows "normalize_text s = strip s" "split_double [] s = [s]" "split_sentences [] s = [s]"
proof -
  have "13 \<notin> set s" "10 \<notin> set s" "list_all (\<lambda>c. \<not> is_blank c) s" "set s \<inter> set (46 # end_marks) = {}"
    using assms by (auto simp: list_all_iff is_blank_def end_marks_def)
  then show "normalize_text s = strip s" "split_double [] s = [s]" "split_sentences [] s = [s]"
    by (simp_all add: normalize_text_def no_breaks)
qed

lemma gap_text_nonempty: "gap_text n \<noteq> []"
  by (simp add: gap_text_def)

lemma gap_text_strip [simp]: "strip (gap_text n) = gap_text n"
  by (simp add: gap_text_def strip_def lstrip_def rstrip_def is_space_def)

lemma gap_text_normal: "normalize_text (gap_text n) = gap_text n"
  by (simp add: plain_normal [OF gap_text_set])

lemma gap_text_units:
  "1 < n \<Longrightarrow> split_long_paragraph n (gap_text n) = [97 # replicate (n - 1) 12288, replicate n 12288, [98]]"
proof -
  assume n: "1 < n"
  have "length (gap_text n) = 2 * n + 1" using n by (simp add: gap_text_def)
  moreover have "batches n (gap_text n) = [97 # replicate (n - 1) 12288, replicate n 12288, [98]]"
    using n by (simp add: gap_text_def take_Cons' drop_Cons')
  moreover have "gap_text n \<noteq> []" by (simp add: gap_text_def)
  ultimately show ?thesis by (simp add: split_long_paragraph_def plain_normal [OF gap_text_set])
qed

lemma gap_text_fails:
  assumes "0 < overlap" "overlap < limit"
  shows "recursive_split limit overlap (gap_text (nat limit)) = Inl NoPiece"
proof -
  let ?n = "nat limit" and ?a = "97 # replicate (nat limit - 1) 12288" and ?b = "replicate (nat limit) (12288 :: nat)"
  have v: "valid_sizes limit overlap" and n: "1 < ?n" using assms by (simp_all add: valid_sizes_def)
  have len: "int (length (gap_text ?n)) > limit" and ne: "gap_text ?n \<noteq> []" using n by (simp_all add: gap_text_def)
  have units: "recursive_units limit (gap_text ?n) = [?a, ?b, [98]]"
    using len ne by (simp add: recursive_units_def plain_normal [OF gap_text_set] gap_text_units [OF n])
  have "set ?b \<subseteq> {97, 12288, 98}" by auto
  then have "normalize_text ?b = []"
    by (simp add: plain_normal(1) strip_def lstrip_def rstrip_def is_space_def dropWhile_replicate)
  then have hard: "fixed_split limit overlap ?b = Inr []" using v by (simp add: fixed_split_def)
  have tail: "last_n (nat overlap) ?a \<noteq> []" using assms by (simp add: last_n_def)
  then have "length (glue (last_n (nat overlap) ?a) ?b) > ?n" by (simp add: glue_def)
  then have "int (length (glue (last_n (nat overlap) ?a) ?b)) > limit" by simp
  moreover have "int (length (glue ?a ?b)) > limit" using n by (simp add: glue_def)
  ultimately have "merge_loop limit overlap [?b, [98]] [] ?a = Inl NoPiece"
    using assms hard by (simp add: Let_def)
  moreover have "merge_loop limit overlap [?a, ?b, [98]] [] [] = merge_loop limit overlap [?b, [98]] [] ?a"
    using n by (simp add: glue_def)
  ultimately have "merge_units limit overlap (recursive_units limit (gap_text ?n)) = Inl NoPiece"
    by (simp only: merge_units_def units)
  with v len ne show ?thesis by (simp add: recursive_split_def gap_text_normal Let_def)
qed

lemma by_recursion: "split_with ''recursive'' vectorize threshold limit overlap = recursive_split limit overlap"
  by (rule ext) (simp add: split_with.simps)

section \<open>The pieces a worker holds\<close>

fun reviewed :: "phase \<Rightarrow> (piece list \<times> bool) option" where
  "reviewed (Prepare d reuse pieces q) = Some (pieces, q)"
| "reviewed (Batches d ws pieces q bs) = Some (pieces, q)"
| "reviewed (Activate d ws pieces q) = Some (pieces, q)"
| "reviewed (Announce d pieces q) = Some (pieces, q)"
| "reviewed ph = None"

definition from_chunker :: "pipeline \<Rightarrow> settings \<Rightarrow> phase \<Rightarrow> bool" where
  "from_chunker pl cfg ph \<longleftrightarrow> (\<forall>pieces q. reviewed ph = Some (pieces, q) \<longrightarrow> q = quarantines pl cfg pieces \<and>
     (\<exists>gs. split_pieces pl cfg gs = Inr pieces))"

lemma from_chunker_quiet: "reviewed ph = None \<Longrightarrow> from_chunker pl cfg ph"
  by (simp add: from_chunker_def)

lemma from_chunker_same: "reviewed ph' = reviewed ph \<Longrightarrow> from_chunker pl cfg ph \<Longrightarrow> from_chunker pl cfg ph'"
  by (simp add: from_chunker_def)

lemma phase_from_chunker:
  assumes "run_phase pl cfg c w ph s = Inr (t, ph')" "from_chunker pl cfg ph"
  shows "from_chunker pl cfg ph'"
proof (cases ph)
  case (Split d reuse segs)
  then show ?thesis
    using assms(1) by (auto simp: split_phase_def from_chunker_def split: sum.splits if_splits)
next
  case (Batches d ws pieces q bs)
  then show ?thesis using assms
    by (cases bs) (auto simp: batch_phase_def indexing_phase_def from_chunker_def Let_def split: sum.splits if_splits)
qed (use assms in \<open>auto simp: claim_phase_def load_phase_def fingerprint_phase_def parse_phase_def from_chunker_def
      prepare_phase_def activate_phase_def announce_phase_def Let_def split: sum.splits if_splits option.splits\<close>)

lemma worker_step_runs:
  assumes "wk_phase w = ph0" "\<forall>e st. ph0 \<noteq> Failing e st" "run_phase pl cfg c w ph0 s = Inr (t, ph)"
  shows "worker_step pl cfg c w s = (t, w\<lparr>wk_phase := ph\<rparr>)"
  unfolding worker_step.simps assms(1) using assms(2,3) by (cases ph0) auto

lemma worker_from_chunker:
  assumes "worker_step pl cfg c w s = (t, x)" "from_chunker pl cfg (wk_phase w)"
  shows "from_chunker pl cfg (wk_phase x)"
proof (cases "\<exists>e st. wk_phase w = Failing e st")
  case True
  then obtain e st where "wk_phase w = Failing e st" by blast
  then have "reviewed (wk_phase x) = None"
    using assms(1) by (auto simp: fail_phase_def Let_def split: if_splits prod.splits)
  then show ?thesis by (rule from_chunker_quiet)
next
  case False
  show ?thesis
  proof (cases "run_phase pl cfg c w (wk_phase w) s")
    case (Inl e)
    then have "reviewed (wk_phase x) = None" using assms(1) False by (auto split: phase.splits)
    then show ?thesis by (rule from_chunker_quiet)
  next
    case (Inr r)
    obtain t' ph where r: "r = (t', ph)" by fastforce
    have "worker_step pl cfg c w s = (t', w\<lparr>wk_phase := ph\<rparr>)"
      by (rule worker_step_runs [OF refl]) (use False Inr r in simp_all)
    then show ?thesis using phase_from_chunker [OF Inr [unfolded r] assms(2)] assms(1) by auto
  qed
qed

lemma step_from_chunker:
  "ingest_step pl cfg world world' \<Longrightarrow> \<forall>w \<in> set (snd world). from_chunker pl cfg (wk_phase w) \<Longrightarrow>
     \<forall>w \<in> set (snd world'). from_chunker pl cfg (wk_phase w)"
proof (induction rule: ingest_step.induct)
  case (start i r s tok ws b host)
  then show ?case by (simp add: new_worker_def from_chunker_quiet)
next
  case (work k ws c s t w)
  have "from_chunker pl cfg (wk_phase w)"
    by (rule worker_from_chunker [OF work(2)]) (use work(1,3) in simp)
  with work(3) show ?case by (auto dest!: set_update_subset_insert [THEN subsetD])
qed (auto simp: from_chunker_quiet dest!: set_update_subset_insert [THEN subsetD])

lemma workers_from_chunker:
  "ingest_reach pl cfg world \<Longrightarrow> \<forall>w \<in> set (snd world). from_chunker pl cfg (wk_phase w)"
  by (rule ingest.invariant [of "\<lambda>world. \<forall>w \<in> set (snd world). from_chunker pl cfg (wk_phase w)"])
    (use step_from_chunker in \<open>simp_all add: ingest_start_def\<close>)

section \<open>Properties\<close>

text \<open>C23: whatever strategy splits a parsed document, every piece is non-empty and at most the configured
  size, and carries the page, section, content type, source and normalised text of the segment whose
  number it names.\<close>

theorem pieces_bounded_and_located:
  assumes "one_vector_each vectorize"
    and "split_segments strategy vectorize threshold limit overlap gs = Inr ps" "p \<in> set ps"
  shows "p_content p \<noteq> [] \<and> int (length (p_content p)) \<le> limit \<and>
    (\<exists>g. p_parent_seq p < length gs \<and> gs ! p_parent_seq p = g \<and> p_parent_content p = normalize_text (sg_text g) \<and>
       p_page p = sg_page g \<and> p_section p = sg_section g \<and> p_content_type p = sg_content_type g \<and>
       p_source_url p = sg_source_url g)"
proof -
  have "split_loop (split_with strategy vectorize threshold limit overlap) 0 gs = Inr ps"
    using assms(2) by (simp add: split_segments_def split: if_splits)
  from splitter.split_loop_bounds [OF any_splitter [OF assms(1)] this assms(3)] show ?thesis by auto
qed

definition demo_two :: "segment list" where
  "demo_two = [\<lparr>sg_text = [32, 10], sg_page = Some 1, sg_section = None, sg_content_type = ''text'', sg_source_url = None\<rparr>,
     \<lparr>sg_text = [97, 98, 10, 10, 99, 100], sg_page = Some 2, sg_section = None, sg_content_type = ''text'', sg_source_url = None\<rparr>]"

lemma demo_two_texts:
  "normalize_text [32, 10] = []" "normalize_text [97, 98, 10, 10, 99, 100] = [97, 98, 10, 10, 99, 100]"
  "normalize_text [97, 98] = [97, 98]" "normalize_text [99, 100] = [99, 100]"
  by (simp_all add: normalize_text_def is_blank_def strip_def lstrip_def rstrip_def is_space_def Let_def)

lemma demo_two_paragraphs: "paragraphs [97, 98, 10, 10, 99, 100] = [[97, 98], [99, 100]]"
  by (simp add: paragraphs_def after_last_newline_def strip_def lstrip_def rstrip_def is_space_def Let_def)

lemma demo_two_split: "paragraph_split 3 1 [97, 98, 10, 10, 99, 100] = Inr [[97, 98], [99, 100]]"
  by (simp add: paragraph_split_def valid_sizes_def demo_two_texts demo_two_paragraphs merge_units_def glue_def
      last_n_def fixed_split_def)

lemma demo_two_loop:
  "split_loop (paragraph_split 3 1) 0 demo_two = Inr (map (piece_of (demo_two ! 1) 1 [97, 98, 10, 10, 99, 100]) [[97, 98], [99, 100]])"
  by (simp add: demo_two_def demo_two_texts demo_two_split Let_def)

lemma by_paragraphs: "split_with ''paragraph'' vectorize threshold limit overlap = paragraph_split limit overlap"
  by (rule ext) (simp add: split_with.simps)

lemma demo_two_pieces:
  "\<exists>ps. split_segments ''paragraph'' (\<lambda>x. None) 0 3 1 demo_two = Inr ps \<and>
     map p_content ps = [[97, 98], [99, 100]] \<and> map p_page ps = [Some 2, Some 2]"
proof -
  have "''paragraph'' \<in> set STRATEGIES" by (simp add: STRATEGIES_def)
  then have "split_segments ''paragraph'' (\<lambda>x. None) 0 3 1 demo_two = split_loop (paragraph_split 3 1) 0 demo_two"
    unfolding split_segments_def by_paragraphs by simp
  then show ?thesis unfolding demo_two_loop by (simp add: piece_of_def demo_two_def)
qed

theorem pieces_bounded_and_located_witness:
  "\<exists>ps. split_segments ''paragraph'' (\<lambda>x. None) 0 3 1 demo_two = Inr ps \<and> length ps = 2 \<and>
     (\<forall>p \<in> set ps. p_content p \<noteq> [] \<and> int (length (p_content p)) \<le> 3 \<and> p_parent_seq p < 2)"
proof -
  obtain ps where ps: "split_segments ''paragraph'' (\<lambda>x. None) 0 3 1 demo_two = Inr ps" "map p_content ps = [[97, 98], [99, 100]]"
    using demo_two_pieces by (elim exE conjE) (rule that)
  have "one_vector_each (\<lambda>x. None)" by (simp add: one_vector_each_def)
  have len: "length demo_two = 2" by (simp add: demo_two_def)
  from pieces_bounded_and_located [OF \<open>one_vector_each (\<lambda>x. None)\<close> ps(1)]
  have "\<forall>p \<in> set ps. p_content p \<noteq> [] \<and> int (length (p_content p)) \<le> 3 \<and> p_parent_seq p < 2"
    unfolding len by blast
  moreover have "length ps = 2" using arg_cong [OF ps(2), of length] by simp
  ultimately show ?thesis using ps(1) by blast
qed

text \<open>C22: no strategy loses text: the characters of the document that are not white space are, in order,
  among those of the pieces; overlap only repeats some of them.\<close>

theorem no_visible_character_lost:
  assumes "one_vector_each vectorize"
    and "split_segments strategy vectorize threshold limit overlap gs = Inr ps"
  shows "subseq (visible (concat (map sg_text gs))) (visible (concat (map p_content ps)))"
proof -
  have "split_loop (split_with strategy vectorize threshold limit overlap) 0 gs = Inr ps"
    using assms(2) by (simp add: split_segments_def split: if_splits)
  from splitter.split_loop_keeps [OF any_splitter [OF assms(1)] this] show ?thesis .
qed

theorem no_visible_character_lost_witness:
  "\<exists>ps. split_segments ''paragraph'' (\<lambda>x. None) 0 3 1 demo_two = Inr ps \<and>
     subseq [97, 98, 99, 100] (visible (concat (map p_content ps)))"
proof -
  obtain ps where ps: "split_segments ''paragraph'' (\<lambda>x. None) 0 3 1 demo_two = Inr ps"
    using demo_two_pieces by (elim exE conjE) (rule that)
  have "one_vector_each (\<lambda>x. None)" by (simp add: one_vector_each_def)
  from no_visible_character_lost [OF this ps]
  have "subseq [97, 98, 99, 100] (visible (concat (map p_content ps)))"
    by (simp add: demo_two_def visible_def is_space_def)
  with ps show ?thesis by blast
qed

text \<open>Fixed windows can be put together again: the overlap of the first window followed by what each
  window adds is the normalised text.\<close>

theorem fixed_windows_rebuild:
  assumes "fixed_split limit overlap t = Inr ps"
  shows "take (nat overlap) (normalize_text t) @ concat (map (drop (nat overlap)) ps) = normalize_text t"
proof -
  have v: "0 < nat (limit - overlap)" "nat (limit - overlap) \<le> nat limit" "nat limit - nat (limit - overlap) = nat overlap"
    and ps: "ps = windows (nat limit) (nat (limit - overlap)) (normalize_text t)"
    using assms by (auto simp: fixed_split_def valid_sizes_def split: if_splits)
  from windows_rebuild [OF v(1,2), of "normalize_text t"] show ?thesis by (simp add: ps v(3))
qed

theorem fixed_windows_rebuild_witness:
  "fixed_split 3 1 [97, 98, 99, 100] = Inr [[97, 98, 99], [99, 100]] \<and>
     take 1 [97, 98, 99, 100] @ concat (map (drop 1) [[97, 98, 99], [99, 100]]) = ([97, 98, 99, 100] :: ustr)"
proof -
  have n: "normalize_text [97, 98, 99, 100] = [97, 98, 99, 100]"
    by (simp add: normalize_text_def is_blank_def strip_def lstrip_def rstrip_def is_space_def)
  have f: "fixed_split 3 1 [97, 98, 99, 100] = Inr [[97, 98, 99], [99, 100]]"
    by (simp add: fixed_split_def valid_sizes_def n)
  from fixed_windows_rebuild [OF f] f show ?thesis by (simp add: n)
qed

text \<open>The chunker refuses exactly what it should: an unknown strategy always, and with a known strategy
  a size that is not positive or an overlap outside the size as soon as a segment has text.\<close>

theorem splitting_refuses_exactly:
  "(split_segments strategy vectorize threshold limit overlap gs = Inl UnknownStrategy) = (strategy \<notin> set STRATEGIES) \<and>
   (split_segments strategy vectorize threshold limit overlap gs = Inl BadSize) =
     (strategy \<in> set STRATEGIES \<and> \<not> valid_sizes limit overlap \<and> list_ex (\<lambda>g. normalize_text (sg_text g) \<noteq> []) gs)"
proof (cases "strategy \<in> set STRATEGIES")
  case True
  then have eq: "split_segments strategy vectorize threshold limit overlap gs =
      split_loop (split_with strategy vectorize threshold limit overlap) 0 gs"
    by (simp add: split_segments_def)
  show ?thesis unfolding eq using True loop_refuses [of strategy vectorize threshold limit overlap 0 gs] by blast
qed (simp add: split_segments_def)

text \<open>White space breaks the default splitter: for every size and every positive overlap there is a text
  of two letters, separated by ideographic spaces, whose chunking raises IndexError, so that the worker
  retries the document in vain.\<close>

theorem white_space_breaks_splitter:
  assumes "0 < overlap" "overlap < limit"
  shows "\<exists>t. visible t = [97, 98] \<and> recursive_split limit overlap t = Inl NoPiece \<and>
    split_segments ''recursive'' vectorize threshold limit overlap [segment_of t] = Inl NoPiece"
proof -
  let ?t = "gap_text (nat limit)"
  have v: "visible ?t = [97, 98]" by (simp add: gap_text_def visible_def is_space_def)
  have r: "recursive_split limit overlap ?t = Inl NoPiece" by (rule gap_text_fails [OF assms])
  have "''recursive'' \<in> set STRATEGIES" by (simp add: STRATEGIES_def)
  then have "split_segments ''recursive'' vectorize threshold limit overlap [segment_of ?t] = Inl NoPiece"
    unfolding split_segments_def by_recursion using r gap_text_nonempty
    by (simp add: segment_of_def gap_text_normal)
  with v r show ?thesis by blast
qed

theorem white_space_breaks_splitter_witness:
  "\<exists>t. visible t = [97, 98] \<and> recursive_split 512 64 t = Inl NoPiece"
proof -
  have "(0 :: int) < 64" "(64 :: int) < 512" by simp_all
  from white_space_breaks_splitter [OF this, of "\<lambda>x. None" 0] show ?thesis
    by (elim exE conjE) (intro exI conjI)
qed

text \<open>C21: when an activation commits, whatever ran before, every text of the new index is non-empty and at
  most as long as the configured chunk size, and the row's quarantine flag is the decision of
  should_quarantine on exactly these texts.\<close>

theorem activated_index_bounded_and_reviewed:
  assumes "ingest_reach pl cfg (s, ws)" "k < length ws" "wk_phase (ws ! k) = Activate d kb_ws pieces q"
    and "worker_step pl cfg c (ws ! k) s = (t, x)" "wk_phase x = Announce d pieces q"
    and "one_vector_each (pl_vectorize pl)"
  shows "\<exists>r v. get_doc t (wk_doc x) = Some r \<and> d_active r = Some v \<and> d_status r = Ready \<and>
    list_all (\<lambda>y. y \<noteq> [] \<and> int (length y) \<le> chunk_size cfg) (index_text t (d_id r) v) \<and>
    d_quarantined r = should_quarantine cfg (pl_judge pl) (index_text t (d_id r) v)"
proof -
  have inv: "worker_inv s (ws ! k)" "wf_db s"
    using world_invariant [OF assms(1)] assms(2) by (auto simp: world_inv_def)
  have act: "activate_phase pl cfg c (ws ! k) d kb_ws pieces q s = Inr (t, Announce d pieces q)"
    and x: "wk_doc x = wk_doc (ws ! k)"
    using assms(3-5) by (auto split: sum.splits)
  obtain r0 where r0: "holds (ws ! k) r0" "get_doc t (wk_doc x) = Some (activated pl cfg c (next_version r0) (length pieces) q r0)"
      "index_text t (wk_doc x) (next_version r0) = map p_content pieces"
    using activate_result [OF act inv(2,1) assms(3)] unfolding x by blast
  let ?r = "activated pl cfg c (next_version r0) (length pieces) q r0"
  have row: "d_quarantined ?r = q" "d_id ?r = wk_doc x" "d_active ?r = Some (next_version r0)" "d_status ?r = Ready"
    using r0(1) by (simp_all add: activated_def holds_def x)
  have "from_chunker pl cfg (wk_phase (ws ! k))" using workers_from_chunker [OF assms(1)] assms(2) by simp
  then obtain gs where q: "q = quarantines pl cfg pieces" and gs: "split_pieces pl cfg gs = Inr pieces"
    by (auto simp: assms(3) from_chunker_def)
  then have loop: "split_loop (split_with (chunk_strategy cfg) (pl_vectorize pl) (pl_semantic_threshold pl)
      (chunk_size cfg) (chunk_overlap cfg)) 0 gs = Inr pieces"
    by (simp add: split_pieces_def split_segments_def split: if_splits)
  have "list_all (\<lambda>y. y \<noteq> [] \<and> int (length y) \<le> chunk_size cfg) (map p_content pieces)"
    using splitter.split_loop_bounds [OF any_splitter [OF assms(6)] loop] by (simp add: list_all_iff)
  then show ?thesis
    using row r0(2,3) q by (intro exI [of _ ?r] exI [of _ "next_version r0"]) (simp add: quarantines_def)
qed

theorem activated_index_bounded_and_reviewed_witness:
  "\<exists>t t1 r v. ingest_reach demo_pipeline demo_settings t \<and> get_doc t1 ''d1'' = Some r \<and> d_status r = Ready \<and>
     list_all (\<lambda>y. y \<noteq> [] \<and> int (length y) \<le> 1) (index_text t1 (d_id r) v)"
proof -
  obtain t t1 d ws where run: "ingest_reach demo_pipeline demo_settings (t, [demo_worker\<lparr>wk_phase := Activate d ws demo_pieces False\<rparr>])"
    "worker_step demo_pipeline demo_settings demo_c (demo_worker\<lparr>wk_phase := Activate d ws demo_pieces False\<rparr>) t =
       (t1, demo_worker\<lparr>wk_phase := Announce d demo_pieces False\<rparr>)"
    by (rule demo_activation)
  have "one_vector_each (pl_vectorize demo_pipeline)" "chunk_size demo_settings = 1"
    by (simp_all add: one_vector_each_def demo_pipeline_def demo_settings_def)
  with activated_index_bounded_and_reviewed [OF run(1), of 0 d ws demo_pieces False demo_c t1
      "demo_worker\<lparr>wk_phase := Announce d demo_pieces False\<rparr>"] run show ?thesis by auto
qed

end
