(* ===== verification/Retrieval.thy ===== *)
theory Retrieval
  imports Graph "HOL-Library.Multiset"
begin

text \<open>
  \<open>app/services/retriever.py\<close>: the filters every recall query carries, the vector, keyword, title and
  graph recalls, reciprocal rank fusion, parent and neighbour expansion, the three rerankers and the
  final cut.  The record \<open>search_engine\<close> holds what is not the program's code: PostgreSQL's text
  search and pattern matching, pgvector's distance, jieba, the embedding, cross-encoder and language
  models, rounding to six digits, and which optional recall fails.  Rows of equal rank come in table
  order.  Floating point numbers are reals.
\<close>

section \<open>Parameters and requests\<close>

record search_engine =
  se_cut :: "ustr \<Rightarrow> ustr list"
  se_vector :: "ustr \<Rightarrow> vec"
  se_distance :: "vec \<Rightarrow> vec \<Rightarrow> real"
  se_match :: "ustr \<Rightarrow> ustr \<Rightarrow> bool"
  se_rank :: "ustr \<Rightarrow> ustr \<Rightarrow> real"
  se_ilike :: "ustr \<Rightarrow> ustr \<Rightarrow> bool"
  se_tags_text :: "ustr list \<Rightarrow> ustr"
  se_round :: "real \<Rightarrow> real"
  se_predict :: "ustr \<Rightarrow> ustr list \<Rightarrow> real list option"
  se_order :: "ustr \<Rightarrow> ustr list \<Rightarrow> int list option"
  se_keyword_fails :: bool
  se_title_fails :: bool
  se_graph_fails :: bool

text \<open>The settings the retriever reads beside those of the ingestion.\<close>

record retrieval_settings = settings +
  retrieval_candidates :: nat
  retrieval_top_k :: nat
  rrf_k :: nat
  parent_child_enabled :: bool
  adjacent_chunk_window :: nat
  rerank_enabled :: bool
  rule_rerank_enabled :: bool
  llm_rerank_enabled :: bool

record retrieval_request =
  rq_owner :: string
  rq_query :: ustr
  rq_kb :: "string option"
  rq_extra :: "ustr list"
  rq_vec :: "vec option"
  rq_keyword :: bool
  rq_vector :: bool
  rq_graph :: bool
  rq_types :: "string list"
  rq_sections :: "ustr list"
  rq_after :: "datetime option"
  rq_before :: "datetime option"
  rq_sources :: "string list"
  rq_departments :: "ustr list"
  rq_tags :: "ustr list"
  rq_rerank :: "bool option"
  rq_parent :: "bool option"

record retrieved =
  rc_chunk :: string
  rc_doc :: string
  rc_filename :: ustr
  rc_seq :: nat
  rc_page :: "nat option"
  rc_content :: ustr
  rc_score :: real
  rc_similarity :: real
  rc_keyword_hit :: bool
  rc_parent_seq :: nat
  rc_section :: "ustr option"
  rc_content_type :: string
  rc_source_url :: "ustr option"
  rc_created :: datetime
  rc_kb :: string

section \<open>Keywords\<close>

definition STOPWORDS :: "ustr list" where
  "STOPWORDS =
    [[30340], [20102], [26159], [22312], [25105], [26377], [21644], [23601], [19981], [20154],
    [37117], [19968, 20010], [20160, 20040], [24590, 20040], [22914, 20309], [20026, 20160, 20040],
    [35831, 38382], [21527], [21602], [21834], u ''a'', u ''an'', u ''the'', u ''is'', u ''are'',
    u ''what'', u ''how'', u ''why'', u ''to'', u ''of'', u ''in'', u ''on'', u ''for'']"

fun add_terms :: "unicode \<Rightarrow> ustr list \<Rightarrow> ustr list \<Rightarrow> ustr list" where
  "add_terms U [] terms = terms"
| "add_terms U (w # ws) terms =
     (let t = lower U (strip w) in
      add_terms U ws (if 2 \<le> length t \<and> t \<notin> set STOPWORDS \<and> t \<notin> set terms then terms @ [t] else terms))"

definition extract_keywords :: "search_engine \<Rightarrow> unicode \<Rightarrow> ustr \<Rightarrow> nat \<Rightarrow> ustr list" where
  "extract_keywords E U query max_terms = take max_terms (add_terms U (se_cut E query) [])"

definition tsquery_safe :: "unicode \<Rightarrow> regex" where
  "tsquery_safe U = seq [Bos, Rep 1 None (\<lambda>c. is_word U c \<or> (19968 \<le> c \<and> c \<le> 40959)), Eos]"

definition build_tsquery :: "unicode \<Rightarrow> ustr list \<Rightarrow> ustr" where
  "build_tsquery U keywords = ujoin (u '' | '') (filter (re_match (tsquery_safe U)) keywords)"

section \<open>Reciprocal rank fusion\<close>

definition score_of :: "(string \<times> real) list \<Rightarrow> string \<Rightarrow> real" where
  "score_of scores i = coalesce (map_of scores i) 0"

text \<open>Assignment to a dictionary: an existing key keeps its place.\<close>

fun put_score :: "string \<Rightarrow> real \<Rightarrow> (string \<times> real) list \<Rightarrow> (string \<times> real) list" where
  "put_score i v [] = [(i, v)]"
| "put_score i v ((j, w) # scores) = (if i = j then (i, v) # scores else (j, w) # put_score i v scores)"

fun add_ranking :: "nat \<Rightarrow> nat \<Rightarrow> string list \<Rightarrow> (string \<times> real) list \<Rightarrow> (string \<times> real) list" where
  "add_ranking k rank [] scores = scores"
| "add_ranking k rank (i # ids) scores =
     add_ranking k (rank + 1) ids (put_score i (score_of scores i + 1 / real (k + rank + 1)) scores)"

definition rrf_fuse :: "string list list \<Rightarrow> nat \<Rightarrow> (string \<times> real) list" where
  "rrf_fuse rankings k = fold (add_ranking k 0) rankings []"

section \<open>The filters of every query\<close>

type_synonym joined = "chunk \<times> document \<times> knowledge_base \<times> membership"

definition joined_rows :: "sys \<Rightarrow> joined list" where
  "joined_rows s = [(c, d, k, m). c \<leftarrow> chunks s, d \<leftarrow> docs s, d_id d = c_doc c,
     k \<leftarrow> kbs s, k_id k = c_kb c, m \<leftarrow> memberships s, m_ws m = k_ws k]"

definition one_of_values :: "'a list \<Rightarrow> 'a option \<Rightarrow> bool" where
  "one_of_values allowed v \<longleftrightarrow> allowed = [] \<or> (\<exists>x. v = Some x \<and> x \<in> set allowed)"

definition quoted_tag :: "ustr \<Rightarrow> ustr" where
  "quoted_tag tag = u ''%'' @ [34] @ tag @ [34] @ u ''%''"

fun visible_row :: "search_engine \<Rightarrow> retrieval_request \<Rightarrow> joined \<Rightarrow> bool" where
  "visible_row E rq (c, d, k, m) \<longleftrightarrow>
     m_user m = rq_owner rq \<and> c_kb c = d_kb d \<and> d_active d = Some (c_version c) \<and>
     d_status d \<notin> {Deleting, Deleted} \<and> \<not> d_quarantined d \<and>
     (case rq_kb rq of None \<Rightarrow> True | Some i \<Rightarrow> i = [] \<or> c_kb c = i) \<and>
     one_of_values (rq_types rq) (Some (c_content_type c)) \<and> one_of_values (rq_sections rq) (c_section c) \<and>
     (case rq_after rq of None \<Rightarrow> True | Some t \<Rightarrow> t \<le> d_created d) \<and>
     (case rq_before rq of None \<Rightarrow> True | Some t \<Rightarrow> d_created d \<le> t) \<and>
     one_of_values (rq_sources rq) (Some (d_source_type d)) \<and> one_of_values (rq_departments rq) (d_department d) \<and>
     list_all (\<lambda>tag. se_ilike E (se_tags_text E (d_tags d)) (quoted_tag tag)) (rq_tags rq)"

definition allowed_rows :: "search_engine \<Rightarrow> retrieval_request \<Rightarrow> sys \<Rightarrow> (chunk \<times> document) list" where
  "allowed_rows E rq s = map (\<lambda>(c, d, k, m). (c, d)) (filter (visible_row E rq) (joined_rows s))"

section \<open>The recalls\<close>

type_synonym hit = "chunk \<times> ustr \<times> real"

definition vector_recall :: "search_engine \<Rightarrow> retrieval_request \<Rightarrow> nat \<Rightarrow> vec \<Rightarrow> sys \<Rightarrow> hit list" where
  "vector_recall E rq n vec s = take n (sort_key (\<lambda>(c, f, dist). dist)
     (map (\<lambda>(c, d). (c, d_filename d, se_distance E (c_embedding c) vec)) (allowed_rows E rq s)))"

text \<open>\<open>s.count(t)\<close> for a nonempty \<open>t\<close>\<close>

function count_sub :: "ustr \<Rightarrow> ustr \<Rightarrow> nat" where
  "count_sub t s = (if s = [] \<or> t = [] then 0
     else if startswith s t then Suc (count_sub t (drop (length t) s)) else count_sub t (tl s))"
  by pat_completeness auto
termination by (relation "measure (\<lambda>(t, s). length s)") auto

declare count_sub.simps [simp del]

definition bm25_score :: "unicode \<Rightarrow> ustr \<Rightarrow> ustr list \<Rightarrow> ustr list \<Rightarrow> real" where
  "bm25_score U content keywords corpus =
     (if content = [] \<or> keywords = [] then 0
      else let documents = (if corpus = [] then [casefold U content] else map (casefold U) corpus);
               n = real (length documents);
               avg = real (sum_list (map length documents)) / n;
               low = casefold U content
        in sum_list (map (\<lambda>keyword.
             let t = casefold U keyword; tf = real (count_sub t low);
                 df = real (length (filter (contains t) documents));
                 idf = ln (1 + (n - df + 1 / 2) / (df + 1 / 2))
             in if tf = 0 then 0
                else idf * (tf * (3 / 2 + 1)) / (tf + 3 / 2 * (1 - 3 / 4 + 3 / 4 * real (length low) / max avg 1))) keywords))"

definition keyword_search :: "search_engine \<Rightarrow> unicode \<Rightarrow> retrieval_request \<Rightarrow> nat \<Rightarrow> sys \<Rightarrow> hit list" where
  "keyword_search E U rq n s =
     (let keywords = extract_keywords E U (rq_query rq) 8; expr = build_tsquery U keywords in
      if expr = [] then []
      else let rows = take n (sort_desc (\<lambda>(c, f, rank). rank)
             (map (\<lambda>(c, d). (c, d_filename d, se_rank E (c_tokens c) expr))
               (filter (\<lambda>(c, d). se_match E (c_tokens c) expr) (allowed_rows E rq s))))
        in sort_desc (\<lambda>(c, f, rank). bm25_score U (c_content c) keywords (map (\<lambda>(c, f, rank). c_content c) rows)) rows)"

definition title_match :: "search_engine \<Rightarrow> ustr list \<Rightarrow> chunk \<times> document \<Rightarrow> bool" where
  "title_match E keywords row = (case row of (c, d) \<Rightarrow> list_ex (\<lambda>k.
     se_ilike E (d_filename d) (u ''%'' @ k @ u ''%'') \<or>
     (case c_section c of None \<Rightarrow> False | Some x \<Rightarrow> se_ilike E x (u ''%'' @ k @ u ''%'')) \<or>
     se_ilike E (se_tags_text E (d_tags d)) (quoted_tag k)) (take 4 keywords))"

definition title_recall :: "search_engine \<Rightarrow> retrieval_request \<Rightarrow> ustr list \<Rightarrow> nat \<Rightarrow> sys \<Rightarrow> hit list" where
  "title_recall E rq keywords n s =
     (if keywords = [] \<or> se_title_fails E then []
      else take n (map (\<lambda>(c, d). (c, d_filename d, 1)) (filter (title_match E keywords) (allowed_rows E rq s))))"

definition position :: "string list \<Rightarrow> string \<Rightarrow> nat \<Rightarrow> nat" where
  "position ids i n = (if i \<in> set ids then length (takeWhile (\<lambda>x. x \<noteq> i) ids) else n)"

definition graph_recall :: "search_engine \<Rightarrow> unicode \<Rightarrow> retrieval_request \<Rightarrow> ustr list \<Rightarrow> nat \<Rightarrow> sys \<Rightarrow> hit list" where
  "graph_recall E U rq keywords n s =
     (if se_graph_fails E then []
      else let ids = graph_recall_chunk_ids U keywords (rq_kb rq) n s in
        if ids = [] then []
        else sort_key (\<lambda>(c, f, r). position ids (c_id c) n)
          (map (\<lambda>(c, d). (c, d_filename d, 1)) (filter (\<lambda>(c, d). c_id c \<in> set ids) (allowed_rows E rq s))))"

section \<open>Candidates\<close>

definition hit_ids :: "hit list \<Rightarrow> string list" where
  "hit_ids hits = map (\<lambda>(c, f, x). c_id c) hits"

definition first_hit :: "hit list \<Rightarrow> string \<Rightarrow> (chunk \<times> ustr) option" where
  "first_hit hits i = map_of (map (\<lambda>(c, f, x). (c_id c, (c, f))) hits) i"

definition similarity_of :: "hit list list \<Rightarrow> string \<Rightarrow> real" where
  "similarity_of routes i = fold (\<lambda>(c, f, dist) best. if c_id c = i then max best (max 0 (1 - dist)) else best) (concat routes) 0"

definition candidate :: "search_engine \<Rightarrow> bool \<Rightarrow> hit list list \<Rightarrow> string list \<Rightarrow> string \<times> real \<Rightarrow> chunk \<times> ustr \<Rightarrow> retrieved" where
  "candidate E use_parent routes keyword_ids fused row = (case row of (c, f) \<Rightarrow>
     \<lparr>rc_chunk = fst fused, rc_doc = c_doc c, rc_filename = f, rc_seq = c_seq c, rc_page = c_page c,
      rc_content = (case c_parent_content c of Some p \<Rightarrow> if use_parent \<and> p \<noteq> [] then p else c_content c
        | None \<Rightarrow> c_content c),
      rc_score = se_round E (snd fused), rc_similarity = se_round E (similarity_of routes (fst fused)),
      rc_keyword_hit = (fst fused \<in> set keyword_ids), rc_parent_seq = c_parent_seq c, rc_section = c_section c,
      rc_content_type = c_content_type c, rc_source_url = c_source_url c, rc_created = c_created c, rc_kb = c_kb c\<rparr>)"

fun unique_parents :: "(string \<times> nat) list \<Rightarrow> retrieved list \<Rightarrow> retrieved list" where
  "unique_parents seen [] = []"
| "unique_parents seen (r # rs) =
     (if (rc_doc r, rc_parent_seq r) \<in> set seen then unique_parents seen rs
      else r # unique_parents ((rc_doc r, rc_parent_seq r) # seen) rs)"

definition near :: "nat \<Rightarrow> retrieved \<Rightarrow> chunk \<Rightarrow> bool" where
  "near w r c \<longleftrightarrow> c_doc c = rc_doc r \<and> rc_seq r - w \<le> c_seq c \<and> c_seq c \<le> rc_seq r + w"

definition add_neighbours ::
  "'a retrieval_settings_scheme \<Rightarrow> search_engine \<Rightarrow> retrieval_request \<Rightarrow> sys \<Rightarrow> retrieved list \<Rightarrow> retrieved list" where
  "add_neighbours cfg E rq s results =
     (let w = adjacent_chunk_window cfg;
          neighbours = sort_key c_seq (dedup (map fst (filter (\<lambda>(c, d). list_ex (\<lambda>r. near w r c) (take (retrieval_top_k cfg) results))
            (allowed_rows E rq s))))
      in map (\<lambda>r. let nearby = map c_content (filter (near w r) neighbours)
           in if nearby = [] then r else r\<lparr>rc_content := ujoin [10] (dedup nearby)\<rparr>) results)"

section \<open>Rerankers\<close>

definition by_score :: "retrieved list \<Rightarrow> retrieved list" where
  "by_score rs = sort_desc rc_score rs"

fun set_scores :: "retrieved list \<Rightarrow> real list \<Rightarrow> retrieved list" where
  "set_scores (r # rs) (x # xs) = r\<lparr>rc_score := x\<rparr> # set_scores rs xs"
| "set_scores rs xs = rs"

definition cross_encoder_rerank :: "search_engine \<Rightarrow> ustr \<Rightarrow> retrieved list \<Rightarrow> retrieved list" where
  "cross_encoder_rerank E query rs =
     (case se_predict E query (map rc_content rs) of None \<Rightarrow> rs | Some scores \<Rightarrow> by_score (set_scores rs scores))"

fun rule_bonuses :: "unicode \<Rightarrow> ustr list \<Rightarrow> ustr list \<Rightarrow> retrieved list \<Rightarrow> retrieved list" where
  "rule_bonuses U keywords seen [] = []"
| "rule_bonuses U keywords seen (r # rs) =
     (let label = casefold U (rc_filename r @ [32] @ coalesce (rc_section r) []);
          hits = (\<lambda>text. real (length (filter (\<lambda>k. contains (casefold U k) text) keywords)));
          fingerprint = casefold U (filter (\<lambda>c. \<not> is_space c) (rc_content r));
          bonus = 3 / 100 * hits label + 1 / 100 * hits (casefold U (rc_content r)) -
            (if fingerprint \<in> set seen then 1 / 4 else 0)
      in r\<lparr>rc_score := rc_score r + bonus\<rparr> # rule_bonuses U keywords (fingerprint # seen) rs)"

definition rule_rerank :: "search_engine \<Rightarrow> unicode \<Rightarrow> ustr \<Rightarrow> retrieved list \<Rightarrow> retrieved list" where
  "rule_rerank E U query rs = by_score (rule_bonuses U (extract_keywords E U query 8) [] rs)"

text \<open>\<open>llm_rerank\<close> of \<open>app/services/llm.py\<close>: \<open>se_order\<close> is the list of numbers in the answer.\<close>

fun pick_order :: "nat \<Rightarrow> int list \<Rightarrow> nat list \<Rightarrow> nat list" where
  "pick_order n [] picked = picked"
| "pick_order n (v # vs) picked =
     (if 0 \<le> v - 1 \<and> v - 1 < int n \<and> nat (v - 1) \<notin> set picked then pick_order n vs (picked @ [nat (v - 1)])
      else pick_order n vs picked)"

definition llm_rerank :: "search_engine \<Rightarrow> ustr \<Rightarrow> retrieved list \<Rightarrow> retrieved list" where
  "llm_rerank E query rs =
     (if rs = [] then []
      else case se_order E query (map rc_content rs) of None \<Rightarrow> rs
        | Some order \<Rightarrow> (let picked = pick_order (length rs) order []
            in map (\<lambda>i. rs ! i) (picked @ filter (\<lambda>i. i \<notin> set picked) [0..<length rs])))"

section \<open>The retrieval\<close>

definition vector_routes :: "search_engine \<Rightarrow> retrieval_request \<Rightarrow> nat \<Rightarrow> sys \<Rightarrow> hit list list" where
  "vector_routes E rq n s =
     (if \<not> rq_vector rq then []
      else vector_recall E rq n (coalesce (rq_vec rq) (se_vector E (rq_query rq))) s #
        map (\<lambda>q. vector_recall E rq n (se_vector E q) s) (rq_extra rq))"

definition candidates ::
  "'a retrieval_settings_scheme \<Rightarrow> search_engine \<Rightarrow> unicode \<Rightarrow> retrieval_request \<Rightarrow> sys \<Rightarrow> retrieved list" where
  "candidates cfg E U rq s =
     (let n = retrieval_candidates cfg;
          routes = vector_routes E rq n s;
          kw_rows = (if rq_keyword rq \<and> \<not> se_keyword_fails E then keyword_search E U rq n s else []);
          keywords = extract_keywords E U (rq_query rq) 8;
          title_rows = title_recall E rq keywords n s;
          graph_rows = (if rq_graph rq \<and> graph_retrieval_enabled cfg then graph_recall E U rq keywords n s else []);
          rows = concat routes @ kw_rows @ title_rows @ graph_rows;
          fused = rrf_fuse (map hit_ids (routes @ [kw_rows, title_rows, graph_rows])) (rrf_k cfg);
          use_parent = coalesce (rq_parent rq) (parent_child_enabled cfg);
          results = map (\<lambda>(i, x). candidate E use_parent routes (hit_ids kw_rows) (i, x) (the (first_hit rows i)))
            (sort_desc snd fused)
      in if use_parent then unique_parents [] results
         else if 0 < adjacent_chunk_window cfg \<and> results \<noteq> [] then add_neighbours cfg E rq s results
         else results)"

definition rerank_stages ::
  "'a retrieval_settings_scheme \<Rightarrow> search_engine \<Rightarrow> unicode \<Rightarrow> retrieval_request \<Rightarrow> retrieved list \<Rightarrow> retrieved list" where
  "rerank_stages cfg E U rq rs =
     (let rs1 = (if coalesce (rq_rerank rq) (rerank_enabled cfg) then cross_encoder_rerank E (rq_query rq) rs else rs);
          rs2 = (if rule_rerank_enabled cfg then rule_rerank E U (rq_query rq) rs1 else rs1)
      in if llm_rerank_enabled cfg then llm_rerank E (rq_query rq) (take 20 rs2) else rs2)"

definition retrieve ::
  "'a retrieval_settings_scheme \<Rightarrow> search_engine \<Rightarrow> unicode \<Rightarrow> retrieval_request \<Rightarrow> sys \<Rightarrow> retrieved list" where
  "retrieve cfg E U rq s = take (retrieval_top_k cfg) (rerank_stages cfg E U rq (candidates cfg E U rq s))"

section \<open>The contract of a reranker\<close>

text \<open>Rerankers reorder or drop candidates and change scores, nothing else.\<close>

definition unscored :: "retrieved \<Rightarrow> retrieved" where
  "unscored r = r\<lparr>rc_score := 0\<rparr>"

lemma unscored_simps [simp]:
  "unscored (r\<lparr>rc_score := x\<rparr>) = unscored r" "rc_chunk (unscored r) = rc_chunk r" "rc_doc (unscored r) = rc_doc r"
  "rc_filename (unscored r) = rc_filename r" "rc_kb (unscored r) = rc_kb r" "rc_content (unscored r) = rc_content r"
  "rc_seq (unscored r) = rc_seq r" "rc_parent_seq (unscored r) = rc_parent_seq r"
  by (simp_all add: unscored_def)

lemma distinct_sub_mset:
  assumes "mset xs \<subseteq># mset ys" "distinct ys"
  shows "distinct xs"
proof -
  have "count (mset xs) a = (if a \<in> set xs then 1 else 0)" for a
  proof (cases "a \<in> set xs")
    case True
    then have "a \<in> set ys" using assms(1) by (metis mset_subset_eqD set_mset_mset)
    then have "count (mset ys) a = 1" using assms(2) by (simp add: distinct_count_atmost_1)
    then have "count (mset xs) a \<le> 1" using mset_subset_eq_count [OF assms(1), of a] by simp
    moreover have "0 < count (mset xs) a" using True by (metis count_greater_zero_iff set_mset_mset)
    ultimately show ?thesis using True by (simp add: le_Suc_eq)
  qed (simp add: count_eq_zero_iff)
  then show ?thesis by (simp add: distinct_count_atmost_1)
qed

locale ranker =
  fixes rank :: "retrieved list \<Rightarrow> retrieved list"
  assumes rank_hits: "mset (map unscored (rank rs)) \<subseteq># mset (map unscored rs)"
begin

lemma rank_member: "r \<in> set (rank rs) \<Longrightarrow> \<exists>r0 \<in> set rs. unscored r = unscored r0"
proof -
  assume "r \<in> set (rank rs)"
  then have "unscored r \<in># mset (map unscored (rank rs))" by simp
  then have "unscored r \<in># mset (map unscored rs)" by (rule mset_subset_eqD [OF rank_hits])
  then show ?thesis by auto
qed

lemma rank_length: "length (rank rs) \<le> length rs"
  using size_mset_mono [OF rank_hits] by simp

lemma rank_distinct: "distinct (map rc_chunk rs) \<Longrightarrow> distinct (map rc_chunk (rank rs))"
proof -
  have eq: "map rc_chunk xs = map rc_chunk (map unscored xs)" for xs by simp
  have "mset (map rc_chunk (rank rs)) \<subseteq># mset (map rc_chunk rs)"
    unfolding eq [of rs] eq [of "rank rs"] mset_map [of rc_chunk] by (rule image_mset_subseteq_mono [OF rank_hits])
  then show "distinct (map rc_chunk rs) \<Longrightarrow> distinct (map rc_chunk (rank rs))"
    by (rule distinct_sub_mset)
qed

end

section \<open>The rerankers keep it\<close>

lemma ranker_by_map: "(\<And>rs. mset (map unscored (f rs)) = mset (map unscored rs)) \<Longrightarrow> ranker f"
  by unfold_locales simp

lemma by_score_hits: "mset (map unscored (by_score rs)) = mset (map unscored rs)"
  by (simp add: by_score_def)

lemma set_scores_hits [simp]: "map unscored (set_scores rs xs) = map unscored rs"
  by (induction rs xs rule: set_scores.induct) simp_all

lemma rule_bonuses_hits [simp]: "map unscored (rule_bonuses U ks seen rs) = map unscored rs"
  by (induction U ks seen rs rule: rule_bonuses.induct) (simp_all add: Let_def)

lemma pick_order_ok:
  "distinct picked \<Longrightarrow> set picked \<subseteq> {..<n} \<Longrightarrow>
     distinct (pick_order n vs picked) \<and> set (pick_order n vs picked) \<subseteq> {..<n}"
proof (induction n vs picked rule: pick_order.induct)
  case (2 n v vs picked)
  then show ?case by (cases "0 \<le> v - 1 \<and> v - 1 < int n \<and> nat (v - 1) \<notin> set picked") (simp_all add: nat_less_iff)
qed simp

lemma llm_rerank_hits: "mset (llm_rerank E q rs) = mset rs"
proof (cases "rs = [] \<or> se_order E q (map rc_content rs) = None")
  case False
  then obtain order where order: "se_order E q (map rc_content rs) = Some order" by auto
  define picked where "picked = pick_order (length rs) order []"
  have p: "distinct picked" "set picked \<subseteq> {..<length rs}"
    using pick_order_ok [of "[]" "length rs" order] by (simp_all add: picked_def)
  have "mset (picked @ filter (\<lambda>i. i \<notin> set picked) [0..<length rs]) = mset [0..<length rs]"
    using p by (intro set_eq_iff_mset_eq_distinct [THEN iffD1]) auto
  then have "mset (map ((!) rs) (picked @ filter (\<lambda>i. i \<notin> set picked) [0..<length rs])) = mset (map ((!) rs) [0..<length rs])"
    by (metis mset_map)
  with order False show ?thesis by (simp add: llm_rerank_def picked_def [symmetric] map_nth)
qed (auto simp: llm_rerank_def)

interpretation cross_encoder: ranker "cross_encoder_rerank E q" for E q
proof (rule ranker_by_map)
  show "mset (map unscored (cross_encoder_rerank E q rs)) = mset (map unscored rs)" for rs
    by (cases "se_predict E q (map rc_content rs)")
      (simp_all only: cross_encoder_rerank_def option.case by_score_hits set_scores_hits)
qed

interpretation rules: ranker "rule_rerank E U q" for E U q
  by (rule ranker_by_map) (simp only: rule_rerank_def by_score_hits rule_bonuses_hits)

lemma mset_take: "mset (take n xs) \<subseteq># mset xs"
  by (metis append_take_drop_id mset_append mset_subset_eq_add_left)

interpretation cut: ranker "take n" for n
  by unfold_locales (simp only: take_map [symmetric] mset_take)

interpretation model: ranker "llm_rerank E q" for E q
  by (rule ranker_by_map) (simp add: llm_rerank_hits)

lemma ranker_comp: "ranker f \<Longrightarrow> ranker g \<Longrightarrow> ranker (\<lambda>rs. g (f rs))"
  unfolding ranker_def by (meson subset_mset.order_trans)

interpretation stages: ranker "\<lambda>rs. take n (rerank_stages cfg E U rq rs)" for cfg E U rq n
proof (rule ranker_comp [of "rerank_stages cfg E U rq" "take n"])
  have id: "ranker (\<lambda>rs. rs)" by (rule ranker_by_map) simp
  have c: "ranker (\<lambda>rs. if b then cross_encoder_rerank E q rs else rs)" for b q
    by (cases b) (simp_all add: id cross_encoder.ranker_axioms)
  have r: "ranker (\<lambda>rs. if b then rule_rerank E U q rs else rs)" for b q
    by (cases b) (simp_all add: id rules.ranker_axioms)
  have m: "ranker (\<lambda>rs. if b then llm_rerank E q (take k rs) else rs)" for b q k
    by (cases b) (simp_all add: id ranker_comp [OF cut.ranker_axioms model.ranker_axioms])
  show "ranker (rerank_stages cfg E U rq)"
    using ranker_comp [OF ranker_comp [OF c [of "coalesce (rq_rerank rq) (rerank_enabled cfg)" "rq_query rq"]
          r [of "rule_rerank_enabled cfg" "rq_query rq"]] m [of "llm_rerank_enabled cfg" "rq_query rq" 20]]
    unfolding rerank_stages_def [abs_def] Let_def .
qed (rule cut.ranker_axioms)

end
