(* ===== verification/Evidence.thy ===== *)
theory Evidence
  imports Injection Retrieval
begin

text \<open>
  \<open>app/services/context.py\<close> and the answer side of \<open>app/services/evidence.py\<close>: what is done to the
  retrieved chunks before the model sees them (injection policy, evidence gate, deduplication,
  compression, ordering, token budget), and what is done to the answer (citation checks, repair, the
  entailment judge).  Scores and ratios are reals, the chosen sentences are found by \<open>PyRegex\<close>.
\<close>

record evidence_settings = retrieval_settings +
  injection_high_risk_action :: string
  injection_downweight_factor :: real
  evidence_min_chunks :: nat
  evidence_min_rrf_score :: real
  citation_entailment_max_claims :: nat
  citation_entailment_fail_closed :: bool
  context_max_tokens :: int
  context_compression_enabled :: bool
  context_compression_min_chars :: nat
  lost_in_middle_enabled :: bool

section \<open>The injection policy\<close>

text \<open>\<open>risk_by_chunk\<close> is a dictionary: of two chunks with one identifier the later counts.\<close>

definition chunk_risk :: "'a settings_scheme \<Rightarrow> retrieved list \<Rightarrow> string \<Rightarrow> risk" where
  "chunk_risk cfg rs i = coalesce (map_of (rev (map (\<lambda>r. (rc_chunk r, injection_risk cfg (rc_content r))) rs)) i) RiskNone"

definition high_risk_ids :: "'a settings_scheme \<Rightarrow> retrieved list \<Rightarrow> string list" where
  "high_risk_ids cfg rs = filter (\<lambda>i. chunk_risk cfg rs i = RiskHigh) (map rc_chunk rs)"

record injection_info =
  ii_action :: string
  ii_levels :: "(string \<times> risk) list"
  ii_high_count :: nat
  ii_removed :: "string list"

definition apply_injection_policy ::
  "'a evidence_settings_scheme \<Rightarrow> search_engine \<Rightarrow> retrieved list \<Rightarrow> retrieved list \<times> injection_info" where
  "apply_injection_policy cfg E rs =
     (let high = high_risk_ids cfg rs; action = injection_high_risk_action cfg;
          info = \<lparr>ii_action = action,
            ii_levels = filter (\<lambda>(i, level). level \<noteq> RiskNone) (map (\<lambda>i. (i, chunk_risk cfg rs i)) (dedup (map rc_chunk rs))),
            ii_high_count = length high, ii_removed = []\<rparr>
      in if high = [] \<or> action = ''flag'' then (rs, info)
         else if action = ''remove'' then (filter (\<lambda>r. rc_chunk r \<notin> set high) rs, info\<lparr>ii_removed := high\<rparr>)
         else (by_score (map (\<lambda>r. if rc_chunk r \<in> set high
                 then r\<lparr>rc_score := se_round E (rc_score r * injection_downweight_factor cfg)\<rparr> else r) rs), info))"

record injection_summary =
  is_checked :: int
  is_none :: int
  is_medium :: int
  is_high :: int
  is_removed :: int
  is_downweighted :: int
  is_score :: real
  is_highest :: risk

definition injection_stats :: "retrieved list \<Rightarrow> injection_info \<Rightarrow> injection_summary" where
  "injection_stats rs info =
     (let level = (\<lambda>l. int (length (filter (\<lambda>x. snd x = l) (ii_levels info)))); n = int (length rs);
          high = level RiskHigh; medium = level RiskMedium
      in \<lparr>is_checked = n, is_none = n - medium - high, is_medium = medium, is_high = high,
          is_removed = int (length (ii_removed info)),
          is_downweighted = (if ii_action info = ''downweight'' then int (ii_high_count info) else 0),
          is_score = (of_int high * 1 + of_int medium * (3 / 10)) / of_int (max 1 n),
          is_highest = (if 0 < high then RiskHigh else if 0 < medium then RiskMedium else RiskNone)\<rparr>)"

section \<open>The evidence gate\<close>

record evidence_decision =
  ed_answerable :: bool
  ed_reason :: string
  ed_top_similarity :: real
  ed_top_score :: real
  ed_cross_hits :: nat
  ed_suspicious :: "string list"
  ed_high_risk :: "string list"

text \<open>\<open>max(xs, default=0.0)\<close>\<close>

fun max_default :: "real list \<Rightarrow> real" where
  "max_default [] = 0"
| "max_default (x # xs) = fold max xs x"

definition assess_evidence :: "'a evidence_settings_scheme \<Rightarrow> retrieved list \<Rightarrow> evidence_decision" where
  "assess_evidence cfg rs =
     (let ids = dedup (map rc_chunk rs);
          top_score = max_default (map rc_score rs);
          decision = (\<lambda>ok reason. \<lparr>ed_answerable = ok, ed_reason = reason,
            ed_top_similarity = max_default (map rc_similarity rs), ed_top_score = top_score,
            ed_cross_hits = length (filter (\<lambda>r. rc_keyword_hit r \<and> 0 < rc_similarity r) rs),
            ed_suspicious = filter (\<lambda>i. chunk_risk cfg rs i \<noteq> RiskNone) ids,
            ed_high_risk = filter (\<lambda>i. chunk_risk cfg rs i = RiskHigh) ids\<rparr>)
      in if length rs < evidence_min_chunks cfg then decision False ''insufficient_evidence_count''
         else if top_score < evidence_min_rrf_score cfg then decision False ''retrieval_score_below_threshold''
         else decision True ''evidence_threshold_met'')"

section \<open>The context given to the model\<close>

definition fingerprint :: "unicode \<Rightarrow> ustr \<Rightarrow> ustr list" where
  "fingerprint U v = (let n = casefold U (filter (\<lambda>c. \<not> is_space c) v) in
     if length n < 3 then [n] else dedup (map (\<lambda>i. slice n i (i + 3)) [0..<length n - 2]))"

definition similar :: "unicode \<Rightarrow> ustr \<Rightarrow> ustr \<Rightarrow> real" where
  "similar U left right = (let a = fingerprint U left; b = fingerprint U right in
     real (length (filter (\<lambda>x. x \<in> set b) a)) / real (max 1 (length (dedup (a @ b)))))"

definition sentence_split :: regex where
  "sentence_split = alts [Seq (Behind (one_of [12290, 65281, 65311, 33, 63, 65307, 59])) (Rep 0 None is_space),
     Seq (Behind (ch 46)) (Rep 1 None is_space)]"

definition sentences_of :: "ustr \<Rightarrow> ustr list" where
  "sentences_of content = filter (\<lambda>x. x \<noteq> []) (map strip (re_split sentence_split content))"

definition compress :: "'a evidence_settings_scheme \<Rightarrow> search_engine \<Rightarrow> unicode \<Rightarrow> ustr \<Rightarrow> ustr \<Rightarrow> ustr" where
  "compress cfg E U content query =
     (if \<not> context_compression_enabled cfg \<or> length content < context_compression_min_chars cfg then content
      else let keywords = extract_keywords E U query 12;
               sentences = sentences_of content;
               selected = filter (\<lambda>x. list_ex (\<lambda>k. contains (casefold U k) (casefold U x)) keywords) sentences
        in if selected = [] then take (context_compression_min_chars cfg) content
           else ujoin [32] (map (\<lambda>i. sentences ! i) (filter (\<lambda>i. list_ex (\<lambda>j. j < length sentences \<and> sentences ! j \<in> set selected)
             ((if i = 0 then [] else [i - 1]) @ [i, i + 1])) [0..<length sentences])))"

text \<open>\<open>xs[::2]\<close>\<close>

fun every_second :: "'a list \<Rightarrow> 'a list" where
  "every_second [] = []"
| "every_second [x] = [x]"
| "every_second (x # y # xs) = x # every_second xs"

definition lost_in_middle_order :: "'a evidence_settings_scheme \<Rightarrow> retrieved list \<Rightarrow> retrieved list" where
  "lost_in_middle_order cfg rs =
     (if \<not> lost_in_middle_enabled cfg \<or> length rs < 3 then rs
      else [rs ! 0] @ every_second (drop 2 rs) @ rev (every_second (drop 3 rs)) @ [rs ! 1])"

fun unique_contents :: "'a evidence_settings_scheme \<Rightarrow> search_engine \<Rightarrow> unicode \<Rightarrow> ustr \<Rightarrow> retrieved list \<Rightarrow> retrieved list \<Rightarrow> retrieved list" where
  "unique_contents cfg E U query unique [] = unique"
| "unique_contents cfg E U query unique (r # rs) =
     unique_contents cfg E U query
       (if list_ex (\<lambda>x. 88 / 100 \<le> similar U (rc_content r) (rc_content x)) unique then unique
        else unique @ [r\<lparr>rc_content := compress cfg E U (rc_content r) query\<rparr>]) rs"

text \<open>Half the number of code points, at least one, estimates the tokens of a text.\<close>

definition estimated :: "retrieved \<Rightarrow> nat" where
  "estimated r = max 1 (length (rc_content r) div 2)"

fun fill_budget :: "nat \<Rightarrow> nat \<Rightarrow> retrieved list \<Rightarrow> retrieved list \<Rightarrow> retrieved list" where
  "fill_budget budget used selected [] = selected"
| "fill_budget budget used selected (r # rs) =
     (if selected \<noteq> [] \<and> budget < used + estimated r then fill_budget budget used selected rs
      else if budget < estimated r
        then fill_budget budget (used + budget) (selected @ [r\<lparr>rc_content := take (budget * 2) (rc_content r)\<rparr>]) rs
        else fill_budget budget (used + estimated r) (selected @ [r]) rs)"

definition budget_of :: "'a evidence_settings_scheme \<Rightarrow> nat" where
  "budget_of cfg = nat (max 1 (context_max_tokens cfg))"

definition prepare_context :: "'a evidence_settings_scheme \<Rightarrow> search_engine \<Rightarrow> unicode \<Rightarrow> ustr \<Rightarrow> retrieved list \<Rightarrow> retrieved list" where
  "prepare_context cfg E U query rs =
     fill_budget (budget_of cfg) 0 [] (lost_in_middle_order cfg (unique_contents cfg E U query [] rs))"

section \<open>Citations\<close>

definition citation_pattern :: regex where
  "citation_pattern = seq [Atom (ch 91), Grp 1 (Rep 1 None is_decimal), Atom (ch 93)]"

definition cited_numbers :: "ustr \<Rightarrow> int list" where
  "cited_numbers text = map int_of_digits (findall_group citation_pattern text)"

definition factual_lines :: "ustr \<Rightarrow> ustr list" where
  "factual_lines answer = map strip (filter (\<lambda>line. strip line \<noteq> [] \<and>
     \<not> startswith (lstrip line) [35] \<and> \<not> startswith (lstrip line) [62] \<and> 12 \<le> length (strip line)) (splitlines answer))"

record citation_check =
  cc_valid :: bool
  cc_cited :: "int list"
  cc_invalid :: "int list"
  cc_uncited :: "ustr list"

definition validate_citations :: "ustr \<Rightarrow> int \<Rightarrow> citation_check" where
  "validate_citations answer source_count =
     (let cited = cited_numbers answer;
          invalid = sort (remdups (filter (\<lambda>v. v < 1 \<or> source_count < v) cited));
          factual = filter (\<lambda>line. \<not> startswith (lstrip line) [45] \<and> \<not> startswith (lstrip line) [42]) (factual_lines answer);
          uncited = map (take 160) (filter (\<lambda>line. \<not> re_search citation_pattern line) factual)
      in \<lparr>cc_valid = (0 < source_count \<and> cited \<noteq> [] \<and> invalid = [] \<and> uncited = []),
          cc_cited = sort (remdups cited), cc_invalid = invalid, cc_uncited = take 5 uncited\<rparr>)"

text \<open>The lines \<open>repair_citations\<close> keeps, and those it removes; \<open>fence\<close> is \<open>in_code_fence\<close>.\<close>

definition label_marks :: "nat list" where
  "label_marks = u ''-*+0123456789.'' @ [12289, 32]"

definition is_label :: "ustr \<Rightarrow> bool" where
  "is_label stripped \<longleftrightarrow> (let label = lstrip_chars label_marks stripped in
     length label < 12 \<and> (endswith label [58] \<or> endswith label [65306]))"

definition is_structure :: "ustr \<Rightarrow> bool" where
  "is_structure stripped \<longleftrightarrow> startswith stripped [35] \<or> startswith stripped [62] \<or>
     stripped \<in> {u ''---'', u ''***'', u ''___''}"

definition supported :: "int \<Rightarrow> ustr \<Rightarrow> bool" where
  "supported source_count line \<longleftrightarrow> cited_numbers line \<noteq> [] \<and> list_all (\<lambda>v. 1 \<le> v \<and> v \<le> source_count) (cited_numbers line)"

fun repair_lines :: "int \<Rightarrow> bool \<Rightarrow> ustr list \<Rightarrow> ustr list \<Rightarrow> ustr list \<Rightarrow> ustr list \<times> ustr list" where
  "repair_lines n fence kept removed [] = (kept, removed)"
| "repair_lines n fence kept removed (line # ls) =
     (let stripped = strip line in
      if startswith stripped [96, 96, 96] then repair_lines n (\<not> fence) (kept @ [line]) removed ls
      else if stripped = [] \<or> is_structure stripped \<or> supported n line \<or> (\<not> fence \<and> is_label stripped)
        then repair_lines n fence (kept @ [line]) removed ls
      else repair_lines n fence kept (removed @ [take 200 stripped]) ls)"

definition empty_fence :: regex where
  "empty_fence = seq [lit [96, 96, 96], Rep 0 None (\<lambda>c. c \<noteq> 10), Atom (ch 10), Rep 0 None is_space, lit [96, 96, 96]]"

record repaired =
  rp_answer :: ustr
  rp_changed :: bool
  rp_removed :: "ustr list"
  rp_check :: citation_check

definition repair_citations :: "ustr \<Rightarrow> int \<Rightarrow> repaired" where
  "repair_citations answer source_count =
     (if source_count \<le> 0 then \<lparr>rp_answer = [], rp_changed = (strip answer \<noteq> []), rp_removed = [],
        rp_check = validate_citations [] source_count\<rparr>
      else let (kept, removed) = repair_lines source_count False [] [] (splitlines answer);
               text = strip (re_sub empty_fence (\<lambda>m c. []) (strip (ujoin [10] kept)))
        in \<lparr>rp_answer = text, rp_changed = (text \<noteq> strip answer), rp_removed = take 10 removed,
            rp_check = validate_citations text source_count\<rparr>)"

section \<open>The entailment judge\<close>

definition extract_cited_claims :: "'a evidence_settings_scheme \<Rightarrow> ustr \<Rightarrow> int \<Rightarrow> (ustr \<times> int list) list" where
  "extract_cited_claims cfg answer source_count =
     take (citation_entailment_max_claims cfg) (filter (\<lambda>(t, cs). cs \<noteq> []) (map (\<lambda>line. (take 300 line,
       sort (remdups (filter (\<lambda>v. 1 \<le> v \<and> v \<le> source_count) (cited_numbers line))))) (factual_lines answer)))"

text \<open>\<open>int(x)\<close> of a value of \<open>json.loads\<close>; \<open>read_int\<close> is \<open>int\<close> of a text.\<close>

fun json_int :: "(ustr \<Rightarrow> int option) \<Rightarrow> json \<Rightarrow> int option" where
  "json_int read_int (JInt n) = Some n"
| "json_int read_int (JBool b) = Some (if b then 1 else 0)"
| "json_int read_int (JStr s) = read_int s"
| "json_int read_int j = None"

text \<open>One verdict of the judge: \<open>None\<close> when reading it raises, otherwise the claim it finds unsupported.\<close>

fun read_verdict :: "(ustr \<Rightarrow> int option) \<Rightarrow> (ustr \<times> int list) list \<Rightarrow> json \<Rightarrow> ustr list option" where
  "read_verdict read_int claims (JObj kvs) = (case json_int read_int (coalesce (map_of kvs ''claim'') (JInt 0)) of None \<Rightarrow> None
     | Some n \<Rightarrow> Some (if \<not> truthy (coalesce (map_of kvs ''supported'') JNull) \<and> 1 \<le> n \<and> n \<le> int (length claims)
         then [take 160 (fst (claims ! nat (n - 1)))] else []))"
| "read_verdict read_int claims j = None"

fun read_verdicts :: "(ustr \<Rightarrow> int option) \<Rightarrow> (ustr \<times> int list) list \<Rightarrow> json list \<Rightarrow> ustr list option" where
  "read_verdicts read_int claims [] = Some []"
| "read_verdicts read_int claims (v # vs) = (case read_verdict read_int claims v of None \<Rightarrow> None
     | Some xs \<Rightarrow> map_option (\<lambda>ys. xs @ ys) (read_verdicts read_int claims vs))"

record entailment =
  en_checked :: bool
  en_supported :: bool
  en_unsupported :: "ustr list"

text \<open>The message to the judge is given to the completion service as the claims and the cited sources.\<close>

definition verify_claim_entailment ::
  "'a evidence_settings_scheme \<Rightarrow> ((ustr \<times> (int \<times> ustr) list) list \<Rightarrow> ustr option) \<Rightarrow> (ustr \<Rightarrow> json option) \<Rightarrow>
   (ustr \<Rightarrow> int option) \<Rightarrow> ustr \<Rightarrow> ustr list \<Rightarrow> entailment" where
  "verify_claim_entailment cfg ask loads_text read_int answer sources =
     (let claims = extract_cited_claims cfg answer (int (length sources));
          unavailable = \<lparr>en_checked = False, en_supported = \<not> citation_entailment_fail_closed cfg, en_unsupported = []\<rparr>
      in if claims = [] then \<lparr>en_checked = False, en_supported = True, en_unsupported = []\<rparr>
         else case ask (map (\<lambda>(t, cs). (t, map (\<lambda>n. (n, take 600 (sources ! nat (n - 1)))) cs)) claims) of
             None \<Rightarrow> unavailable
           | Some reply \<Rightarrow> (case loads_text (json_span 91 93 (strip reply)) of
                 Some (JList vs) \<Rightarrow> (case read_verdicts read_int claims vs of None \<Rightarrow> unavailable
                   | Some bad \<Rightarrow> \<lparr>en_checked = True, en_supported = (bad = []), en_unsupported = take 5 bad\<rparr>)
               | _ \<Rightarrow> unavailable))"

end
