(* ===== verification/RetrievalClaims.thy ===== *)
theory RetrievalClaims
  imports Retrieval Demo
begin

text \<open>
  What a retrieval may return.  Whatever the models and the text search answer, every result is a chunk
  the requester may read; fusion computes the sum of reciprocal ranks.
\<close>

section \<open>Fusion\<close>

lemma put_score_keys: "set (map fst (put_score i v scores)) = insert i (set (map fst scores))"
  by (induction i v scores rule: put_score.induct) auto

lemma put_score_distinct: "distinct (map fst scores) \<Longrightarrow> distinct (map fst (put_score i v scores))"
  by (induction i v scores rule: put_score.induct) (auto simp: put_score_keys [unfolded set_map] image_iff)

lemma put_score_of: "score_of (put_score i v scores) j = (if j = i then v else score_of scores j)"
  by (induction i v scores rule: put_score.induct) (auto simp: score_of_def)

lemma add_ranking_keys: "set (map fst (add_ranking k r ids scores)) = set ids \<union> set (map fst scores)"
  by (induction k r ids scores rule: add_ranking.induct) (auto simp: put_score_keys [unfolded set_map])

lemma add_ranking_distinct: "distinct (map fst scores) \<Longrightarrow> distinct (map fst (add_ranking k r ids scores))"
  by (induction k r ids scores rule: add_ranking.induct) (simp_all add: put_score_distinct)

lemma rrf_keys: "set (map fst (rrf_fuse rankings k)) = set (concat rankings)"
proof -
  have "set (map fst (fold (add_ranking k 0) rankings scores)) = set (concat rankings) \<union> set (map fst scores)" for scores
    by (induction rankings arbitrary: scores) (auto simp: add_ranking_keys [unfolded set_map])
  from this [of "[]"] show ?thesis by (simp add: rrf_fuse_def)
qed

lemma rrf_distinct: "distinct (map fst (rrf_fuse rankings k))"
proof -
  have "distinct (map fst scores) \<Longrightarrow> distinct (map fst (fold (add_ranking k 0) rankings scores))" for scores
    by (induction rankings arbitrary: scores) (simp_all add: add_ranking_distinct)
  then show ?thesis by (simp add: rrf_fuse_def)
qed

text \<open>The reference: the sum of the reciprocal ranks of an identifier.\<close>

definition reciprocal_ranks :: "nat \<Rightarrow> string \<Rightarrow> string list \<Rightarrow> real" where
  "reciprocal_ranks k i ids = (\<Sum>j < length ids. if ids ! j = i then 1 / real (k + j + 1) else 0)"

lemma add_ranking_score:
  "score_of (add_ranking k r ids scores) i = score_of scores i + (\<Sum>j < length ids. if ids ! j = i then 1 / real (k + r + j + 1) else 0)"
proof (induction k r ids scores rule: add_ranking.induct)
  case (2 k r x ids scores)
  have "(\<Sum>j < length (x # ids). if (x # ids) ! j = i then 1 / real (k + r + j + 1) else 0) =
      (if x = i then 1 / real (k + r + 1) else 0) + (\<Sum>j < length ids. if ids ! j = i then 1 / real (k + (r + 1) + j + 1) else 0)"
    unfolding length_Cons sum.lessThan_Suc_shift by (simp, intro sum.cong) (simp_all add: ac_simps)
  with 2 show ?case by (simp add: put_score_of)
qed simp

lemma rrf_score: "score_of (rrf_fuse rankings k) i = sum_list (map (reciprocal_ranks k i) rankings)"
proof -
  have "score_of (fold (add_ranking k 0) rankings scores) i = score_of scores i + sum_list (map (reciprocal_ranks k i) rankings)" for scores
    by (induction rankings arbitrary: scores) (simp_all add: add_ranking_score reciprocal_ranks_def)
  from this [of "[]"] show ?thesis by (simp add: rrf_fuse_def score_of_def)
qed

section \<open>Where a candidate comes from\<close>

text \<open>A chunk the requester may read: its knowledge base is that of its document and belongs to a workspace
  the requester is a member of; the document is live, not quarantined, and the chunk is of its active version.\<close>

definition readable :: "string \<Rightarrow> string option \<Rightarrow> sys \<Rightarrow> chunk \<Rightarrow> document \<Rightarrow> bool" where
  "readable user kb s c d \<longleftrightarrow> c \<in> set (chunks s) \<and> d \<in> set (docs s) \<and> d_id d = c_doc c \<and> d_kb d = c_kb c \<and>
     (\<exists>k \<in> set (kbs s). \<exists>m \<in> set (memberships s). k_id k = c_kb c \<and> m_ws m = k_ws k \<and> m_user m = user) \<and>
     d_active d = Some (c_version c) \<and> d_status d \<noteq> Deleting \<and> d_status d \<noteq> Deleted \<and> \<not> d_quarantined d \<and>
     (\<forall>i. kb = Some i \<longrightarrow> i = [] \<or> c_kb c = i)"

lemma allowed_readable:
  assumes "(c, d) \<in> set (allowed_rows E rq s)"
  shows "readable (rq_owner rq) (rq_kb rq) s c d"
proof -
  obtain k m where row: "(c, d, k, m) \<in> set (joined_rows s)" "visible_row E rq (c, d, k, m)"
    using assms by (auto simp: allowed_rows_def)
  have "c \<in> set (chunks s)" "d \<in> set (docs s)" "d_id d = c_doc c" "k \<in> set (kbs s)" "k_id k = c_kb c"
    "m \<in> set (memberships s)" "m_ws m = k_ws k"
    using row(1) by (auto simp: joined_rows_def)
  moreover have "m_user m = rq_owner rq" "c_kb c = d_kb d" "d_active d = Some (c_version c)" "d_status d \<noteq> Deleting"
    "d_status d \<noteq> Deleted" "\<not> d_quarantined d" "\<forall>i. rq_kb rq = Some i \<longrightarrow> i = [] \<or> c_kb c = i"
    using row(2) by auto
  ultimately show ?thesis unfolding readable_def by metis
qed

definition hits_ok :: "search_engine \<Rightarrow> retrieval_request \<Rightarrow> sys \<Rightarrow> hit list \<Rightarrow> bool" where
  "hits_ok E rq s hits \<longleftrightarrow>
     (\<forall>h \<in> set hits. \<exists>d. fst (snd h) = d_filename d \<and> (fst h, d) \<in> set (allowed_rows E rq s))"

lemma hits_ok_simps:
  "hits_ok E rq s []" "hits_ok E rq s (xs @ ys) \<longleftrightarrow> hits_ok E rq s xs \<and> hits_ok E rq s ys"
  "hits_ok E rq s xs \<Longrightarrow> hits_ok E rq s (take n xs)"
  "hits_ok E rq s (sort_key g xs) \<longleftrightarrow> hits_ok E rq s xs"
  "hits_ok E rq s (sort_desc h xs) \<longleftrightarrow> hits_ok E rq s xs"
  by (auto simp: hits_ok_def dest: in_set_takeD)

lemma hits_ok_map:
  "set rows \<subseteq> set (allowed_rows E rq s) \<Longrightarrow> hits_ok E rq s (map (\<lambda>(c, d). (c, d_filename d, g c d)) rows)"
  by (force simp: hits_ok_def)

lemma recalls_ok:
  "hits_ok E rq s (vector_recall E rq n v s)" "hits_ok E rq s (keyword_search E U rq n s)"
  "hits_ok E rq s (title_recall E rq ks n s)" "hits_ok E rq s (graph_recall E U rq ks n s)"
  unfolding vector_recall_def keyword_search_def title_recall_def graph_recall_def Let_def
  by (simp_all add: hits_ok_simps hits_ok_map)

lemma routes_ok: "hits_ok E rq s (concat (vector_routes E rq n s))"
proof -
  have "hits_ok E rq s (concat (map (\<lambda>q. vector_recall E rq n (f q) s) qs))" for f qs
    by (induction qs) (simp_all add: hits_ok_simps recalls_ok)
  from this [of "se_vector E" "rq_extra rq"] show ?thesis by (simp add: vector_routes_def hits_ok_simps recalls_ok)
qed

text \<open>A text of document \<open>i\<close> made of what the requester may read.\<close>

definition passage :: "string \<Rightarrow> string option \<Rightarrow> sys \<Rightarrow> string \<Rightarrow> ustr \<Rightarrow> bool" where
  "passage user kb s i text \<longleftrightarrow> (\<exists>cs. (\<forall>c \<in> set cs. c_doc c = i \<and> (\<exists>d. readable user kb s c d)) \<and>
     (text = ujoin [10] (dedup (map c_content cs)) \<or> (\<exists>c. cs = [c] \<and> (text = c_content c \<or> c_parent_content c = Some text))))"

definition authorised :: "string \<Rightarrow> string option \<Rightarrow> sys \<Rightarrow> retrieved \<Rightarrow> bool" where
  "authorised user kb s r \<longleftrightarrow> (\<exists>c d. readable user kb s c d \<and> rc_chunk r = c_id c \<and> rc_doc r = d_id d \<and>
     rc_filename r = d_filename d \<and> rc_kb r = d_kb d \<and> rc_seq r = c_seq c) \<and> passage user kb s (rc_doc r) (rc_content r)"

lemma authorised_unscored: "unscored r = unscored r0 \<Longrightarrow> authorised user kb s r0 \<Longrightarrow> authorised user kb s r"
proof -
  assume eq: "unscored r = unscored r0"
  have "rc_chunk r = rc_chunk r0" "rc_doc r = rc_doc r0" "rc_filename r = rc_filename r0" "rc_kb r = rc_kb r0"
    "rc_content r = rc_content r0" "rc_seq r = rc_seq r0"
    using arg_cong [OF eq, of rc_chunk] arg_cong [OF eq, of rc_doc] arg_cong [OF eq, of rc_filename]
      arg_cong [OF eq, of rc_kb] arg_cong [OF eq, of rc_content] arg_cong [OF eq, of rc_seq] by simp_all
  then show "authorised user kb s r0 \<Longrightarrow> authorised user kb s r" by (simp add: authorised_def)
qed

lemma candidate_authorised:
  assumes "(c, d) \<in> set (allowed_rows E rq s)"
  shows "authorised (rq_owner rq) (rq_kb rq) s (candidate E p routes ks (c_id c, x) (c, d_filename d))"
proof -
  have r: "readable (rq_owner rq) (rq_kb rq) s c d" by (rule allowed_readable [OF assms])
  have "passage (rq_owner rq) (rq_kb rq) s (c_doc c) (rc_content (candidate E p routes ks (c_id c, x) (c, d_filename d)))"
    unfolding passage_def using r
    by (intro exI [of _ "[c]"]) (auto simp: candidate_def split: option.splits)
  with r show ?thesis
    unfolding authorised_def by (intro conjI exI [of _ c] exI [of _ d]) (auto simp: candidate_def readable_def)
qed

lemma first_hit_found:
  assumes "hits_ok E rq s hits" "i \<in> set (hit_ids hits)"
  shows "\<exists>c d. first_hit hits i = Some (c, d_filename d) \<and> c_id c = i \<and> (c, d) \<in> set (allowed_rows E rq s)"
proof -
  have "i \<in> fst ` set (map (\<lambda>(c, f, x). (c_id c, (c, f))) hits)" using assms(2) by (force simp: hit_ids_def)
  then have "first_hit hits i \<noteq> None" by (simp only: first_hit_def map_of_eq_None_iff) blast
  then obtain y where y: "first_hit hits i = Some y" by blast
  then have "(i, y) \<in> set (map (\<lambda>(c, f, x). (c_id c, (c, f))) hits)" unfolding first_hit_def by (rule map_of_SomeD)
  then obtain c f x where h: "(c, f, x) \<in> set hits" "i = c_id c" "y = (c, f)" by auto
  with assms(1) obtain d where "f = d_filename d" "(c, d) \<in> set (allowed_rows E rq s)" by (fastforce simp: hits_ok_def)
  with h y show ?thesis by blast
qed

lemma set_unique_parents: "set (unique_parents seen rs) \<subseteq> set rs"
  by (induction seen rs rule: unique_parents.induct) auto

lemma distinct_unique_parents: "distinct (map rc_chunk rs) \<Longrightarrow> distinct (map rc_chunk (unique_parents seen rs))"
proof (induction seen rs rule: unique_parents.induct)
  case (2 seen r rs)
  then show ?case using set_unique_parents [of _ rs] by auto
qed simp

lemma neighbours_authorised:
  assumes "r \<in> set (add_neighbours cfg E rq s rs)" "\<forall>r \<in> set rs. authorised (rq_owner rq) (rq_kb rq) s r"
  shows "authorised (rq_owner rq) (rq_kb rq) s r"
proof -
  let ?w = "adjacent_chunk_window cfg"
  let ?ns = "sort_key c_seq (dedup (map fst (filter (\<lambda>(c, d). list_ex (\<lambda>r. near ?w r c) (take (retrieval_top_k cfg) rs))
            (allowed_rows E rq s))))"
  obtain r0 where r0: "r0 \<in> set rs"
    "r = (if map c_content (filter (near ?w r0) ?ns) = [] then r0 else r0\<lparr>rc_content := ujoin [10] (dedup (map c_content (filter (near ?w r0) ?ns)))\<rparr>)"
    using assms(1) by (auto simp: add_neighbours_def Let_def)
  have auth: "authorised (rq_owner rq) (rq_kb rq) s r0" using r0(1) assms(2) by blast
  have "passage (rq_owner rq) (rq_kb rq) s (rc_doc r0) (ujoin [10] (dedup (map c_content (filter (near ?w r0) ?ns))))"
    unfolding passage_def
    by (rule exI [of _ "filter (near ?w r0) ?ns"])
      (auto simp: near_def, use allowed_readable in blast)
  with auth r0(2) show ?thesis by (auto simp: authorised_def)
qed

lemma candidates_ok:
  "(\<forall>r \<in> set (candidates cfg E U rq s). authorised (rq_owner rq) (rq_kb rq) s r) \<and>
   distinct (map rc_chunk (candidates cfg E U rq s))"
proof -
  let ?n = "retrieval_candidates cfg"
  define routes where "routes = vector_routes E rq ?n s"
  define kw where "kw = (if rq_keyword rq \<and> \<not> se_keyword_fails E then keyword_search E U rq ?n s else [])"
  define title where "title = title_recall E rq (extract_keywords E U (rq_query rq) 8) ?n s"
  define graph where "graph = (if rq_graph rq \<and> graph_retrieval_enabled cfg
    then graph_recall E U rq (extract_keywords E U (rq_query rq) 8) ?n s else [])"
  define rows where "rows = concat routes @ kw @ title @ graph"
  define fused where "fused = rrf_fuse (map hit_ids (routes @ [kw, title, graph])) (rrf_k cfg)"
  define p where "p = coalesce (rq_parent rq) (parent_child_enabled cfg)"
  define results where "results = map (\<lambda>(i, x). candidate E p routes (hit_ids kw) (i, x) (the (first_hit rows i))) (sort_desc snd fused)"
  have eq: "candidates cfg E U rq s = (if p then unique_parents [] results
      else if 0 < adjacent_chunk_window cfg \<and> results \<noteq> [] then add_neighbours cfg E rq s results else results)"
    unfolding candidates_def Let_def routes_def kw_def title_def graph_def rows_def fused_def p_def results_def ..
  have ok: "hits_ok E rq s rows"
    by (simp add: rows_def routes_def kw_def title_def graph_def hits_ok_simps recalls_ok routes_ok)
  have ids: "set (map fst fused) = set (hit_ids rows)"
  proof -
    have "concat (map hit_ids (routes @ [kw, title, graph])) = hit_ids rows"
      by (simp add: rows_def hit_ids_def [abs_def] map_concat)
    then show ?thesis by (simp only: fused_def rrf_keys)
  qed
  have auth: "authorised (rq_owner rq) (rq_kb rq) s r" if mem: "r \<in> set results" for r
  proof -
    obtain ix where ix: "ix \<in> set fused" "r = (case ix of (i, x) \<Rightarrow> candidate E p routes (hit_ids kw) (i, x) (the (first_hit rows i)))"
      using mem unfolding results_def set_map set_sort_desc by blast
    obtain i x where "ix = (i, x)" by fastforce
    with ix have r: "(i, x) \<in> set fused" "r = candidate E p routes (hit_ids kw) (i, x) (the (first_hit rows i))"
      by simp_all
    then have "i \<in> set (hit_ids rows)" using ids by force
    from first_hit_found [OF ok this] obtain c d where c: "first_hit rows i = Some (c, d_filename d)" "c_id c = i"
      "(c, d) \<in> set (allowed_rows E rq s)" by blast
    show ?thesis using candidate_authorised [OF c(3), of p routes "hit_ids kw" x] unfolding r(2) c(1) c(2) option.sel .
  qed
  have chunk: "rc_chunk (candidate E p routes ks ix row) = fst ix" for ks ix row by (simp add: candidate_def split: prod.splits)
  have "map rc_chunk results = map fst (sort_desc snd fused)" by (simp add: results_def chunk comp_def case_prod_beta)
  moreover have "mset (map fst (sort_desc snd fused)) = mset (map fst fused)" by simp
  ultimately have dist: "distinct (map rc_chunk results)"
    using rrf_distinct [of "map hit_ids (routes @ [kw, title, graph])" "rrf_k cfg"] unfolding fused_def [symmetric]
    by (metis mset_eq_imp_distinct_iff)
  have keys: "map rc_chunk (add_neighbours cfg E rq s results) = map rc_chunk results"
    by (auto simp: add_neighbours_def Let_def)
  have unique: "\<forall>r \<in> set (unique_parents [] results). authorised (rq_owner rq) (rq_kb rq) s r"
    using set_unique_parents auth by blast
  have near: "\<forall>r \<in> set (add_neighbours cfg E rq s results). authorised (rq_owner rq) (rq_kb rq) s r"
    using neighbours_authorised [where rs = results and cfg = cfg and E = E and rq = rq and s = s] auth by blast
  have "distinct (map rc_chunk (add_neighbours cfg E rq s results))" unfolding keys by (rule dist)
  then show ?thesis
    unfolding eq using auth dist unique near distinct_unique_parents [OF dist] by (simp split: if_splits)
qed

section \<open>Properties\<close>

text \<open>Tenant isolation of retrieval: whatever the models, the text search and the rerankers answer, every
  result is a chunk of the active version of a live document that is not in quarantine, in a knowledge base of a
  workspace the requester belongs to and in the knowledge base asked for; its text is made of such chunks of the
  same document; no chunk comes twice, and there are at most retrieval_top_k results.\<close>

theorem retrieval_is_isolated:
  "list_all (authorised (rq_owner rq) (rq_kb rq) s) (retrieve cfg E U rq s) \<and>
   distinct (map rc_chunk (retrieve cfg E U rq s)) \<and> length (retrieve cfg E U rq s) \<le> retrieval_top_k cfg"
proof -
  have "authorised (rq_owner rq) (rq_kb rq) s r" if "r \<in> set (retrieve cfg E U rq s)" for r
    using stages.rank_member [OF that [unfolded retrieve_def]] candidates_ok [of cfg E U rq s] authorised_unscored by blast
  then show ?thesis
    using stages.rank_distinct [of "candidates cfg E U rq s"] candidates_ok [of cfg E U rq s]
    by (simp add: list_all_iff retrieve_def)
qed

text \<open>Fusion is the sum of reciprocal ranks over all recalls, for every identifier, and scores exactly the
  identifiers some recall found, once each.\<close>

theorem fusion_is_reciprocal_rank:
  "score_of (rrf_fuse rankings k) i = (\<Sum>ids \<leftarrow> rankings. \<Sum>j < length ids. if ids ! j = i then 1 / real (k + j + 1) else 0) \<and>
   set (map fst (rrf_fuse rankings k)) = set (concat rankings) \<and> distinct (map fst (rrf_fuse rankings k))"
  using rrf_score [of rankings k i] rrf_keys rrf_distinct unfolding reciprocal_ranks_def [abs_def] by blast

end
