(* ===== verification/EvidenceClaims.thy ===== *)
theory EvidenceClaims
  imports Evidence Chunker RetrievalClaims
begin

text \<open>
  What reaches the model: the chunks after retrieval, injection policy, deduplication, compression,
  ordering and budgeting are still chunks the requester may read, their text is part of the retrieved
  text, and they fit the budget.
\<close>

section \<open>The order of risks\<close>

fun risk_rank :: "risk \<Rightarrow> nat" where
  "risk_rank RiskNone = 0"
| "risk_rank RiskMedium = 1"
| "risk_rank RiskHigh = 2"

lemma risk_rank_inject: "risk_rank a = risk_rank b \<Longrightarrow> a = b"
  by (cases a; cases b) simp_all

instantiation risk :: linorder
begin

definition less_eq_risk :: "risk \<Rightarrow> risk \<Rightarrow> bool" where
  "a \<le> b \<longleftrightarrow> risk_rank a \<le> risk_rank b"

definition less_risk :: "risk \<Rightarrow> risk \<Rightarrow> bool" where
  "a < b \<longleftrightarrow> risk_rank a < risk_rank b"

instance
  by standard (auto simp: less_eq_risk_def less_risk_def intro: risk_rank_inject)

end

text \<open>The highest risk of the report is the maximum of the levels of the chunks.\<close>

lemma highest_risk_is_maximum:
  "is_highest (injection_stats rs info) = Max (insert RiskNone (snd ` set (ii_levels info)))"
proof -
  let ?L = "insert RiskNone (snd ` set (ii_levels info))"
  have count: "0 < int (length (filter (\<lambda>x. snd x = l) (ii_levels info))) \<longleftrightarrow> l \<in> snd ` set (ii_levels info)" for l
    by (auto simp: filter_empty_conv)
  have "Max ?L = (if RiskHigh \<in> ?L then RiskHigh else if RiskMedium \<in> ?L then RiskMedium else RiskNone)"
  proof (rule Max_eqI)
    fix y assume y: "y \<in> ?L"
    show "y \<le> (if RiskHigh \<in> ?L then RiskHigh else if RiskMedium \<in> ?L then RiskMedium else RiskNone)"
      using y by (cases y) (simp_all add: less_eq_risk_def)
  qed auto
  then show ?thesis by (simp add: injection_stats_def Let_def count [simplified])
qed

section \<open>The injection policy\<close>

lemma chunk_risk_distinct:
  assumes "distinct (map rc_chunk rs)" "r \<in> set rs"
  shows "chunk_risk cfg rs (rc_chunk r) = injection_risk cfg (rc_content r)"
proof -
  have "map_of (rev (map (\<lambda>r. (rc_chunk r, injection_risk cfg (rc_content r))) rs)) (rc_chunk r) =
      Some (injection_risk cfg (rc_content r))"
    using assms by (intro map_of_is_SomeI) (auto simp: comp_def rev_map [symmetric])
  then show ?thesis by (simp add: chunk_risk_def)
qed

lemma policy_hits: "mset (map unscored (fst (apply_injection_policy cfg E rs))) \<subseteq># mset (map unscored rs)"
proof -
  have same: "map unscored (map (\<lambda>r. if P r then r\<lparr>rc_score := f r\<rparr> else r) rs) = map unscored rs" for P f by simp
  have kept: "mset (map unscored (filter P rs)) \<subseteq># mset (map unscored rs)" for P
    by (simp add: image_mset_subseteq_mono)
  show ?thesis
    unfolding apply_injection_policy_def Let_def
    by (auto simp: kept by_score_hits same simp del: mset_map map_map mset_filter)
qed

interpretation policy: ranker "\<lambda>rs. fst (apply_injection_policy cfg E rs)" for cfg E
  by unfold_locales (rule policy_hits)

lemma policy_removes:
  assumes "distinct (map rc_chunk rs)" "r \<in> set (fst (apply_injection_policy cfg E rs))"
    "injection_high_risk_action cfg = ''remove''"
  shows "injection_risk cfg (rc_content r) \<noteq> RiskHigh"
proof -
  have r: "r \<in> set rs" "rc_chunk r \<notin> set (high_risk_ids cfg rs)"
    using assms(2,3) by (auto simp: apply_injection_policy_def Let_def split: if_splits)
  then show ?thesis using chunk_risk_distinct [OF assms(1) r(1), of cfg] by (auto simp: high_risk_ids_def)
qed

section \<open>Parts of a text\<close>

lemma visible_ujoin: "visible (ujoin [32] xs) = visible (concat xs)"
  by (induction "[32 :: nat]" xs rule: ujoin.induct) (simp_all add: visible_Cons blank_space)

lemma subseq_between:
  "spans_from (length s) pos ms \<Longrightarrow> subseq (concat (between s pos ms)) (drop pos s)"
proof (induction s pos ms rule: between.induct)
  case (2 s pos i j c ms)
  then have ij: "pos \<le> i" "i \<le> j" and ih: "subseq (concat (between s j ms)) (drop j s)" by auto
  have "subseq (drop j s) (drop i s)" using ij(2) by (metis drop_drop le_add_diff_inverse2 suffix_drop suffix_imp_subseq)
  with ih have "subseq (concat (between s j ms)) (drop i s)" by (rule subseq_order.trans)
  then have "subseq (slice s pos i @ concat (between s j ms)) (slice s pos i @ drop i s)"
    by (intro list_emb_append_mono) auto
  then show ?case using slice_append [OF ij(1), of s] by simp
qed simp

lemma visible_sentences_of: "subseq (visible (concat (sentences_of t))) (visible t)"
proof -
  have "subseq (concat (re_split sentence_split t)) (drop 0 t)"
    unfolding re_split_def by (rule subseq_between) (rule finditer_spans, simp)
  then show ?thesis
    unfolding sentences_of_def visible_concat_strip by (intro subseq_visible) simp
qed

lemma subseq_nths: "subseq (map ((!) xs) (filter P [0..<length xs])) xs"
proof -
  have "subseq (map ((!) xs) (filter P [0..<length xs])) (map ((!) xs) [0..<length xs])"
    by (rule subseq_map) simp
  then show ?thesis by (simp add: map_nth)
qed

lemma visible_compress: "subseq (visible (compress cfg E U t query)) (visible t)"
proof -
  have "subseq (visible (take n t)) (visible t)" for n
    by (intro subseq_visible prefix_imp_subseq take_is_prefix)
  moreover have "subseq (visible (ujoin [32] (map ((!) (sentences_of t)) (filter P [0..<length (sentences_of t)])))) (visible t)" for P
    unfolding visible_ujoin
    by (rule subseq_order.trans [OF subseq_visible [OF subseq_concat [OF subseq_nths]] visible_sentences_of])
  ultimately show ?thesis by (simp add: compress_def Let_def)
qed

section \<open>Ordering and budget\<close>

lemma every_second_mset: "mset (every_second xs) + mset (every_second (tl xs)) = mset xs"
proof (induction xs rule: every_second.induct)
  case (3 x y xs)
  then show ?case by (cases xs) auto
qed simp_all

lemma lost_in_middle_mset: "mset (lost_in_middle_order cfg rs) = mset rs"
proof (cases "lost_in_middle_enabled cfg \<and> 3 \<le> length rs")
  case True
  then obtain a b c xs where rs: "rs = a # b # c # xs" by (metis Suc_le_length_iff numeral_3_eq_3)
  have "mset (every_second (c # xs)) + mset (every_second xs) = mset (c # xs)"
    using every_second_mset [of "c # xs"] by simp
  then show ?thesis using True by (simp add: lost_in_middle_order_def rs ac_simps)
qed (auto simp: lost_in_middle_order_def)

lemma unique_contents_members:
  "r \<in> set (unique_contents cfg E U query unique rs) \<Longrightarrow>
     r \<in> set unique \<or> (\<exists>r0 \<in> set rs. r = r0\<lparr>rc_content := compress cfg E U (rc_content r0) query\<rparr>)"
  by (induction cfg E U query unique rs rule: unique_contents.induct) (auto split: if_splits)

lemma unique_contents_ids:
  "subseq (map rc_chunk (unique_contents cfg E U query unique rs)) (map rc_chunk unique @ map rc_chunk rs)"
proof (induction cfg E U query unique rs rule: unique_contents.induct)
  case (2 cfg E U query unique r rs)
  let ?u = "if list_ex (\<lambda>x. 88 / 100 \<le> similar U (rc_content r) (rc_content x)) unique then unique
        else unique @ [r\<lparr>rc_content := compress cfg E U (rc_content r) query\<rparr>]"
  have "subseq (map rc_chunk ?u @ map rc_chunk rs) (map rc_chunk unique @ map rc_chunk (r # rs))"
    by (cases "list_ex (\<lambda>x. 88 / 100 \<le> similar U (rc_content r) (rc_content x)) unique")
      (auto intro!: list_emb_append_mono)
  with 2 show ?case unfolding unique_contents.simps by (rule subseq_order.trans)
qed simp

lemma fill_budget_ids:
  "subseq (map rc_chunk (fill_budget b used selected rs)) (map rc_chunk selected @ map rc_chunk rs)"
proof (induction b used selected rs rule: fill_budget.induct)
  case (2 b used selected r rs)
  have "subseq (map rc_chunk selected @ map rc_chunk rs) (map rc_chunk selected @ map rc_chunk (r # rs))"
    by (intro list_emb_append_mono) auto
  with 2 show ?case by (auto intro: subseq_order.trans split: if_splits)
qed simp

lemma fill_budget_members:
  "r \<in> set (fill_budget b used selected rs) \<Longrightarrow> r \<in> set selected \<or>
     (\<exists>r0 \<in> set rs. rc_chunk r = rc_chunk r0 \<and> prefix (rc_content r) (rc_content r0))"
proof (induction b used selected rs rule: fill_budget.induct)
  case (2 b used selected r' rs)
  then show ?case by (auto simp: take_is_prefix split: if_splits)
qed simp

lemma fill_budget_total:
  assumes "0 < b" "used = sum_list (map estimated selected)" "used \<le> b"
  shows "sum_list (map estimated (fill_budget b used selected rs)) \<le> b"
  using assms
proof (induction b used selected rs rule: fill_budget.induct)
  case (2 b used selected r rs)
  let ?cut = "r\<lparr>rc_content := take (b * 2) (rc_content r)\<rparr>"
  show ?case
  proof (cases "selected \<noteq> [] \<and> b < used + estimated r")
    case True
    with 2(1) [OF True] 2(4-6) show ?thesis by simp
  next
    case fits: False
    show ?thesis
    proof (cases "b < estimated r")
      case True
      then have "selected = []" using fits by auto
      moreover have "estimated ?cut = b" using True 2(4) by (auto simp: estimated_def)
      ultimately show ?thesis using 2(2) [OF fits True] 2(4,5) fits True by simp
    next
      case False
      have "used + estimated r \<le> b" using fits False 2(5) by (cases "selected = []") auto
      with 2(3) [OF fits False] 2(4,5) fits False show ?thesis by simp
    qed
  qed
qed simp

lemma fill_budget_nonempty: "selected \<noteq> [] \<or> rs \<noteq> [] \<Longrightarrow> fill_budget b used selected rs \<noteq> []"
  by (induction b used selected rs rule: fill_budget.induct) auto

lemma prepare_context_ok:
  "sum_list (map estimated (prepare_context cfg E U query rs)) \<le> budget_of cfg \<and>
   (distinct (map rc_chunk rs) \<longrightarrow> distinct (map rc_chunk (prepare_context cfg E U query rs))) \<and>
   (\<forall>r \<in> set (prepare_context cfg E U query rs). \<exists>r0 \<in> set rs. rc_chunk r = rc_chunk r0 \<and>
      subseq (visible (rc_content r)) (visible (rc_content r0)))"
proof -
  let ?u = "unique_contents cfg E U query [] rs"
  let ?o = "lost_in_middle_order cfg ?u"
  have b: "0 < budget_of cfg" by (simp add: budget_of_def)
  have total: "sum_list (map estimated (fill_budget (budget_of cfg) 0 [] ?o)) \<le> budget_of cfg"
    using fill_budget_total [OF b, of 0 "[]" ?o] by simp
  have distinct: "distinct (map rc_chunk (fill_budget (budget_of cfg) 0 [] ?o))" if "distinct (map rc_chunk rs)"
  proof -
    have "distinct (map rc_chunk ?u)"
      using subseq_set_distinct [OF unique_contents_ids [of cfg E U query "[]" rs]] that by simp
    then have "distinct (map rc_chunk ?o)" using lost_in_middle_mset [of cfg ?u] by (metis mset_map mset_eq_imp_distinct_iff)
    then show ?thesis using subseq_set_distinct [OF fill_budget_ids [of "budget_of cfg" 0 "[]" ?o]] by simp
  qed
  have member: "\<exists>r0 \<in> set rs. rc_chunk r = rc_chunk r0 \<and> subseq (visible (rc_content r)) (visible (rc_content r0))"
    if mem: "r \<in> set (fill_budget (budget_of cfg) 0 [] ?o)" for r
  proof -
    obtain r1 where r1: "r1 \<in> set ?o" "rc_chunk r = rc_chunk r1" "prefix (rc_content r) (rc_content r1)"
      using fill_budget_members [OF mem] by auto
    have "r1 \<in> set ?u" using r1(1) lost_in_middle_mset [of cfg ?u] by (metis set_mset_mset)
    then obtain r0 where r0: "r0 \<in> set rs" "r1 = r0\<lparr>rc_content := compress cfg E U (rc_content r0) query\<rparr>"
      using unique_contents_members [of r1 cfg E U query "[]" rs] by auto
    have "subseq (visible (rc_content r)) (visible (rc_content r1))"
      using r1(3) by (intro subseq_visible prefix_imp_subseq)
    also have "subseq (visible (rc_content r1)) (visible (rc_content r0))" using r0(2) by (simp add: visible_compress)
    finally show ?thesis using r0 r1(2) by auto
  qed
  show ?thesis unfolding prepare_context_def using total distinct member by blast
qed

section \<open>Properties\<close>

text \<open>C28: what the model is given: after retrieval, injection policy and context preparation every passage is a
  chunk the requester may read, its visible characters are part of that chunk's passage, no chunk comes
  twice, the estimated tokens fit the budget, and under the policy remove no chunk is left whose retrieved text
  matches a high risk pattern.\<close>

theorem model_context_is_authorised:
  "let rs = retrieve cfg E U rq s; ctx = prepare_context cfg E U (rq_query rq) (fst (apply_injection_policy cfg E rs)) in
   list_all (\<lambda>r. \<exists>r0. authorised (rq_owner rq) (rq_kb rq) s r0 \<and> rc_chunk r = rc_chunk r0 \<and>
     subseq (visible (rc_content r)) (visible (rc_content r0)) \<and>
     (if injection_high_risk_action cfg = ''remove'' then injection_risk cfg (rc_content r0) \<noteq> RiskHigh else True)) ctx \<and>
   distinct (map rc_chunk ctx) \<and> sum_list (map estimated ctx) \<le> budget_of cfg"
proof -
  define rs where "rs = retrieve cfg E U rq s"
  define kept where "kept = fst (apply_injection_policy cfg E rs)"
  have dist: "distinct (map rc_chunk rs)"
    unfolding rs_def retrieve_def by (rule stages.rank_distinct) (use candidates_ok in blast)
  have auth: "authorised (rq_owner rq) (rq_kb rq) s r" if mem: "r \<in> set rs" for r
    using stages.rank_member [OF mem [unfolded rs_def retrieve_def]] candidates_ok [of cfg E U rq s] authorised_unscored by blast
  have kept_auth: "authorised (rq_owner rq) (rq_kb rq) s r" if mem: "r \<in> set kept" for r
    using policy.rank_member [OF mem [unfolded kept_def]] auth authorised_unscored by blast
  have kept_dist: "distinct (map rc_chunk kept)" unfolding kept_def by (rule policy.rank_distinct [OF dist])
  have removed: "injection_high_risk_action cfg = ''remove'' \<Longrightarrow> r \<in> set kept \<Longrightarrow> injection_risk cfg (rc_content r) \<noteq> RiskHigh" for r
    unfolding kept_def by (rule policy_removes [OF dist])
  show ?thesis
    unfolding Let_def rs_def [symmetric] kept_def [symmetric] list_all_iff
    using prepare_context_ok [of cfg E U "rq_query rq" kept] kept_auth kept_dist removed by (auto split: if_splits) metis+
qed

end
