(* ===== verification/Llm.thy ===== *)
theory Llm
  imports Injection Retrieval
begin

text \<open>
  \<open>app/services/llm.py\<close>: the circuit breaker, the order in which providers are tried by
  \<open>chat_completion\<close> and \<open>stream_answer\<close>, the text of the context handed to the model, and the
  query enhancements that fall back silently.  What a provider answers is a parameter: \<open>None\<close> for an
  exception.  \<open>time.monotonic()\<close> at the moments it is read is a parameter too.
\<close>

section \<open>The circuit breaker\<close>

record breaker =
  br_fails :: nat
  br_open_until :: int

record llm_settings =
  breaker_fail_threshold :: nat
  breaker_cooldown_seconds :: int
  llm_max_retries :: nat
  llm_primary :: "string \<times> string \<times> string"
  llm_fallback :: "string \<times> string \<times> string"

definition closed_breaker :: breaker where
  "closed_breaker = \<lparr>br_fails = 0, br_open_until = 0\<rparr>"

definition breaker_check :: "int \<Rightarrow> breaker \<Rightarrow> bool" where
  "breaker_check t b \<longleftrightarrow> \<not> t < br_open_until b"

definition record_success :: "breaker \<Rightarrow> breaker" where
  "record_success b = b\<lparr>br_fails := 0\<rparr>"

definition record_failure :: "llm_settings \<Rightarrow> int \<Rightarrow> breaker \<Rightarrow> breaker" where
  "record_failure cfg t b =
     (if breaker_fail_threshold cfg \<le> br_fails b + 1
      then \<lparr>br_fails = 0, br_open_until = t + breaker_cooldown_seconds cfg\<rparr>
      else b\<lparr>br_fails := br_fails b + 1\<rparr>)"

section \<open>Providers\<close>

text \<open>A provider is its key, its base address and its model.\<close>

definition providers :: "llm_settings \<Rightarrow> (string \<times> string \<times> string) list" where
  "providers cfg = (case llm_fallback cfg of (key, base, model) \<Rightarrow>
     llm_primary cfg # (if key \<noteq> [] \<and> model \<noteq> []
       then [(key, if base = [] then fst (snd (llm_primary cfg)) else base, model)] else []))"

text \<open>The attempts at the first provider, from the \<open>k\<close>-th; \<open>clock k\<close> is the time when the \<open>k\<close>-th failed.\<close>

function primary_attempts :: "llm_settings \<Rightarrow> (nat \<Rightarrow> 'r option) \<Rightarrow> (nat \<Rightarrow> int) \<Rightarrow> nat \<Rightarrow> breaker \<Rightarrow> breaker \<times> 'r option" where
  "primary_attempts cfg answer clock k b =
     (case answer k of Some r \<Rightarrow> (record_success b, Some r)
      | None \<Rightarrow> let b1 = record_failure cfg (clock k) b in
          if k < llm_max_retries cfg then primary_attempts cfg answer clock (k + 1) b1 else (b1, None))"
  by pat_completeness auto
termination by (relation "measure (\<lambda>(cfg, answer, clock, k, b). llm_max_retries cfg - k)") auto

declare primary_attempts.simps [simp del]

datatype llm_error = CircuitOpen | ProviderFailed

text \<open>\<open>t\<close> is the time of the breaker check; \<open>answer\<close> and \<open>backup\<close> are what the two providers answer.\<close>

definition chat_completion ::
  "llm_settings \<Rightarrow> int \<Rightarrow> (nat \<Rightarrow> 'r option) \<Rightarrow> (nat \<Rightarrow> int) \<Rightarrow> 'r option \<Rightarrow> breaker \<Rightarrow> breaker \<times> (llm_error + 'r)" where
  "chat_completion cfg t answer clock backup b =
     (let available = breaker_check t b; single = (length (providers cfg) = 1) in
      if \<not> available \<and> single then (b, Inl CircuitOpen)
      else case (if available then primary_attempts cfg answer clock 0 b else (b, None)) of
          (b1, Some r) \<Rightarrow> (b1, Inr r)
        | (b1, None) \<Rightarrow> (b1, if single then Inl ProviderFailed
            else case backup of None \<Rightarrow> Inl ProviderFailed | Some r \<Rightarrow> Inr r))"

text \<open>Opening the stream of \<open>stream_answer\<close>: one attempt at each provider.\<close>

definition open_stream ::
  "llm_settings \<Rightarrow> int \<Rightarrow> 'r option \<Rightarrow> int \<Rightarrow> 'r option \<Rightarrow> breaker \<Rightarrow> breaker \<times> (llm_error + 'r)" where
  "open_stream cfg t answer failed_at backup b =
     (let backed = (if length (providers cfg) = 1 then None else backup);
          otherwise = (\<lambda>e. case backed of None \<Rightarrow> Inl e | Some r \<Rightarrow> Inr r) in
      if \<not> breaker_check t b then (b, if length (providers cfg) = 1 then Inl CircuitOpen else otherwise ProviderFailed)
      else case answer of Some r \<Rightarrow> (record_success b, Inr r)
        | None \<Rightarrow> (record_failure cfg failed_at b, otherwise ProviderFailed))"

datatype stream_item = Delta ustr | Usage nat nat

text \<open>An event of the stream carries an optional text and an optional pair of token counts.\<close>

fun stream_items :: "(ustr option \<times> (nat option \<times> nat option) option) list \<Rightarrow> stream_item list" where
  "stream_items [] = []"
| "stream_items ((text, tokens) # es) =
     (case text of None \<Rightarrow> [] | Some t \<Rightarrow> if t = [] then [] else [Delta t]) @
     (case tokens of None \<Rightarrow> [] | Some (p, c) \<Rightarrow> [Usage (coalesce p 0) (coalesce c 0)]) @ stream_items es"

section \<open>The context text\<close>

definition source_label :: "retrieved \<Rightarrow> ustr" where
  "source_label r =
     (let page = (case rc_page r of None \<Rightarrow> 0 | Some p \<Rightarrow> p); part = coalesce (rc_section r) [];
          url = coalesce (rc_source_url r) []
      in ujoin (u '' '' @ [183] @ u '' '') ([rc_filename r] @
           (if page \<noteq> 0 then [[31532] @ u '' '' @ u (show_nat page) @ u '' '' @ [39029]] else []) @
           (if part \<noteq> [] then [[31456, 33410] @ u '': '' @ part] else []) @
           (if page = 0 \<and> part = [] then [[31532] @ u '' '' @ u (show_nat (rc_seq r + 1)) @ u '' '' @ [27573]] else []) @
           (if url \<noteq> [] then [u ''URL: '' @ url] else [])))"

definition context_block :: "nat \<Rightarrow> retrieved \<Rightarrow> ustr" where
  "context_block i r = u ''<untrusted_document source_id='' @ [34] @ u (show_nat i) @ [34] @ u '' source='' @ [34] @
     source_label r @ [34] @ u ''>'' @ [10] @ rc_content r @ [10] @ u ''</untrusted_document>''"

definition build_context :: "retrieved list \<Rightarrow> ustr" where
  "build_context rs = (if rs = [] then [65288, 26410, 26816, 32034, 21040, 30456, 20851, 36164, 26009, 65289]
     else ujoin [10, 10] (map (\<lambda>(i, r). context_block (i + 1) r) (enum rs)))"

section \<open>Query enhancements\<close>

text \<open>\<open>ask\<close> is \<open>chat_completion\<close> on the user message, \<open>None\<close> when it raises.\<close>

definition rewrite_query :: "(ustr \<Rightarrow> ustr option) \<Rightarrow> ustr \<Rightarrow> (string \<times> ustr) list \<Rightarrow> ustr" where
  "rewrite_query ask question history =
     (if history = [] then question
      else case ask ([23545, 35805, 21382, 21490, 65306] @ [10] @
             ujoin [10] (map (\<lambda>(role, content). u role @ u '': '' @ take 300 content) (last_n 6 history)) @
             [10, 10] @ [26368, 26032, 38382, 39064, 65306] @ question) of
          None \<Rightarrow> question
        | Some answer \<Rightarrow> if strip answer = [] then question else strip answer)"

text \<open>\<open>[str(x)[:n] for x in json.loads(..) if str(x).strip()][:k]\<close>; \<open>text_of\<close> is \<open>str\<close> of a parsed value.
  A JSON object is iterated by its keys.\<close>

definition short_texts :: "(ustr \<Rightarrow> json option) \<Rightarrow> (json \<Rightarrow> ustr) \<Rightarrow> nat \<Rightarrow> nat \<Rightarrow> ustr option \<Rightarrow> ustr list" where
  "short_texts parse text_of n k answer =
     (case answer of None \<Rightarrow> []
      | Some a \<Rightarrow> (let t = strip a in
          if 91 \<notin> set t \<or> 93 \<notin> set t then []
          else case parse (json_span 91 93 t) of
              Some (JList xs) \<Rightarrow> take k (map (\<lambda>x. take n (text_of x)) (filter (\<lambda>x. strip (text_of x) \<noteq> []) xs))
            | _ \<Rightarrow> []))"

definition expand_queries :: "(ustr \<Rightarrow> json option) \<Rightarrow> (json \<Rightarrow> ustr) \<Rightarrow> ustr option \<Rightarrow> ustr list" where
  "expand_queries parse text_of answer = short_texts parse text_of 200 2 answer"

definition suggest_followups :: "(ustr \<Rightarrow> json option) \<Rightarrow> (json \<Rightarrow> ustr) \<Rightarrow> ustr option \<Rightarrow> ustr list" where
  "suggest_followups parse text_of answer = short_texts parse text_of 50 3 answer"

definition generate_hypothetical_answer :: "ustr option \<Rightarrow> ustr" where
  "generate_hypothetical_answer answer = (case answer of None \<Rightarrow> [] | Some a \<Rightarrow> take 800 (strip a))"

section \<open>The breaker as a state machine\<close>

datatype breaker_event = Succeeded | FailedAt int

fun breaker_step :: "llm_settings \<Rightarrow> breaker_event \<Rightarrow> breaker \<Rightarrow> breaker" where
  "breaker_step cfg Succeeded b = record_success b"
| "breaker_step cfg (FailedAt t) b = record_failure cfg t b"

text \<open>The failures since the last success.\<close>

definition streak :: "breaker_event list \<Rightarrow> nat" where
  "streak evs = length (takeWhile (\<lambda>e. e \<noteq> Succeeded) (rev evs))"

lemma streak_simps [simp]: "streak [] = 0" "streak (evs @ [Succeeded]) = 0" "streak (evs @ [FailedAt t]) = streak evs + 1"
  by (simp_all add: streak_def)

lemma breaker_fails:
  "br_fails (fold (breaker_step cfg) evs closed_breaker) = streak evs mod max 1 (breaker_fail_threshold cfg)"
proof (induction evs rule: rev_induct)
  case (snoc e evs)
  let ?n = "max 1 (breaker_fail_threshold cfg)" and ?b = "fold (breaker_step cfg) evs closed_breaker"
  show ?case
  proof (cases e)
    case (FailedAt t)
    have lt: "br_fails ?b < ?n" using snoc by simp
    show ?thesis
    proof (cases "breaker_fail_threshold cfg \<le> br_fails ?b + 1")
      case True
      then have "br_fails ?b + 1 = ?n" using lt by simp
      then have "Suc (streak evs) mod ?n = 0" using snoc by (metis Suc_eq_plus1 mod_Suc mod_self)
      with True FailedAt show ?thesis by (simp add: record_failure_def)
    next
      case False
      then have "Suc (streak evs) mod ?n = Suc (br_fails ?b)" using snoc by (simp add: mod_Suc)
      with False FailedAt show ?thesis by (simp add: record_failure_def)
    qed
  qed (simp add: record_success_def)
qed (simp add: closed_breaker_def)

lemma breaker_opens:
  "br_open_until (fold (breaker_step cfg) (evs @ [FailedAt t]) closed_breaker) =
     (if streak (evs @ [FailedAt t]) mod max 1 (breaker_fail_threshold cfg) = 0
      then t + breaker_cooldown_seconds cfg else br_open_until (fold (breaker_step cfg) evs closed_breaker))"
proof -
  let ?n = "max 1 (breaker_fail_threshold cfg)" and ?b = "fold (breaker_step cfg) evs closed_breaker"
  have fails: "br_fails ?b = streak evs mod ?n" by (rule breaker_fails)
  then have lt: "br_fails ?b < ?n" by simp
  have "breaker_fail_threshold cfg \<le> br_fails ?b + 1 \<longleftrightarrow> Suc (br_fails ?b) = ?n" using lt by linarith
  also have "\<dots> \<longleftrightarrow> Suc (streak evs) mod ?n = 0" using fails by (auto simp: mod_Suc)
  finally show ?thesis by (simp add: record_failure_def)
qed

text \<open>An attempt series is a run of the machine.\<close>

lemma primary_attempts_run:
  "\<exists>evs. fst (primary_attempts cfg answer clock k b) = fold (breaker_step cfg) evs b \<and>
     length evs \<le> llm_max_retries cfg - k + 1"
proof (induction cfg answer clock k b rule: primary_attempts.induct)
  case (1 cfg answer clock k b)
  show ?case
  proof (cases "answer k")
    case (Some r)
    then show ?thesis
      by (intro exI [of _ "[Succeeded]"]) (simp add: primary_attempts.simps [of cfg answer clock k])
  next
    case None
    show ?thesis
    proof (cases "k < llm_max_retries cfg")
      case True
      with 1 None obtain evs where "fst (primary_attempts cfg answer clock (k + 1) (record_failure cfg (clock k) b)) =
          fold (breaker_step cfg) evs (record_failure cfg (clock k) b)" "length evs \<le> llm_max_retries cfg - (k + 1) + 1" by blast
      with None True show ?thesis
        by (intro exI [of _ "FailedAt (clock k) # evs"]) (simp add: primary_attempts.simps [of cfg answer clock k] Let_def)
    next
      case False
      with None show ?thesis
        by (intro exI [of _ "[FailedAt (clock k)]"]) (simp add: primary_attempts.simps [of cfg answer clock k] Let_def)
    qed
  qed
qed

lemma primary_attempts_answer:
  "snd (primary_attempts cfg answer clock k b) = first_some answer [k..<Suc (max k (llm_max_retries cfg))]"
proof (induction cfg answer clock k b rule: primary_attempts.induct)
  case (1 cfg answer clock k b)
  show ?case
  proof (cases "k < llm_max_retries cfg")
    case True
    then have "[k..<Suc (max k (llm_max_retries cfg))] = k # [k + 1..<Suc (max (k + 1) (llm_max_retries cfg))]"
      by (simp add: upt_rec)
    with 1 True show ?thesis
      by (simp add: primary_attempts.simps [of cfg answer clock k] Let_def split: option.splits)
  next
    case False
    then show ?thesis by (simp add: primary_attempts.simps [of cfg answer clock k] Let_def split: option.splits)
  qed
qed

end
