(* ===== verification/Embedder.thy ===== *)
theory Embedder
  imports Chunker
begin

text \<open>
  \<open>app/services/embedder.py\<close>: the process-wide cache of vectors, an ordered dictionary whose last entry
  is the most recently used, and the two encoders in front of it.  The model is a parameter: \<open>encode\<close> gives
  the vectors of a list of texts.
\<close>

type_synonym vec_cache = "(ustr \<times> vec) list"

record embedding_settings =
  es_model :: ustr
  es_instruction :: ustr
  embedding_cache_size :: int

section \<open>The ordered dictionary\<close>

definition move_to_end :: "ustr \<Rightarrow> vec_cache \<Rightarrow> vec_cache" where
  "move_to_end key cache = filter (\<lambda>(k, v). k \<noteq> key) cache @ filter (\<lambda>(k, v). k = key) cache"

definition cache_get :: "ustr \<Rightarrow> vec_cache \<Rightarrow> vec_cache \<times> vec option" where
  "cache_get key cache = (case map_of cache key of None \<Rightarrow> (cache, None) | Some v \<Rightarrow> (move_to_end key cache, Some v))"

text \<open>\<open>popitem(last=False)\<close> while the dictionary is too long.\<close>

definition evict :: "nat \<Rightarrow> vec_cache \<Rightarrow> vec_cache" where
  "evict n cache = drop (length cache - n) cache"

definition cache_put :: "embedding_settings \<Rightarrow> ustr \<Rightarrow> vec \<Rightarrow> vec_cache \<Rightarrow> vec_cache" where
  "cache_put cfg key v cache =
     (if embedding_cache_size cfg \<le> 0 then cache
      else evict (nat (embedding_cache_size cfg)) (filter (\<lambda>(k, w). k \<noteq> key) cache @ [(key, v)]))"

section \<open>The encoders\<close>

definition document_key :: "embedding_settings \<Rightarrow> ustr \<Rightarrow> ustr" where
  "document_key cfg text = u ''document:'' @ es_model cfg @ u '':'' @ text"

definition query_key :: "embedding_settings \<Rightarrow> ustr \<Rightarrow> ustr" where
  "query_key cfg text = u ''query:'' @ es_model cfg @ u '':'' @ text"

text \<open>The first loop: a cached vector or nothing for every text.\<close>

fun look_up :: "embedding_settings \<Rightarrow> vec_cache \<Rightarrow> ustr list \<Rightarrow> vec_cache \<times> vec option list" where
  "look_up cfg cache [] = (cache, [])"
| "look_up cfg cache (t # ts) = (case cache_get (document_key cfg t) cache of (cache1, r) \<Rightarrow>
     (case look_up cfg cache1 ts of (cache2, rs) \<Rightarrow> (cache2, r # rs)))"

text \<open>The second loop: the new vectors fill the gaps in order; a model that returns fewer leaves gaps.\<close>

fun fill_gaps :: "embedding_settings \<Rightarrow> vec_cache \<Rightarrow> ustr list \<Rightarrow> vec option list \<Rightarrow> vec list \<Rightarrow> vec_cache \<times> vec option list" where
  "fill_gaps cfg cache (t # ts) (Some v # rs) vs = (case fill_gaps cfg cache ts rs vs of (cache1, rs1) \<Rightarrow> (cache1, Some v # rs1))"
| "fill_gaps cfg cache (t # ts) (None # rs) (v # vs) =
     (case fill_gaps cfg (cache_put cfg (document_key cfg t) v cache) ts rs vs of (cache1, rs1) \<Rightarrow> (cache1, Some v # rs1))"
| "fill_gaps cfg cache ts rs vs = (cache, rs)"

definition embed_documents ::
  "embedding_settings \<Rightarrow> (ustr list \<Rightarrow> vec list) \<Rightarrow> vec_cache \<Rightarrow> ustr list \<Rightarrow> vec_cache \<times> vec list" where
  "embed_documents cfg encode cache texts =
     (case look_up cfg cache texts of (cache1, rs) \<Rightarrow>
        let missing = map fst (filter (\<lambda>(t, r). r = None) (zip texts rs)) in
        case (if missing = [] then (cache1, rs) else fill_gaps cfg cache1 texts rs (encode missing)) of
          (cache2, rs2) \<Rightarrow> (cache2, List.map_filter (\<lambda>x. x) rs2))"

definition embed_query :: "embedding_settings \<Rightarrow> (ustr list \<Rightarrow> vec list) \<Rightarrow> vec_cache \<Rightarrow> ustr \<Rightarrow> vec_cache \<times> vec" where
  "embed_query cfg encode cache query =
     (let text = es_instruction cfg @ query; key = query_key cfg text in
      case cache_get key cache of
        (cache1, Some v) \<Rightarrow> (cache1, v)
      | (cache1, None) \<Rightarrow> (let v = hd (encode [text]) in (cache_put cfg key v cache1, v)))"

section \<open>A cache that tells the truth\<close>

text \<open>Every entry is what the model would answer; \<open>enc\<close> is the model on one text.\<close>

definition truthful :: "embedding_settings \<Rightarrow> (ustr \<Rightarrow> vec) \<Rightarrow> vec_cache \<Rightarrow> bool" where
  "truthful cfg enc cache \<longleftrightarrow> distinct (map fst cache) \<and> length cache \<le> nat (embedding_cache_size cfg) \<and>
     (\<forall>t v. (document_key cfg t, v) \<in> set cache \<longrightarrow> v = enc t) \<and> (\<forall>t v. (query_key cfg t, v) \<in> set cache \<longrightarrow> v = enc t)"

lemma key_simps [simp]:
  "document_key cfg t = document_key cfg t' \<longleftrightarrow> t = t'" "query_key cfg t = query_key cfg t' \<longleftrightarrow> t = t'"
  "document_key cfg t \<noteq> query_key cfg t'" "query_key cfg t \<noteq> document_key cfg t'"
  by (simp_all add: document_key_def query_key_def u_def)

lemma mset_move_to_end: "mset (move_to_end key cache) = mset cache"
  by (induction cache) (auto simp: move_to_end_def)

lemma truthful_mset: "mset c = mset c' \<Longrightarrow> truthful cfg enc c \<Longrightarrow> truthful cfg enc c'"
  unfolding truthful_def by (metis mset_eq_imp_distinct_iff mset_eq_length mset_eq_setD mset_map)

lemma cache_get_ok:
  assumes "truthful cfg enc cache" "cache_get (document_key cfg t) cache = (cache1, r)"
  shows "truthful cfg enc cache1 \<and> (\<forall>v. r = Some v \<longrightarrow> v = enc t)"
proof (cases "map_of cache (document_key cfg t)")
  case (Some v)
  then have "(document_key cfg t, v) \<in> set cache" by (rule map_of_SomeD)
  with assms Some truthful_mset [OF mset_move_to_end [symmetric] assms(1)] show ?thesis
    by (auto simp: cache_get_def truthful_def)
qed (use assms in \<open>auto simp: cache_get_def\<close>)

lemma put_ok:
  assumes "truthful cfg enc cache" "key = document_key cfg t \<or> key = query_key cfg t" "v = enc t"
  shows "truthful cfg enc (cache_put cfg key v cache)"
proof (cases "embedding_cache_size cfg \<le> 0")
  case False
  let ?c = "filter (\<lambda>(k, w). k \<noteq> key) cache @ [(key, v)]"
  have d: "distinct (map fst ?c)" using assms(1) by (auto simp: truthful_def distinct_map_filter)
  have s: "x \<in> set (evict n ?c) \<Longrightarrow> x \<in> set ?c" for x n unfolding evict_def by (rule in_set_dropD)
  have "distinct (map fst (evict n ?c))" for n using d unfolding evict_def by (simp only: drop_map [symmetric] distinct_drop)
  moreover have "length (evict n ?c) \<le> n" for n by (simp add: evict_def)
  moreover have "v' = enc t'" if "(document_key cfg t', v') \<in> set ?c \<or> (query_key cfg t', v') \<in> set ?c" for t' v'
    using that assms by (auto simp: truthful_def)
  ultimately show ?thesis using False s by (simp only: truthful_def cache_put_def if_False) blast
qed (use assms in \<open>simp add: cache_put_def\<close>)

lemma look_up_ok:
  "truthful cfg enc cache \<Longrightarrow> look_up cfg cache ts = (cache1, rs) \<Longrightarrow>
     truthful cfg enc cache1 \<and> length rs = length ts \<and> list_all2 (\<lambda>t r. r = None \<or> r = Some (enc t)) ts rs"
proof (induction cfg cache ts arbitrary: cache1 rs rule: look_up.induct)
  case (2 cfg cache t ts)
  obtain c r where get: "cache_get (document_key cfg t) cache = (c, r)" by fastforce
  obtain c2 rs' where rest: "look_up cfg c ts = (c2, rs')" by fastforce
  have "truthful cfg enc c" "\<forall>v. r = Some v \<longrightarrow> v = enc t" using cache_get_ok [OF 2(2) get] by auto
  moreover have "truthful cfg enc c2 \<and> length rs' = length ts \<and> list_all2 (\<lambda>t r. r = None \<or> r = Some (enc t)) ts rs'"
    using 2(1) [OF get [symmetric] calculation(1) rest] .
  ultimately show ?case using 2(3) get rest by (cases r) auto
qed auto

lemma fill_gaps_ok:
  "truthful cfg enc cache \<Longrightarrow> list_all2 (\<lambda>t r. r = None \<or> r = Some (enc t)) ts rs \<Longrightarrow>
     vs = map enc (map fst (filter (\<lambda>(t, r). r = None) (zip ts rs))) \<Longrightarrow>
     fill_gaps cfg cache ts rs vs = (cache1, rs1) \<Longrightarrow> truthful cfg enc cache1 \<and> rs1 = map (\<lambda>t. Some (enc t)) ts"
proof (induction cfg cache ts rs vs arbitrary: cache1 rs1 rule: fill_gaps.induct)
  case (1 cfg cache t ts v rs vs)
  then show ?case by (auto split: prod.splits)
next
  case (2 cfg cache t ts rs v vs)
  have v: "v = enc t" "vs = map enc (map fst (filter (\<lambda>(t, r). r = None) (zip ts rs)))" using 2(4) by auto
  obtain c rs' where rest: "fill_gaps cfg (cache_put cfg (document_key cfg t) v cache) ts rs vs = (c, rs')" by fastforce
  have "truthful cfg enc (cache_put cfg (document_key cfg t) v cache)" by (rule put_ok [OF 2(2)]) (use v in auto)
  from 2(1) [OF this _ v(2) rest] 2(3,5) rest v(1) show ?case by auto
qed (auto simp: list_all2_Cons2)

lemma embed_documents_ok:
  assumes "truthful cfg enc cache" "\<And>us. encode us = map enc us" "embed_documents cfg encode cache texts = (cache1, vs)"
  shows "truthful cfg enc cache1 \<and> vs = map enc texts"
proof -
  obtain c rs where look: "look_up cfg cache texts = (c, rs)" by fastforce
  note ok = look_up_ok [OF assms(1) look]
  let ?missing = "map fst (filter (\<lambda>(t, r). r = None) (zip texts rs))"
  obtain c2 rs2 where fill: "fill_gaps cfg c texts rs (encode ?missing) = (c2, rs2)" by fastforce
  have ok2: "truthful cfg enc c2" "rs2 = map (\<lambda>t. Some (enc t)) texts"
    using fill_gaps_ok [OF _ _ assms(2) fill] ok by blast+
  have full: "rs = map (\<lambda>t. Some (enc t)) texts" if "?missing = []"
  proof -
    have "rs ! i = Some (enc (texts ! i))" if i: "i < length texts" for i
    proof -
      have "(texts ! i, rs ! i) \<in> set (zip texts rs)" using i ok by (auto simp: in_set_zip)
      with \<open>?missing = []\<close> have "rs ! i \<noteq> None" by (force simp: filter_empty_conv)
      moreover have "rs ! i = None \<or> rs ! i = Some (enc (texts ! i))" using ok i by (auto dest: list_all2_nthD)
      ultimately show ?thesis by (elim disjE) simp_all
    qed
    moreover have "length rs = length texts" using ok by blast
    ultimately show ?thesis by (intro nth_equalityI) simp_all
  qed
  have unwrap: "List.map_filter (\<lambda>x. x) (map (\<lambda>t. Some (enc t)) texts) = map enc texts"
    by (induction texts) (simp_all add: List.map_filter_simps)
  show ?thesis
  proof (cases "?missing = []")
    case True
    then show ?thesis using assms(3) look ok full unwrap by (simp add: embed_documents_def)
  next
    case False
    then show ?thesis using assms(3) look fill ok2 unwrap by (simp add: embed_documents_def)
  qed
qed

lemma embed_query_ok:
  assumes "truthful cfg enc cache" "\<And>us. encode us = map enc us" "embed_query cfg encode cache q = (cache1, v)"
  shows "truthful cfg enc cache1 \<and> v = enc (es_instruction cfg @ q)"
proof (cases "map_of cache (query_key cfg (es_instruction cfg @ q))")
  case (Some w)
  then have "(query_key cfg (es_instruction cfg @ q), w) \<in> set cache" by (rule map_of_SomeD)
  with assms Some truthful_mset [OF mset_move_to_end [symmetric] assms(1)] show ?thesis
    by (auto simp: embed_query_def cache_get_def Let_def truthful_def)
next
  case None
  then show ?thesis using assms put_ok [OF assms(1)]
    by (auto simp: embed_query_def cache_get_def Let_def)
qed

text \<open>What the semantic splitter relies on holds for the program's own encoder, cached or not.\<close>

lemma embedder_one_vector_each:
  assumes "truthful cfg enc cache" "\<And>us. encode us = map enc us"
  shows "one_vector_each (\<lambda>us. Some (snd (embed_documents cfg encode cache us)))"
  unfolding one_vector_each_def
  using embed_documents_ok [OF assms] by (metis length_map option.inject prod.collapse)

section \<open>Any sequence of calls\<close>

datatype embed_call = Documents "ustr list" | Query ustr

fun run_calls :: "embedding_settings \<Rightarrow> (ustr list \<Rightarrow> vec list) \<Rightarrow> vec_cache \<Rightarrow> embed_call list \<Rightarrow> vec_cache \<times> vec list list" where
  "run_calls cfg encode cache [] = (cache, [])"
| "run_calls cfg encode cache (Documents us # cs) = (case embed_documents cfg encode cache us of (cache1, vs) \<Rightarrow>
     (case run_calls cfg encode cache1 cs of (cache2, rs) \<Rightarrow> (cache2, vs # rs)))"
| "run_calls cfg encode cache (Query q # cs) = (case embed_query cfg encode cache q of (cache1, v) \<Rightarrow>
     (case run_calls cfg encode cache1 cs of (cache2, rs) \<Rightarrow> (cache2, [v] # rs)))"

fun uncached :: "embedding_settings \<Rightarrow> (ustr \<Rightarrow> vec) \<Rightarrow> embed_call \<Rightarrow> vec list" where
  "uncached cfg enc (Documents us) = map enc us"
| "uncached cfg enc (Query q) = [enc (es_instruction cfg @ q)]"

lemma run_calls_ok:
  assumes "\<And>us. encode us = map enc us"
  shows "truthful cfg enc cache \<Longrightarrow> run_calls cfg encode cache cs = (cache1, rs) \<Longrightarrow>
    truthful cfg enc cache1 \<and> rs = map (uncached cfg enc) cs"
proof (induction cs arbitrary: cache cache1 rs)
  case (Cons c cs)
  show ?case
  proof (cases c)
    case (Documents us)
    obtain c1 vs where e: "embed_documents cfg encode cache us = (c1, vs)" by fastforce
    obtain c2 rs' where r: "run_calls cfg encode c1 cs = (c2, rs')" by fastforce
    from Cons.IH [OF _ r] embed_documents_ok [OF Cons.prems(1) assms e] Cons.prems(2) e r Documents show ?thesis by auto
  next
    case (Query q)
    obtain c1 v where e: "embed_query cfg encode cache q = (c1, v)" by fastforce
    obtain c2 rs' where r: "run_calls cfg encode c1 cs = (c2, rs')" by fastforce
    from Cons.IH [OF _ r] embed_query_ok [OF Cons.prems(1) assms e] Cons.prems(2) e r Query show ?thesis by auto
  qed
qed simp

section \<open>Properties\<close>

text \<open>C30: the cache is transparent: from the empty cache, whatever sequence of calls comes and whatever is
  evicted, every call returns the vectors the model would compute, one per text and in order, and the cache never
  holds more entries than configured.\<close>

theorem embedding_cache_transparent:
  assumes "encode = map enc" "run_calls cfg encode [] cs = (cache, rs)"
  shows "rs = map (uncached cfg enc) cs \<and> length cache \<le> nat (embedding_cache_size cfg) \<and> distinct (map fst cache)"
proof -
  have e: "encode us = map enc us" for us by (simp add: assms(1))
  have "truthful cfg enc []" by (simp add: truthful_def)
  from run_calls_ok [OF e this assms(2)] show ?thesis by (simp add: truthful_def)
qed

theorem embedding_cache_transparent_witness:
  "let cfg = \<lparr>es_model = [109], es_instruction = [105], embedding_cache_size = 1\<rparr>; enc = (\<lambda>t :: ustr. [of_nat (length t) :: rat]) in
     snd (run_calls cfg (map enc) [] [Documents [[97], [98, 98]], Query [97], Documents [[97]]]) = [[[1], [2]], [[2]], [[1]]] \<and>
     length (fst (run_calls cfg (map enc) [] [Documents [[97], [98, 98]], Query [97], Documents [[97]]])) \<le> 1"
proof -
  let ?cfg = "\<lparr>es_model = [109], es_instruction = [105], embedding_cache_size = 1\<rparr>" and ?enc = "\<lambda>t :: ustr. [of_nat (length t) :: rat]"
  obtain cache rs where run: "run_calls ?cfg (map ?enc) [] [Documents [[97], [98, 98]], Query [97], Documents [[97]]] = (cache, rs)"
    by fastforce
  from embedding_cache_transparent [OF refl run] run show ?thesis by (simp add: Let_def)
qed

end
