(* ===== verification/AuditChainClaims.thy ===== *)
theory AuditChainClaims
  imports AuditChain RecoveryClaims
begin

text \<open>
  What the hash chain of the audit log shows and what it does not: tampering is found up to collisions of the
  hash, but the verifier rejects every chain the trigger writes, a purge breaks the chain, and rows
  whose numbers were drawn in another order than they were linked break it too.
\<close>

section \<open>The verifier on a linked log\<close>

lemma verify_linked:
  assumes "linked sha jt tt prev rows" "\<forall>x. sha x \<noteq> []"
    "\<forall>a \<in> set rows. sha (chain_payload json_text isoformat (the (a_prev_hash a)) a) \<noteq> sha (chain_payload jt tt (the (a_prev_hash a)) a)"
  shows "verify_from sha prev rows = map (\<lambda>a. (a_chain_seq a, a_id a, EntryMismatch)) rows"
  using assms
proof (induction rows arbitrary: prev)
  case (Cons a rows)
  then have "sha (chain_payload jt tt prev a) \<noteq> entry_hash sha prev a" by (auto simp: entry_hash_def)
  with Cons show ?case by (simp add: Let_def)
qed simp

text \<open>The texts that are hashed when the log is checked from \<open>prev\<close> on.\<close>

fun checked_texts :: "(ustr \<Rightarrow> string) \<Rightarrow> string \<Rightarrow> audit_log list \<Rightarrow> ustr list" where
  "checked_texts sha prev [] = []"
| "checked_texts sha prev (a # rows) = chain_payload json_text isoformat prev a # checked_texts sha (entry_hash sha prev a) rows"

lemma verify_ok_iff:
  "verify_from sha prev (a # rows) = [] \<longleftrightarrow> coalesce (a_prev_hash a) [] = prev \<and>
     coalesce (a_entry_hash a) [] = entry_hash sha prev a \<and> verify_from sha (entry_hash sha prev a) rows = []"
  by (auto simp: Let_def)

lemma length_checked [simp]: "length (checked_texts sha prev rows) = length rows"
  by (induction rows arbitrary: prev) auto

lemma checked_Nil [simp]: "checked_texts sha prev rows = [] \<longleftrightarrow> rows = []"
  by (metis length_0_conv length_checked)

lemma checked_append:
  "checked_texts sha prev (rows @ [a]) = checked_texts sha prev rows @
     [chain_payload json_text isoformat (if rows = [] then prev else sha (last (checked_texts sha prev rows))) a]"
  by (induction rows arbitrary: prev) (auto simp: entry_hash_def)

lemma verify_last:
  "verify_from sha prev rows = [] \<Longrightarrow> rows \<noteq> [] \<Longrightarrow>
     coalesce (a_entry_hash (last rows)) [] = sha (last (checked_texts sha prev rows))"
proof (induction rows arbitrary: prev)
  case (Cons a rows)
  then show ?case by (cases rows) (auto simp: verify_ok_iff entry_hash_def simp del: verify_from.simps(2))
qed simp

lemma verify_append:
  "verify_from sha prev (rows @ [a]) = [] \<Longrightarrow> verify_from sha prev rows = []"
  by (induction rows arbitrary: prev) (auto simp: verify_ok_iff simp del: verify_from.simps(2))

section \<open>Hashed texts determine their parts\<close>

definition bar_free :: "audit_log \<Rightarrow> bool" where
  "bar_free a \<longleftrightarrow> list_all (\<lambda>x. CHR ''|'' \<notin> set x) (chain_fields a)"

lemma u_inject [simp]: "u x = u y \<longleftrightarrow> x = y"
  unfolding u_def by (rule inj_map_eq_map) (simp add: inj_on_def)

lemma bar_u: "CHR ''|'' \<notin> set x \<Longrightarrow> 124 \<notin> set (u x)"
proof
  assume x: "CHR ''|'' \<notin> set x" "124 \<in> set (u x)"
  have "(124 :: nat) = of_char (CHR ''|'')" by simp
  with x show False unfolding u_def by (metis (no_types) imageE list.set_map of_char_eq_iff)
qed

lemma split_bar:
  "x @ [b] @ s = y @ [b] @ t \<Longrightarrow> b \<notin> set x \<Longrightarrow> b \<notin> set y \<Longrightarrow> x = y \<and> s = t"
proof (induction x arbitrary: y)
  case Nil
  then show ?case by (cases y) auto
next
  case (Cons c x)
  then show ?case by (cases y) auto
qed

lemma ujoin_split:
  "length xs = length ys \<Longrightarrow> \<forall>x \<in> set xs \<union> set ys. b \<notin> set x \<Longrightarrow> ujoin [b] (xs @ p # ps) = ujoin [b] (ys @ q # qs) \<Longrightarrow>
     xs = ys \<and> ujoin [b] (p # ps) = ujoin [b] (q # qs)"
proof (induction xs ys rule: list_induct2)
  case (Cons x xs y ys)
  have "x @ [b] @ ujoin [b] (xs @ p # ps) = y @ [b] @ ujoin [b] (ys @ q # qs)"
    using Cons.prems(2) by (simp add: ujoin_Cons)
  from split_bar [OF this] Cons show ?case by auto
qed simp

definition covered :: "audit_log \<Rightarrow> string list \<times> ustr" where
  "covered a = (chain_fields a, ujoin [124] [json_text (a_before a), json_text (a_after a), isoformat (a_created a)])"

lemma payload_inject:
  assumes "chain_payload json_text isoformat p a = chain_payload json_text isoformat q b"
    "bar_free a" "bar_free b" "CHR ''|'' \<notin> set p" "CHR ''|'' \<notin> set q"
  shows "p = q \<and> covered a = covered b"
proof -
  let ?ts = "\<lambda>a. [json_text (a_before a), json_text (a_after a), isoformat (a_created a)]"
  have free: "\<forall>x \<in> set (map u (p # chain_fields a)) \<union> set (map u (q # chain_fields b)). 124 \<notin> set x"
    using assms(2-5) by (auto simp: bar_free_def list_all_iff bar_u)
  have "length (map u (p # chain_fields a)) = length (map u (q # chain_fields b))" by (simp add: chain_fields_def)
  from ujoin_split [OF this free, of "json_text (a_before a)" "tl (?ts a)" "json_text (a_before b)" "tl (?ts b)"] assms(1)
  have "map u (p # chain_fields a) = map u (q # chain_fields b)" "ujoin [124] (?ts a) = ujoin [124] (?ts b)"
    by (simp_all add: chain_payload_def)
  moreover from this(1) have "p # chain_fields a = q # chain_fields b"
    by (rule map_injective) (simp add: inj_on_def)
  ultimately show ?thesis by (simp add: covered_def)
qed

lemma payload_prev:
  assumes "chain_payload jt tt p a = chain_payload jt tt q b" "CHR ''|'' \<notin> set p" "CHR ''|'' \<notin> set q"
  shows "p = q"
proof -
  have "\<exists>x. chain_payload jt tt p a = u p @ [124] @ x" for p a
    by (simp add: chain_payload_def chain_fields_def)
  then obtain x y where "chain_payload jt tt p a = u p @ [124] @ x" "chain_payload jt tt q b = u q @ [124] @ y" by metis
  with assms split_bar [of "u p" 124 x "u q" y] bar_u show ?thesis by simp
qed

text \<open>Equal last texts make all texts equal, when the digests do not collide and none is the first link.\<close>

lemma texts_backwards:
  "inj_on sha (set (checked_texts sha genesis rs) \<union> set (checked_texts sha genesis qs)) \<Longrightarrow>
     genesis \<notin> sha ` (set (checked_texts sha genesis rs) \<union> set (checked_texts sha genesis qs)) \<Longrightarrow>
     \<forall>x. CHR ''|'' \<notin> set (sha x) \<Longrightarrow> rs \<noteq> [] \<Longrightarrow> qs \<noteq> [] \<Longrightarrow>
     last (checked_texts sha genesis rs) = last (checked_texts sha genesis qs) \<Longrightarrow>
     checked_texts sha genesis rs = checked_texts sha genesis qs"
proof (induction rs arbitrary: qs rule: rev_induct)
  case (snoc a rs)
  then obtain qs' b where qs: "qs = qs' @ [b]" by (metis rev_exhaust)
  let ?T = "checked_texts sha genesis" let ?p = "\<lambda>rs. if rs = [] then genesis else sha (last (?T rs))"
  have bars: "CHR ''|'' \<notin> set (?p xs)" for xs using snoc.prems(3) by (auto simp: genesis_def)
  have "chain_payload json_text isoformat (?p rs) a = chain_payload json_text isoformat (?p qs') b"
    using snoc.prems(6) qs by (simp add: checked_append)
  then have p: "?p rs = ?p qs'" using payload_prev bars by blast
  have in_texts: "last (?T xs) \<in> set (?T xs)" if "xs \<noteq> []" for xs using that by (intro last_in_set) simp
  have T: "set (?T rs) \<subseteq> set (?T (rs @ [a]))" "set (?T qs') \<subseteq> set (?T qs)" by (auto simp: checked_append qs)
  have "?T rs = ?T qs'"
  proof (cases "rs = [] \<or> qs' = []")
    case True
    with p T in_texts snoc.prems(2) show ?thesis by (metis UnI1 UnI2 checked_Nil imageI subsetD)
  next
    case False
    with p T in_texts snoc.prems(1) have "last (?T rs) = last (?T qs')"
      by (auto dest!: inj_onD [of sha] simp: subset_iff)
    moreover have "inj_on sha (set (?T rs) \<union> set (?T qs'))" using T snoc.prems(1) by (meson Un_mono inj_on_subset)
    moreover have "genesis \<notin> sha ` (set (?T rs) \<union> set (?T qs'))" using T snoc.prems(2) by blast
    ultimately show ?thesis using snoc.IH [of qs'] snoc.prems(3) False by blast
  qed
  moreover from this have "rs = [] \<longleftrightarrow> qs' = []" by (metis checked_Nil)
  ultimately show ?case using snoc.prems(6) qs by (simp add: checked_append)
qed simp

lemma covered_of_texts:
  "map covered rs = map covered qs" if "checked_texts sha p rs = checked_texts sha q qs"
    "\<forall>a \<in> set rs \<union> set qs. bar_free a" "\<forall>x. CHR ''|'' \<notin> set (sha x)" "CHR ''|'' \<notin> set p" "CHR ''|'' \<notin> set q"
  using that
proof (induction rs arbitrary: qs p q)
  case (Cons a rs)
  then obtain b qs' where qs: "qs = b # qs'" by (cases qs) auto
  have one: "p = q \<and> covered a = covered b" using Cons.prems qs by (intro payload_inject) auto
  have "checked_texts sha (entry_hash sha p a) rs = checked_texts sha (entry_hash sha q b) qs'"
    using Cons.prems(1) qs by simp
  with Cons.IH [OF this] Cons.prems(2,3) one qs show ?case by (simp add: entry_hash_def)
next
  case Nil
  then have "qs = []" by (metis checked_Nil checked_texts.simps(1))
  then show ?case by simp
qed

lemma sorted_filter_drop:
  "sorted (map f (xs @ a # ys)) \<Longrightarrow> \<forall>x \<in> set xs. f x < (c :: int) \<Longrightarrow> \<not> f a < c \<Longrightarrow> filter (\<lambda>x. \<not> f x < c) (xs @ a # ys) = a # ys"
  by (auto simp: sorted_append filter_empty_conv filter_id_conv)

lemma load_filter:
  "load_from_db (filter P rows) = filter P (load_from_db rows)"
  by (simp add: load_from_db_def chain_order_def filter_sort conj_ac)

text \<open>A verified log without its first rows.\<close>

lemma verify_split:
  "verify_from sha p (xs @ a # ys) = [] \<Longrightarrow> xs \<noteq> [] \<Longrightarrow> \<exists>x. x \<in> set (checked_texts sha p xs) \<and>
     coalesce (a_prev_hash a) [] = sha x \<and> coalesce (a_entry_hash a) [] = entry_hash sha (sha x) a \<and>
     verify_from sha (entry_hash sha (sha x) a) ys = [] \<and>
     chain_payload json_text isoformat (sha x) a \<in> set (checked_texts sha p (xs @ a # ys))"
proof (induction xs arbitrary: p)
  case (Cons b xs)
  let ?x = "chain_payload json_text isoformat p b"
  have rest: "verify_from sha (sha ?x) (xs @ a # ys) = []"
    using Cons.prems(1) by (simp add: verify_ok_iff entry_hash_def del: verify_from.simps(2))
  show ?case
  proof (cases "xs = []")
    case True
    with rest show ?thesis
      by (intro exI [of _ ?x]) (simp add: verify_ok_iff entry_hash_def del: verify_from.simps(2))
  next
    case False
    from Cons.IH [OF rest this] show ?thesis by (auto simp: entry_hash_def)
  qed
qed simp

lemma verify_cut:
  assumes "verify_from sha genesis (old @ a # kept) = []" "old \<noteq> []"
    "\<forall>x. sha x \<noteq> [] \<and> sha x \<noteq> genesis \<and> CHR ''|'' \<notin> set (sha x)"
    "inj_on sha (set (checked_texts sha genesis (old @ a # kept)) \<union> set (checked_texts sha genesis (a # kept)))"
  shows "verify_from sha genesis (a # kept) = [(a_chain_seq a, a_id a, PrevMismatch), (a_chain_seq a, a_id a, EntryMismatch)]"
proof -
  obtain x where x: "coalesce (a_prev_hash a) [] = sha x" "coalesce (a_entry_hash a) [] = entry_hash sha (sha x) a"
    "verify_from sha (entry_hash sha (sha x) a) kept = []"
    "chain_payload json_text isoformat (sha x) a \<in> set (checked_texts sha genesis (old @ a # kept))"
    using verify_split [OF assms(1,2)] by blast
  have "chain_payload json_text isoformat genesis a \<noteq> chain_payload json_text isoformat (sha x) a"
  proof
    assume "chain_payload json_text isoformat genesis a = chain_payload json_text isoformat (sha x) a"
    then have "genesis = sha x" by (rule payload_prev) (use assms(3) in \<open>auto simp: genesis_def\<close>)
    with assms(3) show False by metis
  qed
  moreover have "chain_payload json_text isoformat genesis a \<in> set (checked_texts sha genesis (a # kept))" by simp
  ultimately have "entry_hash sha genesis a \<noteq> entry_hash sha (sha x) a"
    unfolding entry_hash_def using assms(4) x(4) by (auto dest!: inj_onD [of sha])
  with x assms(3) show ?thesis by (simp add: Let_def entry_hash_def)
qed

lemma load_linked:
  assumes "linked sha jt tt p rows" "map a_chain_seq rows = map Some ns" "sorted ns" "\<forall>x. sha x \<noteq> []"
  shows "load_from_db rows = rows"
proof -
  have "\<forall>a \<in> set rows. coalesce (a_entry_hash a) [] \<noteq> []"
    using assms(1,4) by (induction rows arbitrary: p) auto
  with chain_order_id [OF assms(2,3)] show ?thesis by (simp add: load_from_db_def filter_id_conv)
qed

lemma linked_verifies: "linked sha json_text isoformat p rows \<Longrightarrow> \<forall>x. sha x \<noteq> [] \<Longrightarrow> verify_from sha p rows = []"
  by (induction rows arbitrary: p) (auto simp: entry_hash_def)

section \<open>Properties\<close>


text \<open>A purge breaks the chain: when the log verifies and the retention period has passed for some but not all of
  its rows, the verifier reports both a wrong link and a wrong hash for the first row that is left, and
  nothing else, so that an honest log that was ever purged does not verify.\<close>

theorem purge_breaks_chain:
  assumes "purge_expired_audit_logs cfg c key True s = (t, archived)"
    "load_from_db (audits s) = old @ a # kept" "verify_rows sha (old @ a # kept) = []"
    "sorted (map a_created (old @ a # kept))" "old \<noteq> []" "\<forall>x \<in> set old. expired cfg c x" "\<not> expired cfg c a"
    "\<forall>x. sha x \<noteq> [] \<and> sha x \<noteq> genesis \<and> CHR ''|'' \<notin> set (sha x)"
    "inj_on sha (set (checked_texts sha genesis (old @ a # kept)) \<union> set (checked_texts sha genesis (a # kept)))"
  shows "verify_rows sha (load_from_db (audits t)) = [(a_chain_seq a, a_id a, PrevMismatch), (a_chain_seq a, a_id a, EntryMismatch)]"
proof -
  have "audits t = filter (\<lambda>x. \<not> expired cfg c x) (audits s)"
  proof (cases "chain_order (filter (expired cfg c) (audits s)) = []")
    case True
    then have "filter (expired cfg c) (load_from_db (audits s)) = []"
      by (simp add: load_filter [symmetric]) (simp add: load_from_db_def)
    then show ?thesis using assms(2,5,6) by (cases old) auto
  next
    case False
    then show ?thesis using assms(1) by (auto simp: purge_expired_audit_logs_def Let_def put_object_def delete_where_def)
  qed
  then have "load_from_db (audits t) = filter (\<lambda>x. \<not> expired cfg c x) (old @ a # kept)"
    by (simp add: load_filter assms(2))
  also have "\<dots> = a # kept"
    using sorted_filter_drop [OF assms(4), of "now c - seconds (audit_retention_days cfg * 86400)"] assms(6,7)
    unfolding expired_def by blast
  finally have left: "load_from_db (audits t) = a # kept" .
  show ?thesis unfolding left verify_rows_def by (rule verify_cut) (use assms in \<open>auto simp: verify_rows_def\<close>)
qed

text \<open>C31: the verifier rejects every log the trigger wrote in order: the database's text of a time has no letter T, the
  script's has one, so that each row is reported for its hash, and none for its link, although nothing was changed.\<close>

theorem verifier_rejects_sound_chain:
  assumes "sorted_wrt (<) (map fst xs)" "\<forall>x. sha x \<noteq> []"
    "\<forall>t. 84 \<notin> set (tt t) \<and> 21 < length (tt t)"
    "inj_on sha (\<Union>a \<in> set (chain_inserts sha jt tt xs). {chain_payload json_text isoformat (the (a_prev_hash a)) a,
       chain_payload jt tt (the (a_prev_hash a)) a})"
  shows "verify_rows sha (load_from_db (chain_inserts sha jt tt xs)) =
    map (\<lambda>a. (a_chain_seq a, a_id a, EntryMismatch)) (chain_inserts sha jt tt xs)"
proof -
  let ?rows = "chain_inserts sha jt tt xs"
  have rows: "linked sha jt tt genesis ?rows" "map a_chain_seq ?rows = map Some (map fst xs)"
    using inserts_linked [OF assms(1)] by (simp_all add: comp_def)
  have "load_from_db ?rows = ?rows" by (rule load_linked [OF rows]) (use assms in \<open>auto simp: strict_sorted_imp_sorted\<close>)
  moreover have "verify_from sha genesis ?rows = map (\<lambda>a. (a_chain_seq a, a_id a, EntryMismatch)) ?rows"
  proof (rule verify_linked [OF rows(1) assms(2)], intro ballI notI)
    fix a
    assume a: "a \<in> set ?rows" "sha (chain_payload json_text isoformat (the (a_prev_hash a)) a) =
      sha (chain_payload jt tt (the (a_prev_hash a)) a)"
    then have "chain_payload json_text isoformat (the (a_prev_hash a)) a = chain_payload jt tt (the (a_prev_hash a)) a"
      using assms(4) by (auto dest!: inj_onD [of sha])
    with texts_differ [of tt a "the (a_prev_hash a)" jt] assms(3) show False by blast
  qed
  ultimately show ?thesis by (simp add: verify_rows_def)
qed

text \<open>Even a verifier that writes times and JSON as the database does needs the rows linked in the order of their
  numbers: it accepts what was inserted in that order, and reports a wrong link when two transactions drew their
  numbers in one order and took the lock in the other.\<close>

theorem number_order_matters:
  assumes "\<forall>x. sha x \<noteq> [] \<and> sha x \<noteq> genesis"
  shows "(if sorted_wrt (<) (map fst xs) then verify_rows sha (load_from_db (chain_inserts sha json_text isoformat xs)) = [] else True) \<and>
    (Some m, a_id b, PrevMismatch) \<in> set (verify_rows sha (load_from_db (chain_inserts sha json_text isoformat [(Suc (m + k), a), (m, b)])))"
proof -
  have "verify_rows sha (load_from_db (chain_inserts sha json_text isoformat xs)) = []" if sorted: "sorted_wrt (<) (map fst xs)"
  proof -
    have rows: "linked sha json_text isoformat genesis (chain_inserts sha json_text isoformat xs)"
      "map a_chain_seq (chain_inserts sha json_text isoformat xs) = map Some (map fst xs)"
      using inserts_linked [OF sorted] by (simp_all add: comp_def)
    from load_linked [OF rows] sorted assms linked_verifies [OF rows(1)] show ?thesis
      by (simp add: verify_rows_def strict_sorted_imp_sorted)
  qed
  moreover have "(Some m, a_id b, PrevMismatch) \<in> set (verify_rows sha (load_from_db
      (chain_inserts sha json_text isoformat [(Suc (m + k), a), (m, b)])))"
    using assms by (simp add: chain_inserts_def chain_insert_def load_from_db_def chain_order_def verify_rows_def Let_def)
  ultimately show ?thesis by simp
qed

section \<open>Concrete logs\<close>

text \<open>A digest without collisions: unary numerals.\<close>

definition demo_sha :: "ustr \<Rightarrow> string" where
  "demo_sha t = CHR ''h'' # concat (map (\<lambda>n. replicate n (CHR ''a'') @ [CHR ''b'']) t)"

lemma unary_inject: "replicate n (CHR ''a'') @ CHR ''b'' # s = replicate m (CHR ''a'') @ CHR ''b'' # t \<Longrightarrow> n = m \<and> s = t"
proof (induction n arbitrary: m)
  case 0
  then show ?case by (cases m) auto
next
  case (Suc n)
  then show ?case by (cases m) auto
qed

lemma unary_concat_inject:
  "concat (map (\<lambda>n. replicate n (CHR ''a'') @ [CHR ''b'']) s) = concat (map (\<lambda>n. replicate n (CHR ''a'') @ [CHR ''b'']) t) \<Longrightarrow> s = t"
  (is "?c s = ?c t \<Longrightarrow> _")
proof (induction s arbitrary: t)
  case Nil
  then show ?case by (cases t) auto
next
  case (Cons n s)
  then obtain m t' where t: "t = m # t'" by (cases t) auto
  have "replicate n (CHR ''a'') @ CHR ''b'' # ?c s = replicate m (CHR ''a'') @ CHR ''b'' # ?c t'"
    using Cons.prems t by simp
  from unary_inject [OF this] Cons.IH t show ?case by blast
qed

lemma demo_sha_inj: "inj_on demo_sha X"
proof (rule inj_onI)
  fix s t
  assume "demo_sha s = demo_sha t"
  then show "s = t" unfolding demo_sha_def by (intro unary_concat_inject) (rule list.inject [THEN iffD1, THEN conjunct2])
qed

lemma demo_sha_genesis: "demo_sha x \<noteq> genesis"
proof
  assume "demo_sha x = genesis"
  then have "hd (demo_sha x) = CHR ''0''" unfolding genesis_def by (simp only: hd_replicate)
  then show False by (simp add: demo_sha_def)
qed

lemma demo_sha_ok: "demo_sha x \<noteq> []" "demo_sha x \<noteq> genesis" "CHR ''|'' \<notin> set (demo_sha x)" "genesis \<notin> demo_sha ` X"
  using demo_sha_genesis by (auto simp: demo_sha_def image_iff dest: sym)

definition demo_log :: "audit_log list" where
  "demo_log = chain_inserts demo_sha json_text isoformat [(1, demo_audit ''a1'' 0), (2, demo_audit ''a2'' 99000000000)]"

lemma demo_log_ok: "linked demo_sha json_text isoformat genesis demo_log" "verify_rows demo_sha demo_log = []"
  "load_from_db demo_log = demo_log"
proof -
  show l: "linked demo_sha json_text isoformat genesis demo_log"
    using inserts_linked [of "[(1, demo_audit ''a1'' 0), (2, demo_audit ''a2'' 99000000000)]"] by (simp add: demo_log_def)
  from linked_verifies [OF l] show "verify_rows demo_sha demo_log = []" by (simp add: verify_rows_def demo_sha_ok)
  have "map a_chain_seq demo_log = map Some [1, 2]"
    using inserts_linked [of "[(1, demo_audit ''a1'' 0), (2, demo_audit ''a2'' 99000000000)]" demo_sha json_text isoformat]
    by (simp add: demo_log_def)
  from load_linked [OF l this] show "load_from_db demo_log = demo_log" by (simp add: demo_sha_ok)
qed

lemma demo_log_rows:
  "\<exists>p1 h1 p2 h2. demo_log = [(demo_audit ''a1'' 0)\<lparr>a_chain_seq := Some 1, a_prev_hash := Some p1, a_entry_hash := Some h1\<rparr>,
     (demo_audit ''a2'' 99000000000)\<lparr>a_chain_seq := Some 2, a_prev_hash := Some p2, a_entry_hash := Some h2\<rparr>]"
  by (simp add: demo_log_def chain_inserts_def chain_insert_def Let_def) (intro conjI exI, (rule refl)+)


theorem purge_breaks_chain_witness:
  "\<exists>t archived a. purge_expired_audit_logs demo_settings (demo_ctx 100000000000 ''b'') ''arch'' True (demo_sys\<lparr>audits := demo_log\<rparr>) = (t, archived) \<and>
     verify_rows demo_sha (load_from_db (audits t)) = [(Some 2, a, PrevMismatch), (Some 2, a, EntryMismatch)]"
proof -
  let ?c = "demo_ctx 100000000000 ''b''" and ?s = "demo_sys\<lparr>audits := demo_log\<rparr>"
  obtain p1 h1 p2 h2 where log: "demo_log = [(demo_audit ''a1'' 0)\<lparr>a_chain_seq := Some 1, a_prev_hash := Some p1, a_entry_hash := Some h1\<rparr>] @
     (demo_audit ''a2'' 99000000000)\<lparr>a_chain_seq := Some 2, a_prev_hash := Some p2, a_entry_hash := Some h2\<rparr> # []" (is "_ = ?old @ ?a # []")
    using demo_log_rows by force
  obtain t archived where run: "purge_expired_audit_logs demo_settings ?c ''arch'' True ?s = (t, archived)" by fastforce
  have load: "load_from_db (audits ?s) = ?old @ ?a # []" using demo_log_ok(3) log by simp
  have "verify_rows demo_sha (?old @ ?a # []) = []" using demo_log_ok(2) log by simp
  from purge_breaks_chain [OF run load this _ _ _ _ _ demo_sha_inj] run show ?thesis
    by (auto simp: demo_audit_def expired_def seconds_def demo_settings_def demo_ctx_def demo_sha_ok)
qed

theorem verifier_rejects_sound_chain_witness:
  "map (\<lambda>(n, i, f). (n, f)) (verify_rows demo_sha (load_from_db (chain_inserts demo_sha (\<lambda>v. []) (\<lambda>t. replicate 22 48)
     [(1, demo_audit ''a1'' 0), (2, demo_audit ''a2'' 5)]))) = [(Some 1, EntryMismatch), (Some 2, EntryMismatch)]"
proof -
  let ?xs = "[(1 :: nat, demo_audit ''a1'' 0), (2, demo_audit ''a2'' 5)]"
  have "sorted_wrt (<) (map fst ?xs)" by simp
  moreover have "\<forall>t :: datetime. 84 \<notin> set (replicate 22 (48 :: nat)) \<and> 21 < length (replicate 22 (48 :: nat))" by simp
  ultimately have "verify_rows demo_sha (load_from_db (chain_inserts demo_sha (\<lambda>v. []) (\<lambda>t. replicate 22 48) ?xs)) =
      map (\<lambda>a. (a_chain_seq a, a_id a, EntryMismatch)) (chain_inserts demo_sha (\<lambda>v. []) (\<lambda>t. replicate 22 48) ?xs)"
    by (intro verifier_rejects_sound_chain) (simp_all only: demo_sha_inj demo_sha_ok(1) not_False_eq_True simp_thms)
  then show ?thesis by (simp only:) (simp add: chain_inserts_def chain_insert_def Let_def)
qed

theorem number_order_matters_witness:
  "(Some 1, ''a2'', PrevMismatch) \<in> set (verify_rows demo_sha (load_from_db (chain_inserts demo_sha json_text isoformat
     [(2, demo_audit ''a1'' 0), (1, demo_audit ''a2'' 5)])))"
  using number_order_matters [of demo_sha "[]" 1 "demo_audit ''a2'' 5" 0 "demo_audit ''a1'' 0"]
  by (simp add: demo_sha_ok numeral_2_eq_2 demo_audit_def)

end
