(* ===== verification/Query.thy ===== *)
theory Query
  imports Injection
begin

text \<open>
  \<open>app/services/query.py\<close>: cleaning a question, the configured dictionary of terms and the choice of a
  retrieval mode.  Normalisation and case folding are parameters (\<open>unicode\<close>); so are the characters
  \<open>re.IGNORECASE\<close> identifies and the reading of a replacement text by \<open>re.sub\<close>, which raises on a wrong
  backslash (\<open>query_env\<close>).
\<close>

record query_settings =
  query_clean_enabled :: bool
  query_auto_route_enabled :: bool
  query_term_dictionary :: ustr

record query_env =
  qe_unicode :: unicode
  qe_same :: "nat \<Rightarrow> nat \<Rightarrow> bool"
  qe_template :: "ustr \<Rightarrow> ustr option"

record query_route =
  qr_query :: ustr
  qr_mode :: string
  qr_kb :: "string option"
  qr_needs_retrieval :: bool
  qr_reason :: string

section \<open>The dictionary of terms\<close>

text \<open>\<open>result[key] = value\<close>: a key that is there keeps its place.\<close>

fun put_term :: "ustr \<Rightarrow> ustr \<Rightarrow> (ustr \<times> ustr) list \<Rightarrow> (ustr \<times> ustr) list" where
  "put_term k v [] = [(k, v)]"
| "put_term k v ((k1, v1) # kvs) = (if k1 = k then (k, v) # kvs else (k1, v1) # put_term k v kvs)"

definition term_item :: "unicode \<Rightarrow> ustr \<Rightarrow> (ustr \<times> ustr) list \<Rightarrow> (ustr \<times> ustr) list" where
  "term_item U item result =
     (if 61 \<notin> set item then result
      else let alias = strip (takeWhile (\<lambda>c. c \<noteq> 61) item); canonical = strip (tl (dropWhile (\<lambda>c. c \<noteq> 61) item)) in
        if alias \<noteq> [] \<and> canonical \<noteq> [] then put_term (casefold U alias) canonical result else result)"

definition term_dictionary :: "unicode \<Rightarrow> ustr \<Rightarrow> (ustr \<times> ustr) list" where
  "term_dictionary U setting = fold (term_item U) (split_char 44 setting) []"

section \<open>Cleaning\<close>

definition is_control :: "nat \<Rightarrow> bool" where
  "is_control c \<longleftrightarrow> c \<le> 31 \<or> c = 127"

definition typo_fixes :: "(ustr \<times> ustr) list" where
  "typo_fixes = [([24080, 25143], [36134, 25143]), ([30331, 20837], [30331, 24405]), ([25968, 25454, 24211, 24211], [25968, 25454, 24211])]"

fun apply_terms :: "query_env \<Rightarrow> (ustr \<times> ustr) list \<Rightarrow> ustr \<Rightarrow> ustr option" where
  "apply_terms V [] query = Some query"
| "apply_terms V ((alias, canonical) # terms) query =
     (case qe_template V canonical of None \<Rightarrow> None
      | Some new \<Rightarrow> apply_terms V terms (re_sub (seq (map (\<lambda>a. Atom (qe_same V a)) alias)) (\<lambda>m c. new) query))"

text \<open>\<open>None\<close> when it raises.\<close>

definition clean_query :: "'a query_settings_scheme \<Rightarrow> query_env \<Rightarrow> ustr \<Rightarrow> ustr option" where
  "clean_query cfg V value =
     (let query = map (\<lambda>c. if is_control c then 32 else c) (nfkc (qe_unicode V) value);
          query = strip (re_sub (Rep 1 None is_space) (\<lambda>m c. [32]) query)
      in map_option (\<lambda>q. fold (\<lambda>(wrong, correct) r. replace_all wrong correct r) typo_fixes q)
           (apply_terms V (term_dictionary (qe_unicode V) (query_term_dictionary cfg)) query))"

section \<open>Routing\<close>

definition greeting_pattern :: "query_env \<Rightarrow> regex" where
  "greeting_pattern V =
     (let word = (\<lambda>w. seq (map (\<lambda>a. Atom (qe_same V a)) w)) in
      seq [Bos, Grp 1 (alts (map word [[20320, 22909], [24744, 22909], u ''hello'', u ''hi'', [35874, 35874], u ''thanks''])),
           Rep 0 None (\<lambda>c. c \<in> set [33, 65281, 12290, 44, 46] \<or> is_space c), Eos])"

definition exact_token :: "unicode \<Rightarrow> regex" where
  "exact_token U =
     seq [Boundary (is_word U),
       alts [Seq (Rep 2 None (range 65 90)) (Rep 0 None (\<lambda>c. range 65 90 c \<or> ascii_digit c \<or> c = 95 \<or> c = 45)),
         seq [Rep 1 None (range 65 90), Rep 0 (Some 1) (ch 45), Rep 2 None is_decimal],
         Rep 3 None is_decimal],
       Boundary (is_word U)]"

definition relation_words :: "ustr list" where
  "relation_words = [[20851, 31995], [20851, 32852], [24433, 21709], [19978, 19979, 28216], [22810, 36339]]"

definition semantic_words :: "ustr list" where
  "semantic_words = [[31867, 20284], [21547, 20041], [27010, 24565], [26159, 20160, 20040]]"

definition route_query ::
  "'a query_settings_scheme \<Rightarrow> query_env \<Rightarrow> ustr \<Rightarrow> string \<Rightarrow> knowledge_base list \<Rightarrow> query_route option" where
  "route_query cfg V query profile bases =
     (case (if query_clean_enabled cfg then clean_query cfg V query else Some (strip query)) of None \<Rightarrow> None
      | Some cleaned \<Rightarrow>
          let fold_case = casefold (qe_unicode V);
              kb = map_option k_id (find_row (\<lambda>k. k_name k \<noteq> [] \<and> contains (fold_case (k_name k)) (fold_case cleaned)) bases);
              route = (\<lambda>mode needs reason. Some \<lparr>qr_query = cleaned, qr_mode = mode, qr_kb = kb, qr_needs_retrieval = needs, qr_reason = reason\<rparr>)
          in if re_match (greeting_pattern V) cleaned then route ''none'' False ''social_query''
             else if profile \<noteq> ''auto'' then route profile True ''explicit_profile''
             else if \<not> query_auto_route_enabled cfg then route ''hybrid'' True ''auto_route_disabled''
             else if re_search (exact_token (qe_unicode V)) cleaned then route ''keyword'' True ''exact_identifier''
             else if list_ex (\<lambda>w. contains w cleaned) relation_words then route ''graph'' True ''relationship_query''
             else if list_ex (\<lambda>w. contains w cleaned) semantic_words then route ''vector'' True ''semantic_query''
             else route ''hybrid'' True ''hybrid_default'')"

end
