(* ===== verification/Conversation.thy ===== *)
theory Conversation
  imports Evidence Query Chunker
begin

text \<open>
  What a conversation keeps: \<open>app/services/history.py\<close> (messages in the database, the latest ones in a
  Redis list), \<open>semantic_cache.py\<close> (answers found by the similarity of their questions), \<open>summarizer.py\<close>
  (the rolling summary) and \<open>_persist_round\<close> of \<open>app/routers/chat.py\<close>.  Redis keys expire and Redis
  operations fail at any moment: expiry is an event, success a parameter of each operation.
\<close>

record chat_settings = evidence_settings +
  history_max_turns :: nat
  history_summary_enabled :: bool
  summary_trigger_messages :: int
  summary_keep_recent :: int
  semantic_cache_enabled :: bool
  semantic_cache_threshold :: real
  semantic_cache_size :: nat
  agent_memory_enabled :: bool
  agent_memory_candidates :: nat
  agent_memory_max_items :: nat
  agent_memory_max_chars :: nat
  agent_max_steps :: nat
  query_rewrite_enabled :: bool
  suggestions_enabled :: bool
  multi_query_enabled :: bool
  query_expansion_enabled :: bool
  hyde_enabled :: bool
  citation_entailment_enabled :: bool
  llm_model :: string
  llm_input_cost_per_million :: real
  llm_output_cost_per_million :: real

section \<open>The Redis side\<close>

text \<open>A list that is empty is a key that is absent.\<close>

record cached_answer =
  ca_question :: ustr
  ca_vector :: vec
  ca_answer :: ustr
  ca_sources :: "retrieved list"

record chat_cache =
  history_lists :: "string \<Rightarrow> (chat_role \<times> ustr) list"
  answer_lists :: "string \<times> string \<Rightarrow> cached_answer list"

section \<open>History\<close>

definition conversation_messages :: "sys \<Rightarrow> string \<Rightarrow> message list" where
  "conversation_messages s conv = sort_key x_created (filter (\<lambda>m. x_conversation m = conv) (messages s))"

definition turn_of :: "message \<Rightarrow> chat_role \<times> ustr" where
  "turn_of m = (x_role m, x_content m)"

definition latest :: "nat \<Rightarrow> 'a list \<Rightarrow> 'a list" where
  "latest n xs = drop (length xs - n) xs"

definition max_messages :: "'a chat_settings_scheme \<Rightarrow> nat" where
  "max_messages cfg = history_max_turns cfg * 2"

text \<open>\<open>readable\<close>: the list could be read; \<open>filled\<close>: the pipeline that fills it was executed.\<close>

definition load_history ::
  "'a chat_settings_scheme \<Rightarrow> bool \<Rightarrow> bool \<Rightarrow> sys \<Rightarrow> string \<Rightarrow> chat_cache \<Rightarrow> chat_cache \<times> (chat_role \<times> ustr) list" where
  "load_history cfg readable filled s conv cache =
     (let cached = last_n (max_messages cfg) (history_lists cache conv) in
      if readable \<and> cached \<noteq> [] then (cache, cached)
      else let history = map turn_of (latest (max_messages cfg) (conversation_messages s conv)) in
        (if history \<noteq> [] \<and> filled then cache\<lparr>history_lists := (history_lists cache)(conv := history)\<rparr> else cache, history))"

definition append_history :: "'a chat_settings_scheme \<Rightarrow> bool \<Rightarrow> string \<Rightarrow> chat_role \<Rightarrow> ustr \<Rightarrow> chat_cache \<Rightarrow> chat_cache" where
  "append_history cfg applied conv role content cache =
     (if applied then cache\<lparr>history_lists := (history_lists cache)
        (conv := last_n (max_messages cfg) (history_lists cache conv @ [(role, content)]))\<rparr> else cache)"

definition expire_history :: "string \<Rightarrow> chat_cache \<Rightarrow> chat_cache" where
  "expire_history conv cache = cache\<lparr>history_lists := (history_lists cache)(conv := [])\<rparr>"

section \<open>The answer cache\<close>

definition answer_key :: "string \<Rightarrow> string option \<Rightarrow> string \<times> string" where
  "answer_key user_id kb_id = (user_id, if coalesce kb_id [] = [] then ''all'' else the kb_id)"

definition is_eligible :: "'a list \<Rightarrow> bool" where
  "is_eligible history \<longleftrightarrow> history = []"

definition cosine_similarity :: "vec \<Rightarrow> vec \<Rightarrow> real" where
  "cosine_similarity a b =
     (if sqrt (inner a a) = 0 \<or> sqrt (inner b b) = 0 then 0 else inner a b / (sqrt (inner a a) * sqrt (inner b b)))"

text \<open>The first of the most similar entries, if its similarity is positive; \<open>round4\<close> is Python's \<open>round(x, 4)\<close>.\<close>

fun best_answer :: "vec \<Rightarrow> real \<Rightarrow> cached_answer option \<Rightarrow> cached_answer list \<Rightarrow> real \<times> cached_answer option" where
  "best_answer vec sim best [] = (sim, best)"
| "best_answer vec sim best (e # es) =
     (if sim < cosine_similarity vec (ca_vector e) then best_answer vec (cosine_similarity vec (ca_vector e)) (Some e) es
      else best_answer vec sim best es)"

definition lookup_answer ::
  "'a chat_settings_scheme \<Rightarrow> (real \<Rightarrow> real) \<Rightarrow> bool \<Rightarrow> string \<Rightarrow> string option \<Rightarrow> vec \<Rightarrow> chat_cache \<Rightarrow> (real \<times> cached_answer) option" where
  "lookup_answer cfg round4 readable user_id kb_id vec cache =
     (if \<not> semantic_cache_enabled cfg \<or> \<not> readable then None
      else case best_answer vec 0 None (answer_lists cache (answer_key user_id kb_id)) of
          (sim, Some e) \<Rightarrow> if semantic_cache_threshold cfg \<le> sim then Some (round4 sim, e) else None
        | (sim, None) \<Rightarrow> None)"

text \<open>\<open>LTRIM key 0 (size - 1)\<close>: a size of zero keeps everything.\<close>

definition store_answer ::
  "'a chat_settings_scheme \<Rightarrow> bool \<Rightarrow> string \<Rightarrow> string option \<Rightarrow> cached_answer \<Rightarrow> chat_cache \<Rightarrow> chat_cache" where
  "store_answer cfg applied user_id kb_id e cache =
     (if \<not> semantic_cache_enabled cfg \<or> ca_answer e = [] \<or> \<not> applied then cache
      else let key = answer_key user_id kb_id; entries = e # answer_lists cache key in
        cache\<lparr>answer_lists := (answer_lists cache)
          (key := if semantic_cache_size cfg = 0 then entries else take (semantic_cache_size cfg) entries)\<rparr>)"

definition invalidate_user :: "string \<Rightarrow> chat_cache \<Rightarrow> chat_cache" where
  "invalidate_user user_id cache = cache\<lparr>answer_lists := (\<lambda>(i, k). if i = user_id then [] else answer_lists cache (i, k))\<rparr>"

definition invalidate_kb :: "string \<Rightarrow> chat_cache \<Rightarrow> chat_cache" where
  "invalidate_kb kb_id cache =
     cache\<lparr>answer_lists := (\<lambda>(i, k). if k = kb_id \<or> k = ''all'' then [] else answer_lists cache (i, k))\<rparr>"

section \<open>The rolling summary\<close>

fun role_text :: "chat_role \<Rightarrow> string" where
  "role_text SystemRole = ''system''"
| "role_text UserRole = ''user''"
| "role_text AssistantRole = ''assistant''"

definition get_conversation :: "sys \<Rightarrow> string \<Rightarrow> conversation option" where
  "get_conversation s i = find_row (\<lambda>v. v_id v = i) (conversations s)"

definition summary_request :: "conversation \<Rightarrow> message list \<Rightarrow> ustr" where
  "summary_request v compressed = ujoin [10, 10]
     ((if coalesce (v_summary v) [] \<noteq> [] then [[24050, 26377, 25688, 35201, 65306, 10] @ coalesce (v_summary v) []] else []) @
      [[26032, 22686, 23545, 35805, 20869, 23481, 65306, 10] @
       ujoin [10] (map (\<lambda>m. u (role_text (x_role m)) @ u '': '' @ take 400 (x_content m)) compressed)])"

text \<open>\<open>ask\<close> is the completion service on the user message, \<open>None\<close> when it raises.\<close>

definition maybe_summarize :: "'a chat_settings_scheme \<Rightarrow> (ustr \<Rightarrow> ustr option) \<Rightarrow> string \<Rightarrow> sys \<Rightarrow> sys" where
  "maybe_summarize cfg ask conv s =
     (if \<not> history_summary_enabled cfg then s
      else case get_conversation s conv of None \<Rightarrow> s
        | Some v \<Rightarrow>
            let rows = conversation_messages s conv; total = int (length rows); boundary = total - summary_keep_recent cfg in
            if total < summary_trigger_messages cfg \<or> boundary \<le> int (v_summary_upto v) then s
            else case ask (summary_request v (slice rows (v_summary_upto v) (nat boundary))) of None \<Rightarrow> s
              | Some reply \<Rightarrow> if strip reply = [] then s
                  else s\<lparr>conversations := update_where (\<lambda>w. v_id w = conv)
                    (\<lambda>w. w\<lparr>v_summary := Some (take 2000 (strip reply)), v_summary_upto := nat boundary\<rparr>) (conversations s)\<rparr>)"

section \<open>Storing a round\<close>

record round =
  rd_conversation :: string
  rd_user :: string
  rd_question :: ustr
  rd_answer :: ustr
  rd_sources :: json
  rd_prompt_tokens :: nat
  rd_completion_tokens :: nat
  rd_first_token_ms :: nat
  rd_total_ms :: nat
  rd_record_usage :: bool

text \<open>The rows of a round, written in one transaction; \<open>t1\<close>, \<open>t2\<close> and \<open>t3\<close> are the times the rows are
  given, \<open>round_to_int\<close> is Python's \<open>round\<close>.\<close>

definition round_rows ::
  "'a chat_settings_scheme \<Rightarrow> (real \<Rightarrow> int) \<Rightarrow> (nat \<Rightarrow> string) \<Rightarrow> datetime \<Rightarrow> datetime \<Rightarrow> datetime \<Rightarrow> round \<Rightarrow> sys \<Rightarrow> sys" where
  "round_rows cfg round_to_int new_id t1 t2 t3 r s =
     s\<lparr>messages := messages s @
         [\<lparr>x_id = new_id 0, x_conversation = rd_conversation r, x_role = UserRole, x_content = rd_question r,
           x_sources = None, x_created = t1\<rparr>,
          \<lparr>x_id = new_id 1, x_conversation = rd_conversation r, x_role = AssistantRole, x_content = rd_answer r,
           x_sources = Some (rd_sources r), x_created = t2\<rparr>],
       usage := usage s @ (if rd_record_usage r then
         [\<lparr>y_id = new_id 2, y_owner = rd_user r, y_conversation = Some (rd_conversation r), y_model = llm_model cfg,
           y_prompt_tokens = rd_prompt_tokens r, y_completion_tokens = rd_completion_tokens r,
           y_first_token_ms = rd_first_token_ms r, y_total_ms = rd_total_ms r,
           y_cost = round_to_int (real (rd_prompt_tokens r) * llm_input_cost_per_million cfg
             + real (rd_completion_tokens r) * llm_output_cost_per_million cfg),
           y_created = t3\<rparr>] else [])\<rparr>"

text \<open>\<open>_persist_round\<close> without interruption: the transaction, the two cached messages, the summary.\<close>

record persist_env =
  pe_new_id :: "nat \<Rightarrow> string"
  pe_times :: "datetime \<times> datetime \<times> datetime"
  pe_round :: "real \<Rightarrow> int"
  pe_applied :: "bool \<times> bool"
  pe_summarise :: "ustr \<Rightarrow> ustr option"

definition persist_round ::
  "'a chat_settings_scheme \<Rightarrow> persist_env \<Rightarrow> round \<Rightarrow> sys \<times> chat_cache \<Rightarrow> sys \<times> chat_cache" where
  "persist_round cfg P r = (\<lambda>(s, cache).
     case (pe_times P, pe_applied P) of ((t1, t2, t3), (ok1, ok2)) \<Rightarrow>
       (maybe_summarize cfg (pe_summarise P) (rd_conversation r) (round_rows cfg (pe_round P) (pe_new_id P) t1 t2 t3 r s),
        append_history cfg ok2 (rd_conversation r) AssistantRole (rd_answer r)
          (append_history cfg ok1 (rd_conversation r) UserRole (rd_question r) cache)))"

end
