(* ===== verification/Agent.thy ===== *)
theory Agent
  imports Memory Llm
begin

text \<open>
  \<open>app/services/agent.py\<close>: the loop in which the model calls tools until it answers or the steps are used up.  The
  model, \<open>json.loads\<close>, \<open>str\<close> of a JSON value, the text of an exception and which searches raise are parameters
  (\<open>agent_env\<close>).
\<close>

record tool_call =
  tc_id :: string
  tc_name :: ustr
  tc_arguments :: "ustr option"

datatype agent_message = SystemMsg ustr | TurnMsg chat_role ustr | CallMsg ustr "tool_call list" | ToolMsg string ustr

record agent_reply =
  ar_content :: "ustr option"
  ar_calls :: "tool_call list"
  ar_usage :: "(nat option \<times> nat option) option"

datatype agent_event = ToolCalled ustr json | ToolReturned ustr ustr | AgentSources "retrieved list"
  | AgentDelta ustr | AgentUsage nat nat

record agent_env =
  ae_complete :: "agent_message list \<Rightarrow> bool \<Rightarrow> agent_reply option"
  ae_loads :: "ustr \<Rightarrow> json option"
  ae_text :: "json \<Rightarrow> ustr"
  ae_error :: "ustr \<Rightarrow> json \<Rightarrow> ustr"
  ae_search_raises :: "ustr \<Rightarrow> bool"
  ae_engine :: search_engine
  ae_unicode :: unicode

definition AGENT_SYSTEM :: ustr where
  "AGENT_SYSTEM =
    [20320, 26159, 30693, 35782, 24211, 26234, 33021, 21161, 25163, 65292, 21487, 20197, 35843, 29992, 24037, 20855,
     26597, 36164, 26009, 21518, 22238, 31572, 38382, 39064, 12290, 10, 10, 24037, 20316, 26041, 24335, 65306, 10,
     49, 46, 32, 20808, 24605, 32771, 22238, 31572, 36825, 20010, 38382, 39064, 38656, 35201, 21738, 20123, 20449,
     24687, 65292, 29992, 32, 115, 101, 97, 114, 99, 104, 95, 107, 110, 111, 119, 108, 101, 100, 103, 101, 95, 98,
     97, 115, 101, 32, 26816, 32034, 65307, 10, 50, 46, 32, 19968, 27425, 26816, 32034, 19981, 22815, 23601, 25442,
     19981, 21516, 30340, 20851, 38190, 35789, 22810, 26816, 32034, 20960, 27425, 65288, 23545, 27604, 31867, 38382,
     39064, 35201, 20998, 21035, 26816, 32034, 27599, 20010, 23545, 35937, 65289, 65307, 10, 51, 46, 32, 19981,
     30830, 23450, 30693, 35782, 24211, 37324, 26377, 20160, 20040, 36164, 26009, 26102, 65292, 21487, 29992, 32,
     108, 105, 115, 116, 95, 100, 111, 99, 117, 109, 101, 110, 116, 115, 32, 26597, 30475, 25991, 26723, 28165,
     21333, 65307, 10, 52, 46, 32, 20449, 24687, 36275, 22815, 21518, 30452, 25509, 22238, 31572, 65306, 20005,
     26684, 22522, 20110, 26816, 32034, 21040, 30340, 36164, 26009, 65292, 24341, 29992, 22788, 26631, 27880, 32,
     91, 110, 93, 32, 32534, 21495, 65292, 10, 32, 32, 32, 36164, 26009, 19981, 36275, 35201, 26126, 35828, 34,
     30693, 35782, 24211, 20013, 27809, 26377, 25214, 21040, 30456, 20851, 20449, 24687, 34, 12290, 29992, 20013,
     25991, 22238, 31572, 65292, 21487, 29992, 32, 77, 97, 114, 107, 100, 111, 119, 110, 12290]"

definition SEARCH_TOOL :: ustr where
  "SEARCH_TOOL = u ''search_knowledge_base''"

definition LIST_TOOL :: ustr where
  "LIST_TOOL = u ''list_documents''"

section \<open>Tools\<close>

text \<open>\<open>retrieve(db, owner_id, query, kb_id=kb_id)\<close>: everything else is the default of the signature.\<close>

definition agent_request :: "string \<Rightarrow> string option \<Rightarrow> ustr \<Rightarrow> retrieval_request" where
  "agent_request owner_id kb_id query =
     \<lparr>rq_owner = owner_id, rq_query = query, rq_kb = kb_id, rq_extra = [], rq_vec = None, rq_keyword = True, rq_vector = True,
      rq_graph = False, rq_types = [], rq_sections = [], rq_after = None, rq_before = None, rq_sources = [],
      rq_departments = [], rq_tags = [], rq_rerank = None, rq_parent = None\<rparr>"

definition cite :: "retrieved \<Rightarrow> (string \<times> retrieved) list \<Rightarrow> (string \<times> retrieved) list" where
  "cite r cited = (if rc_chunk r \<in> set (map fst cited) then cited else cited @ [(rc_chunk r, r)])"

definition cited_line :: "retrieved \<Rightarrow> (string \<times> retrieved) list \<Rightarrow> ustr" where
  "cited_line r cited =
     (let page = coalesce (rc_page r) 0;
          place = (if page \<noteq> 0 then [31532] @ u '' '' @ u (show_nat page) @ u '' '' @ [39029]
            else [31532] @ u '' '' @ u (show_nat (rc_seq r + 1)) @ u '' '' @ [27573])
      in [91] @ u (show_nat (position (map fst cited) (rc_chunk r) 0 + 1)) @ [93, 65288] @ rc_filename r @ [32] @ place @ [65289, 10] @ rc_content r)"

fun cite_all :: "retrieved list \<Rightarrow> (string \<times> retrieved) list \<Rightarrow> (string \<times> retrieved) list \<times> ustr list" where
  "cite_all [] cited = (cited, [])"
| "cite_all (r # rs) cited = (case cite_all rs (cite r cited) of (cited1, lines) \<Rightarrow> (cited1, cited_line r (cite r cited) # lines))"

definition searched :: "'a evidence_settings_scheme \<Rightarrow> agent_env \<Rightarrow> sys \<Rightarrow> string \<Rightarrow> string option \<Rightarrow> ustr \<Rightarrow> retrieved list" where
  "searched cfg A s owner_id kb_id query =
     fst (apply_injection_policy cfg (ae_engine A) (retrieve cfg (ae_engine A) (ae_unicode A) (agent_request owner_id kb_id query) s))"

text \<open>The documents of the owner's workspaces, one per joined membership.\<close>

definition listed_documents :: "sys \<Rightarrow> string \<Rightarrow> string option \<Rightarrow> document list" where
  "listed_documents s owner_id kb_id =
     [d. d \<leftarrow> docs s, k \<leftarrow> kbs s, k_id k = d_kb d, m \<leftarrow> memberships s,
       m_ws m = k_ws k \<and> m_user m = owner_id \<and> d_active d \<noteq> None \<and> \<not> d_quarantined d \<and>
       (coalesce kb_id [] = [] \<or> Some (d_kb d) = kb_id)]"

text \<open>The result of a tool and the citations; \<open>args.get\<close> raises when the arguments are not an object.\<close>

definition exec_tool ::
  "'a evidence_settings_scheme \<Rightarrow> agent_env \<Rightarrow> sys \<Rightarrow> string \<Rightarrow> string option \<Rightarrow> ustr \<Rightarrow> json \<Rightarrow>
   (string \<times> retrieved) list \<Rightarrow> (string \<times> retrieved) list \<times> ustr" where
  "exec_tool cfg A s owner_id kb_id name args cited =
     (let failed = (cited, [24037, 20855, 25191, 34892, 20986, 38169, 58, 32] @ ae_error A name args) in
      if name = SEARCH_TOOL then
        (case args of JObj kvs \<Rightarrow>
           (let v = coalesce (map_of kvs ''query'') JNull; query = strip (if truthy v then ae_text A v else []) in
            if query = [] then (cited, [38169, 35823, 65306, 113, 117, 101, 114, 121, 32, 21442, 25968, 20026, 31354])
            else if ae_search_raises A query then failed
            else let chunks = searched cfg A s owner_id kb_id query in
              if chunks = [] then (cited, [27809, 26377, 26816, 32034, 21040, 30456, 20851, 20869, 23481, 65292, 21487, 20197, 25442, 20854, 20182, 20851, 38190, 35789, 20877, 35797, 12290])
              else (case cite_all chunks cited of (cited1, lines) \<Rightarrow> (cited1, ujoin [10, 10] lines)))
         | _ \<Rightarrow> failed)
      else if name = LIST_TOOL then
        (let ds = listed_documents s owner_id kb_id in
         (cited, if ds = [] then [30693, 35782, 24211, 20013, 36824, 27809, 26377, 21487, 26816, 32034, 30340, 25991, 26723, 12290]
           else [21487, 26816, 32034, 30340, 25991, 26723, 65306] @ [10] @ ujoin [10] (map (\<lambda>d. u ''- '' @ d_filename d @ [65288] @ u (show_nat (d_chunk_count d)) @ u '' '' @ [20010, 29255, 27573, 65289]) ds)))
      else (cited, [26410, 30693, 24037, 20855, 58, 32] @ name))"

section \<open>The loop\<close>

definition read_arguments :: "agent_env \<Rightarrow> tool_call \<Rightarrow> json" where
  "read_arguments A tc = coalesce (ae_loads A (if coalesce (tc_arguments tc) [] = [] then [123, 125] else coalesce (tc_arguments tc) [])) (JObj [])"

fun run_tools ::
  "'a evidence_settings_scheme \<Rightarrow> agent_env \<Rightarrow> sys \<Rightarrow> string \<Rightarrow> string option \<Rightarrow> tool_call list \<Rightarrow> (string \<times> retrieved) list \<Rightarrow>
   agent_event list \<times> agent_message list \<times> (string \<times> retrieved) list" where
  "run_tools cfg A s owner_id kb_id [] cited = ([], [], cited)"
| "run_tools cfg A s owner_id kb_id (tc # tcs) cited =
     (let args = read_arguments A tc in
      case exec_tool cfg A s owner_id kb_id (tc_name tc) args cited of (cited1, result) \<Rightarrow>
        (case run_tools cfg A s owner_id kb_id tcs cited1 of (events, replies, cited2) \<Rightarrow>
           (ToolCalled (tc_name tc) args # ToolReturned (tc_name tc) (take 300 result) # events, ToolMsg (tc_id tc) result # replies, cited2)))"

definition add_tokens :: "nat \<times> nat \<Rightarrow> (nat option \<times> nat option) option \<Rightarrow> nat \<times> nat" where
  "add_tokens spent reported = (case reported of None \<Rightarrow> spent
     | Some (p, c) \<Rightarrow> (fst spent + coalesce p 0, snd spent + coalesce c 0))"

definition final_events :: "(string \<times> retrieved) list \<Rightarrow> ustr \<Rightarrow> nat \<times> nat \<Rightarrow> agent_event list" where
  "final_events cited text spent = [AgentSources (map snd cited), AgentDelta text, AgentUsage (fst spent) (snd spent)]"

text \<open>The events, what the model was asked (the messages and whether tools were offered) and whether the loop ended
  without an exception; the first argument counts the steps that are left.\<close>

fun agent_loop ::
  "nat \<Rightarrow> 'a evidence_settings_scheme \<Rightarrow> agent_env \<Rightarrow> sys \<Rightarrow> string \<Rightarrow> string option \<Rightarrow> agent_message list \<Rightarrow>
   (string \<times> retrieved) list \<Rightarrow> nat \<times> nat \<Rightarrow> agent_event list \<times> (agent_message list \<times> bool) list \<times> bool" where
  "agent_loop 0 cfg A s owner_id kb_id msgs cited spent =
     (final_events cited [65288, 24050, 36798, 21040, 26368, 22823, 25512, 29702, 27493, 25968, 65292, 35831, 25442, 20010, 38382, 27861, 25110, 32553, 23567, 38382, 39064, 33539, 22260, 65289] spent, [], True)"
| "agent_loop (Suc steps) cfg A s owner_id kb_id msgs cited spent =
     (case ae_complete A msgs (0 < steps) of None \<Rightarrow> ([], [(msgs, 0 < steps)], False)
      | Some reply \<Rightarrow>
          let spent1 = add_tokens spent (ar_usage reply); text = coalesce (ar_content reply) [] in
          if ar_calls reply \<noteq> [] then
            (case run_tools cfg A s owner_id kb_id (ar_calls reply) cited of (events, replies, cited1) \<Rightarrow>
              (case agent_loop steps cfg A s owner_id kb_id (msgs @ CallMsg text (ar_calls reply) # replies) cited1 spent1 of
                 (later, asked, ok) \<Rightarrow> (events @ later, (msgs, 0 < steps) # asked, ok)))
          else (final_events cited text spent1, [(msgs, 0 < steps)], True))"

definition agent_prompt :: "ustr \<Rightarrow> (chat_role \<times> ustr) list \<Rightarrow> ustr list \<Rightarrow> agent_message list" where
  "agent_prompt question history memories =
     SystemMsg AGENT_SYSTEM # (if build_memory_context memories = [] then [] else [SystemMsg (build_memory_context memories)]) @
     map (\<lambda>(role, content). TurnMsg role content) history @ [TurnMsg UserRole question]"

definition run_agent ::
  "'a chat_settings_scheme \<Rightarrow> agent_env \<Rightarrow> sys \<Rightarrow> string \<Rightarrow> string option \<Rightarrow> ustr \<Rightarrow> (chat_role \<times> ustr) list \<Rightarrow> ustr list \<Rightarrow>
   agent_event list \<times> (agent_message list \<times> bool) list \<times> bool" where
  "run_agent cfg A s owner_id kb_id question history memories =
     agent_loop (agent_max_steps cfg) cfg A s owner_id kb_id (agent_prompt question history memories) [] (0, 0)"

end
