(* ===== verification/Chat.thy ===== *)
theory Chat
  imports Agent Capacity Access
begin

text \<open>
  \<open>app/routers/chat.py\<close>: one question from the capacity check to the end of the event stream, and the endpoints for
  conversations and feedback.  The body of a stream is a list of actions (an event that is sent, a change of state),
  which may stop after any of them: when the client goes away, or when something raises.  Services are
  parameters (\<open>chat_env\<close>); metrics and logs are left out.
\<close>

record chat_body =
  cb_question :: ustr
  cb_conversation :: "string option"
  cb_kb :: "string option"
  cb_mode :: string
  cb_profile :: string
  cb_types :: "string list"
  cb_sources :: "string list"
  cb_departments :: "ustr list"
  cb_tags :: "ustr list"
  cb_sections :: "ustr list"
  cb_after :: "datetime option"
  cb_before :: "datetime option"
  cb_format :: string
  cb_schema :: "json option"

definition chat_profiles :: "string list" where
  "chat_profiles = [''auto'', ''vector'', ''flat'', ''keyword'', ''hybrid'', ''hybrid_rerank'', ''parent_child'', ''multi_query'', ''hyde'', ''graph'']"

definition chat_request_ok :: "chat_body \<Rightarrow> bool" where
  "chat_request_ok body \<longleftrightarrow> cb_question body \<noteq> [] \<and> length (cb_question body) \<le> 2000 \<and> cb_mode body \<in> set [''rag'', ''agent''] \<and>
     cb_profile body \<in> set chat_profiles \<and> length (cb_types body) \<le> 20 \<and> length (cb_sources body) \<le> 20 \<and>
     length (cb_departments body) \<le> 20 \<and> length (cb_tags body) \<le> 30 \<and> length (cb_sections body) \<le> 50 \<and>
     cb_format body \<in> set [''markdown'', ''json'']"

record answer_verdict =
  av_answer :: ustr
  av_valid :: bool
  av_origin :: string
  av_check :: citation_check

datatype chat_event =
    RouteEvent string string string
  | RewriteEvent ustr
  | CachedEvent real ustr
  | SourcesEvent "retrieved list"
  | EvidenceEvent evidence_decision
  | InjectionEvent injection_info
  | MemoryEvent nat
  | ToolEvent agent_event
  | DeltaEvent ustr
  | ReplacementEvent ustr
  | ValidationEvent answer_verdict
  | DoneEvent string nat nat nat nat
  | SuggestionsEvent "ustr list"
  | ErrorEvent ustr

record chat_state =
  ch_db :: sys
  ch_cache :: chat_cache
  ch_slots :: capacity_state

datatype chat_action = Send chat_event | Act "chat_state \<Rightarrow> chat_state"

text \<open>\<open>None\<close> stands for a call that raises.  \<open>ce_stream\<close> is what the model streams and whether it ends well.\<close>

record chat_env =
  ce_ctx :: ctx
  ce_query :: query_env
  ce_engine :: search_engine
  ce_embed :: "ustr \<Rightarrow> vec option"
  ce_retrieve_raises :: bool
  ce_rewrite :: "ustr \<Rightarrow> ustr option"
  ce_expand :: "ustr \<Rightarrow> ustr option"
  ce_hyde :: "ustr \<Rightarrow> ustr option"
  ce_followups :: "ustr \<Rightarrow> ustr \<Rightarrow> ustr option"
  ce_stream :: "retrieved list \<Rightarrow> (chat_role \<times> ustr) list \<Rightarrow> ustr option \<Rightarrow> stream_item list \<times> bool"
  ce_judge :: "(ustr \<times> (int \<times> ustr) list) list \<Rightarrow> ustr option"
  ce_loads :: "ustr \<Rightarrow> json option"
  ce_text :: "json \<Rightarrow> ustr"
  ce_read_int :: "ustr \<Rightarrow> int option"
  ce_schema_ok :: "json \<Rightarrow> json \<Rightarrow> bool"
  ce_agent :: agent_env
  ce_dump :: "retrieved list \<Rightarrow> json"
  ce_persist :: persist_env
  ce_first_ms :: nat
  ce_total_ms :: nat
  ce_error :: ustr
  ce_history_ok :: "bool \<times> bool"
  ce_cache_ok :: "bool \<times> bool"
  ce_round4 :: "real \<Rightarrow> real"
  ce_redis_up :: "bool \<times> bool"
  ce_now_ms :: int
  ce_mono_s :: int
  ce_slot_token :: string
  ce_rate_ok :: bool

section \<open>Answers without the model\<close>

definition scope_chunks_to_kb :: "retrieved list \<Rightarrow> string \<Rightarrow> retrieved list" where
  "scope_chunks_to_kb rs kb_id = filter (\<lambda>r. rc_kb r = kb_id) rs"

definition excerpt_of :: "retrieved \<Rightarrow> ustr" where
  "excerpt_of r = (let e = ujoin [32] (split_ws (rc_content r)) in
     if 420 < length e then rstrip (take 419 e) @ [8230] else e)"

definition fallback_line :: "nat \<Rightarrow> retrieved \<Rightarrow> ustr" where
  "fallback_line i r =
     (let name = (if rc_filename r = [] then [30693, 35782, 24211, 25991, 26723] else rc_filename r);
          part = coalesce (rc_section r) []; label = (if part = [] then name else name @ [32, 183, 32] @ part)
      in u ''- **'' @ label @ [42, 42, 65306] @ excerpt_of r @ u '' ['' @ u (show_nat i) @ [93])"

definition fallback_header :: ustr where
  "fallback_header = [62, 32, 9888, 65039, 32, 22823, 27169, 22411, 26242, 26102, 19981, 21487, 29992, 12290, 20197, 19979, 20869, 23481, 30452, 25509, 25688, 33258, 24403, 21069, 30693, 35782, 24211, 30340, 26816, 32034, 32467, 26524, 65292, 26410, 28155, 21152, 25991, 20214, 22806, 20449, 24687, 12290]"

definition build_grounded_fallback :: "retrieved list \<Rightarrow> ustr" where
  "build_grounded_fallback rs =
     ujoin [10] ([fallback_header, []] @ map (\<lambda>(i, r). fallback_line (i + 1) r) (enum (take 5 rs)))"

definition markup_char :: "nat \<Rightarrow> bool" where
  "markup_char c \<longleftrightarrow> c \<in> set (u ''#>*_`-'') \<or> is_space c"

definition has_substantive_answer :: "ustr \<Rightarrow> bool" where
  "has_substantive_answer answer \<longleftrightarrow>
     12 \<le> length (filter (\<lambda>c. \<not> markup_char c) (re_sub citation_pattern (\<lambda>m c. []) answer))"

definition cache_hit_is_grounded :: "cached_answer \<Rightarrow> string \<Rightarrow> bool" where
  "cache_hit_is_grounded e kb_id \<longleftrightarrow>
     has_substantive_answer (ca_answer e) \<and> ca_sources e \<noteq> [] \<and> list_all (\<lambda>r. rc_kb r = kb_id) (ca_sources e)"

section \<open>Which answer is kept\<close>

text \<open>Citation check, entailment, repair.  Without an answer that passes, the question is settled by
  \<open>blocked\<close>: the extractive fallback here, a fixed sentence in the agent mode.\<close>

definition entailed_ok ::
  "'a chat_settings_scheme \<Rightarrow> chat_env \<Rightarrow> bool \<Rightarrow> ustr \<Rightarrow> retrieved list \<Rightarrow> bool" where
  "entailed_ok cfg V wanted answer rs =
     (let check = validate_citations answer (int (length rs)) in
      cc_valid check \<and> (citation_entailment_enabled cfg \<and> wanted \<longrightarrow>
        en_supported (verify_claim_entailment cfg (ce_judge V) (ce_loads V) (ce_read_int V) answer (map rc_content rs))))"

definition checked_answer ::
  "'a chat_settings_scheme \<Rightarrow> chat_env \<Rightarrow> bool \<Rightarrow> (ustr \<Rightarrow> answer_verdict) \<Rightarrow> ustr \<Rightarrow> retrieved list \<Rightarrow> answer_verdict" where
  "checked_answer cfg V wanted blocked answer rs =
     (let n = int (length rs); repair = repair_citations answer n in
      if entailed_ok cfg V wanted answer rs
      then \<lparr>av_answer = answer, av_valid = True, av_origin = ''model'', av_check = validate_citations answer n\<rparr>
      else if cc_valid (rp_check repair)
      then \<lparr>av_answer = rp_answer repair, av_valid = True, av_origin = ''repaired'', av_check = rp_check repair\<rparr>
      else blocked answer)"

definition extractive :: "string \<Rightarrow> retrieved list \<Rightarrow> answer_verdict" where
  "extractive reason rs =
     (let answer = build_grounded_fallback rs; check = validate_citations answer (int (length rs)) in
      \<lparr>av_answer = answer, av_valid = cc_valid check, av_origin = reason, av_check = check\<rparr>)"

definition settle_answer :: "'a chat_settings_scheme \<Rightarrow> chat_env \<Rightarrow> ustr \<Rightarrow> retrieved list \<Rightarrow> answer_verdict" where
  "settle_answer cfg V answer rs =
     (let v = checked_answer cfg V True (\<lambda>a. extractive ''citation_validation_failed'' rs) answer rs in
      if has_substantive_answer (av_answer v) then v else extractive ''empty_or_citation_only_answer'' rs)"

definition blocked_text :: ustr where
  "blocked_text = [22238, 31572, 26410, 36890, 36807, 24341, 29992, 19968, 33268, 24615, 26657, 39564, 65292, 24050, 38459, 27490, 23637, 31034, 12290, 35831, 32553, 23567, 38382, 39064, 33539, 22260, 21518, 37325, 35797, 12290]"

text \<open>In the agent mode a rejected answer keeps the verdict of its check.\<close>

definition settle_agent_answer :: "'a chat_settings_scheme \<Rightarrow> chat_env \<Rightarrow> ustr \<Rightarrow> retrieved list \<Rightarrow> answer_verdict" where
  "settle_agent_answer cfg V answer sources =
     checked_answer cfg V (sources \<noteq> []) (\<lambda>a. \<lparr>av_answer = blocked_text, av_valid = False, av_origin = ''blocked'',
       av_check = validate_citations a (int (length sources))\<rparr>) answer sources"

section \<open>The stream of actions\<close>

definition on_db :: "(sys \<Rightarrow> sys) \<Rightarrow> chat_state \<Rightarrow> chat_state" where
  "on_db f st = st\<lparr>ch_db := f (ch_db st)\<rparr>"

definition on_cache :: "(chat_cache \<Rightarrow> chat_cache) \<Rightarrow> chat_state \<Rightarrow> chat_state" where
  "on_cache f st = st\<lparr>ch_cache := f (ch_cache st)\<rparr>"

text \<open>\<open>_persist_round\<close>, one action per commit or pipeline.\<close>

definition persist_actions :: "'a chat_settings_scheme \<Rightarrow> persist_env \<Rightarrow> round \<Rightarrow> chat_action list" where
  "persist_actions cfg P r = (case (pe_times P, pe_applied P) of ((t1, t2, t3), (ok1, ok2)) \<Rightarrow>
     [Act (on_db (round_rows cfg (pe_round P) (pe_new_id P) t1 t2 t3 r)),
      Act (on_cache (append_history cfg ok1 (rd_conversation r) UserRole (rd_question r))),
      Act (on_cache (append_history cfg ok2 (rd_conversation r) AssistantRole (rd_answer r))),
      Act (on_db (maybe_summarize cfg (pe_summarise P) (rd_conversation r)))])"

text \<open>The first \<open>n\<close> actions take place.\<close>

fun serve :: "nat \<Rightarrow> chat_action list \<Rightarrow> chat_state \<Rightarrow> chat_event list \<times> chat_state" where
  "serve 0 acts st = ([], st)"
| "serve n [] st = ([], st)"
| "serve (Suc n) (Send e # acts) st = (case serve n acts st of (es, st1) \<Rightarrow> (e # es, st1))"
| "serve (Suc n) (Act f # acts) st = serve n acts (f st)"

text \<open>What every stream knows of its question.\<close>

record chat_turn =
  ct_user :: string
  ct_conversation :: string
  ct_kb :: string
  ct_question :: ustr
  ct_history :: "(chat_role \<times> ustr) list"
  ct_summary :: "ustr option"
  ct_vector :: vec

definition round_of :: "chat_env \<Rightarrow> chat_turn \<Rightarrow> ustr \<Rightarrow> retrieved list \<Rightarrow> nat \<times> nat \<Rightarrow> nat \<Rightarrow> nat \<Rightarrow> bool \<Rightarrow> round" where
  "round_of V t answer sources spent first_ms total_ms record_usage =
     \<lparr>rd_conversation = ct_conversation t, rd_user = ct_user t, rd_question = ct_question t, rd_answer = answer,
      rd_sources = ce_dump V sources, rd_prompt_tokens = fst spent, rd_completion_tokens = snd spent,
      rd_first_token_ms = first_ms, rd_total_ms = total_ms, rd_record_usage = record_usage\<rparr>"

definition social_text :: ustr where
  "social_text = [20320, 22909, 65281, 35831, 21578, 35785, 25105, 20320, 24819, 26597, 35810, 30340, 30693, 35782, 24211, 38382, 39064, 65292, 25105, 20250, 22522, 20110, 21487, 39564, 35777, 30340, 36164, 26009, 22238, 31572, 24182, 32473, 20986, 24341, 29992, 12290]"

definition social_stream :: "'a chat_settings_scheme \<Rightarrow> chat_env \<Rightarrow> chat_turn \<Rightarrow> string \<Rightarrow> chat_action list" where
  "social_stream cfg V t reason =
     [Send (RouteEvent ''none'' reason (ct_kb t)), Send (DeltaEvent social_text)] @
     persist_actions cfg (ce_persist V) (round_of V t social_text [] (0, 0) 0 0 False) @
     [Send (DoneEvent (ct_conversation t) 0 0 0 0)]"

definition rewrite_events :: "chat_turn \<Rightarrow> ustr \<Rightarrow> chat_action list" where
  "rewrite_events t search_query = (if search_query \<noteq> ct_question t then [Send (RewriteEvent search_query)] else [])"

definition cached_stream :: "'a chat_settings_scheme \<Rightarrow> chat_env \<Rightarrow> chat_turn \<Rightarrow> ustr \<Rightarrow> real \<Rightarrow> cached_answer \<Rightarrow> chat_action list" where
  "cached_stream cfg V t search_query sim e =
     [Send (CachedEvent sim (ca_question e))] @ rewrite_events t search_query @
     [Send (SourcesEvent (ca_sources e)), Send (DeltaEvent (ca_answer e))] @
     persist_actions cfg (ce_persist V) (round_of V t (ca_answer e) (ca_sources e) (0, 0) 0 0 False) @
     [Send (DoneEvent (ct_conversation t) 0 0 0 0)]"

definition suggestion_events :: "'a chat_settings_scheme \<Rightarrow> chat_env \<Rightarrow> chat_turn \<Rightarrow> answer_verdict \<Rightarrow> chat_action list" where
  "suggestion_events cfg V t v =
     (let followups = suggest_followups (ce_loads V) (ce_text V) (ce_followups V (ct_question t) (av_answer v)) in
      if suggestions_enabled cfg \<and> av_valid v \<and> av_answer v \<noteq> [] \<and> followups \<noteq> [] then [Send (SuggestionsEvent followups)] else [])"

definition usage_of :: "stream_item list \<Rightarrow> nat \<times> nat" where
  "usage_of items = fold (\<lambda>x acc. case x of Delta d \<Rightarrow> acc | Usage p c \<Rightarrow> (p, c)) items (0, 0)"

definition delta_texts :: "stream_item list \<Rightarrow> ustr list" where
  "delta_texts items = concat (map (\<lambda>x. case x of Delta d \<Rightarrow> [d] | Usage p c \<Rightarrow> []) items)"

text \<open>After the model has answered: the verdict, the round, the answer cache, the end.\<close>

definition conclude :: "'a chat_settings_scheme \<Rightarrow> chat_env \<Rightarrow> chat_turn \<Rightarrow> retrieved list \<Rightarrow> nat \<times> nat \<Rightarrow> nat \<Rightarrow> ustr \<Rightarrow> chat_action list" where
  "conclude cfg V t rs spent first_ms answer =
     (let v = settle_answer cfg V answer rs in
      [Send (ValidationEvent v)] @ (if av_answer v \<noteq> answer then [Send (ReplacementEvent (av_answer v))] else []) @
      persist_actions cfg (ce_persist V) (round_of V t (av_answer v) rs spent first_ms (ce_total_ms V) True) @
      (if is_eligible (ct_history t) \<and> av_valid v
       then [Act (on_cache (store_answer cfg (snd (ce_cache_ok V)) (ct_user t) (Some (ct_kb t))
         \<lparr>ca_question = ct_question t, ca_vector = ct_vector t, ca_answer = av_answer v, ca_sources = rs\<rparr>))] else []) @
      [Send (DoneEvent (ct_conversation t) (fst spent) (snd spent) first_ms (ce_total_ms V))] @ suggestion_events cfg V t v)"

definition generate_stream :: "'a chat_settings_scheme \<Rightarrow> chat_env \<Rightarrow> chat_body \<Rightarrow> chat_turn \<Rightarrow> retrieved list \<Rightarrow> chat_action list" where
  "generate_stream cfg V body t rs =
     (case ce_stream V rs (ct_history t) (ct_summary t) of (items, ok) \<Rightarrow>
        let json = (cb_format body = ''json''); texts = delta_texts items; first_ms = (if texts = [] then 0 else ce_first_ms V);
            streamed = (if json then [] else map (\<lambda>d. Send (DeltaEvent d)) texts) in
        if \<not> ok \<and> json then [Send (ErrorEvent (ce_error V))]
        else let answer = (if ok then concat texts else build_grounded_fallback rs);
                 sent = streamed @ (if ok then [] else [Send (ReplacementEvent answer)]);
                 finish = conclude cfg V t rs (usage_of items) first_ms answer in
          if \<not> json then sent @ finish
          else case ce_loads V answer of None \<Rightarrow> sent @ [Send (ErrorEvent (ce_error V))]
            | Some structured \<Rightarrow>
                if truthy (coalesce (cb_schema body) JNull) \<and> \<not> ce_schema_ok V structured (the (cb_schema body))
                then sent @ [Send (ErrorEvent (ce_error V))] else sent @ [Send (DeltaEvent answer)] @ finish)"

definition no_answer_text :: ustr where
  "no_answer_text = [30693, 35782, 24211, 20013, 27809, 26377, 25214, 21040, 36275, 22815, 21487, 38752, 30340, 35777, 25454, 65292, 26242, 26102, 26080, 27861, 22238, 31572, 36825, 20010, 38382, 39064, 12290]"

definition event_stream ::
  "'a chat_settings_scheme \<Rightarrow> chat_env \<Rightarrow> chat_body \<Rightarrow> chat_turn \<Rightarrow> query_route \<Rightarrow> ustr \<Rightarrow> retrieved list \<Rightarrow> injection_info \<Rightarrow> chat_action list" where
  "event_stream cfg V body t route search_query rs info =
     (let evidence = assess_evidence cfg rs in
      [Send (RouteEvent (qr_mode route) (qr_reason route) (ct_kb t))] @ rewrite_events t search_query @
      [Send (SourcesEvent rs), Send (EvidenceEvent evidence)] @ (if ii_high_count info \<noteq> 0 then [Send (InjectionEvent info)] else []) @
      (if \<not> ed_answerable evidence
       then [Send (DeltaEvent no_answer_text)] @
         persist_actions cfg (ce_persist V) (round_of V t no_answer_text rs (0, 0) 0 0 False) @
         [Send (DoneEvent (ct_conversation t) 0 0 0 0)]
       else generate_stream cfg V body t rs))"

section \<open>Agent mode\<close>

definition agent_sends :: "string \<Rightarrow> agent_event \<Rightarrow> chat_action list" where
  "agent_sends kb_id e = (case e of ToolCalled n a \<Rightarrow> [Send (ToolEvent e)] | ToolReturned n x \<Rightarrow> [Send (ToolEvent e)]
     | AgentSources rs \<Rightarrow> [Send (SourcesEvent (scope_chunks_to_kb rs kb_id))] | AgentDelta d \<Rightarrow> [Send (DeltaEvent d)]
     | AgentUsage p c \<Rightarrow> [])"

definition agent_sources :: "string \<Rightarrow> agent_event list \<Rightarrow> retrieved list" where
  "agent_sources kb_id es = fold (\<lambda>e acc. case e of AgentSources rs \<Rightarrow> scope_chunks_to_kb rs kb_id | _ \<Rightarrow> acc) es []"

definition agent_texts :: "agent_event list \<Rightarrow> ustr list" where
  "agent_texts es = concat (map (\<lambda>e. case e of AgentDelta d \<Rightarrow> [d] | _ \<Rightarrow> []) es)"

definition agent_usage :: "agent_event list \<Rightarrow> nat \<times> nat" where
  "agent_usage es = fold (\<lambda>e acc. case e of AgentUsage p c \<Rightarrow> (p, c) | _ \<Rightarrow> acc) es (0, 0)"

definition agent_stream :: "'a chat_settings_scheme \<Rightarrow> chat_env \<Rightarrow> chat_turn \<Rightarrow> sys \<Rightarrow> chat_action list" where
  "agent_stream cfg V t s =
     (let memories = load_agent_memories cfg (qe_unicode (ce_query V)) s (ct_user t) (ct_kb t) (ct_conversation t) (ct_question t) in
      case run_agent cfg (ce_agent V) s (ct_user t) (Some (ct_kb t)) (ct_question t) (ct_history t) memories of
        (events, asked, ok) \<Rightarrow>
          let sent = (if memories \<noteq> [] then [Send (MemoryEvent (length memories))] else []) @ concat (map (agent_sends (ct_kb t)) events) in
          if \<not> ok then sent @ [Send (ErrorEvent (ce_error V))]
          else let answer = concat (agent_texts events); sources = agent_sources (ct_kb t) events; spent = agent_usage events;
                   v = settle_agent_answer cfg V answer sources in
            sent @ [Send (ValidationEvent v)] @ (if av_answer v \<noteq> answer then [Send (ReplacementEvent (av_answer v))] else []) @
            persist_actions cfg (ce_persist V) (round_of V t (av_answer v) sources spent (ce_first_ms V) (ce_total_ms V) True) @
            [Send (DoneEvent (ct_conversation t) (fst spent) (snd spent) (ce_first_ms V) (ce_total_ms V))] @ suggestion_events cfg V t v)"

section \<open>The endpoint\<close>

text \<open>The latest earlier question that shares a keyword with this one.  \<open>None\<close>: cleaning it raises.\<close>

fun related_question ::
  "'a query_settings_scheme \<Rightarrow> chat_env \<Rightarrow> ustr list \<Rightarrow> (chat_role \<times> ustr) list \<Rightarrow> ustr list option" where
  "related_question qcfg V words [] = Some []"
| "related_question qcfg V words ((role, content) # earlier) =
     (if role \<noteq> UserRole then related_question qcfg V words earlier
      else case clean_query qcfg (ce_query V) content of None \<Rightarrow> None
        | Some previous \<Rightarrow>
            if previous \<noteq> [] \<and> list_ex (\<lambda>w. w \<in> set words) (extract_keywords (ce_engine V) (qe_unicode (ce_query V)) previous 8)
            then Some [take 300 previous] else related_question qcfg V words earlier)"

definition extra_queries ::
  "'a chat_settings_scheme \<Rightarrow> 'b query_settings_scheme \<Rightarrow> chat_env \<Rightarrow> string \<Rightarrow> ustr \<Rightarrow> (chat_role \<times> ustr) list \<Rightarrow> ustr list option" where
  "extra_queries cfg qcfg V profile search_query history =
     (let variants = (if (profile = ''multi_query'' \<or> multi_query_enabled cfg) \<and> query_expansion_enabled cfg
            then expand_queries (ce_loads V) (ce_text V) (ce_expand V search_query) else []);
          words = extract_keywords (ce_engine V) (qe_unicode (ce_query V)) search_query 8;
          guess = generate_hypothetical_answer (ce_hyde V search_query);
          hyde = (if (profile = ''hyde'' \<or> hyde_enabled cfg) \<and> guess \<noteq> [] then [guess] else [])
      in map_option (\<lambda>related. variants @ related @ hyde) (related_question qcfg V words (rev (last_n 10 history))))"

definition chat_request :: "chat_body \<Rightarrow> string \<Rightarrow> string \<Rightarrow> string \<Rightarrow> ustr \<Rightarrow> ustr list \<Rightarrow> vec \<Rightarrow> retrieval_request" where
  "chat_request body uid kb_id profile search_query extra v =
     \<lparr>rq_owner = uid, rq_query = search_query, rq_kb = Some kb_id, rq_extra = extra, rq_vec = Some v,
      rq_keyword = (profile \<noteq> ''vector''), rq_vector = (profile \<noteq> ''keyword''), rq_graph = (profile = ''graph''),
      rq_types = cb_types body, rq_sections = cb_sections body, rq_after = cb_after body, rq_before = cb_before body,
      rq_sources = cb_sources body, rq_departments = cb_departments body, rq_tags = cb_tags body,
      rq_rerank = Some (profile = ''hybrid_rerank''), rq_parent = Some (profile = ''parent_child'')\<rparr>"

text \<open>What the model is given: scoped, filtered by the injection policy and cut to the budget.\<close>

definition chat_context ::
  "'a chat_settings_scheme \<Rightarrow> chat_env \<Rightarrow> string \<Rightarrow> ustr \<Rightarrow> retrieved list \<Rightarrow> retrieved list \<times> injection_info" where
  "chat_context cfg V kb_id search_query found =
     (case apply_injection_policy cfg (ce_engine V) (scope_chunks_to_kb found kb_id) of (kept, info) \<Rightarrow>
        (scope_chunks_to_kb (prepare_context cfg (ce_engine V) (qe_unicode (ce_query V)) search_query (scope_chunks_to_kb kept kb_id)) kb_id, info))"

definition query_audit :: "chat_env \<Rightarrow> string \<Rightarrow> knowledge_base \<Rightarrow> ustr \<Rightarrow> string \<Rightarrow> nat \<Rightarrow> bool \<Rightarrow> audit_args" where
  "query_audit V uid kb question profile n answerable =
     (audit_event ''knowledge_base.query'' ''knowledge_base'' (Some uid))\<lparr>ae_resource := Some (k_id kb), ae_ws := Some (k_ws kb),
       ae_request := Some (req (ce_ctx V)),
       ae_after := Some (JObj [(''question_hash'', JStr (u (sha256 (ce_ctx V) question))), (''route'', JStr (u profile)),
         (''source_count'', JInt (int n)), (''answerable'', JBool answerable)])\<rparr>"

datatype chat_outcome = Refused nat | Crashed | Streaming "chat_action list"

text \<open>From the routed question on.\<close>

definition search_stream ::
  "'a chat_settings_scheme \<Rightarrow> 'b query_settings_scheme \<Rightarrow> chat_env \<Rightarrow> chat_body \<Rightarrow> knowledge_base \<Rightarrow> chat_turn \<Rightarrow> query_route \<Rightarrow>
   ustr \<Rightarrow> vec \<Rightarrow> chat_state \<Rightarrow> chat_state \<times> chat_outcome" where
  "search_stream cfg qcfg V body kb t route search_query v st =
     (let t = t\<lparr>ct_vector := v\<rparr>; hit = (if is_eligible (ct_history t) then lookup_answer cfg (ce_round4 V) (fst (ce_cache_ok V)) (ct_user t) (Some (ct_kb t)) v (ch_cache st) else None)
      in case (case hit of None \<Rightarrow> None | Some (sim, e) \<Rightarrow> if cache_hit_is_grounded e (ct_kb t) then Some (sim, e) else None) of
        Some (sim, e) \<Rightarrow> (st, Streaming (cached_stream cfg V t search_query sim e))
      | None \<Rightarrow>
          (case extra_queries cfg qcfg V (qr_mode route) search_query (ct_history t) of None \<Rightarrow> (st, Crashed)
           | Some extra \<Rightarrow>
               if ce_retrieve_raises V then (st, Crashed)
               else case chat_context cfg V (ct_kb t) search_query (retrieve cfg (ce_engine V) (qe_unicode (ce_query V))
                   (chat_request body (ct_user t) (ct_kb t) (qr_mode route) search_query extra v) (ch_db st)) of (rs, info) \<Rightarrow>
                 (on_db (add_audit_event (ce_ctx V) 1 (query_audit V (ct_user t) kb (ct_question t) (qr_mode route) (length rs)
                    (ed_answerable (assess_evidence cfg rs)))) st,
                  Streaming (event_stream cfg V body t route search_query rs info))))"

definition rag_stream ::
  "'a chat_settings_scheme \<Rightarrow> 'b query_settings_scheme \<Rightarrow> chat_env \<Rightarrow> chat_body \<Rightarrow> knowledge_base \<Rightarrow> chat_turn \<Rightarrow> chat_state \<Rightarrow>
   chat_state \<times> chat_outcome" where
  "rag_stream cfg qcfg V body kb t st =
     (case route_query qcfg (ce_query V) (cb_question body) (cb_profile body) [kb] of None \<Rightarrow> (st, Crashed)
      | Some route \<Rightarrow>
          (case (if query_rewrite_enabled cfg \<and> ct_history t \<noteq> []
             then clean_query qcfg (ce_query V) (rewrite_query (ce_rewrite V) (cb_question body)
               (map (\<lambda>(role, content). (role_text role, content)) (ct_history t)))
             else Some (qr_query route)) of None \<Rightarrow> (st, Crashed)
           | Some search_query \<Rightarrow>
               if \<not> qr_needs_retrieval route then (st, Streaming (social_stream cfg V t (qr_reason route)))
               else case ce_embed V search_query of None \<Rightarrow> (st, Crashed)
                 | Some v \<Rightarrow> search_stream cfg qcfg V body kb t route search_query v st))"

text \<open>The conversation of the request: an existing one of the user in this knowledge base, or a new one.\<close>

definition open_conversation :: "chat_env \<Rightarrow> chat_body \<Rightarrow> string \<Rightarrow> string \<Rightarrow> chat_state \<Rightarrow> nat + chat_state \<times> conversation" where
  "open_conversation V body uid kb_id st =
     (case cb_conversation body of
        Some (c # cs) \<Rightarrow>
          (case get_conversation (ch_db st) (c # cs) of None \<Rightarrow> Inl 404
           | Some v \<Rightarrow> if v_owner v \<noteq> uid then Inl 404 else if v_kb v \<noteq> Some kb_id then Inl 409 else Inr (st, v))
      | _ \<Rightarrow>
          let v = \<lparr>v_id = fresh (ce_ctx V) 0, v_owner = uid, v_kb = Some kb_id, v_title = take 50 (cb_question body),
                   v_summary = None, v_summary_upto = 0, v_created = now (ce_ctx V)\<rparr>
          in Inr (on_db (\<lambda>s. s\<lparr>conversations := conversations s @ [v]\<rparr>) st, v))"

definition chat_prepare ::
  "'a chat_settings_scheme \<Rightarrow> 'b query_settings_scheme \<Rightarrow> chat_env \<Rightarrow> chat_body \<Rightarrow> string \<Rightarrow> string \<Rightarrow> chat_state \<Rightarrow>
   chat_state \<times> chat_outcome" where
  "chat_prepare cfg qcfg V body uid kb_id st =
     (case get_kb_with_permission (ch_db st) kb_id uid PQuery of Inl code \<Rightarrow> (st, Refused code)
      | Inr kb \<Rightarrow> (case open_conversation V body uid kb_id st of Inl code \<Rightarrow> (st, Refused code)
          | Inr (st1, v) \<Rightarrow>
              (case load_history cfg (fst (ce_history_ok V)) (snd (ce_history_ok V)) (ch_db st1) (v_id v) (ch_cache st1) of (cache, history) \<Rightarrow>
                 let st2 = st1\<lparr>ch_cache := cache\<rparr>;
                     t = \<lparr>ct_user = uid, ct_conversation = v_id v, ct_kb = kb_id, ct_question = cb_question body,
                          ct_history = history, ct_summary = v_summary v, ct_vector = []\<rparr>
                 in if cb_mode body = ''agent'' then (st2, Streaming (agent_stream cfg V t (ch_db st2)))
                    else rag_stream cfg qcfg V body kb t st2)))"

text \<open>The whole request.  The rate limit is checked after the dependencies, that is with a slot in hand; the
  handler gives the slot back when it refuses, the stream when it ends, after any number \<open>n\<close> of actions.\<close>

definition on_slots :: "(capacity_state \<Rightarrow> capacity_state) \<Rightarrow> chat_state \<Rightarrow> chat_state" where
  "on_slots f st = st\<lparr>ch_slots := f (ch_slots st)\<rparr>"

datatype chat_reply = Failed_with nat | Events "chat_event list"

definition chat_endpoint ::
  "'a chat_settings_scheme \<Rightarrow> 'b query_settings_scheme \<Rightarrow> capacity_settings \<Rightarrow> chat_env \<Rightarrow> chat_body \<Rightarrow> string \<Rightarrow> nat \<Rightarrow> chat_state \<Rightarrow>
   chat_state \<times> chat_reply" where
  "chat_endpoint cfg qcfg ccfg V body uid n st =
     (if \<not> chat_request_ok body then (st, Failed_with 422)
      else case coalesce (cb_kb body) [] of [] \<Rightarrow> (st, Failed_with 400)
      | k # ks \<Rightarrow>
          (case acquire_chat_slot ccfg (fst (ce_redis_up V)) (ce_now_ms V) (ce_mono_s V) (ce_slot_token V) uid (cb_conversation body) (ch_slots st) of
             (slots, None) \<Rightarrow> (st\<lparr>ch_slots := slots\<rparr>, Failed_with 429)
           | (slots, Some lease) \<Rightarrow>
               let st1 = st\<lparr>ch_slots := slots\<rparr>; release = on_slots (release_chat_slot (snd (ce_redis_up V)) lease) in
               if \<not> ce_rate_ok V then (st1, Failed_with 429)
               else case chat_prepare cfg qcfg V body uid (k # ks) st1 of
                   (st2, Refused code) \<Rightarrow> (release st2, Failed_with code)
                 | (st2, Crashed) \<Rightarrow> (st2, Failed_with 500)
                 | (st2, Streaming acts) \<Rightarrow> (case serve n acts st2 of (events, st3) \<Rightarrow> (release st3, Events events))))"

section \<open>Conversations and feedback\<close>

definition owned_conversation :: "sys \<Rightarrow> string \<Rightarrow> string \<Rightarrow> conversation http" where
  "owned_conversation s i uid =
     (case get_conversation s i of None \<Rightarrow> Inl 404 | Some v \<Rightarrow> if v_owner v \<noteq> uid then Inl 404 else Inr v)"

definition list_conversations :: "sys \<Rightarrow> string \<Rightarrow> conversation list" where
  "list_conversations s uid = take 50 (sort_desc v_created (filter (\<lambda>v. v_owner v = uid) (conversations s)))"

definition list_messages :: "sys \<Rightarrow> string \<Rightarrow> string \<Rightarrow> message list http" where
  "list_messages s i uid = (case owned_conversation s i uid of Inl code \<Rightarrow> Inl code | Inr v \<Rightarrow> Inr (conversation_messages s i))"

definition rename_conversation :: "string \<Rightarrow> string \<Rightarrow> ustr \<Rightarrow> sys \<Rightarrow> (sys \<times> conversation) http" where
  "rename_conversation i uid title s =
     (if title = [] \<or> 100 < length title then Inl 422
      else case owned_conversation s i uid of Inl code \<Rightarrow> Inl code
        | Inr v \<Rightarrow> Inr (s\<lparr>conversations := update_where (\<lambda>w. v_id w = i) (\<lambda>w. w\<lparr>v_title := title\<rparr>) (conversations s)\<rparr>, v\<lparr>v_title := title\<rparr>))"

definition delete_conversation :: "string \<Rightarrow> string \<Rightarrow> sys \<Rightarrow> sys http" where
  "delete_conversation i uid s =
     (case owned_conversation s i uid of Inl code \<Rightarrow> Inl code
      | Inr v \<Rightarrow> Inr (s\<lparr>conversations := delete_where (\<lambda>w. v_id w = i) (conversations s),
          messages := delete_where (\<lambda>m. x_conversation m = i) (messages s)\<rparr>))"

text \<open>The schema bounds the rating, the reason and the comment; the handler refuses a rating of zero.\<close>

definition submit_feedback ::
  "ctx \<Rightarrow> string \<Rightarrow> string \<Rightarrow> string option \<Rightarrow> int \<Rightarrow> ustr option \<Rightarrow> ustr option \<Rightarrow> sys \<Rightarrow> (sys \<times> string) http" where
  "submit_feedback c uid conv mid rating reason note s =
     (if rating < -1 \<or> 1 < rating \<or> 64 < length (coalesce reason []) \<or> 1000 < length (coalesce note []) then Inl 422
      else case owned_conversation s conv uid of Inl code \<Rightarrow> Inl code
        | Inr v \<Rightarrow>
            if rating \<notin> {-1, 1} then Inl 422
            else if coalesce mid [] \<noteq> [] \<and> find_row (\<lambda>m. x_id m = the mid \<and> x_conversation m = v_id v \<and> x_role m = AssistantRole) (messages s) = None
            then Inl 404
            else Inr (add_audit_event c 1 ((audit_event ''answer.feedback'' ''conversation'' (Some uid))
                \<lparr>ae_resource := Some (v_id v), ae_request := Some (req c),
                 ae_after := Some (JObj [(''rating'', JInt rating), (''reason'', case reason of None \<Rightarrow> JNull | Some r \<Rightarrow> JStr r)])\<rparr>)
              (s\<lparr>feedback := feedback s @ [\<lparr>b_id = fresh c 0, b_owner = uid, b_conversation = v_id v, b_message = mid,
                 b_rating = rating, b_reason = reason, b_comment = note, b_created = now c\<rparr>]\<rparr>), fresh c 0))"

definition record_interaction :: "sys \<Rightarrow> string \<Rightarrow> string \<Rightarrow> string option \<Rightarrow> unit http" where
  "record_interaction s uid action conv =
     (if action \<notin> set [''copy'', ''regenerate'', ''followup'', ''research''] then Inl 422
      else if coalesce conv [] = [] then Inr ()
      else case owned_conversation s (the conv) uid of Inl code \<Rightarrow> Inl code | Inr v \<Rightarrow> Inr ())"

end
