(* ===== verification/ChatDemo.thy ===== *)
theory ChatDemo
  imports Conversation Demo
begin

text \<open>
  The small deployment of \<open>Demo\<close> continued: the settings of the chat endpoints at their defaults, a conversation without
  messages and one with many, an answer to keep.
\<close>

definition demo_chat_settings :: chat_settings where
  "demo_chat_settings = \<lparr>max_upload_mb = 1, workspace_storage_quota_mb = 1, allowed_mime_types = [],
     outbox_batch_size = 10, outbox_max_retries = 2, outbox_base_retry_seconds = 2,
     orphan_object_grace_seconds = 60, audit_retention_days = 1, audit_archive_before_purge = True,
     ingestion_embed_batch_size = 2, resource_delete_max_retries = 1, chunk_strategy = ''fixed'',
     chunk_size = 1, chunk_overlap = 0, embedding_model = ''m'', embedding_dim = 1,
     graph_retrieval_enabled = False, injection_quarantine_enabled = False,
     injection_quarantine_ratio = 1 / 2, injection_llm_check_enabled = False,
     prompt_injection_detection_enabled = True, llm_api_key = [],
     retrieval_candidates = 10, retrieval_top_k = 5, rrf_k = 60, parent_child_enabled = False, adjacent_chunk_window = 0,
     rerank_enabled = False, rule_rerank_enabled = False, llm_rerank_enabled = False,
     injection_high_risk_action = ''remove'', injection_downweight_factor = 1 / 2, evidence_min_chunks = 1,
     evidence_min_rrf_score = 0, citation_entailment_max_claims = 6, citation_entailment_fail_closed = False,
     context_max_tokens = 100, context_compression_enabled = False, context_compression_min_chars = 100,
     lost_in_middle_enabled = False,
     history_max_turns = 6, history_summary_enabled = True, summary_trigger_messages = 12, summary_keep_recent = 6,
     semantic_cache_enabled = True, semantic_cache_threshold = 95 / 100, semantic_cache_size = 50, agent_memory_enabled = True,
     agent_memory_candidates = 80, agent_memory_max_items = 6, agent_memory_max_chars = 1800, agent_max_steps = 4,
     query_rewrite_enabled = True, suggestions_enabled = True, multi_query_enabled = False, query_expansion_enabled = True,
     hyde_enabled = False, citation_entailment_enabled = True, llm_model = ''m'', llm_input_cost_per_million = 0,
     llm_output_cost_per_million = 0\<rparr>"

definition demo_conversation :: conversation where
  "demo_conversation = \<lparr>v_id = ''v1'', v_owner = ''u1'', v_kb = Some ''k1'', v_title = u ''hi'', v_summary = None,
     v_summary_upto = 0, v_created = 0\<rparr>"

definition demo_chat_sys :: sys where
  "demo_chat_sys = demo_sys\<lparr>conversations := [demo_conversation]\<rparr>"

text \<open>Thirteen messages, one more than the history holds.\<close>

definition demo_long_sys :: sys where
  "demo_long_sys = demo_chat_sys\<lparr>messages := replicate 13 \<lparr>x_id = ''x1'', x_conversation = ''v1'', x_role = UserRole,
     x_content = u ''hi'', x_sources = None, x_created = 0\<rparr>\<rparr>"

definition demo_round :: round where
  "demo_round = \<lparr>rd_conversation = ''v1'', rd_user = ''u1'', rd_question = u ''hi'', rd_answer = u ''ho'', rd_sources = JList [],
     rd_prompt_tokens = 0, rd_completion_tokens = 0, rd_first_token_ms = 0, rd_total_ms = 0, rd_record_usage = True\<rparr>"

definition demo_persist :: persist_env where
  "demo_persist = \<lparr>pe_new_id = (\<lambda>n. replicate (Suc n) CHR ''m''), pe_times = (1, 1, 1), pe_round = floor,
     pe_applied = (True, True), pe_summarise = (\<lambda>q. None)\<rparr>"

definition demo_cache :: chat_cache where
  "demo_cache = \<lparr>history_lists = (\<lambda>i. []), answer_lists = (\<lambda>k. [])\<rparr>"

definition demo_answer :: cached_answer where
  "demo_answer = \<lparr>ca_question = u ''hi'', ca_vector = [1], ca_answer = u ''ho'', ca_sources = []\<rparr>"

end
