(* ===== verification/ConversationClaims.thy ===== *)
theory ConversationClaims
  imports Conversation ChatDemo
begin

text \<open>
  The message cache against the message table, the answer cache against its stores and invalidations, and the
  summary against the messages it stands for.
\<close>

section \<open>Appending to a sorted table\<close>

lemma sort_key_snoc:
  assumes "\<forall>x \<in> set xs. f x \<le> f a"
  shows "sort_key f (xs @ [a]) = sort_key f xs @ [a]"
proof (rule properties_for_sort_key)
  show "mset (sort_key f xs @ [a]) = mset (xs @ [a])" by simp
  show "filter (\<lambda>x. f k = f x) (sort_key f xs @ [a]) = filter (\<lambda>x. f k = f x) (xs @ [a])" for k
    using sort_key_stable [of f "f k" xs] by (simp add: eq_commute)
  show "sorted (map f (sort_key f xs @ [a]))" using assms by (auto simp: sorted_append)
qed

lemma latest_append: "latest n (latest n xs @ ys) = latest n (xs @ ys)"
  by (cases "length xs \<le> n") (auto simp: latest_def drop_append add.commute)

lemma last_n_latest: "0 < n \<Longrightarrow> last_n n xs = latest n xs"
  by (simp add: last_n_def latest_def)

lemma latest_two: "0 < n \<Longrightarrow> last_n n (last_n n (latest n xs @ [a]) @ [b]) = latest n (xs @ [a, b])"
  by (simp add: last_n_latest latest_append)

lemma subseq_latest: "subseq (latest n xs) xs"
  unfolding latest_def by (rule suffix_imp_subseq) (rule suffix_drop)

lemma map_latest: "map f (latest n xs) = latest n (map f xs)"
  by (simp add: latest_def drop_map)

lemma subseq_last_n: "subseq (last_n n xs) xs"
  unfolding last_n_def by (auto intro: suffix_imp_subseq suffix_drop)

section \<open>What a round does\<close>

text \<open>The clock does not run backwards within a conversation.\<close>

definition in_order :: "persist_env \<Rightarrow> sys \<Rightarrow> string \<Rightarrow> bool" where
  "in_order P s conv \<longleftrightarrow> (case pe_times P of (t1, t2, t3) \<Rightarrow>
     t1 \<le> t2 \<and> list_all (\<lambda>m. if x_conversation m = conv then x_created m \<le> t1 else True) (messages s))"

lemma summarize_messages [simp]: "messages (maybe_summarize cfg ask conv s) = messages s"
  by (simp add: maybe_summarize_def Let_def split: option.splits)

lemma summarize_conversation_messages [simp]:
  "conversation_messages (maybe_summarize cfg ask conv s) v = conversation_messages s v"
  by (simp add: conversation_messages_def)

definition round_turns :: "round \<Rightarrow> (chat_role \<times> ustr) list" where
  "round_turns r = [(UserRole, rd_question r), (AssistantRole, rd_answer r)]"

lemma persist_rows:
  assumes "in_order P s (rd_conversation r)"
  shows "map turn_of (conversation_messages (fst (persist_round cfg P r (s, cache))) (rd_conversation r)) =
    map turn_of (conversation_messages s (rd_conversation r)) @ round_turns r"
proof -
  obtain t1 t2 t3 where t: "pe_times P = (t1, t2, t3)" by (metis prod_cases3)
  let ?c = "rd_conversation r" let ?old = "filter (\<lambda>m. x_conversation m = ?c) (messages s)"
  let ?q = "\<lparr>x_id = pe_new_id P 0, x_conversation = ?c, x_role = UserRole, x_content = rd_question r, x_sources = None, x_created = t1\<rparr>"
  let ?a = "\<lparr>x_id = pe_new_id P 1, x_conversation = ?c, x_role = AssistantRole, x_content = rd_answer r,
    x_sources = Some (rd_sources r), x_created = t2\<rparr>"
  have times: "t1 \<le> t2" "\<forall>m \<in> set ?old. x_created m \<le> t1"
    using assms t by (auto simp: in_order_def list_all_iff)
  have "sort_key x_created (?old @ [?q]) = sort_key x_created ?old @ [?q]" by (rule sort_key_snoc) (use times in simp)
  moreover have "sort_key x_created ((?old @ [?q]) @ [?a]) = sort_key x_created (?old @ [?q]) @ [?a]"
    by (rule sort_key_snoc) (use times in force)
  ultimately have "sort_key x_created (?old @ [?q, ?a]) = sort_key x_created ?old @ [?q, ?a]" by simp
  moreover obtain ok1 ok2 where "pe_applied P = (ok1, ok2)" by fastforce
  ultimately show ?thesis
    using t by (simp add: persist_round_def round_rows_def conversation_messages_def turn_of_def round_turns_def)
qed

lemma persist_cache:
  assumes "pe_applied P = (ok1, ok2)"
  shows "snd (persist_round cfg P r (s, cache)) =
    append_history cfg ok2 (rd_conversation r) AssistantRole (rd_answer r)
      (append_history cfg ok1 (rd_conversation r) UserRole (rd_question r) cache)"
  using assms by (simp add: persist_round_def split: prod.splits)

section \<open>Any faults\<close>

inductive history_reach :: "'a chat_settings_scheme \<Rightarrow> string \<Rightarrow> sys \<times> chat_cache \<Rightarrow> bool"
  for cfg :: "'a chat_settings_scheme" and conv :: string where
  begins: "conversation_messages s conv = [] \<Longrightarrow> history_lists cache conv = [] \<Longrightarrow> history_reach cfg conv (s, cache)"
| loads: "history_reach cfg conv (s, cache) \<Longrightarrow> history_reach cfg conv (s, fst (load_history cfg readable filled s conv cache))"
| stores: "history_reach cfg conv (s, cache) \<Longrightarrow> rd_conversation r = conv \<Longrightarrow> in_order P s conv \<Longrightarrow>
    history_reach cfg conv (persist_round cfg P r (s, cache))"
| expires: "history_reach cfg conv (s, cache) \<Longrightarrow> history_reach cfg conv (s, expire_history conv cache)"
| elsewhere: "history_reach cfg conv (s, cache) \<Longrightarrow> conversation_messages t conv = conversation_messages s conv \<Longrightarrow>
    history_lists cache1 conv = history_lists cache conv \<Longrightarrow> history_reach cfg conv (t, cache1)"

definition cache_sound :: "string \<Rightarrow> sys \<times> chat_cache \<Rightarrow> bool" where
  "cache_sound conv st \<longleftrightarrow> subseq (history_lists (snd st) conv) (map turn_of (conversation_messages (fst st) conv))"

lemma load_sound:
  assumes "cache_sound conv (s, cache)" "load_history cfg readable filled s conv cache = (cache1, h)"
  shows "cache_sound conv (s, cache1)" "subseq h (map turn_of (conversation_messages s conv))"
proof -
  let ?db = "map turn_of (latest (max_messages cfg) (conversation_messages s conv))"
  have db: "subseq ?db (map turn_of (conversation_messages s conv))"
    unfolding map_latest by (rule subseq_latest)
  show "cache_sound conv (s, cache1)"
    using assms db by (auto simp: load_history_def Let_def cache_sound_def split: if_splits)
  show "subseq h (map turn_of (conversation_messages s conv))"
    using assms db
    by (auto simp: load_history_def Let_def cache_sound_def split: if_splits intro: subseq_order.trans [OF subseq_last_n])
qed

lemma append_sound:
  "subseq (history_lists cache conv) xs \<Longrightarrow>
     subseq (history_lists (append_history cfg ok conv role content cache) conv) (xs @ [(role, content)])"
  unfolding append_history_def
  by (auto intro: subseq_order.trans [OF subseq_last_n] list_emb_append_mono)

lemma history_reach_sound: "history_reach cfg conv st \<Longrightarrow> cache_sound conv st"
proof (induction rule: history_reach.induct)
  case (loads s cache readable filled)
  then show ?case using load_sound(1) by (metis prod.collapse)
next
  case (stores s cache r P)
  obtain ok1 ok2 where ok: "pe_applied P = (ok1, ok2)" by fastforce
  have "subseq (history_lists cache conv) (map turn_of (conversation_messages s conv))"
    using stores.IH by (simp add: cache_sound_def)
  from append_sound [OF append_sound [OF this]] persist_rows [of P s r cfg cache] stores.hyps ok show ?case
    by (simp add: cache_sound_def persist_cache round_turns_def)
qed (auto simp: cache_sound_def expire_history_def)

section \<open>No faults\<close>

text \<open>Requests that read, fill and append, with expiry only between requests.\<close>

inductive history_healthy :: "'a chat_settings_scheme \<Rightarrow> string \<Rightarrow> sys \<times> chat_cache \<Rightarrow> bool"
  for cfg :: "'a chat_settings_scheme" and conv :: string where
  h_begins: "conversation_messages s conv = [] \<Longrightarrow> history_lists cache conv = [] \<Longrightarrow> history_healthy cfg conv (s, cache)"
| h_exchange: "history_healthy cfg conv (s, cache) \<Longrightarrow> rd_conversation r = conv \<Longrightarrow> in_order P s conv \<Longrightarrow>
    pe_applied P = (True, True) \<Longrightarrow>
    history_healthy cfg conv (persist_round cfg P r (s, fst (load_history cfg True True s conv cache)))"
| h_expires: "history_healthy cfg conv (s, cache) \<Longrightarrow> history_healthy cfg conv (s, expire_history conv cache)"

definition cache_exact :: "'a chat_settings_scheme \<Rightarrow> string \<Rightarrow> sys \<times> chat_cache \<Rightarrow> bool" where
  "cache_exact cfg conv st \<longleftrightarrow> history_lists (snd st) conv \<in>
     {[], latest (max_messages cfg) (map turn_of (conversation_messages (fst st) conv))}"

lemma latest_empty: "0 < n \<Longrightarrow> latest n xs = [] \<longleftrightarrow> xs = []"
  by (cases xs) (auto simp: latest_def)

lemma latest_latest: "latest n (latest n xs) = latest n xs"
  using latest_append [of n xs "[]"] by simp

lemma load_exact:
  assumes "cache_exact cfg conv (s, cache)" "0 < max_messages cfg"
  shows "snd (load_history cfg readable filled s conv cache) = latest (max_messages cfg) (map turn_of (conversation_messages s conv))"
    "history_lists (fst (load_history cfg True True s conv cache)) conv =
       latest (max_messages cfg) (map turn_of (conversation_messages s conv))"
proof -
  let ?n = "max_messages cfg" let ?L = "latest ?n (map turn_of (conversation_messages s conv))"
  have fill: "map turn_of (latest ?n (conversation_messages s conv)) = ?L" by (rule map_latest)
  have cached: "last_n ?n ?L = ?L" "last_n ?n ([] :: (chat_role \<times> ustr) list) = []"
    using assms(2) by (simp_all add: last_n_latest latest_latest) (simp add: latest_def)
  consider "history_lists cache conv = []" | "history_lists cache conv = ?L" "?L \<noteq> []"
    using assms(1) unfolding cache_exact_def by (cases "?L = []") auto
  then show "snd (load_history cfg readable filled s conv cache) = ?L"
    by cases (simp_all add: load_history_def Let_def fill cached)
  consider "history_lists cache conv = []" | "history_lists cache conv = ?L" "?L \<noteq> []"
    using assms(1) unfolding cache_exact_def by (cases "?L = []") auto
  then show "history_lists (fst (load_history cfg True True s conv cache)) conv = ?L"
    by cases (simp_all add: load_history_def Let_def fill cached)
qed

lemma history_healthy_exact:
  assumes "0 < max_messages cfg"
  shows "history_healthy cfg conv st \<Longrightarrow> cache_exact cfg conv st"
proof (induction rule: history_healthy.induct)
  case (h_exchange s cache r P)
  let ?rows = "map turn_of (conversation_messages s conv)"
  let ?c = "fst (load_history cfg True True s conv cache)"
  have "history_lists ?c conv = latest (max_messages cfg) ?rows" by (rule load_exact(2) [OF h_exchange.IH assms])
  then have "history_lists (snd (persist_round cfg P r (s, ?c))) conv = latest (max_messages cfg) (?rows @ round_turns r)"
    using h_exchange.hyps assms by (simp add: persist_cache append_history_def round_turns_def latest_two)
  then show ?case using persist_rows [of P s r cfg ?c] h_exchange.hyps by (simp add: cache_exact_def)
qed (auto simp: cache_exact_def expire_history_def)

section \<open>Properties\<close>



text \<open>The cache is exact as long as nothing fails inside a request: whenever keys expire between requests, every
  request sees exactly the latest messages of the table. If the key expires between reading the history and
  appending the round, the next request sees this round alone, however long the conversation is.\<close>

theorem history_exact_between_requests:
  assumes "history_healthy cfg conv (s, cache)" "0 < history_max_turns cfg"
    "rd_conversation r = conv" "in_order P s conv" "pe_applied P = (True, True)"
  shows "snd (load_history cfg readable filled s conv cache) =
      latest (2 * history_max_turns cfg) (map turn_of (conversation_messages s conv)) \<and>
    (case persist_round cfg P r (s, expire_history conv (fst (load_history cfg True True s conv cache))) of (t, cache1) \<Rightarrow>
       snd (load_history cfg True filled t conv cache1) = round_turns r \<and>
       map turn_of (conversation_messages t conv) = map turn_of (conversation_messages s conv) @ round_turns r)"
proof -
  have max: "0 < max_messages cfg" "2 \<le> max_messages cfg" using assms(2) by (simp_all add: max_messages_def)
  let ?c = "expire_history conv (fst (load_history cfg True True s conv cache))"
  obtain t cache1 where run: "persist_round cfg P r (s, ?c) = (t, cache1)" by fastforce
  have "history_lists cache1 conv = round_turns r"
    using arg_cong [OF run, of snd, symmetric] assms(3,5) max
    by (simp add: persist_cache append_history_def expire_history_def round_turns_def last_n_def)
  then have "snd (load_history cfg True filled t conv cache1) = round_turns r"
    using max by (simp add: load_history_def Let_def last_n_def round_turns_def)
  moreover have "map turn_of (conversation_messages t conv) = map turn_of (conversation_messages s conv) @ round_turns r"
    using persist_rows [of P s r cfg ?c] assms(3,4) run by simp
  moreover have "2 * history_max_turns cfg = max_messages cfg" by (simp add: max_messages_def)
  ultimately show ?thesis
    using load_exact(1) [OF history_healthy_exact [OF max(1) assms(1)] max(1)] run by simp
qed

section \<open>The answer cache over any sequence of events\<close>

datatype answer_event = Kept bool string "string option" cached_answer | KbChanged string | UserChanged string | KeyExpired "string \<times> string"

fun answer_step :: "'a chat_settings_scheme \<Rightarrow> answer_event \<Rightarrow> chat_cache \<Rightarrow> chat_cache" where
  "answer_step cfg (Kept applied user_id kb_id e) cache = store_answer cfg applied user_id kb_id e cache"
| "answer_step cfg (KbChanged kb_id) cache = invalidate_kb kb_id cache"
| "answer_step cfg (UserChanged user_id) cache = invalidate_user user_id cache"
| "answer_step cfg (KeyExpired key) cache = cache\<lparr>answer_lists := (answer_lists cache)(key := [])\<rparr>"

definition clears :: "string \<times> string \<Rightarrow> answer_event \<Rightarrow> bool" where
  "clears key ev = (case ev of Kept applied user_id kb_id e \<Rightarrow> False | KbChanged k \<Rightarrow> snd key \<in> {k, ''all''}
     | UserChanged i \<Rightarrow> fst key = i | KeyExpired k \<Rightarrow> key = k)"

definition keeps_answer :: "string \<times> string \<Rightarrow> cached_answer \<Rightarrow> answer_event \<Rightarrow> bool" where
  "keeps_answer key e ev = (case ev of Kept applied user_id kb_id e1 \<Rightarrow> applied \<and> answer_key user_id kb_id = key \<and> e1 = e \<and> ca_answer e \<noteq> []
     | KbChanged k \<Rightarrow> False | UserChanged i \<Rightarrow> False | KeyExpired k \<Rightarrow> False)"

definition kept_since :: "string \<times> string \<Rightarrow> cached_answer \<Rightarrow> answer_event list \<Rightarrow> bool" where
  "kept_since key e evs \<longleftrightarrow> list_ex (keeps_answer key e) (takeWhile (\<lambda>ev. \<not> clears key ev) (rev evs))"

lemma answers_kept:
  assumes "answer_lists cache0 key = []"
  shows "(\<forall>e \<in> set (answer_lists (fold (answer_step cfg) evs cache0) key). kept_since key e evs) \<and>
    (0 < semantic_cache_size cfg \<longrightarrow> length (answer_lists (fold (answer_step cfg) evs cache0) key) \<le> semantic_cache_size cfg)"
proof (induction evs rule: rev_induct)
  case (snoc ev evs)
  let ?c = "fold (answer_step cfg) evs cache0"
  show ?case
  proof (cases "clears key ev")
    case True
    then have "answer_lists (answer_step cfg ev ?c) key = []"
      by (cases ev; cases key) (auto simp: clears_def invalidate_kb_def invalidate_user_def)
    then show ?thesis by simp
  next
    case False
    then have since: "kept_since key e (evs @ [ev]) \<longleftrightarrow> keeps_answer key e ev \<or> kept_since key e evs" for e
      by (simp add: kept_since_def)
    show ?thesis
    proof (cases ev)
      case (Kept applied user_id kb_id e)
      with snoc since show ?thesis
        by (auto simp: store_answer_def Let_def keeps_answer_def dest!: in_set_takeD)
    next
      case (KbChanged k)
      then have "answer_lists (answer_step cfg ev ?c) key = answer_lists ?c key"
        using False by (cases key) (auto simp: clears_def invalidate_kb_def)
      with snoc since show ?thesis by simp
    next
      case (UserChanged i)
      then have "answer_lists (answer_step cfg ev ?c) key = answer_lists ?c key"
        using False by (cases key) (auto simp: clears_def invalidate_user_def)
      with snoc since show ?thesis by simp
    next
      case (KeyExpired k)
      then have "answer_lists (answer_step cfg ev ?c) key = answer_lists ?c key" using False by (simp add: clears_def)
      with snoc since show ?thesis by simp
    qed
  qed
qed (simp add: assms)

lemma best_answer_ok:
  "best_answer vec sim best es = (sim1, Some e) \<Longrightarrow> (best = Some e \<and> sim1 = sim) \<or> (e \<in> set es \<and> sim1 = cosine_similarity vec (ca_vector e))"
  by (induction es arbitrary: sim best) (auto split: if_splits)

lemma best_answer_max:
  "best_answer vec sim best es = (sim1, r) \<Longrightarrow> sim \<le> sim1 \<and> (\<forall>e \<in> set es. cosine_similarity vec (ca_vector e) \<le> sim1)"
proof (induction es arbitrary: sim best)
  case (Cons e es)
  then show ?case by (cases "sim < cosine_similarity vec (ca_vector e)") fastforce+
qed simp



section \<open>The summary\<close>

lemma find_row_update: "find_row P rows = Some v \<Longrightarrow> P (f v) \<Longrightarrow> find_row P (update_where P f rows) = Some (f v)"
  by (induction rows) (auto split: if_splits)

text \<open>Summary and history together show the model the whole conversation: when the model answers and the history is at
  least as long as what the summary spares, every message is either summarised or among the latest; whatever the
  model does, the summarised part only grows, and only up to the spared messages.\<close>

theorem summary_covers_conversation:
  assumes "get_conversation s conv = Some v" "history_summary_enabled cfg"
    "0 \<le> summary_keep_recent cfg" "summary_keep_recent cfg \<le> int (max_messages cfg)"
    "summary_trigger_messages cfg \<le> int (max_messages cfg) + 1"
  shows "\<exists>w. get_conversation (maybe_summarize cfg ask conv s) conv = Some w \<and> v_summary_upto v \<le> v_summary_upto w \<and>
    (v_summary_upto w = v_summary_upto v \<or>
       int (v_summary_upto w) = int (length (conversation_messages s conv)) - summary_keep_recent cfg) \<and>
    (case ask (summary_request v (slice (conversation_messages s conv) (v_summary_upto v)
         (nat (int (length (conversation_messages s conv)) - summary_keep_recent cfg)))) of
       None \<Rightarrow> w = v
     | Some reply \<Rightarrow> if strip reply = [] then w = v
         else length (conversation_messages s conv) \<le> v_summary_upto w + max_messages cfg)"
proof -
  let ?n = "length (conversation_messages s conv)" let ?b = "int ?n - summary_keep_recent cfg"
  have id: "v_id v = conv" using assms(1) unfolding get_conversation_def by (auto dest: find_row_Some)
  show ?thesis
  proof (cases "int ?n < summary_trigger_messages cfg \<or> ?b \<le> int (v_summary_upto v)")
    case True
    then have "maybe_summarize cfg ask conv s = s" using assms(1,2) by (simp add: maybe_summarize_def Let_def)
    then show ?thesis using assms True by (intro exI [of _ v]) (auto split: option.splits)
  next
    case False
    let ?reply = "ask (summary_request v (slice (conversation_messages s conv) (v_summary_upto v) (nat ?b)))"
    show ?thesis
    proof (cases "?reply = None \<or> strip (the ?reply) = []")
      case True
      then have "maybe_summarize cfg ask conv s = s"
        using assms(1,2) False by (auto simp: maybe_summarize_def Let_def split: option.splits)
      then show ?thesis using assms(1) True by (intro exI [of _ v]) (auto split: option.splits)
    next
      case reply: False
      let ?w = "v\<lparr>v_summary := Some (take 2000 (strip (the ?reply))), v_summary_upto := nat ?b\<rparr>"
      have "find_row (\<lambda>x. v_id x = conv) (update_where (\<lambda>x. v_id x = conv)
          (\<lambda>x. x\<lparr>v_summary := Some (take 2000 (strip (the ?reply))), v_summary_upto := nat ?b\<rparr>) (conversations s)) = Some ?w"
        by (rule find_row_update) (use assms(1) id in \<open>simp_all add: get_conversation_def\<close>)
      moreover obtain x where "?reply = Some x" using reply by (cases ?reply) simp_all
      ultimately have "get_conversation (maybe_summarize cfg ask conv s) conv = Some ?w"
        using assms(1,2) False reply by (simp add: maybe_summarize_def Let_def get_conversation_def)
      then show ?thesis using assms(4) False reply by (intro exI [of _ ?w]) (auto split: option.splits)
    qed
  qed
qed

theorem summary_covers_conversation_witness:
  "\<exists>w. get_conversation (maybe_summarize demo_chat_settings (\<lambda>q. Some (u ''s'')) ''v1'' demo_long_sys) ''v1'' = Some w \<and>
     v_summary_upto w = 7"
proof -
  have "get_conversation demo_long_sys ''v1'' = Some demo_conversation"
    by (simp add: get_conversation_def demo_long_sys_def demo_chat_sys_def demo_conversation_def)
  moreover have "length (conversation_messages demo_long_sys ''v1'') = 13"
    by (simp add: conversation_messages_def demo_long_sys_def)
  moreover have "strip (u ''s'') \<noteq> []" by (simp add: strip_empty_iff u_def is_space_def)
  ultimately show ?thesis
    using summary_covers_conversation [of demo_long_sys "''v1''" demo_conversation demo_chat_settings "\<lambda>q. Some (u ''s'')"]
    by (auto simp: demo_chat_settings_def max_messages_def demo_conversation_def)
qed

end
