(* ===== verification/AgentClaims.thy ===== *)
theory AgentClaims
  imports Agent EvidenceClaims ConversationClaims
begin

text \<open>
  The agent asks the model at most as often as configured and cites only what its user may read; its memories are
  the user's own words.
\<close>

section \<open>Citations\<close>

definition citable :: "'a evidence_settings_scheme \<Rightarrow> sys \<Rightarrow> string \<Rightarrow> string option \<Rightarrow> retrieved \<Rightarrow> bool" where
  "citable cfg s owner_id kb_id r \<longleftrightarrow> authorised owner_id kb_id s r \<and>
     (injection_high_risk_action cfg = ''remove'' \<longrightarrow> injection_risk cfg (rc_content r) \<noteq> RiskHigh)"

lemma searched_citable: "r \<in> set (searched cfg A s owner_id kb_id query) \<Longrightarrow> citable cfg s owner_id kb_id r"
proof -
  assume r: "r \<in> set (searched cfg A s owner_id kb_id query)"
  let ?rq = "agent_request owner_id kb_id query"
  let ?rs = "retrieve cfg (ae_engine A) (ae_unicode A) ?rq s"
  have dist: "distinct (map rc_chunk ?rs)"
    unfolding retrieve_def by (rule stages.rank_distinct) (use candidates_ok in blast)
  have auth: "authorised owner_id kb_id s x" if x: "x \<in> set ?rs" for x
    using stages.rank_member [OF x [unfolded retrieve_def]] candidates_ok [of cfg "ae_engine A" "ae_unicode A" ?rq s] authorised_unscored
    by (force simp: agent_request_def)
  show ?thesis
    using policy.rank_member [OF r [unfolded searched_def]] auth authorised_unscored policy_removes [OF dist r [unfolded searched_def]]
    by (auto simp: citable_def)
qed

definition cited_ok :: "'a evidence_settings_scheme \<Rightarrow> sys \<Rightarrow> string \<Rightarrow> string option \<Rightarrow> (string \<times> retrieved) list \<Rightarrow> bool" where
  "cited_ok cfg s owner_id kb_id cited \<longleftrightarrow> distinct (map fst cited) \<and>
     (\<forall>(i, r) \<in> set cited. i = rc_chunk r \<and> citable cfg s owner_id kb_id r)"

lemma cite_ok: "cited_ok cfg s owner_id kb_id cited \<Longrightarrow> citable cfg s owner_id kb_id r \<Longrightarrow> cited_ok cfg s owner_id kb_id (cite r cited)"
  by (auto simp: cited_ok_def cite_def)

lemma cite_prefix: "prefix cited (cite r cited)"
  by (simp add: cite_def)

lemma cite_all_ok:
  "cite_all rs cited = (cited1, lines) \<Longrightarrow> cited_ok cfg s owner_id kb_id cited \<Longrightarrow> \<forall>r \<in> set rs. citable cfg s owner_id kb_id r \<Longrightarrow>
     cited_ok cfg s owner_id kb_id cited1 \<and> prefix cited cited1"
proof (induction rs arbitrary: cited cited1 lines)
  case (Cons r rs)
  obtain c ls where rest: "cite_all rs (cite r cited) = (c, ls)" by fastforce
  from Cons.IH [OF rest cite_ok [OF Cons.prems(2)]] Cons.prems rest cite_prefix [of cited r] show ?case
    by (auto intro: prefix_order.trans)
qed simp

lemma exec_tool_ok:
  "exec_tool cfg A s owner_id kb_id name args cited = (cited1, result) \<Longrightarrow> cited_ok cfg s owner_id kb_id cited \<Longrightarrow>
     cited_ok cfg s owner_id kb_id cited1 \<and> prefix cited cited1"
  using cite_all_ok [of _ cited cited1 _ cfg s owner_id kb_id] searched_citable [of _ cfg A s owner_id kb_id]
  by (auto simp: exec_tool_def Let_def split: if_splits json.splits prod.splits)

lemma run_tools_ok:
  "run_tools cfg A s owner_id kb_id tcs cited = (events, replies, cited1) \<Longrightarrow> cited_ok cfg s owner_id kb_id cited \<Longrightarrow>
     cited_ok cfg s owner_id kb_id cited1 \<and> prefix cited cited1 \<and> length replies = length tcs \<and>
     list_all (\<lambda>e. case e of ToolCalled n a \<Rightarrow> True | ToolReturned n t \<Rightarrow> True | _ \<Rightarrow> False) events"
proof (induction tcs arbitrary: cited events replies cited1)
  case (Cons tc tcs)
  obtain c result where e: "exec_tool cfg A s owner_id kb_id (tc_name tc) (read_arguments A tc) cited = (c, result)" by fastforce
  obtain evs rs c2 where r: "run_tools cfg A s owner_id kb_id tcs c = (evs, rs, c2)" by (metis prod_cases3)
  from exec_tool_ok [OF e Cons.prems(2)] Cons.IH [OF r] Cons.prems(1) e r show ?case
    by (auto simp: Let_def intro: prefix_order.trans)
qed simp

text \<open>The number of a passage in a tool's result is its place in the final list of sources.\<close>

lemma position_prefix: "x \<in> set xs \<Longrightarrow> position (xs @ ys) x 0 = position xs x 0"
  unfolding position_def by (induction xs) auto

lemma cited_line_stable:
  "prefix cited later \<Longrightarrow> rc_chunk r \<in> set (map fst cited) \<Longrightarrow> cited_line r later = cited_line r cited"
  unfolding prefix_def cited_line_def Let_def using position_prefix by (metis map_append)

lemma cite_all_lines:
  "cite_all rs cited = (cited1, lines) \<Longrightarrow> prefix cited1 later \<Longrightarrow>
     lines = map (\<lambda>r. cited_line r later) rs \<and> (\<forall>r \<in> set rs. rc_chunk r \<in> set (map fst cited1)) \<and> prefix cited cited1"
proof (induction rs arbitrary: cited lines)
  case (Cons r rs)
  obtain c ls where rest: "cite_all rs (cite r cited) = (c, ls)" by fastforce
  with Cons.prems have c: "c = cited1" "lines = cited_line r (cite r cited) # ls" by auto
  note ih = Cons.IH [OF rest [unfolded c(1)] Cons.prems(2)]
  have r: "rc_chunk r \<in> set (map fst (cite r cited))" by (auto simp: cite_def)
  have p: "prefix (cite r cited) later" using ih Cons.prems(2) prefix_order.trans by blast
  have "cited_line r later = cited_line r (cite r cited)" by (rule cited_line_stable [OF p r])
  moreover have "rc_chunk r \<in> set (map fst cited1)" using r ih unfolding prefix_def by auto
  moreover have "prefix cited cited1" using ih cite_prefix prefix_order.trans by blast
  ultimately show ?case using ih c(2) by auto
qed simp

section \<open>The loop\<close>

definition sources_ok :: "'a evidence_settings_scheme \<Rightarrow> sys \<Rightarrow> string \<Rightarrow> string option \<Rightarrow> agent_event \<Rightarrow> bool" where
  "sources_ok cfg s owner_id kb_id e = (case e of AgentSources rs \<Rightarrow> distinct (map rc_chunk rs) \<and> list_all (citable cfg s owner_id kb_id) rs
     | _ \<Rightarrow> True)"

lemma final_sources_ok:
  "cited_ok cfg s owner_id kb_id cited \<Longrightarrow> list_all (sources_ok cfg s owner_id kb_id) (final_events cited text n)"
proof -
  assume ok: "cited_ok cfg s owner_id kb_id cited"
  then have "map rc_chunk (map snd cited) = map fst cited" by (auto simp: cited_ok_def)
  with ok have "distinct (map rc_chunk (map snd cited))" by (simp only: cited_ok_def)
  with ok show ?thesis by (auto simp: final_events_def sources_ok_def cited_ok_def list_all_iff simp del: map_map)
qed

definition is_final :: "agent_event list \<Rightarrow> bool" where
  "is_final events \<longleftrightarrow> (\<exists>rs text p c. events = [AgentSources rs, AgentDelta text, AgentUsage p c])"

definition tool_events :: "agent_event list \<Rightarrow> bool" where
  "tool_events events = list_all (\<lambda>e. case e of ToolCalled n a \<Rightarrow> True | ToolReturned n t \<Rightarrow> True | _ \<Rightarrow> False) events"

definition loop_ok :: "'a evidence_settings_scheme \<Rightarrow> sys \<Rightarrow> string \<Rightarrow> string option \<Rightarrow> agent_event list \<times> (agent_message list \<times> bool) list \<times> bool \<Rightarrow> bool" where
  "loop_ok cfg s owner_id kb_id = (\<lambda>(events, asked, ok).
     list_all (sources_ok cfg s owner_id kb_id) events \<and> sorted_wrt strict_prefix (map fst asked) \<and>
     (\<exists>tools last. events = tools @ last \<and> tool_events tools \<and> (if ok then is_final last else last = [])))"

lemma loop_ok_final:
  "cited_ok cfg s owner_id kb_id cited \<Longrightarrow> sorted_wrt strict_prefix (map fst asked) \<Longrightarrow>
     loop_ok cfg s owner_id kb_id (final_events cited answer n, asked, True)"
proof -
  assume a: "cited_ok cfg s owner_id kb_id cited" "sorted_wrt strict_prefix (map fst asked)"
  have "is_final (final_events cited answer n)" by (auto simp: is_final_def final_events_def)
  then have "\<exists>tools end. final_events cited answer n = tools @ end \<and> tool_events tools \<and> is_final end"
    by (intro exI [of _ "[]"] exI [of _ "final_events cited answer n"]) (simp add: tool_events_def)
  with a final_sources_ok [OF a(1)] show ?thesis by (simp add: loop_ok_def)
qed

lemma loop_ok_step:
  assumes "loop_ok cfg s owner_id kb_id (later, asked, ok)" "tool_events events" "list_all (strict_prefix msgs \<circ> fst) asked"
  shows "loop_ok cfg s owner_id kb_id (events @ later, (msgs, offered) # asked, ok)"
proof -
  obtain ts ls where split: "later = ts @ ls" "tool_events ts" "if ok then is_final ls else ls = []"
    using assms(1) by (auto simp: loop_ok_def)
  then have "\<exists>tools last. events @ later = tools @ last \<and> tool_events tools \<and> (if ok then is_final last else last = [])"
    using assms(2) by (intro exI [of _ "events @ ts"] exI [of _ ls]) (simp add: tool_events_def)
  moreover have "list_all (sources_ok cfg s owner_id kb_id) events"
    using assms(2) by (auto simp: tool_events_def sources_ok_def list_all_iff split: agent_event.splits)
  moreover have "list_all (sources_ok cfg s owner_id kb_id) later" "sorted_wrt strict_prefix (map fst asked)"
    using assms(1) by (auto simp: loop_ok_def)
  moreover have "\<forall>x \<in> set (map fst asked). strict_prefix msgs x" using assms(3) by (auto simp: list_all_iff)
  ultimately show ?thesis unfolding loop_ok_def prod.case by simp
qed

lemma agent_loop_ok:
  "cited_ok cfg s owner_id kb_id cited \<Longrightarrow> agent_loop n cfg A s owner_id kb_id msgs cited spent = (events, asked, ok) \<Longrightarrow>
     loop_ok cfg s owner_id kb_id (events, asked, ok) \<and> length asked \<le> n \<and>
     map snd asked = map (\<lambda>i. i + 1 < n) [0..<length asked] \<and> list_all (prefix msgs \<circ> fst) asked"
proof (induction n arbitrary: msgs cited spent events asked ok)
  case 0
  have "loop_ok cfg s owner_id kb_id (final_events cited answer spent, [], True)" for answer
    by (rule loop_ok_final [OF 0(1)]) simp
  with 0(2) show ?case by auto
next
  case (Suc n)
  show ?case
  proof (cases "ae_complete A msgs (0 < n)")
    case None
    then show ?thesis using Suc.prems by (auto simp: loop_ok_def tool_events_def)
  next
    case (Some reply)
    let ?spent = "add_tokens spent (ar_usage reply)" and ?text = "coalesce (ar_content reply) []"
    show ?thesis
    proof (cases "ar_calls reply = []")
      case True
      then have out: "events = final_events cited ?text ?spent" "asked = [(msgs, 0 < n)]" "ok"
        using Suc.prems(2) Some by (auto simp: Let_def)
      with loop_ok_final [OF Suc.prems(1), of asked ?text ?spent] show ?thesis by simp
    next
      case False
      obtain evs replies c where t: "run_tools cfg A s owner_id kb_id (ar_calls reply) cited = (evs, replies, c)" by (metis prod_cases3)
      let ?next = "msgs @ CallMsg ?text (ar_calls reply) # replies"
      obtain later asked1 ok1 where l: "agent_loop n cfg A s owner_id kb_id ?next c ?spent = (later, asked1, ok1)" by (metis prod_cases3)
      have tools: "cited_ok cfg s owner_id kb_id c" "tool_events evs" using run_tools_ok [OF t Suc.prems(1)] by (auto simp: tool_events_def)
      have ih: "loop_ok cfg s owner_id kb_id (later, asked1, ok1)" "length asked1 \<le> n"
        "map snd asked1 = map (\<lambda>i. i + 1 < n) [0..<length asked1]" "list_all (prefix ?next \<circ> fst) asked1"
        using Suc.IH [OF tools(1) l] by (auto simp: comp_def)
      have out: "events = evs @ later" "asked = (msgs, 0 < n) # asked1" "ok = ok1"
        using Suc.prems(2) Some False t l by (auto simp: Let_def)
      have "strict_prefix msgs x" if "prefix ?next x" for x
        using that by (auto simp: strict_prefix_def prefix_def)
      then have grow: "list_all (strict_prefix msgs \<circ> fst) asked1" using ih(4) by (auto simp: list_all_iff)
      have "loop_ok cfg s owner_id kb_id (events, asked, ok)" unfolding out by (rule loop_ok_step [OF ih(1) tools(2) grow])
      moreover have "map snd asked = map (\<lambda>i. i + 1 < Suc n) [0..<length asked]"
        using ih(3) unfolding out by (simp add: map_upt_Suc del: upt_Suc)
      moreover have "list_all (prefix msgs \<circ> fst) asked" using grow unfolding out by (auto simp: list_all_iff strict_prefix_def)
      ultimately show ?thesis using ih(2) out(2) by (auto simp: comp_def)
    qed
  qed
qed

section \<open>Properties\<close>

text \<open>C39: the agent stops: whatever the model answers it is asked at most as often as configured, each time with a
  longer prompt, with tools before the last time only, and unless a call raises the events end with exactly one list of
  sources, one answer and one account of the tokens; every source is a chunk the user may read in the knowledge base,
  none twice, and none of high risk where such chunks are removed.\<close>

theorem agent_stops_and_cites:
  "case run_agent cfg A s owner_id kb_id question history memories of (events, asked, ok) \<Rightarrow>
     length asked \<le> agent_max_steps cfg \<and> sorted_wrt strict_prefix (map fst asked) \<and>
     map snd asked = map (\<lambda>i. i + 1 < agent_max_steps cfg) [0..<length asked] \<and>
     (\<exists>tools end. events = tools @ end \<and> tool_events tools \<and> (if ok then is_final end else end = [])) \<and>
     list_all (sources_ok cfg s owner_id kb_id) events"
proof -
  obtain events asked ok where run: "run_agent cfg A s owner_id kb_id question history memories = (events, asked, ok)" by (metis prod_cases3)
  have "cited_ok cfg s owner_id kb_id []" by (simp add: cited_ok_def)
  from agent_loop_ok [OF this run [unfolded run_agent_def]] show ?thesis by (simp add: run loop_ok_def)
qed

section \<open>Memories\<close>

lemma scored_memories_from:
  "(score, rank, x) \<in> set (scored_memories U question n seen cs) \<Longrightarrow>
     \<exists>c \<in> set cs. x = sanitize_for_prompt (mc_content c) \<and> x \<noteq> []"
  by (induction U question n seen cs rule: scored_memories.induct) (auto simp: Let_def split: if_splits)

lemma scored_memories_distinct:
  "distinct (map (\<lambda>(score, rank, x). casefold U x) (scored_memories U question n seen cs)) \<and>
     (\<forall>r \<in> set (scored_memories U question n seen cs). casefold U (snd (snd r)) \<notin> set seen)"
proof (induction U question n seen cs rule: scored_memories.induct)
  case (2 U question n seen c cs)
  let ?x = "sanitize_for_prompt (mc_content c)"
  show ?case
  proof (cases "?x = [] \<or> casefold U ?x \<in> set seen \<or> casefold U ?x = casefold U (strip question)")
    case True
    with 2(1) [OF refl refl] show ?thesis by (simp add: Let_def)
  next
    case False
    note ih = 2(2) [OF refl refl False]
    then have "casefold U ?x \<notin> set (map (\<lambda>(score, rank, x). casefold U x) (scored_memories U question n (casefold U ?x # seen) cs))"
      by fastforce
    with ih False show ?thesis by (auto simp: Let_def)
  qed
qed simp

lemma select_memories_ok:
  "set (select_memories limit m used selected xs) \<subseteq> set selected \<union> set xs \<and>
   (length selected < max 1 limit \<longrightarrow> length (select_memories limit m used selected xs) \<le> max 1 limit) \<and>
   (distinct (selected @ xs) \<longrightarrow> distinct (select_memories limit m used selected xs))"
  by (induction limit m used selected xs rule: select_memories.induct) auto

definition memory_size :: "ustr list \<Rightarrow> nat" where
  "memory_size ms = sum_list (map (\<lambda>x. length x + 3) ms)"

lemma select_memories_size:
  "used = memory_size selected \<Longrightarrow> memory_size selected \<le> m \<or> length selected \<le> 1 \<Longrightarrow>
     memory_size (select_memories limit m used selected xs) \<le> m \<or> length (select_memories limit m used selected xs) \<le> 1"
proof (induction limit m used selected xs rule: select_memories.induct)
  case (2 limit m used selected x xs)
  then show ?case by (cases "selected = []") (auto simp: memory_size_def)
qed auto

lemma rank_memories_ok:
  "(\<forall>x \<in> set (rank_memories U cands question limit m). \<exists>c \<in> set cands. x = sanitize_for_prompt (mc_content c) \<and> x \<noteq> []) \<and>
   length (rank_memories U cands question limit m) \<le> max 1 limit \<and> distinct (rank_memories U cands question limit m) \<and>
   (memory_size (rank_memories U cands question limit m) \<le> m \<or> length (rank_memories U cands question limit m) \<le> 1)"
proof -
  let ?scored = "scored_memories U question (length cands) [] cands"
  let ?ranked = "sort_desc fst (sort_key (\<lambda>(score, rank, content). rank) ?scored)"
  define xs where "xs = map (\<lambda>(score, rank, content). content) ?ranked"
  have "mset ?ranked = mset ?scored" by simp
  then have "mset (map (\<lambda>(score, rank, x). casefold U x) ?ranked) = mset (map (\<lambda>(score, rank, x). casefold U x) ?scored)"
    by (simp only: mset_map)
  then have "distinct (map (\<lambda>(score, rank, x). casefold U x) ?ranked)"
    using scored_memories_distinct [of U question "length cands" "[]" cands] mset_eq_imp_distinct_iff by blast
  moreover have "map (\<lambda>(score, rank, x). casefold U x) ?ranked = map (casefold U) xs" unfolding xs_def by auto
  ultimately have d: "distinct xs" by (metis distinct_map)
  have from_cands: "\<forall>x \<in> set xs. \<exists>c \<in> set cands. x = sanitize_for_prompt (mc_content c) \<and> x \<noteq> []"
    unfolding xs_def using scored_memories_from by fastforce
  have sel: "set (select_memories limit m 0 [] xs) \<subseteq> set xs" "length (select_memories limit m 0 [] xs) \<le> max 1 limit"
    "distinct (select_memories limit m 0 [] xs)"
    "memory_size (select_memories limit m 0 [] xs) \<le> m \<or> length (select_memories limit m 0 [] xs) \<le> 1"
    using select_memories_ok [of limit m 0 "[]" xs] select_memories_size [of 0 "[]" m limit xs] d
    by (simp_all add: memory_size_def)
  then show ?thesis unfolding rank_memories_def xs_def [symmetric] using from_cands by blast
qed

text \<open>C40: the memory of an agent is private and bounded: every remembered text is what is left, after masking and cutting, of
  a message the same user wrote in another conversation about the same knowledge base; no text comes twice, and number and
  size stay within the configured limits, except that a single memory is always allowed.\<close>

theorem memories_are_private:
  "list_all (\<lambda>x. x \<noteq> [] \<and> length x \<le> 600 \<and> (\<exists>m v. m \<in> set (messages s) \<and> get_conversation s (x_conversation m) = Some v \<and>
     v_owner v = owner_id \<and> v_kb v = Some kb_id \<and> v_id v \<noteq> current \<and> x_role m = UserRole \<and> x = sanitize_for_prompt (x_content m)))
     (load_agent_memories cfg U s owner_id kb_id current question) \<and>
   distinct (load_agent_memories cfg U s owner_id kb_id current question) \<and>
   length (load_agent_memories cfg U s owner_id kb_id current question) \<le> max 1 (agent_memory_max_items cfg) \<and>
   (memory_size (load_agent_memories cfg U s owner_id kb_id current question) \<le> agent_memory_max_chars cfg \<or>
    length (load_agent_memories cfg U s owner_id kb_id current question) \<le> 1)"
proof (cases "agent_memory_enabled cfg")
  case True
  let ?cands = "map (\<lambda>(i, m). \<lparr>mc_content = x_content m, mc_conversation = x_conversation m, mc_rank = i\<rparr>)
    (enum (memory_rows cfg s owner_id kb_id current))"
  have load: "load_agent_memories cfg U s owner_id kb_id current question =
      rank_memories U ?cands question (agent_memory_max_items cfg) (agent_memory_max_chars cfg)"
    using True by (simp add: load_agent_memories_def)
  have row: "\<exists>m \<in> set (memory_rows cfg s owner_id kb_id current). mc_content c = x_content m" if "c \<in> set ?cands" for c
    using that by (auto simp: in_enum)
  have "m \<in> set (messages s) \<and> x_role m = UserRole \<and> (\<exists>v. get_conversation s (x_conversation m) = Some v \<and> v_owner v = owner_id \<and>
      v_kb v = Some kb_id \<and> v_id v \<noteq> current)" if "m \<in> set (memory_rows cfg s owner_id kb_id current)" for m
    using that by (auto simp: memory_rows_def dest!: in_set_takeD split: option.splits)
  with row rank_memories_ok [of U ?cands question "agent_memory_max_items cfg" "agent_memory_max_chars cfg"] show ?thesis
    unfolding load list_all_iff by (fastforce simp: sanitize_for_prompt_def)
qed (simp add: load_agent_memories_def memory_size_def)

end
