(* ===== verification/ChatClaims.thy ===== *)
theory ChatClaims
  imports Chat AgentClaims
begin

text \<open>
  One question end to end: what a stream may do to the database wherever it stops, which answer it keeps, which sources
  it shows, and when the request's capacity comes back.
\<close>

section \<open>The actions of a stream\<close>

definition is_done :: "chat_event \<Rightarrow> bool" where
  "is_done e = (case e of DoneEvent c p k f m \<Rightarrow> True | _ \<Rightarrow> False)"

definition sent :: "chat_action list \<Rightarrow> chat_event list" where
  "sent acts = concat (map (\<lambda>a. case a of Send e \<Rightarrow> [e] | Act f \<Rightarrow> []) acts)"

definition perform :: "chat_action \<Rightarrow> chat_state \<Rightarrow> chat_state" where
  "perform a st = (case a of Send e \<Rightarrow> st | Act f \<Rightarrow> f st)"

lemma perform_simps [simp]: "perform (Send e) = (\<lambda>st. st)" "perform (Act f) = f"
  by (rule ext, simp add: perform_def)+

lemma sent_simps [simp]: "sent [] = []" "sent (Send e # acts) = e # sent acts" "sent (Act f # acts) = sent acts"
    "sent (acts @ acts1) = sent acts @ sent acts1"
  by (simp_all add: sent_def)

lemma serve_run: "serve n acts st = (sent (take n acts), fold perform (take n acts) st)"
  by (induction n acts st rule: serve.induct) auto

definition conversation_facts :: "conversation \<Rightarrow> string \<times> string \<times> string option" where
  "conversation_facts v = (v_id v, v_owner v, v_kb v)"

text \<open>An action that changes neither messages, usage records, slots nor the owner of a conversation.\<close>

definition harmless :: "chat_action \<Rightarrow> bool" where
  "harmless a \<longleftrightarrow> (\<forall>st. messages (ch_db (perform a st)) = messages (ch_db st) \<and> usage (ch_db (perform a st)) = usage (ch_db st) \<and>
     map conversation_facts (conversations (ch_db (perform a st))) = map conversation_facts (conversations (ch_db st)) \<and>
     ch_slots (perform a st) = ch_slots st)"

definition plain :: "chat_action \<Rightarrow> bool" where
  "plain a = (case a of Send e \<Rightarrow> \<not> is_done e | Act f \<Rightarrow> False)"

lemma plain_Send [simp]: "plain (Send e) \<longleftrightarrow> \<not> is_done e" "\<not> plain (Act f)"
  by (simp_all add: plain_def)

lemma is_done_simps [simp]: "is_done (DoneEvent c p k f m)" "\<not> is_done (RouteEvent x1 x2 x3)" "\<not> is_done (RewriteEvent q)"
    "\<not> is_done (CachedEvent r q)" "\<not> is_done (SourcesEvent rs)" "\<not> is_done (EvidenceEvent ed)" "\<not> is_done (InjectionEvent ii)"
    "\<not> is_done (MemoryEvent i)" "\<not> is_done (ToolEvent te)" "\<not> is_done (DeltaEvent q)" "\<not> is_done (ReplacementEvent q)"
    "\<not> is_done (ValidationEvent v)" "\<not> is_done (SuggestionsEvent qs)" "\<not> is_done (ErrorEvent q)"
  by (simp_all add: is_done_def)

lemma harmless_Send [simp, intro]: "harmless (Send e)"
  by (simp add: harmless_def)

lemma harmless_on_cache [simp, intro]: "harmless (Act (on_cache f))"
  by (simp add: harmless_def on_cache_def)

lemma harmless_summarize [simp, intro]: "harmless (Act (on_db (maybe_summarize cfg ask conv)))"
proof -
  have "map conversation_facts (conversations (maybe_summarize cfg ask conv s)) = map conversation_facts (conversations s)" for s
    by (auto simp: maybe_summarize_def Let_def conversation_facts_def intro!: map_update_where split: option.splits)
  moreover have "usage (maybe_summarize cfg ask conv s) = usage s" for s
    by (simp add: maybe_summarize_def Let_def split: option.splits)
  ultimately show ?thesis by (simp add: harmless_def on_db_def)
qed

lemma harmless_run:
  "list_all harmless acts \<Longrightarrow> messages (ch_db (fold perform acts st)) = messages (ch_db st) \<and>
     usage (ch_db (fold perform acts st)) = usage (ch_db st) \<and> ch_slots (fold perform acts st) = ch_slots st \<and>
     map conversation_facts (conversations (ch_db (fold perform acts st))) = map conversation_facts (conversations (ch_db st))"
  by (induction acts arbitrary: st) (auto simp: harmless_def)

lemma plain_harmless: "list_all plain acts \<Longrightarrow> list_all harmless acts \<and> \<not> list_ex is_done (sent acts)"
proof (induction acts)
  case (Cons a acts)
  then show ?case by (cases a) auto
qed simp

text \<open>Every stream stores at most one round, and sends its end only after it.\<close>

definition round_for :: "chat_turn \<Rightarrow> round \<Rightarrow> bool" where
  "round_for t r \<longleftrightarrow> rd_conversation r = ct_conversation t \<and> rd_user r = ct_user t \<and> rd_question r = ct_question t"

definition one_round :: "'a chat_settings_scheme \<Rightarrow> persist_env \<Rightarrow> chat_turn \<Rightarrow> chat_action list \<Rightarrow> bool" where
  "one_round cfg P t acts \<longleftrightarrow> list_all plain acts \<or> (\<exists>before r after. acts = before @ persist_actions cfg P r @ after \<and>
     list_all plain before \<and> list_all harmless after \<and> round_for t r)"

lemma one_round_plain: "list_all plain acts \<Longrightarrow> one_round cfg P t acts"
  by (simp add: one_round_def)

lemma one_roundI:
  "list_all plain before \<Longrightarrow> list_all harmless after \<Longrightarrow> round_for t r \<Longrightarrow> one_round cfg P t (before @ persist_actions cfg P r @ after)"
  unfolding one_round_def by blast

lemma one_round_after: "list_all plain before \<Longrightarrow> one_round cfg P t acts \<Longrightarrow> one_round cfg P t (before @ acts)"
  unfolding one_round_def by (metis append.assoc list_all_append)

lemma round_of_for [simp]: "round_for t (round_of V t answer sources spent first_ms total_ms b)"
  by (simp add: round_for_def round_of_def)

lemma persist_cons:
  "\<exists>t1 t2 t3 rest. persist_actions cfg P r = Act (on_db (round_rows cfg (pe_round P) (pe_new_id P) t1 t2 t3 r)) # rest \<and>
     list_all harmless rest"
  by (auto simp: persist_actions_def split: prod.splits)

text \<open>The two rows of a round, and its account.\<close>

definition round_stored :: "round \<Rightarrow> sys \<Rightarrow> sys \<Rightarrow> bool" where
  "round_stored r s s1 \<longleftrightarrow> (\<exists>x y rows. messages s1 = messages s @ [x, y] \<and> x_role x = UserRole \<and> x_role y = AssistantRole \<and>
     x_conversation x = rd_conversation r \<and> x_conversation y = rd_conversation r \<and> x_content x = rd_question r \<and>
     x_content y = rd_answer r \<and> usage s1 = usage s @ rows \<and> length rows \<le> 1 \<and>
     list_all (\<lambda>z. y_owner z = rd_user r \<and> y_conversation z = Some (rd_conversation r)) rows)"

lemma round_rows_stored: "round_stored r s (round_rows cfg f new_id t1 t2 t3 r s)"
  by (simp add: round_stored_def round_rows_def)

lemma serve_one_round:
  assumes "one_round cfg P t acts" "serve n acts st = (es, st1)"
  shows "ch_slots st1 = ch_slots st"
    and "map conversation_facts (conversations (ch_db st1)) = map conversation_facts (conversations (ch_db st))"
    and "(messages (ch_db st1) = messages (ch_db st) \<and> usage (ch_db st1) = usage (ch_db st) \<and> \<not> list_ex is_done es) \<or>
      (\<exists>r. round_for t r \<and> round_stored r (ch_db st) (ch_db st1))"
proof -
  have run: "es = sent (take n acts)" "st1 = fold perform (take n acts) st" using assms(2) by (simp_all add: serve_run)
  have stays: "list_all plain xs \<Longrightarrow> list_all plain (take k xs)" "list_all harmless xs \<Longrightarrow> list_all harmless (take k xs)" for k xs
    by (auto simp: list_all_iff dest: in_set_takeD)
  have "ch_slots st1 = ch_slots st \<and> map conversation_facts (conversations (ch_db st1)) = map conversation_facts (conversations (ch_db st)) \<and>
    ((messages (ch_db st1) = messages (ch_db st) \<and> usage (ch_db st1) = usage (ch_db st) \<and> \<not> list_ex is_done es) \<or>
      (\<exists>r. round_for t r \<and> round_stored r (ch_db st) (ch_db st1)))"
  proof (cases "list_all plain (take n acts)")
    case True
    with plain_harmless [OF True] harmless_run [of "take n acts" st] run show ?thesis by auto
  next
    case False
    then have "\<not> list_all plain acts" using stays(1) by blast
    then obtain before r after where acts: "acts = before @ persist_actions cfg P r @ after" and ok: "list_all plain before"
      "list_all harmless after" "round_for t r" using assms(1) by (auto simp: one_round_def)
    obtain t1 t2 t3 rest where p: "persist_actions cfg P r = Act (on_db (round_rows cfg (pe_round P) (pe_new_id P) t1 t2 t3 r)) # rest"
      "list_all harmless rest" using persist_cons [of cfg P r] by blast
    have n: "length before < n"
    proof (rule ccontr)
      assume "\<not> length before < n"
      then have "take n acts = take n before" by (simp add: acts)
      with stays(1) [OF ok(1)] False show False by simp
    qed
    then obtain m where m: "n - length before = Suc m" by (cases "n - length before") auto
    define mid where "mid = on_db (round_rows cfg (pe_round P) (pe_new_id P) t1 t2 t3 r) st"
    have before: "fold perform before st = st" using ok(1)
    proof (induction before)
      case (Cons a before)
      then show ?case by (cases a) auto
    qed simp
    have "take n acts = before @ Act (on_db (round_rows cfg (pe_round P) (pe_new_id P) t1 t2 t3 r)) # take m (rest @ after)"
      using n m by (simp add: acts p(1))
    then have st1: "st1 = fold perform (take m (rest @ after)) mid" by (simp add: run(2) before mid_def)
    have "list_all harmless (take m (rest @ after))" by (rule stays(2)) (simp add: p(2) ok(2))
    note rest = harmless_run [OF this, of mid]
    have "round_stored r (ch_db st) (ch_db mid)" by (simp add: mid_def on_db_def round_rows_stored)
    with rest have "round_stored r (ch_db st) (ch_db st1)" by (simp add: st1 round_stored_def)
    moreover have "conversations (ch_db mid) = conversations (ch_db st)" "ch_slots mid = ch_slots st"
      by (simp_all add: mid_def on_db_def round_rows_def)
    ultimately show ?thesis using rest ok(3) by (auto simp: st1)
  qed
  then show "ch_slots st1 = ch_slots st"
    and "map conversation_facts (conversations (ch_db st1)) = map conversation_facts (conversations (ch_db st))"
    and "(messages (ch_db st1) = messages (ch_db st) \<and> usage (ch_db st1) = usage (ch_db st) \<and> \<not> list_ex is_done es) \<or>
      (\<exists>r. round_for t r \<and> round_stored r (ch_db st) (ch_db st1))" by blast+
qed

section \<open>Every stream has that shape\<close>

lemma plain_events: "list_all plain (rewrite_events t q)"
  by (simp add: rewrite_events_def)

lemma harmless_events: "list_all harmless (suggestion_events cfg V t v)"
  by (simp add: suggestion_events_def Let_def)

lemma social_shape: "one_round cfg (ce_persist V) t (social_stream cfg V t reason)"
  unfolding social_stream_def by (rule one_roundI) simp_all

lemma cached_shape: "one_round cfg (ce_persist V) t (cached_stream cfg V t q sim e)"
proof -
  let ?before = "[Send (CachedEvent sim (ca_question e))] @ rewrite_events t q @ [Send (SourcesEvent (ca_sources e)), Send (DeltaEvent (ca_answer e))]"
  have "one_round cfg (ce_persist V) t (?before @
      persist_actions cfg (ce_persist V) (round_of V t (ca_answer e) (ca_sources e) (0, 0) 0 0 False) @
      [Send (DoneEvent (ct_conversation t) 0 0 0 0)])"
    by (rule one_roundI) (simp_all add: plain_events)
  then show ?thesis by (simp add: cached_stream_def)
qed

lemma conclude_shape: "one_round cfg (ce_persist V) t (conclude cfg V t rs spent first_ms answer)"
proof -
  let ?v = "settle_answer cfg V answer rs"
  let ?before = "[Send (ValidationEvent ?v)] @ (if av_answer ?v \<noteq> answer then [Send (ReplacementEvent (av_answer ?v))] else [])"
  show ?thesis
    unfolding conclude_def Let_def
    by (subst append.assoc [symmetric], rule one_roundI) (auto simp: harmless_events)
qed

lemma generate_shape: "one_round cfg (ce_persist V) t (generate_stream cfg V body t rs)"
proof -
  obtain items ok where run: "ce_stream V rs (ct_history t) (ct_summary t) = (items, ok)" by fastforce
  have sends: "list_all plain (map (\<lambda>d. Send (DeltaEvent d)) xs)" for xs by (induction xs) simp_all
  let ?answer = "if ok then concat (delta_texts items) else build_grounded_fallback rs"
  let ?sent = "(if cb_format body = ''json'' then [] else map (\<lambda>d. Send (DeltaEvent d)) (delta_texts items)) @
    (if ok then [] else [Send (ReplacementEvent ?answer)])"
  let ?finish = "conclude cfg V t rs (usage_of items) (if delta_texts items = [] then 0 else ce_first_ms V) ?answer"
  have pre: "list_all plain ?sent" by (simp add: sends)
  have "one_round cfg (ce_persist V) t (?sent @ ?finish)" "one_round cfg (ce_persist V) t ((?sent @ [Send (DeltaEvent ?answer)]) @ ?finish)"
    by (rule one_round_after [OF _ conclude_shape], use pre in simp)+
  moreover have "one_round cfg (ce_persist V) t (?sent @ [Send (ErrorEvent x)])" for x
    by (rule one_round_plain) (use pre in simp)
  ultimately show ?thesis
    unfolding generate_stream_def Let_def run prod.case
    by (cases ok; cases "cb_format body = ''json''") (auto simp: one_round_plain split: option.split)
qed

lemma event_shape: "one_round cfg (ce_persist V) t (event_stream cfg V body t route q rs info)"
proof (cases "ed_answerable (assess_evidence cfg rs)")
  case True
  then show ?thesis
    unfolding event_stream_def Let_def
    by (auto simp: plain_events intro!: one_round_after generate_shape simp del: append.append_Cons append.append_Nil)
next
  case False
  have "one_round cfg (ce_persist V) t ([Send (DeltaEvent no_answer_text)] @
         persist_actions cfg (ce_persist V) (round_of V t no_answer_text rs (0, 0) 0 0 False) @
         [Send (DoneEvent (ct_conversation t) 0 0 0 0)])"
    by (rule one_roundI) simp_all
  with False show ?thesis
    unfolding event_stream_def Let_def
    by (auto simp: plain_events intro!: one_round_after simp del: append.append_Cons append.append_Nil)
qed

lemma agent_shape: "one_round cfg (ce_persist V) t (agent_stream cfg V t s)"
proof -
  have sends: "list_all plain (concat (map (agent_sends k) events))" for k events
    by (induction events) (auto simp: agent_sends_def split: agent_event.splits)
  let ?ms = "load_agent_memories cfg (qe_unicode (ce_query V)) s (ct_user t) (ct_kb t) (ct_conversation t) (ct_question t)"
  obtain events asked ok where run: "run_agent cfg (ce_agent V) s (ct_user t) (Some (ct_kb t)) (ct_question t) (ct_history t) ?ms = (events, asked, ok)"
    by (metis prod_cases3)
  let ?sent = "(if ?ms \<noteq> [] then [Send (MemoryEvent (length ?ms))] else []) @ concat (map (agent_sends (ct_kb t)) events)"
  have pre: "list_all plain ?sent" by (simp add: sends)
  show ?thesis
  proof (cases ok)
    case False
    then show ?thesis using pre by (simp add: agent_stream_def run Let_def one_round_plain)
  next
    case True
    let ?v = "settle_agent_answer cfg V (concat (agent_texts events)) (agent_sources (ct_kb t) events)"
    let ?mid = "[Send (ValidationEvent ?v)] @ (if av_answer ?v \<noteq> concat (agent_texts events) then [Send (ReplacementEvent (av_answer ?v))] else [])"
    have "one_round cfg (ce_persist V) t ((?sent @ ?mid) @
        persist_actions cfg (ce_persist V) (round_of V t (av_answer ?v) (agent_sources (ct_kb t) events) (agent_usage events) (ce_first_ms V) (ce_total_ms V) True) @
        [Send (DoneEvent (ct_conversation t) (fst (agent_usage events)) (snd (agent_usage events)) (ce_first_ms V) (ce_total_ms V))] @ suggestion_events cfg V t ?v)"
      by (rule one_roundI) (use pre harmless_events in auto)
    with True show ?thesis by (simp add: agent_stream_def run Let_def)
  qed
qed

text \<open>What is known of a request that is answered.\<close>

definition prepared :: "'a chat_settings_scheme \<Rightarrow> chat_env \<Rightarrow> chat_body \<Rightarrow> string \<Rightarrow> string \<Rightarrow> chat_state \<Rightarrow> chat_state \<Rightarrow> chat_turn \<Rightarrow> bool" where
  "prepared cfg V body uid kb_id st st1 t \<longleftrightarrow>
     ct_user t = uid \<and> ct_kb t = kb_id \<and> ct_question t = cb_question body \<and> ch_slots st1 = ch_slots st \<and>
     messages (ch_db st1) = messages (ch_db st) \<and> usage (ch_db st1) = usage (ch_db st) \<and>
     (ct_conversation t, uid, Some kb_id) \<in> conversation_facts ` set (conversations (ch_db st1))"

lemma search_outcome:
  assumes "search_stream cfg qcfg V body kb t route q v st = (st1, out)"
  shows "ch_slots st1 = ch_slots st \<and> messages (ch_db st1) = messages (ch_db st) \<and> usage (ch_db st1) = usage (ch_db st) \<and>
    conversations (ch_db st1) = conversations (ch_db st) \<and>
    (case out of Streaming acts \<Rightarrow> one_round cfg (ce_persist V) t acts | _ \<Rightarrow> True)"
proof -
  have moved: "round_for (t\<lparr>ct_vector := v\<rparr>) r \<longleftrightarrow> round_for t r" for r by (simp add: round_for_def)
  have same: "one_round cfg P (t\<lparr>ct_vector := v\<rparr>) acts \<longleftrightarrow> one_round cfg P t acts" for P acts by (simp add: one_round_def moved)
  have "one_round cfg (ce_persist V) t (cached_stream cfg V (t\<lparr>ct_vector := v\<rparr>) q sim e)"
    "one_round cfg (ce_persist V) t (event_stream cfg V body (t\<lparr>ct_vector := v\<rparr>) route q rs info)" for sim e rs info
    using cached_shape [of cfg V "t\<lparr>ct_vector := v\<rparr>" q sim e] event_shape [of cfg V "t\<lparr>ct_vector := v\<rparr>" body route q rs info]
    by (simp_all only: same)
  then show ?thesis
    using assms by (auto simp: search_stream_def Let_def on_db_def add_audit_event_def split: option.splits if_splits prod.splits)
qed


lemma rag_outcome:
  assumes "rag_stream cfg qcfg V body kb t st = (st1, out)"
  shows "ch_slots st1 = ch_slots st \<and> messages (ch_db st1) = messages (ch_db st) \<and> usage (ch_db st1) = usage (ch_db st) \<and>
    conversations (ch_db st1) = conversations (ch_db st) \<and>
    (case out of Streaming acts \<Rightarrow> one_round cfg (ce_persist V) t acts | Refused c \<Rightarrow> False | chat_outcome.Crashed \<Rightarrow> True)"
proof -
  have refused: "search_stream cfg qcfg V body kb t route q v st \<noteq> (x, Refused c)" for route q v x c
    by (simp add: search_stream_def Let_def split: option.split prod.split)
  have "out \<noteq> Refused c" for c
    using assms refused by (auto simp: rag_stream_def split: option.splits if_splits)
  moreover have "ch_slots st1 = ch_slots st \<and> messages (ch_db st1) = messages (ch_db st) \<and> usage (ch_db st1) = usage (ch_db st) \<and>
    conversations (ch_db st1) = conversations (ch_db st) \<and>
    (case out of Streaming acts \<Rightarrow> one_round cfg (ce_persist V) t acts | _ \<Rightarrow> True)"
    using assms unfolding rag_stream_def
    by (auto simp: social_shape dest!: search_outcome split: option.splits if_splits)
  ultimately show ?thesis by (cases out) (simp_all, blast)
qed

lemma open_conversation_ok:
  assumes "open_conversation V body uid kb_id st = Inr (st1, v)"
  shows "ch_slots st1 = ch_slots st \<and> messages (ch_db st1) = messages (ch_db st) \<and> usage (ch_db st1) = usage (ch_db st) \<and>
    v \<in> set (conversations (ch_db st1)) \<and> v_owner v = uid \<and> v_kb v = Some kb_id"
  using assms
  by (auto simp: open_conversation_def on_db_def Let_def get_conversation_def dest!: find_row_Some split: option.splits list.splits if_splits)

lemma open_conversation_refuses: "open_conversation V body uid kb_id st = Inl code \<Longrightarrow> code \<in> {404, 409}"
  by (auto simp: open_conversation_def Let_def split: option.splits list.splits if_splits)

definition stream_ok :: "'a chat_settings_scheme \<Rightarrow> chat_env \<Rightarrow> chat_body \<Rightarrow> string \<Rightarrow> string \<Rightarrow> sys \<Rightarrow> chat_action list \<Rightarrow> bool" where
  "stream_ok cfg V body uid kb_id s acts \<longleftrightarrow> (\<exists>t. one_round cfg (ce_persist V) t acts \<and> ct_user t = uid \<and>
     ct_question t = cb_question body \<and> (ct_conversation t, uid, Some kb_id) \<in> conversation_facts ` set (conversations s))"

lemma prepare_outcome:
  assumes "chat_prepare cfg qcfg V body uid kb_id st = (st1, out)"
  shows "ch_slots st1 = ch_slots st \<and> messages (ch_db st1) = messages (ch_db st) \<and> usage (ch_db st1) = usage (ch_db st) \<and>
    (case out of Streaming acts \<Rightarrow> stream_ok cfg V body uid kb_id (ch_db st1) acts | Refused c \<Rightarrow> c \<in> {404, 409} | chat_outcome.Crashed \<Rightarrow> True)"
proof (cases "get_kb_with_permission (ch_db st) kb_id uid PQuery")
  case (Inl code)
  then have "code = 404" by (auto simp: get_kb_with_permission_def split: option.splits)
  with Inl show ?thesis using assms by (auto simp: chat_prepare_def)
next
  case (Inr kb)
  show ?thesis
  proof (cases "open_conversation V body uid kb_id st")
    case (Inl code)
    then show ?thesis using Inr assms open_conversation_refuses by (auto simp: chat_prepare_def)
  next
    case (Inr x)
    obtain st2 v where x: "x = (st2, v)" by fastforce
    note opened = open_conversation_ok [OF Inr [unfolded x]]
    obtain cache history where load: "load_history cfg (fst (ce_history_ok V)) (snd (ce_history_ok V)) (ch_db st2) (v_id v) (ch_cache st2) = (cache, history)"
      by fastforce
    define t where "t = \<lparr>ct_user = uid, ct_conversation = v_id v, ct_kb = kb_id, ct_question = cb_question body,
      ct_history = history, ct_summary = v_summary v, ct_vector = []\<rparr>"
    have facts: "(ct_conversation t, uid, Some kb_id) \<in> conversation_facts ` set (conversations (ch_db st2))"
      using opened by (force simp: t_def conversation_facts_def)
    have fields: "ct_user t = uid" "ct_question t = cb_question body" by (simp_all add: t_def)
    let ?st3 = "st2\<lparr>ch_cache := cache\<rparr>"
    have eq: "(if cb_mode body = ''agent'' then (?st3, Streaming (agent_stream cfg V t (ch_db ?st3)))
        else rag_stream cfg qcfg V body kb t ?st3) = (st1, out)"
      using assms Inr \<open>get_kb_with_permission (ch_db st) kb_id uid PQuery = Inr kb\<close>
      unfolding t_def by (simp add: chat_prepare_def x load Let_def split del: if_split)
    show ?thesis
    proof (cases "cb_mode body = ''agent''")
      case True
      then have "st1 = ?st3" "out = Streaming (agent_stream cfg V t (ch_db ?st3))" using eq by auto
      moreover have "stream_ok cfg V body uid kb_id (ch_db ?st3) (agent_stream cfg V t (ch_db ?st3))"
        unfolding stream_ok_def using facts fields agent_shape by (intro exI [of _ t]) simp
      ultimately show ?thesis using opened by simp
    next
      case False
      then have "rag_stream cfg qcfg V body kb t ?st3 = (st1, out)" using eq by simp
      note rag = rag_outcome [OF this]
      have "stream_ok cfg V body uid kb_id (ch_db st1) acts" if acts: "out = Streaming acts" for acts
        unfolding stream_ok_def using rag acts facts fields by (intro exI [of _ t]) simp
      with rag opened show ?thesis by (cases out) simp_all
    qed
  qed
qed

section \<open>Rounds and slots\<close>

text \<open>The six ways a request can end.\<close>

lemma chat_endpoint_cases:
  assumes "chat_endpoint cfg qcfg ccfg V body uid n st = (st1, reply)"
  obtains
    (invalid) c where "\<not> (chat_request_ok body \<and> coalesce (cb_kb body) [] \<noteq> [])" "st1 = st" "reply = Failed_with c" "c \<in> {400, 422}"
  | (busy) slots where "acquire_chat_slot ccfg (fst (ce_redis_up V)) (ce_now_ms V) (ce_mono_s V) (ce_slot_token V) uid (cb_conversation body) (ch_slots st) = (slots, None)"
      "st1 = st\<lparr>ch_slots := slots\<rparr>" "reply = Failed_with 429"
  | (limited) slots l where "acquire_chat_slot ccfg (fst (ce_redis_up V)) (ce_now_ms V) (ce_mono_s V) (ce_slot_token V) uid (cb_conversation body) (ch_slots st) = (slots, Some l)"
      "\<not> ce_rate_ok V" "chat_request_ok body" "coalesce (cb_kb body) [] \<noteq> []" "st1 = st\<lparr>ch_slots := slots\<rparr>" "reply = Failed_with 429"
  | (refused) slots l st2 c where "acquire_chat_slot ccfg (fst (ce_redis_up V)) (ce_now_ms V) (ce_mono_s V) (ce_slot_token V) uid (cb_conversation body) (ch_slots st) = (slots, Some l)"
      "ce_rate_ok V" "ch_slots st2 = slots" "messages (ch_db st2) = messages (ch_db st)" "usage (ch_db st2) = usage (ch_db st)"
      "st1 = on_slots (release_chat_slot (snd (ce_redis_up V)) l) st2" "reply = Failed_with c" "c \<in> {404, 409}"
  | (crashed) slots l where "acquire_chat_slot ccfg (fst (ce_redis_up V)) (ce_now_ms V) (ce_mono_s V) (ce_slot_token V) uid (cb_conversation body) (ch_slots st) = (slots, Some l)"
      "ce_rate_ok V" "ch_slots st1 = slots" "messages (ch_db st1) = messages (ch_db st)" "usage (ch_db st1) = usage (ch_db st)" "reply = Failed_with 500"
  | (streamed) slots l kb_id st2 acts es st3 where "acquire_chat_slot ccfg (fst (ce_redis_up V)) (ce_now_ms V) (ce_mono_s V) (ce_slot_token V) uid (cb_conversation body) (ch_slots st) = (slots, Some l)"
      "ce_rate_ok V" "cb_kb body = Some kb_id" "kb_id \<noteq> []"
      "chat_prepare cfg qcfg V body uid kb_id (st\<lparr>ch_slots := slots\<rparr>) = (st2, Streaming acts)"
      "ch_slots st2 = slots" "messages (ch_db st2) = messages (ch_db st)" "usage (ch_db st2) = usage (ch_db st)"
      "stream_ok cfg V body uid kb_id (ch_db st2) acts"
      "serve n acts st2 = (es, st3)" "st1 = on_slots (release_chat_slot (snd (ce_redis_up V)) l) st3" "reply = Events es"
proof (cases "chat_request_ok body \<and> coalesce (cb_kb body) [] \<noteq> []")
  case False
  then show thesis
    using assms invalid by (cases "coalesce (cb_kb body) []") (auto simp: chat_endpoint_def split: if_splits)
next
  case True
  then obtain k ks where kb: "coalesce (cb_kb body) [] = k # ks" "cb_kb body = Some (k # ks)" and valid: "chat_request_ok body"
    by (cases "cb_kb body"; cases "the (cb_kb body)") auto
  obtain slots lease where acq: "acquire_chat_slot ccfg (fst (ce_redis_up V)) (ce_now_ms V) (ce_mono_s V) (ce_slot_token V) uid
      (cb_conversation body) (ch_slots st) = (slots, lease)" by fastforce
  obtain st2 out where prep: "chat_prepare cfg qcfg V body uid (k # ks) (st\<lparr>ch_slots := slots\<rparr>) = (st2, out)" by fastforce
  note run = assms [unfolded chat_endpoint_def, symmetric] and eqs = valid kb acq prep
  note ok = prepare_outcome [OF prep]
  show thesis
  proof (cases "lease = None \<or> \<not> ce_rate_ok V")
    case True
    then show thesis using run acq valid kb busy limited by (cases lease) (auto simp: Let_def)
  next
    case False
    then obtain l where l: "lease = Some l" "ce_rate_ok V" by (cases lease) auto
    have slots: "ch_slots st2 = slots" "messages (ch_db st2) = messages (ch_db st)" "usage (ch_db st2) = usage (ch_db st)" using ok by simp_all
    show thesis
    proof (cases out)
      case (Refused c)
      then have "st1 = on_slots (release_chat_slot (snd (ce_redis_up V)) l) st2" "reply = Failed_with c"
        using run l by (simp_all add: eqs Let_def)
      then show thesis using refused [OF acq [unfolded l(1)] l(2) slots] ok Refused by simp
    next
      case Crashed
      then have "st1 = st2" "reply = Failed_with 500" using run l by (simp_all add: eqs Let_def)
      then show thesis using crashed [OF acq [unfolded l(1)] l(2)] slots by simp
    next
      case (Streaming acts)
      obtain es st3 where "serve n acts st2 = (es, st3)" by fastforce
      moreover from this have "st1 = on_slots (release_chat_slot (snd (ce_redis_up V)) l) st3" "reply = Events es"
        using run l Streaming by (simp_all add: eqs Let_def)
      ultimately show thesis
        using streamed [OF acq [unfolded l(1)] l(2) kb(2) _ prep [unfolded Streaming] slots] ok Streaming by simp
    qed
  qed
qed

lemma stream_end:
  assumes "stream_ok cfg V body uid kb_id (ch_db st2) acts" "serve n acts st2 = (es, st3)"
  shows "ch_slots st3 = ch_slots st2"
    and "(messages (ch_db st3) = messages (ch_db st2) \<and> usage (ch_db st3) = usage (ch_db st2) \<and> \<not> list_ex is_done es) \<or>
      (\<exists>r v. round_stored r (ch_db st2) (ch_db st3) \<and> rd_question r = cb_question body \<and> rd_user r = uid \<and>
         v \<in> set (conversations (ch_db st3)) \<and> v_id v = rd_conversation r \<and> v_owner v = uid \<and> v_kb v = Some kb_id)"
proof -
  from assms(1) obtain t where t: "one_round cfg (ce_persist V) t acts" "ct_user t = uid" "ct_question t = cb_question body"
    "(ct_conversation t, uid, Some kb_id) \<in> conversation_facts ` set (conversations (ch_db st2))" by (auto simp: stream_ok_def)
  note served = serve_one_round [OF t(1) assms(2)]
  show "ch_slots st3 = ch_slots st2" by (rule served(1))
  have "(ct_conversation t, uid, Some kb_id) \<in> set (map conversation_facts (conversations (ch_db st3)))"
    unfolding served(2) using t(4) by simp
  then obtain v where "v \<in> set (conversations (ch_db st3))" "v_id v = ct_conversation t" "v_owner v = uid" "v_kb v = Some kb_id"
    by (auto simp: conversation_facts_def)
  with served(3) t(2,3) show "(messages (ch_db st3) = messages (ch_db st2) \<and> usage (ch_db st3) = usage (ch_db st2) \<and> \<not> list_ex is_done es) \<or>
      (\<exists>r v. round_stored r (ch_db st2) (ch_db st3) \<and> rd_question r = cb_question body \<and> rd_user r = uid \<and>
         v \<in> set (conversations (ch_db st3)) \<and> v_id v = rd_conversation r \<and> v_owner v = uid \<and> v_kb v = Some kb_id)"
    unfolding round_for_def by metis
qed

text \<open>C34: a question is stored whole or not at all: whenever its stream stops, the messages and usage records are as they
  were, and then the client has not seen the end of the stream, or they have grown by exactly the question and one answer in
  a conversation of this user in the chosen knowledge base, with at most one usage record on the user's account.
  A refused request stores nothing.\<close>

theorem round_all_or_nothing:
  "case chat_endpoint cfg qcfg ccfg V body uid n st of (st1, reply) \<Rightarrow>
     if messages (ch_db st1) = messages (ch_db st)
     then usage (ch_db st1) = usage (ch_db st) \<and> (case reply of Failed_with c \<Rightarrow> True | Events es \<Rightarrow> \<not> list_ex is_done es)
     else (\<exists>x y rows v es. reply = Events es \<and> messages (ch_db st1) = messages (ch_db st) @ [x, y] \<and>
       x_role x = UserRole \<and> x_role y = AssistantRole \<and> x_content x = cb_question body \<and>
       v \<in> set (conversations (ch_db st1)) \<and> x_conversation x = v_id v \<and> x_conversation y = v_id v \<and>
       v_owner v = uid \<and> v_kb v = cb_kb body \<and> usage (ch_db st1) = usage (ch_db st) @ rows \<and> length rows \<le> 1 \<and>
       list_all (\<lambda>z. y_owner z = uid \<and> y_conversation z = Some (v_id v)) rows)"
proof -
  obtain st1 reply where run: "chat_endpoint cfg qcfg ccfg V body uid n st = (st1, reply)" by fastforce
  then show ?thesis
  proof (cases rule: chat_endpoint_cases)
    case (streamed slots l kb_id st2 acts es st3)
    have db: "ch_db st1 = ch_db st3" using streamed by (simp add: on_slots_def)
    from stream_end(2) [OF streamed(9,10)] show ?thesis
    proof (elim disjE exE conjE)
      fix r v
      assume r: "round_stored r (ch_db st2) (ch_db st3)" "rd_question r = cb_question body" "rd_user r = uid"
        "v \<in> set (conversations (ch_db st3))" "v_id v = rd_conversation r" "v_owner v = uid" "v_kb v = Some kb_id"
      then obtain x y rows where rows: "messages (ch_db st3) = messages (ch_db st) @ [x, y]" "x_role x = UserRole"
        "x_role y = AssistantRole" "x_conversation x = v_id v" "x_conversation y = v_id v" "x_content x = cb_question body"
        "usage (ch_db st3) = usage (ch_db st) @ rows" "length rows \<le> 1" "list_all (\<lambda>z. y_owner z = uid \<and> y_conversation z = Some (v_id v)) rows"
        using streamed(7,8) by (auto simp: round_stored_def)
      have new: "messages (ch_db st3) \<noteq> messages (ch_db st)" unfolding rows(1) by simp
      show ?thesis
        unfolding run prod.case db if_not_P [OF new]
        by (rule exI [of _ x], rule exI [of _ y], rule exI [of _ rows], rule exI [of _ v], rule exI [of _ es]) (use rows r streamed in simp)
    qed (use run db streamed in simp)
  qed (simp_all add: run on_slots_def)
qed

definition holds_slot :: "string \<Rightarrow> chat_state \<Rightarrow> bool" where
  "holds_slot tok st \<longleftrightarrow> (\<exists>k. tok \<in> fst ` set (slots_of k (redis_table (ch_slots st))))"

lemma zrem_fresh: "tok \<notin> fst ` set v \<Longrightarrow> zrem tok v = v"
  unfolding zrem_def by (rule filter_True) force

lemma zrem_simps [simp]: "zrem tok (zadd tok d v) = zrem tok v" "zrem tok (zrem tok v) = zrem tok v"
    "tok \<notin> fst ` set (zrem tok v)" "tok \<in> fst ` set (zadd tok d v)"
  by (auto simp: zrem_def zadd_def)

lemma zrem_prune: "zrem tok (prune t v) = prune t (zrem tok v)"
  by (simp add: zrem_def prune_def conj_commute)

text \<open>What an acquisition in Redis leaves behind, before and after its release.\<close>

lemma acquire_slots_effect:
  assumes "acquire_chat_slot ccfg True now_ms mono_s tok uid cv s = (s1, lease)"
    "\<And>k. tok \<notin> fst ` set (slots_of k (redis_table s))"
  shows "prune now_ms (zrem tok (slots_of j (redis_table s1))) = prune now_ms (slots_of j (redis_table s))"
    and "(\<exists>k. tok \<in> fst ` set (slots_of k (redis_table s1))) \<longleftrightarrow> lease \<noteq> None"
    and "lease = Some l \<Longrightarrow> slots_of j (redis_table (release_chat_slot True l s1)) = zrem tok (slots_of j (redis_table s1))"
proof -
  let ?ks = "keys_and_limits ccfg uid cv" and ?e = "now_ms + lease_seconds ccfg * 1000"
  obtain r b where run: "acquire_redis now_ms ?e tok ?ks (redis_table s) = (r, b)" by fastforce
  have s1: "redis_table s1 = r" "lease = (if b then Some \<lparr>cl_token = tok, cl_keys = map fst ?ks, cl_backend = RedisBackend\<rparr> else None)"
    using assms(1) run by (auto simp: acquire_chat_slot_def Let_def)
  note got = acquire_redis_slots [OF keys_distinct run]
  have kinds: "slots_of k r = zadd tok ?e (prune now_ms (slots_of k (redis_table s))) \<and> b \<and> k \<in> fst ` set ?ks \<or>
      (\<not> b \<or> k \<notin> fst ` set ?ks) \<and> (slots_of k r = slots_of k (redis_table s) \<or> slots_of k r = prune now_ms (slots_of k (redis_table s)))" for k
    using got(2,3) [of k] by blast
  have kept: "tok \<notin> fst ` set (prune t (slots_of k (redis_table s)))" for t k
    using assms(2) [of k] by (auto simp: prune_def)
  show "prune now_ms (zrem tok (slots_of j (redis_table s1))) = prune now_ms (slots_of j (redis_table s))"
    using kinds [of j] assms(2) [of j] kept [of now_ms j] by (auto simp: s1 zrem_fresh)
  have "global_key \<in> fst ` set ?ks" by (simp add: keys_and_limits_def)
  then have "b \<Longrightarrow> slots_of global_key r = zadd tok ?e (prune now_ms (slots_of global_key (redis_table s)))"
    using kinds [of global_key] by blast
  then have "b \<Longrightarrow> tok \<in> fst ` set (slots_of global_key r)" by (simp only: zrem_simps)
  moreover have "tok \<notin> fst ` set (slots_of k r)" if "\<not> b" for k
  proof -
    have "slots_of k r = slots_of k (redis_table s) \<or> slots_of k r = prune now_ms (slots_of k (redis_table s))"
      using kinds [of k] that by blast
    with assms(2) [of k] kept [of now_ms k] show ?thesis by metis
  qed
  ultimately show "(\<exists>k. tok \<in> fst ` set (slots_of k (redis_table s1))) \<longleftrightarrow> lease \<noteq> None"
    by (cases b) (simp_all only: s1 if_True if_False option.simps simp_thms, blast+)
  show "slots_of j (redis_table (release_chat_slot True l s1)) = zrem tok (slots_of j (redis_table s1))" if "lease = Some l"
  proof -
    have b: "b" "l = \<lparr>cl_token = tok, cl_keys = map fst ?ks, cl_backend = RedisBackend\<rparr>" using that s1 by (auto split: if_splits)
    have "j \<notin> fst ` set ?ks \<Longrightarrow> zrem tok (slots_of j r) = slots_of j r"
      using kinds [of j] assms(2) [of j] kept [of now_ms j] by (auto simp: zrem_fresh)
    then show ?thesis
      by (simp add: b(2) release_chat_slot_def release_redis_def slots_of_on_keys [OF keys_distinct] s1(1))
  qed
qed

text \<open>C36: capacity comes back on every path but two: while Redis answers, a request holds a slot after it is over exactly
  when its handler raised, or when the rate limit refused it after the slot was granted; a refusal and a stream that
  stops anywhere give it back, and no live slot of another request is touched.\<close>

theorem slot_comes_back:
  assumes "ce_redis_up V = (True, True)" "\<not> holds_slot (ce_slot_token V) st"
  shows "case chat_endpoint cfg qcfg ccfg V body uid n st of (st1, reply) \<Rightarrow>
     (holds_slot (ce_slot_token V) st1 \<longleftrightarrow> reply = Failed_with 500 \<or> chat_request_ok body \<and> coalesce (cb_kb body) [] \<noteq> [] \<and> \<not> ce_rate_ok V \<and>
       snd (acquire_chat_slot ccfg True (ce_now_ms V) (ce_mono_s V) (ce_slot_token V) uid (cb_conversation body) (ch_slots st)) \<noteq> None) \<and>
     prune (ce_now_ms V) (zrem (ce_slot_token V) (slots_of k (redis_table (ch_slots st1)))) =
       prune (ce_now_ms V) (slots_of k (redis_table (ch_slots st)))"
proof -
  let ?tok = "ce_slot_token V"
  have fresh: "?tok \<notin> fst ` set (slots_of j (redis_table (ch_slots st)))" for j using assms(2) by (simp add: holds_slot_def)
  have up: "fst (ce_redis_up V) = True" "snd (ce_redis_up V) = True" using assms(1) by simp_all
  obtain st1 reply where run: "chat_endpoint cfg qcfg ccfg V body uid n st = (st1, reply)" by fastforce
  have freed: "\<not> holds_slot ?tok (on_slots (release_chat_slot True l) x) \<and>
      prune (ce_now_ms V) (zrem ?tok (slots_of k (redis_table (ch_slots (on_slots (release_chat_slot True l) x))))) =
        prune (ce_now_ms V) (slots_of k (redis_table (ch_slots st)))"
    if acq: "acquire_chat_slot ccfg True (ce_now_ms V) (ce_mono_s V) ?tok uid (cb_conversation body) (ch_slots st) = (ch_slots x, Some l)" for l x
    using acquire_slots_effect(1) [OF acq fresh, of k] acquire_slots_effect(3) [OF acq fresh refl] by (simp add: holds_slot_def on_slots_def)
  show ?thesis using run
  proof (cases rule: chat_endpoint_cases)
    case (busy slots)
    with acquire_slots_effect [OF busy(1) [unfolded up] fresh] show ?thesis by (auto simp: run up holds_slot_def)
  next
    case (limited slots l)
    with acquire_slots_effect [OF limited(1) [unfolded up] fresh] show ?thesis by (auto simp: run up holds_slot_def)
  next
    case (refused slots l st2 c)
    with freed [of st2 l] show ?thesis by (auto simp: run up)
  next
    case (crashed slots l)
    with acquire_slots_effect [OF crashed(1) [unfolded up] fresh] show ?thesis by (auto simp: run up holds_slot_def)
  next
    case (streamed slots l kb_id st2 acts es st3)
    with freed [of st3 l] stream_end(1) [OF streamed(9,10)] show ?thesis by (auto simp: run up)
  qed (use assms(2) in \<open>auto simp: run zrem_fresh holds_slot_def\<close>)
qed

section \<open>The answer that is kept\<close>

definition well_cited :: "ustr \<Rightarrow> int \<Rightarrow> bool" where
  "well_cited answer n \<longleftrightarrow> 0 < n \<and> cited_numbers answer \<noteq> [] \<and> list_all (\<lambda>k. 1 \<le> k \<and> k \<le> n) (cited_numbers answer) \<and>
     list_all (\<lambda>line. startswith (lstrip line) [45] \<or> startswith (lstrip line) [42] \<or> re_search citation_pattern line) (factual_lines answer)"

lemma valid_well_cited: "cc_valid (validate_citations answer n) \<longleftrightarrow> well_cited answer n"
proof -
  have "sort ys = [] \<longleftrightarrow> ys = []" for ys :: "int list" by (metis length_0_conv length_sort)
  then have "sort (remdups (filter (\<lambda>v. v < 1 \<or> n < v) xs)) = [] \<longleftrightarrow> list_all (\<lambda>k. 1 \<le> k \<and> k \<le> n) xs" for xs :: "int list"
    by (auto simp: filter_empty_conv list_all_iff not_less)
  then show ?thesis
    by (auto simp: validate_citations_def Let_def well_cited_def list_all_iff filter_empty_conv)
qed

lemma checked_answer_ok:
  assumes "\<And>a. av_valid (blocked a) \<longrightarrow> well_cited (av_answer (blocked a)) (int (length rs))"
  shows "av_valid (checked_answer cfg V w blocked answer rs) \<Longrightarrow> well_cited (av_answer (checked_answer cfg V w blocked answer rs)) (int (length rs))"
    and "\<not> av_valid (checked_answer cfg V w blocked answer rs) \<Longrightarrow> checked_answer cfg V w blocked answer rs = blocked answer"
proof -
  have "cc_valid (validate_citations answer (int (length rs)))" if "entailed_ok cfg V w answer rs"
    using that by (simp add: entailed_ok_def Let_def)
  moreover have "rp_check (repair_citations answer n) = validate_citations (rp_answer (repair_citations answer n)) n" for n
    by (simp add: repair_citations_def Let_def split: prod.split)
  ultimately show "av_valid (checked_answer cfg V w blocked answer rs) \<Longrightarrow> well_cited (av_answer (checked_answer cfg V w blocked answer rs)) (int (length rs))"
    "\<not> av_valid (checked_answer cfg V w blocked answer rs) \<Longrightarrow> checked_answer cfg V w blocked answer rs = blocked answer"
    using assms [of answer] by (auto simp: checked_answer_def Let_def valid_well_cited split: if_splits)
qed

lemma extractive_ok: "av_valid (extractive reason rs) \<longleftrightarrow> well_cited (build_grounded_fallback rs) (int (length rs))"
    "av_answer (extractive reason rs) = build_grounded_fallback rs"
  by (simp_all add: extractive_def Let_def valid_well_cited)

text \<open>C35: no answer is shown as valid unless it is well cited: it cites something, every number it cites is that of a source
  that was sent, and each of its lines that is long enough to state a fact and is no heading, quote or list item carries a
  citation. An answer that is not valid is the list of excerpts in the normal mode and the fixed refusal in the agent mode,
  never the rejected text.\<close>

theorem answers_are_well_cited:
  "(let v = settle_answer cfg V answer rs in
      if av_valid v then well_cited (av_answer v) (int (length rs)) \<and>
        (if has_substantive_answer (av_answer v) then True else av_answer v = build_grounded_fallback rs)
      else av_answer v = build_grounded_fallback rs) \<and>
   (let v = settle_agent_answer cfg V answer rs in
      if av_valid v then well_cited (av_answer v) (int (length rs)) else av_answer v = blocked_text)"
proof -
  note normal = checked_answer_ok [where blocked = "\<lambda>a. extractive ''citation_validation_failed'' rs" and rs = rs and cfg = cfg
      and V = V and w = True and answer = answer]
  note agent = checked_answer_ok [where blocked = "\<lambda>a. \<lparr>av_answer = blocked_text, av_valid = False, av_origin = ''blocked'',
       av_check = validate_citations a (int (length rs))\<rparr>" and rs = rs and cfg = cfg and V = V and w = "rs \<noteq> []" and answer = answer]
  show ?thesis
    using normal agent by (auto simp: settle_answer_def settle_agent_answer_def Let_def extractive_ok)
qed

text \<open>An answer whose lines are all cited is repaired to itself.\<close>

lemma startswith_hd: "startswith s (x # p) \<Longrightarrow> x \<in> set s"
  unfolding startswith_def by (metis in_set_takeD list.set_intros(1))

lemma repair_keeps:
  "list_all (\<lambda>l. 96 \<notin> set l \<and> (strip l = [] \<or> supported n l)) ls \<Longrightarrow> repair_lines n False kept removed ls = (kept @ ls, removed)"
proof (induction ls arbitrary: kept)
  case (Cons l ls)
  have "\<not> startswith (strip l) [96, 96, 96]"
    using Cons.prems set_strip [of l] startswith_hd [of "strip l" 96 "[96, 96]"] by auto
  with Cons show ?case by auto
qed simp

lemma no_fence: "96 \<notin> set t \<Longrightarrow> re_sub empty_fence f t = t"
proof (rule re_sub_no_match)
  assume "96 \<notin> set t"
  then have "\<not> at_class (ch 96) t i" for i by (auto simp: at_class_def ch_def dest: nth_mem)
  then show "\<not> re_search empty_fence t" by (auto simp: re_search_iff empty_fence_def lit_def)
qed

text \<open>The entailment check cannot reject an answer whose lines are all cited: whatever the judge says of the claims, such an
  answer is repaired to itself and shown as valid.\<close>

theorem entailment_cannot_block:
  assumes "well_cited answer (int (length rs))" "has_substantive_answer answer" "96 \<notin> set answer"
    "ujoin [10] (splitlines answer) = answer" "strip answer = answer"
    "list_all (\<lambda>l. strip l = [] \<or> supported (int (length rs)) l) (splitlines answer)"
  shows "av_answer (settle_answer cfg V answer rs) = answer \<and> av_valid (settle_answer cfg V answer rs)"
proof -
  let ?n = "int (length rs)"
  have n: "0 < ?n" using assms(1) by (simp add: well_cited_def)
  have "x \<in> set (ujoin [10] ls)" if "x \<in> set l" "l \<in> set ls" for x l and ls :: "ustr list"
    using that by (induction "[10 :: nat]" ls rule: ujoin.induct) auto
  then have "96 \<notin> set l" if "l \<in> set (splitlines answer)" for l using assms(3,4) that by metis
  then have "repair_lines ?n False [] [] (splitlines answer) = (splitlines answer, [])"
    using repair_keeps [of ?n "splitlines answer" "[]" "[]"] assms(6) by (simp add: list_all_iff)
  then have "rp_answer (repair_citations answer ?n) = answer" "cc_valid (rp_check (repair_citations answer ?n))"
    using n assms(1,3,4,5) no_fence [of answer] valid_well_cited [of answer ?n] by (simp_all add: repair_citations_def)
  then show ?thesis using assms(2) by (simp add: settle_answer_def checked_answer_def Let_def)
qed


section \<open>The sources that are shown\<close>

definition shown_from :: "'a evidence_settings_scheme \<Rightarrow> string \<Rightarrow> string \<Rightarrow> sys \<Rightarrow> retrieved \<Rightarrow> bool" where
  "shown_from cfg uid kb_id s r \<longleftrightarrow> rc_kb r = kb_id \<and> (\<exists>r0. authorised uid (Some kb_id) s r0 \<and> rc_chunk r = rc_chunk r0 \<and>
     subseq (visible (rc_content r)) (visible (rc_content r0)) \<and>
     (injection_high_risk_action cfg = ''remove'' \<longrightarrow> injection_risk cfg (rc_content r0) \<noteq> RiskHigh))"

lemma authorised_conversations [simp]: "authorised user kb (s\<lparr>conversations := x\<rparr>) = authorised user kb s"
  by (intro ext) (simp add: authorised_def passage_def readable_def)

lemma shown_conversations [simp]: "shown_from cfg uid kb (s\<lparr>conversations := x\<rparr>) = shown_from cfg uid kb s"
  by (intro ext) (simp add: shown_from_def)

lemma scope_set: "r \<in> set (scope_chunks_to_kb rs kb_id) \<longleftrightarrow> r \<in> set rs \<and> rc_kb r = kb_id"
  by (auto simp: scope_chunks_to_kb_def)

lemma context_shown:
  assumes "rq_owner rq = uid" "rq_kb rq = Some kb_id"
  shows "list_all (shown_from cfg uid kb_id s) (fst (chat_context cfg V kb_id q (retrieve cfg E U rq s)))"
proof -
  let ?rs = "scope_chunks_to_kb (retrieve cfg E U rq s) kb_id"
  obtain kept info where policy: "apply_injection_policy cfg (ce_engine V) ?rs = (kept, info)" by fastforce
  have dist: "distinct (map rc_chunk ?rs)"
    unfolding scope_chunks_to_kb_def retrieve_def
    by (rule distinct_map_filter, rule stages.rank_distinct) (use candidates_ok in blast)
  have auth: "authorised uid (Some kb_id) s r" if mem: "r \<in> set (retrieve cfg E U rq s)" for r
    using stages.rank_member [OF mem [unfolded retrieve_def]] candidates_ok [of cfg E U rq s] authorised_unscored assms by metis
  have kept: "authorised uid (Some kb_id) s r \<and> (injection_high_risk_action cfg = ''remove'' \<longrightarrow> injection_risk cfg (rc_content r) \<noteq> RiskHigh)"
    if mem: "r \<in> set kept" for r
  proof -
    have r: "r \<in> set (fst (apply_injection_policy cfg (ce_engine V) ?rs))" using mem policy by simp
    obtain r0 where "r0 \<in> set ?rs" "unscored r = unscored r0" using policy.rank_member [OF r] by auto
    then have "authorised uid (Some kb_id) s r" using auth [of r0] authorised_unscored unfolding scope_set by blast
    with policy_removes [OF dist r] show ?thesis by blast
  qed
  have "shown_from cfg uid kb_id s r" if r: "r \<in> set (scope_chunks_to_kb (prepare_context cfg (ce_engine V) (qe_unicode (ce_query V)) q
      (scope_chunks_to_kb kept kb_id)) kb_id)" for r
  proof -
    obtain r0 where "r0 \<in> set (scope_chunks_to_kb kept kb_id)" "rc_chunk r = rc_chunk r0"
        "subseq (visible (rc_content r)) (visible (rc_content r0))"
      using prepare_context_ok [of cfg "ce_engine V" "qe_unicode (ce_query V)" q "scope_chunks_to_kb kept kb_id"] r
      unfolding scope_set [of r] by blast
    moreover from this have "r0 \<in> set kept" by (simp add: scope_set)
    ultimately show ?thesis using kept [of r0] r unfolding shown_from_def scope_set [of r] by blast
  qed
  then show ?thesis by (simp add: chat_context_def policy list_all_iff)
qed

text \<open>\<open>shows_only P es\<close>: every list of sources that is sent satisfies \<open>P\<close>.\<close>

definition shows_only :: "(retrieved list \<Rightarrow> bool) \<Rightarrow> chat_event list \<Rightarrow> bool" where
  "shows_only P es \<longleftrightarrow> list_all (\<lambda>e. case e of SourcesEvent rs \<Rightarrow> P rs | _ \<Rightarrow> True) es"

lemma shows_simps [simp]: "shows_only P []" "shows_only P (xs @ ys) \<longleftrightarrow> shows_only P xs \<and> shows_only P ys"
    "shows_only P (e # es) \<longleftrightarrow> (case e of SourcesEvent rs \<Rightarrow> P rs | _ \<Rightarrow> True) \<and> shows_only P es"
  by (simp_all add: shows_only_def)

lemma sent_persist [simp]: "sent (persist_actions cfg P r) = []"
  by (simp add: persist_actions_def split: prod.split)

lemma sent_rewrite [simp]: "shows_only P (sent (rewrite_events t q))"
  by (simp add: rewrite_events_def)

lemma sent_suggestions [simp]: "shows_only P (sent (suggestion_events cfg V t v))"
  by (simp add: suggestion_events_def Let_def)

lemma sent_deltas [simp]: "shows_only P (sent (map (\<lambda>d. Send (DeltaEvent d)) xs))"
  by (induction xs) simp_all

lemma shows_take: "shows_only P (sent acts) \<Longrightarrow> shows_only P (sent (take n acts))"
proof -
  assume a: "shows_only P (sent acts)"
  have "sent acts = sent (take n acts) @ sent (drop n acts)" by (metis append_take_drop_id sent_simps(4))
  with a show ?thesis by simp
qed

lemma conclude_shows: "shows_only P (sent (conclude cfg V t rs spent f answer))"
  by (simp add: conclude_def Let_def)

lemma generate_shows: "shows_only P (sent (generate_stream cfg V body t rs))"
  by (simp add: generate_stream_def Let_def conclude_shows split: prod.split option.split)

lemma event_shows: "P rs \<Longrightarrow> shows_only P (sent (event_stream cfg V body t route q rs info))"
  by (simp add: event_stream_def Let_def generate_shows)

lemma agent_shows:
  assumes "\<And>rs. list_all (citable cfg s (ct_user t) (Some (ct_kb t))) rs \<Longrightarrow> P (scope_chunks_to_kb rs (ct_kb t))"
  shows "shows_only P (sent (agent_stream cfg V t s))"
proof -
  let ?ms = "load_agent_memories cfg (qe_unicode (ce_query V)) s (ct_user t) (ct_kb t) (ct_conversation t) (ct_question t)"
  obtain events asked ok where run: "run_agent cfg (ce_agent V) s (ct_user t) (Some (ct_kb t)) (ct_question t) (ct_history t) ?ms = (events, asked, ok)"
    by (metis prod_cases3)
  have "cited_ok cfg s (ct_user t) (Some (ct_kb t)) []" by (simp add: cited_ok_def)
  from agent_loop_ok [OF this run [unfolded run_agent_def]]
  have "list_all (sources_ok cfg s (ct_user t) (Some (ct_kb t))) events" by (simp add: loop_ok_def)
  then have "shows_only P (sent (concat (map (agent_sends (ct_kb t)) events)))"
    by (induction events) (auto simp: agent_sends_def sources_ok_def assms split: agent_event.splits)
  then show ?thesis by (simp add: agent_stream_def run Let_def)
qed


text \<open>The sources of a stream: what was retrieved now, or the sources of an answer kept for this user and knowledge base.\<close>

definition sources_fit :: "'a evidence_settings_scheme \<Rightarrow> string \<Rightarrow> string \<Rightarrow> sys \<Rightarrow> cached_answer list \<Rightarrow> retrieved list \<Rightarrow> bool" where
  "sources_fit cfg uid kb_id s answers rs \<longleftrightarrow> list_all (shown_from cfg uid kb_id s) rs \<or>
     (\<exists>e \<in> set answers. rs = ca_sources e) \<and> list_all (\<lambda>r. rc_kb r = kb_id) rs"

lemma citable_fits: "list_all (citable cfg s uid (Some kb_id)) rs \<Longrightarrow> sources_fit cfg uid kb_id s answers (scope_chunks_to_kb rs kb_id)"
  by (auto simp: sources_fit_def shown_from_def citable_def list_all_iff scope_set)

lemma search_shows:
  assumes "search_stream cfg qcfg V body kb t route q v st = (st1, Streaming acts)"
  shows "shows_only (sources_fit cfg (ct_user t) (ct_kb t) (ch_db st) (answer_lists (ch_cache st) (answer_key (ct_user t) (Some (ct_kb t))))) (sent acts)"
proof -
  let ?P = "sources_fit cfg (ct_user t) (ct_kb t) (ch_db st) (answer_lists (ch_cache st) (answer_key (ct_user t) (Some (ct_kb t))))"
  let ?t = "t\<lparr>ct_vector := v\<rparr>"
  have cached: "shows_only ?P (sent (cached_stream cfg V ?t q sim e))"
    if "lookup_answer cfg g b (ct_user t) (Some (ct_kb t)) v (ch_cache st) = Some (sim, e)" "cache_hit_is_grounded e (ct_kb t)" for g b sim e
  proof -
    have "e \<in> set (answer_lists (ch_cache st) (answer_key (ct_user t) (Some (ct_kb t))))"
      using that(1) best_answer_ok by (fastforce simp: lookup_answer_def split: if_splits prod.splits option.splits)
    with that(2) show ?thesis by (auto simp: cached_stream_def sources_fit_def cache_hit_is_grounded_def)
  qed
  have retrieved: "shows_only ?P (sent (event_stream cfg V body ?t route q rs info))"
    if "chat_context cfg V (ct_kb t) q (retrieve cfg (ce_engine V) (qe_unicode (ce_query V))
        (chat_request body (ct_user t) (ct_kb t) (qr_mode route) q extra v) (ch_db st)) = (rs, info)" for rs info extra
  proof (rule event_shows)
    have "list_all (shown_from cfg (ct_user t) (ct_kb t) (ch_db st)) rs"
      using context_shown [of "chat_request body (ct_user t) (ct_kb t) (qr_mode route) q extra v" "ct_user t" "ct_kb t" cfg "ch_db st" V q
          "ce_engine V" "qe_unicode (ce_query V)"] that by (simp add: chat_request_def)
    then show "?P rs" by (simp add: sources_fit_def)
  qed
  show ?thesis
    using assms cached retrieved
    by (auto simp: search_stream_def Let_def split: option.splits if_splits prod.splits)
qed

lemma rag_shows:
  assumes "rag_stream cfg qcfg V body kb t st = (st1, Streaming acts)"
  shows "shows_only (sources_fit cfg (ct_user t) (ct_kb t) (ch_db st) (answer_lists (ch_cache st) (answer_key (ct_user t) (Some (ct_kb t))))) (sent acts)"
proof -
  have social: "shows_only P (sent (social_stream cfg V t x))" for P x by (simp add: social_stream_def)
  show ?thesis using assms social by (auto simp: rag_stream_def dest: search_shows split: option.splits if_splits)
qed

lemma prepare_shows:
  assumes "chat_prepare cfg qcfg V body uid kb_id st = (st1, Streaming acts)"
  shows "shows_only (sources_fit cfg uid kb_id (ch_db st) (answer_lists (ch_cache st) (answer_key uid (Some kb_id)))) (sent acts) \<and>
    (\<exists>kb. get_kb_with_permission (ch_db st) kb_id uid PQuery = Inr kb)"
proof -
  let ?P = "sources_fit cfg uid kb_id (ch_db st) (answer_lists (ch_cache st) (answer_key uid (Some kb_id)))"
  obtain kb st2 v where kb: "get_kb_with_permission (ch_db st) kb_id uid PQuery = Inr kb"
    and opened: "open_conversation V body uid kb_id st = Inr (st2, v)"
    using assms by (auto simp: chat_prepare_def split: sum.splits)
  obtain cache history where load: "load_history cfg (fst (ce_history_ok V)) (snd (ce_history_ok V)) (ch_db st2) (v_id v) (ch_cache st2) = (cache, history)"
    by fastforce
  have db: "\<exists>x. ch_db st2 = (ch_db st)\<lparr>conversations := x\<rparr>" "ch_cache st2 = ch_cache st"
    using opened by (auto simp: open_conversation_def on_db_def Let_def split: option.splits list.splits if_splits
        intro!: exI [of _ "conversations (ch_db st2)"])
  have answers: "answer_lists cache = answer_lists (ch_cache st)"
    using load db(2) by (auto simp: load_history_def Let_def split: if_splits)
  define t where "t = \<lparr>ct_user = uid, ct_conversation = v_id v, ct_kb = kb_id, ct_question = cb_question body,
    ct_history = history, ct_summary = v_summary v, ct_vector = []\<rparr>"
  have t: "ct_user t = uid" "ct_kb t = kb_id" by (simp_all add: t_def)
  let ?st3 = "st2\<lparr>ch_cache := cache\<rparr>"
  have same: "sources_fit cfg uid kb_id (ch_db ?st3) (answer_lists (ch_cache ?st3) (answer_key uid (Some kb_id))) = ?P"
    using db(1) answers by (intro ext) (auto simp: sources_fit_def)
  have eq: "(if cb_mode body = ''agent'' then (?st3, Streaming (agent_stream cfg V t (ch_db ?st3)))
      else rag_stream cfg qcfg V body kb t ?st3) = (st1, Streaming acts)"
    using assms kb opened unfolding t_def by (simp add: chat_prepare_def load Let_def split del: if_split)
  have "shows_only ?P (sent acts)"
  proof (cases "cb_mode body = ''agent''")
    case True
    then have "acts = agent_stream cfg V t (ch_db ?st3)" using eq by auto
    moreover have "shows_only (sources_fit cfg uid kb_id (ch_db ?st3) (answer_lists (ch_cache ?st3) (answer_key uid (Some kb_id))))
        (sent (agent_stream cfg V t (ch_db ?st3)))"
      by (rule agent_shows) (simp add: t citable_fits)
    ultimately show ?thesis by (simp only: same)
  next
    case False
    then have rag: "rag_stream cfg qcfg V body kb t ?st3 = (st1, Streaming acts)" using eq by simp
    from rag_shows [OF rag]
    show ?thesis by (simp only: t same)
  qed
  with kb show ?thesis by blast
qed

text \<open>C33: a question is answered only for a member who may query the knowledge base, and every source that is shown, in any mode,
  wherever the stream stops, belongs to that knowledge base: it is a passage the user may read at the time of the request
  (or a part of it), never of high risk where such chunks are removed, or one of the sources of an answer that was
  cached for this user and this knowledge base.\<close>

theorem shown_sources_are_authorised:
  "case chat_endpoint cfg qcfg ccfg V body uid n st of (st1, reply) \<Rightarrow> (case reply of Failed_with c \<Rightarrow> True | Events es \<Rightarrow>
     \<exists>kb_id kb. cb_kb body = Some kb_id \<and> kb_id \<noteq> [] \<and> get_kb_with_permission (ch_db st) kb_id uid PQuery = Inr kb \<and>
       list_all (\<lambda>e. case e of SourcesEvent rs \<Rightarrow> sources_fit cfg uid kb_id (ch_db st) (answer_lists (ch_cache st) (uid, kb_id)) rs
         | _ \<Rightarrow> True) es)"
proof -
  obtain st1 reply where run: "chat_endpoint cfg qcfg ccfg V body uid n st = (st1, reply)" by fastforce
  then show ?thesis
  proof (cases rule: chat_endpoint_cases)
    case (streamed slots l kb_id st2 acts es st3)
    from prepare_shows [OF streamed(5)] shows_take [of _ acts n] streamed show ?thesis
      by (auto simp: run serve_run shows_only_def answer_key_def)
  qed (simp_all add: run)
qed

text \<open>A cached answer is served whatever filters, mode or output format the new request asks for.\<close>

lemma cached_answer_ignores_request:
  assumes "is_eligible (ct_history t)" "cache_hit_is_grounded e (ct_kb t)"
    "lookup_answer cfg (ce_round4 V) (fst (ce_cache_ok V)) (ct_user t) (Some (ct_kb t)) v (ch_cache st) = Some (sim, e)"
  shows "search_stream cfg qcfg V body kb t route q v st = search_stream cfg qcfg V body1 kb1 t route1 q v st"
  using assms by (simp add: search_stream_def Let_def)


section \<open>A line with one citation\<close>

lemma not_decimal_bracket: "\<not> is_decimal 93"
  by (simp add: is_decimal_def digit_value_def decimal_zeros_def)

lemma one_citation:
  assumes "91 \<notin> set w" "is_decimal d"
  shows "finditer citation_pattern (w @ [91, d, 93]) 0 False = [(length w, length w + 3, [(1, [d])])]"
proof -
  let ?s = "w @ [91, d, 93]"
  have no: "ends citation_pattern ?s k [] = []" if "k < length ?s" "?s ! k \<noteq> 91" for k
    using that by (simp add: citation_pattern_def at_class_def ch_def)
  have d: "d \<noteq> 91" using assms(2) by (auto simp: is_decimal_def digit_value_def decimal_zeros_def)
  have hit: "ends citation_pattern ?s (length w) [] = [(length w + 3, [(1, [d])])]"
    using assms(2) not_decimal_bracket
    by (simp add: citation_pattern_def at_class_def ch_def run_length_def nth_append slice_def)
  have "search_from citation_pattern ?s 0 False = search_from citation_pattern ?s (length w) False"
  proof (rule search_skip)
    fix k assume "k < length w"
    with assms(1) have "?s ! k \<noteq> 91" by (auto simp: nth_append in_set_conv_nth)
    with no [of k] \<open>k < length w\<close> show "ends citation_pattern ?s k [] = []" by simp
  qed simp_all
  then have first: "search_from citation_pattern ?s 0 False = Some (length w, length w + 3, [(1, [d])])"
    using search_hit [OF _ hit] by simp
  have "ends citation_pattern ?s (length ?s) [] = []" by (simp add: citation_pattern_def at_class_def)
  moreover have "length ?s = length w + 3" by simp
  ultimately have "search_from citation_pattern ?s (length w + 3) False = None" using search_end [of citation_pattern ?s] by metis
  then show ?thesis
    by (simp add: finditer.simps [of citation_pattern ?s 0] finditer.simps [of citation_pattern ?s "length w + 3"] first)
qed
section \<open>Witnesses\<close>

definition demo_engine :: search_engine where
  "demo_engine = \<lparr>se_cut = (\<lambda>x. [x]), se_vector = (\<lambda>x. [1]), se_distance = (\<lambda>a b. 0), se_match = (=), se_rank = (\<lambda>a b. 1), se_ilike = (=),
     se_tags_text = concat, se_round = (\<lambda>x. x), se_predict = (\<lambda>q xs. None), se_order = (\<lambda>q xs. None), se_keyword_fails = False,
     se_title_fails = False, se_graph_fails = False\<rparr>"

text \<open>The judge finds the first claim of every answer unsupported; the rate limit refuses every question.\<close>

definition demo_chat_env :: chat_env where
  "demo_chat_env = \<lparr>ce_ctx = demo_ctx 0 ''c'', ce_query = \<lparr>qe_unicode = demo_unicode, qe_same = (=), qe_template = (\<lambda>x. None)\<rparr>,
     ce_engine = demo_engine, ce_embed = (\<lambda>x. Some [1]), ce_retrieve_raises = False, ce_rewrite = (\<lambda>x. None), ce_expand = (\<lambda>x. None),
     ce_hyde = (\<lambda>x. None), ce_followups = (\<lambda>x y. None), ce_stream = (\<lambda>rs h s. ([], True)), ce_judge = (\<lambda>x. Some []),
     ce_loads = (\<lambda>x. Some (JList [JObj [(''claim'', JInt 1), (''supported'', JBool False)]])), ce_text = (\<lambda>x. []),
     ce_read_int = (\<lambda>x. None), ce_schema_ok = (\<lambda>x y. True),
     ce_agent = \<lparr>ae_complete = (\<lambda>m b. None), ae_loads = (\<lambda>x. None), ae_text = (\<lambda>x. []), ae_error = (\<lambda>x y. []),
       ae_search_raises = (\<lambda>x. False), ae_engine = demo_engine, ae_unicode = demo_unicode\<rparr>,
     ce_dump = (\<lambda>rs. JList []), ce_persist = demo_persist, ce_first_ms = 0, ce_total_ms = 0, ce_error = [], ce_history_ok = (True, True),
     ce_cache_ok = (True, True), ce_round4 = (\<lambda>x. x), ce_redis_up = (True, True), ce_now_ms = 0, ce_mono_s = 0, ce_slot_token = ''t1'', ce_rate_ok = False\<rparr>"

definition demo_body :: chat_body where
  "demo_body = \<lparr>cb_question = u ''hi'', cb_conversation = None, cb_kb = Some ''k1'', cb_mode = ''rag'', cb_profile = ''auto'', cb_types = [],
     cb_sources = [], cb_departments = [], cb_tags = [], cb_sections = [], cb_after = None, cb_before = None, cb_format = ''markdown'',
     cb_schema = None\<rparr>"

definition demo_query_settings :: query_settings where
  "demo_query_settings = \<lparr>query_clean_enabled = True, query_auto_route_enabled = True, query_term_dictionary = []\<rparr>"

definition demo_chat_state :: chat_state where
  "demo_chat_state = \<lparr>ch_db = demo_chat_sys, ch_cache = demo_cache, ch_slots = \<lparr>redis_table = [], local_table = []\<rparr>\<rparr>"

text \<open>The rate limit refuses the question, and its slot stays taken.\<close>

theorem slot_comes_back_witness:
  "case chat_endpoint demo_chat_settings demo_query_settings demo_capacity demo_chat_env demo_body ''u1'' 9 demo_chat_state of
     (st1, reply) \<Rightarrow> holds_slot ''t1'' st1"
proof -
  have up: "ce_redis_up demo_chat_env = (True, True)" and fresh: "\<not> holds_slot (ce_slot_token demo_chat_env) demo_chat_state"
    by (simp_all add: demo_chat_env_def holds_slot_def demo_chat_state_def)
  have "snd (acquire_chat_slot demo_capacity True 0 0 ''t1'' ''u1'' None \<lparr>redis_table = [], local_table = []\<rparr>) \<noteq> None"
    by (simp add: acquire_chat_slot_def Let_def acquire_redis_def keys_and_limits_def demo_capacity_def prune_def)
  moreover have "chat_request_ok demo_body" by (simp add: chat_request_ok_def chat_profiles_def demo_body_def u_def)
  ultimately show ?thesis
    using slot_comes_back [OF up fresh, where cfg = demo_chat_settings and qcfg = demo_query_settings and
      ccfg = demo_capacity and body = demo_body and uid = "''u1''" and n = 9]
    by (auto simp: demo_chat_env_def demo_body_def demo_chat_state_def)
qed

definition demo_line :: ustr where
  "demo_line = [97, 98, 99, 100, 101, 102, 103, 104, 105, 106, 107, 108] @ [91, 49, 93]"

lemma demo_line_scan: "finditer citation_pattern demo_line 0 False = [(12, 15, [(1, [49])])]"
  unfolding demo_line_def using digit_value_ascii [of 49] by (subst one_citation) (simp_all add: is_decimal_def)

lemma demo_line_cites: "cited_numbers demo_line = [1]" "re_search citation_pattern demo_line"
proof -
  show "cited_numbers demo_line = [1]"
    using digit_value_ascii [of 49] by (simp add: cited_numbers_def findall_group_def demo_line_scan group_def int_of_digits_def)
  show "re_search citation_pattern demo_line" using re_search_False_finditer [of citation_pattern demo_line] demo_line_scan by fastforce
qed

lemma demo_line_parts: "strip demo_line = demo_line" "lstrip demo_line = demo_line" "splitlines demo_line = [demo_line]"
    "factual_lines demo_line = [demo_line]" "has_substantive_answer demo_line"
proof -
  show strip: "strip demo_line = demo_line" "lstrip demo_line = demo_line"
    by (rule strip_id lstrip_id, simp add: demo_line_def is_space_def)+
  show lines: "splitlines demo_line = [demo_line]" by (simp add: demo_line_def splitlines_def is_linebreak_def)
  show "factual_lines demo_line = [demo_line]"
    unfolding factual_lines_def lines by (simp add: strip) (simp add: demo_line_def startswith_def)
  have "re_sub citation_pattern (\<lambda>m c. []) demo_line = [97, 98, 99, 100, 101, 102, 103, 104, 105, 106, 107, 108]"
    unfolding re_sub_def demo_line_scan by (simp add: demo_line_def slice_def)
  then show "has_substantive_answer demo_line"
    by (simp add: has_substantive_answer_def markup_char_def is_space_def u_def)
qed

definition demo_source :: retrieved where
  "demo_source = \<lparr>rc_chunk = ''c1'', rc_doc = ''d1'', rc_filename = u ''a.md'', rc_seq = 0, rc_page = None, rc_content = demo_line,
     rc_score = 1, rc_similarity = 1, rc_keyword_hit = True, rc_parent_seq = 0, rc_section = None, rc_content_type = ''text'',
     rc_source_url = None, rc_created = 0, rc_kb = ''k1''\<rparr>"

text \<open>The judge rejects the only claim, and the answer stays.\<close>

theorem entailment_cannot_block_witness:
  "\<not> en_supported (verify_claim_entailment demo_chat_settings (ce_judge demo_chat_env) (ce_loads demo_chat_env) (ce_read_int demo_chat_env)
       demo_line [demo_line]) \<and>
   av_answer (settle_answer demo_chat_settings demo_chat_env demo_line [demo_source]) = demo_line \<and>
   av_valid (settle_answer demo_chat_settings demo_chat_env demo_line [demo_source])"
proof -
  have cited: "well_cited demo_line (int (length [demo_source]))" by (simp add: well_cited_def demo_line_cites demo_line_parts)
  have ticks: "96 \<notin> set demo_line" by (simp add: demo_line_def)
  have lines: "list_all (\<lambda>l. strip l = [] \<or> supported (int (length [demo_source])) l) (splitlines demo_line)"
    by (simp add: demo_line_parts supported_def demo_line_cites)
  have "\<not> en_supported (verify_claim_entailment demo_chat_settings (ce_judge demo_chat_env) (ce_loads demo_chat_env) (ce_read_int demo_chat_env)
       demo_line [demo_line])"
    by (simp add: verify_claim_entailment_def extract_cited_claims_def demo_line_parts demo_line_cites demo_chat_env_def demo_chat_settings_def)
  with entailment_cannot_block [OF cited demo_line_parts(5) ticks _ demo_line_parts(1) lines, of demo_chat_settings demo_chat_env] show ?thesis
    by (simp add: demo_line_parts)
qed

end
