(* ===== verification/ParserClaims.thy ===== *)
theory ParserClaims
  imports Parser
begin

text \<open>
  What parsing guarantees: the exact lines a cleaned text consists of, the shape of the text, what the margin detection
  removes, CSV files read back, and which files are refused.
\<close>

section \<open>Replacing runs of characters\<close>

function collapse :: "(nat \<Rightarrow> bool) \<Rightarrow> ustr \<Rightarrow> ustr \<Rightarrow> ustr" where
  "collapse P r [] = []"
| "collapse P r (c # cs) = (if P c then r @ collapse P r (dropWhile P cs) else c # collapse P r cs)"
  by pat_completeness auto
termination
  by (relation "measure (\<lambda>(P, r, s). length s)") (auto simp: le_imp_less_Suc length_dropWhile_le)

lemma collapse_skip: "(\<And>c. c \<in> set a \<Longrightarrow> \<not> P c) \<Longrightarrow> collapse P r (a @ s) = a @ collapse P r s"
  by (induction a) auto

text \<open>\<open>re.sub(r"[...]+", repl, s)\<close>\<close>

lemma weave_runs:
  "pos \<le> length s \<Longrightarrow> weave s pos (finditer (Rep 1 None P) s pos False) (\<lambda>m c. r) = collapse P r (drop pos s)"
proof (induction "length s - pos" arbitrary: pos rule: less_induct)
  case less
  let ?a = "takeWhile (\<lambda>c. \<not> P c) (drop pos s)" let ?i = "pos + length ?a"
  have i: "?i \<le> length s" using less.prems length_takeWhile_le [of "\<lambda>c. \<not> P c" "drop pos s"] by simp
  have rest: "drop ?i s = dropWhile (\<lambda>c. \<not> P c) (drop pos s)"
    using dropWhile_eq_drop [of "\<lambda>c. \<not> P c" "drop pos s"] by (simp add: add.commute)
  have "ends (Rep 1 None P) s k [] = []" if "pos \<le> k" "k < ?i" for k
  proof -
    have "\<not> P (s ! k)" using nth_mem [of "k - pos" ?a] that less.prems set_takeWhileD [of "?a ! (k - pos)" "\<lambda>c. \<not> P c" "drop pos s"]
        takeWhile_nth [of "k - pos" "\<lambda>c. \<not> P c" "drop pos s"] by auto
    moreover have "drop k s = s ! k # drop (Suc k) s" using that i by (simp add: Cons_nth_drop_Suc)
    ultimately show ?thesis by (simp add: run_length_def)
  qed
  then have search: "search_from (Rep 1 None P) s pos False = search_from (Rep 1 None P) s ?i False"
    using search_skip [of pos ?i s] i by simp
  show ?case
  proof (cases "drop ?i s")
    case Nil
    have e: "ends (Rep 1 None P) s (length s) [] = []" by (simp add: run_length_def)
    have "length s \<le> ?i" using Nil by (simp only: drop_eq_Nil)
    with i have l: "?i = length s" by (rule antisym)
    have none: "search_from (Rep 1 None P) s pos False = None" using search_end [OF e] search unfolding l by (simp only:)
    have "\<forall>c \<in> set (drop pos s). \<not> P c" using Nil unfolding rest dropWhile_eq_Nil_conv by simp
    then show ?thesis
      using collapse_skip [of "drop pos s" P r "[]"] by (subst finditer.simps) (simp add: none [unfolded One_nat_def])
  next
    case (Cons c cs)
    then have c: "P c" using rest hd_dropWhile [of "\<lambda>c. \<not> P c" "drop pos s"] by (metis list.sel(1) list.simps(3))
    let ?j = "?i + Suc (length (takeWhile P cs))"
    have "run_length P None s ?i = Suc (length (takeWhile P cs))" using Cons c by (simp add: run_length_def)
    moreover have "rev [1..<Suc (Suc k)] = Suc k # rev [1..<Suc k]" for k by simp
    ultimately have "\<exists>es. ends (Rep 1 None P) s ?i [] = (?j, []) # es" by (simp del: upt_Suc)
    then have hit: "search_from (Rep 1 None P) s pos False = Some (?i, ?j, [])" using search search_hit [OF i] by auto
    have "length (takeWhile P cs) \<le> length cs" by (rule length_takeWhile_le)
    then have j: "?j \<le> length s" using arg_cong [OF Cons, of length] i by simp
    have "drop ?j s = drop (length (takeWhile P cs)) cs" using arg_cong [OF Cons, of "drop (Suc (length (takeWhile P cs)))"] by (simp add: add.commute)
    then have tail: "drop ?j s = dropWhile P cs" by (simp add: dropWhile_eq_drop)
    have "weave s ?j (finditer (Rep 1 None P) s ?j False) (\<lambda>m c. r) = collapse P r (dropWhile P cs)"
      unfolding tail [symmetric] by (rule less.hyps) (use j i in simp_all)
    moreover have "slice s pos ?i = ?a" by (simp add: slice_def takeWhile_eq_take [symmetric])
    ultimately have "weave s pos (finditer (Rep 1 None P) s pos False) (\<lambda>m c. r) = ?a @ r @ collapse P r (dropWhile P cs)"
      by (subst finditer.simps) (simp add: hit [unfolded One_nat_def])
    also have "\<dots> = collapse P r (?a @ drop ?i s)"
      using c by (subst collapse_skip) (auto simp: Cons dest: set_takeWhileD)
    also have "?a @ drop ?i s = drop pos s" unfolding rest by simp
    finally show ?thesis .
  qed
qed

lemma re_sub_runs: "re_sub (Rep 1 None P) (\<lambda>m c. r) s = collapse P r s"
  using weave_runs [of 0 s P r] by (simp add: re_sub_def)

lemma set_collapse: "c \<in> set (collapse P r s) \<Longrightarrow> c \<in> set r \<or> (c \<in> set s \<and> \<not> P c)"
proof (induction P r s rule: collapse.induct)
  case (2 P r c cs)
  then show ?case by (auto split: if_splits dest: set_dropWhileD)
qed simp

section \<open>The lines of a cleaned text\<close>

definition line_shape :: "ustr list \<Rightarrow> bool" where
  "line_shape ls \<longleftrightarrow> (\<forall>l \<in> set ls. 10 \<notin> set l \<and> strip l = l) \<and> (ls = [] \<or> hd ls \<noteq> []) \<and> successively (\<lambda>a b. a \<noteq> [] \<or> b \<noteq> []) ls"

lemma line_shape_snoc:
  "line_shape ls \<Longrightarrow> 10 \<notin> set l \<Longrightarrow> strip l = l \<Longrightarrow> l \<noteq> [] \<or> (ls \<noteq> [] \<and> last ls \<noteq> []) \<Longrightarrow> line_shape (ls @ [l])"
  by (auto simp: line_shape_def successively_append_iff hd_append)

lemma clean_lines_shape:
  "line_shape ls \<Longrightarrow> \<forall>raw \<in> set raws. 10 \<notin> set raw \<Longrightarrow> line_shape (clean_lines U d seen ls raws)"
proof (induction U d seen ls raws rule: clean_lines.induct)
  case (2 U d seen ls raw raws)
  have raw: "10 \<notin> set (strip raw)" using "2.prems"(2) set_strip [of raw] by auto
  have rest: "\<forall>raw \<in> set raws. 10 \<notin> set raw" using "2.prems"(2) by simp
  show ?case
  proof (cases "strip raw = [] \<or> re_match (boilerplate U) (strip raw)")
    case True
    have "line_shape (if ls \<noteq> [] \<and> last ls \<noteq> [] then ls @ [[]] else ls)"
      using "2.prems"(1) line_shape_snoc [of ls "[]"] by simp
    from "2.IH"(1) [OF refl refl True this rest] True show ?thesis by (simp add: Let_def)
  next
    case False
    show ?thesis
    proof (cases "d \<and> 12 \<le> length (line_key U (strip raw)) \<and> line_key U (strip raw) \<in> set seen")
      case True
      from "2.IH"(2) [OF refl refl False True "2.prems"(1) rest] True False show ?thesis by (simp add: Let_def)
    next
      case no: False
      have "line_shape (ls @ [strip raw])" using line_shape_snoc [OF "2.prems"(1) raw strip_strip] False by blast
      from "2.IH"(3) [OF refl refl False no this rest] False no show ?thesis by (auto simp: Let_def)
    qed
  qed
qed simp

text \<open>The lines that are kept, without reference to the order of the loop: a line is a fact when it is neither blank nor
  boilerplate; of long lines with the same key only the first fact stays.\<close>

definition is_fact :: "unicode \<Rightarrow> ustr \<Rightarrow> bool" where
  "is_fact U line \<longleftrightarrow> line \<noteq> [] \<and> \<not> re_match (boilerplate U) line"

definition repeats :: "unicode \<Rightarrow> ustr list \<Rightarrow> ustr \<Rightarrow> bool" where
  "repeats U earlier line \<longleftrightarrow> 12 \<le> length (line_key U line) \<and> list_ex (\<lambda>x. is_fact U x \<and> line_key U x = line_key U line) earlier"

definition kept_lines :: "unicode \<Rightarrow> bool \<Rightarrow> ustr list \<Rightarrow> ustr list" where
  "kept_lines U d ls = map snd (filter (\<lambda>(i, line). is_fact U line \<and> \<not> (d \<and> repeats U (take i ls) line)) (enum ls))"

lemma enum_snoc: "enum (xs @ [x]) = enum xs @ [(length xs, x)]"
  by (simp add: enum_def)

lemma kept_lines_snoc:
  "kept_lines U d (ls @ [l]) = kept_lines U d ls @ (if is_fact U l \<and> \<not> (d \<and> repeats U ls l) then [l] else [])"
proof -
  have "filter (\<lambda>(i, line). is_fact U line \<and> \<not> (d \<and> repeats U (take i (ls @ [l])) line)) (enum ls) =
      filter (\<lambda>(i, line). is_fact U line \<and> \<not> (d \<and> repeats U (take i ls) line)) (enum ls)"
    by (rule filter_cong) auto
  then show ?thesis by (simp add: kept_lines_def enum_snoc)
qed

definition with_gap :: "ustr list \<Rightarrow> ustr list" where
  "with_gap ls = (if ls \<noteq> [] \<and> last ls \<noteq> [] then ls @ [[]] else ls)"

definition known :: "unicode \<Rightarrow> bool \<Rightarrow> ustr list \<Rightarrow> ustr \<Rightarrow> bool" where
  "known U d seen line \<longleftrightarrow> d \<and> 12 \<le> length (line_key U line) \<and> line_key U line \<in> set seen"

lemma clean_lines_Cons:
  "clean_lines U d seen ls (raw # raws) =
     (if \<not> is_fact U (strip raw) then clean_lines U d seen (with_gap ls) raws
      else if known U d seen (strip raw) then clean_lines U d seen ls raws
      else clean_lines U d (if 12 \<le> length (line_key U (strip raw)) then line_key U (strip raw) # seen else seen) (ls @ [strip raw]) raws)"
  unfolding clean_lines.simps Let_def is_fact_def with_gap_def known_def by simp

lemma clean_lines_snoc:
  "clean_lines U d seen acc (raws @ [raw]) =
     (let ls = clean_lines U d seen acc raws in
      if \<not> is_fact U (strip raw) then with_gap ls
      else if known U d seen (strip raw) \<or> d \<and> repeats U (map strip raws) (strip raw) then ls
      else ls @ [strip raw])"
proof (induction raws arbitrary: seen acc)
  case Nil
  then show ?case by (simp add: clean_lines_Cons repeats_def del: clean_lines.simps(2))
next
  case (Cons r raws)
  let ?l = "strip r"
  consider "\<not> is_fact U ?l" | "is_fact U ?l" "known U d seen ?l" | "is_fact U ?l" "\<not> known U d seen ?l" by blast
  then show ?case
  proof cases
    case 1
    then have "repeats U (map strip (r # raws)) x = repeats U (map strip raws) x" for x by (simp add: repeats_def)
    with 1 show ?thesis by (simp add: clean_lines_Cons Cons.IH Let_def del: clean_lines.simps(2))
  next
    case 2
    then have "known U d seen x \<or> d \<and> repeats U (map strip (r # raws)) x \<longleftrightarrow> known U d seen x \<or> d \<and> repeats U (map strip raws) x" for x
      by (auto simp: known_def repeats_def)
    with 2 show ?thesis by (simp add: clean_lines_Cons Cons.IH Let_def del: clean_lines.simps(2))
  next
    case 3
    let ?s = "if 12 \<le> length (line_key U ?l) then line_key U ?l # seen else seen"
    have "known U d seen x \<or> d \<and> repeats U (map strip (r # raws)) x \<longleftrightarrow> known U d ?s x \<or> d \<and> repeats U (map strip raws) x" for x
      using 3(1) by (auto simp: known_def repeats_def)
    with 3 show ?thesis by (simp add: clean_lines_Cons Cons.IH Let_def del: clean_lines.simps(2))
  qed
qed

lemma clean_lines_kept: "filter (\<lambda>l. l \<noteq> []) (clean_lines U d [] [] raws) = kept_lines U d (map strip raws)"
proof (induction raws rule: rev_induct)
  case Nil
  then show ?case by (simp add: kept_lines_def enum_def)
next
  case (snoc raw raws)
  have "\<not> is_fact U []" by (simp add: is_fact_def)
  with snoc show ?case
    by (auto simp: clean_lines_snoc kept_lines_snoc Let_def known_def with_gap_def)
qed


section \<open>The cleaned text\<close>

lemma no_triple_newline:
  assumes "line_shape ls"
  shows "re_sub (Rep 3 None (ch 10)) (\<lambda>m c. r) (ujoin [10] ls) = ujoin [10] ls"
proof (rule re_sub_no_match, rule notI)
  let ?s = "ujoin [10] ls"
  assume "re_search (Rep 3 None (ch 10)) ?s"
  then obtain i n where "3 \<le> n" "\<forall>m < n. at_class (ch 10) ?s (i + m)" by (auto simp: re_search_iff)
  then have "at_class (ch 10) ?s i" "at_class (ch 10) ?s (Suc i)" "at_class (ch 10) ?s (Suc (Suc i))"
    by (auto dest: spec [of _ 0] spec [of _ 1] spec [of _ 2])
  then have nths: "?s ! i = 10" "?s ! Suc i = 10" "?s ! Suc (Suc i) = 10" "Suc (Suc i) < length ?s" by (simp_all add: at_class_def ch_def)
  then have "?s = take i ?s @ 10 # 10 # 10 # drop (Suc (Suc (Suc i))) ?s"
    by (metis Cons_nth_drop_Suc Suc_lessD append_take_drop_id)
  then obtain a b where ab: "?s = a @ 10 # 10 # 10 # b" by blast
  then have "ls \<noteq> []" by auto
  then have "ls = split_char 10 a @ [[]] @ [[]] @ split_char 10 b"
    using split_ujoin [of ls 10] assms ab split_append [of 10 a "10 # 10 # b"] split_append [of 10 "[]" "10 # b"] split_append [of 10 "[]" b]
    by (simp add: line_shape_def split_none)
  then show False using assms by (simp add: line_shape_def successively_append_iff)
qed

definition without_last_gap :: "ustr list \<Rightarrow> ustr list" where
  "without_last_gap ls = (if ls \<noteq> [] \<and> last ls = [] then butlast ls else ls)"

lemma without_last_gap_filter: "filter (\<lambda>l. l \<noteq> []) (without_last_gap ls) = filter (\<lambda>l. l \<noteq> []) ls"
  by (cases ls rule: rev_cases) (auto simp: without_last_gap_def)

lemma hd_ujoin: "ls \<noteq> [] \<Longrightarrow> hd ls \<noteq> [] \<Longrightarrow> hd (ujoin sep ls) = hd (hd ls) \<and> ujoin sep ls \<noteq> []"
  by (cases ls; cases "tl ls") auto

lemma last_ujoin: "ls \<noteq> [] \<Longrightarrow> last ls \<noteq> [] \<Longrightarrow> last (ujoin sep ls) = last (last ls)"
proof (cases ls rule: rev_cases)
  case (snoc ms m)
  moreover assume "last ls \<noteq> []"
  ultimately show ?thesis by (cases "ms = []") (simp_all add: ujoin_snoc)
qed simp

lemma strip_newline: "strip (s @ [10]) = strip s"
proof (cases "\<forall>c \<in> set s. is_space c")
  case True
  then have "strip (s @ [10]) = []" "strip s = []" by (simp_all add: strip_empty_iff is_space_def)
  then show ?thesis by simp
next
  case False
  then have "lstrip (s @ [10]) = lstrip s @ [10]" by (auto simp: lstrip_def dropWhile_append)
  then show ?thesis by (simp add: strip_def rstrip_def is_space_def)
qed

lemma strip_lines:
  assumes "line_shape ls"
  shows "strip (ujoin [10] ls) = ujoin [10] (without_last_gap ls)"
proof -
  have ends: "strip (ujoin [10] ms) = ujoin [10] ms" if "ms \<noteq> []" "hd ms \<noteq> []" "last ms \<noteq> []" "\<forall>l \<in> set ms. strip l = l" for ms
  proof (rule strip_id, rule disjI2)
    have "\<not> is_space (hd (hd ms))" "\<not> is_space (last (last ms))"
      using that strip_ends [of "hd ms"] strip_ends [of "last ms"] by auto
    then show "\<not> is_space (hd (ujoin [10] ms)) \<and> \<not> is_space (last (ujoin [10] ms))"
      using that hd_ujoin [of ms "[10]"] last_ujoin [of ms "[10]"] by simp
  qed
  show ?thesis
  proof (cases "ls \<noteq> [] \<and> last ls = []")
    case False
    then show ?thesis using assms ends [of ls] by (cases "ls = []") (simp_all add: line_shape_def without_last_gap_def)
  next
    case True
    then obtain ms where ms: "ls = ms @ [[]]" by (metis append_butlast_last_id)
    then have "ms \<noteq> []" "hd ms \<noteq> []" "last ms \<noteq> []" "\<forall>l \<in> set ms. strip l = l"
      using assms by (auto simp: line_shape_def successively_append_iff hd_append split: if_splits)
    with ends [of ms] ms True ujoin_snoc [of ms "[10]" "[]"] strip_newline [of "ujoin [10] ms"] show ?thesis
      by (simp add: without_last_gap_def)
  qed
qed

lemma clean_text_lines:
  "clean_text U d t = ujoin [10] (without_last_gap (clean_lines U d [] [] (splitlines (normalise_chars U t))))"
    and clean_text_shape: "line_shape (clean_lines U d [] [] (splitlines (normalise_chars U t)))"
proof -
  have "\<forall>raw \<in> set (splitlines x). 10 \<notin> set raw" for x using splitlines_no_break [of _ x 10] by (auto simp: is_linebreak_def)
  then show shape: "line_shape (clean_lines U d [] [] (splitlines (normalise_chars U t)))"
    by (intro clean_lines_shape) (simp_all add: line_shape_def)
  show "clean_text U d t = ujoin [10] (without_last_gap (clean_lines U d [] [] (splitlines (normalise_chars U t))))"
    by (simp add: clean_text_def no_triple_newline [OF shape] strip_lines [OF shape])
qed

lemma set_drop_Cons: "c \<in> set (drop n (a # s)) \<Longrightarrow> c = a \<or> c \<in> set s"
  using in_set_dropD [of c n "a # s"] by simp

lemma set_replace_all: "c \<in> set (replace_all old new s) \<Longrightarrow> c \<in> set new \<or> c \<in> set s"
proof (induction old new s rule: replace_all.induct)
  case (1 old new s)
  then show ?case by (cases s) (auto split: if_splits simp del: drop_Cons' dest: in_set_dropD set_drop_Cons)
qed

lemma replace_single: "replace_all [a] [b] s = map (\<lambda>c. if c = a then b else c) s"
  by (induction s) (auto simp: startswith_def)

definition plain_char :: "nat \<Rightarrow> bool" where
  "plain_char c \<longleftrightarrow> (32 \<le> c \<and> c \<noteq> 127 \<or> c = 10) \<and> c \<noteq> 65279 \<and> c \<noteq> 65533"

lemma newlines_unified:
  assumes "x \<in> set (replace_all [13] [10] (replace_all [13, 10] [10] t))"
  shows "x \<noteq> 13 \<and> (x = 10 \<or> x \<in> set t)"
proof -
  from assms have "x \<in> (\<lambda>c. if c = 13 then 10 else c) ` set (replace_all [13, 10] [10] t)" by (simp only: replace_single set_map)
  then obtain y where x: "x = (if y = 13 then 10 else y)" and "y \<in> set (replace_all [13, 10] [10] t)" by (rule imageE)
  then have "y \<in> set [10] \<or> y \<in> set t" by (intro set_replace_all)
  with x show ?thesis by auto
qed

lemma normalise_plain:
  assumes "c \<in> set (normalise_chars U t)"
  shows "plain_char c"
proof -
  let ?t = "filter (\<lambda>c. \<not> control_char c) (filter (\<lambda>c. c \<noteq> 65279 \<and> c \<noteq> 65533) (unprotect (nfkc U (protect t))))"
  have "c \<in> set (collapse (one_of [32, 9]) [32] (replace_all [13] [10] (replace_all [13, 10] [10] ?t)))"
    using assms by (simp only: normalise_chars_def Let_def re_sub_runs)
  from set_collapse [OF this] consider "c = 32" | "c \<in> set (replace_all [13] [10] (replace_all [13, 10] [10] ?t))" "\<not> one_of [32, 9] c" by auto
  then show ?thesis
  proof cases
    case 2
    from newlines_unified [OF 2(1)] have "c \<noteq> 13" "c = 10 \<or> \<not> control_char c \<and> c \<noteq> 65279 \<and> c \<noteq> 65533" by auto
    with 2(2) show ?thesis by (auto simp: plain_char_def control_char_def one_of_def)
  qed (simp add: plain_char_def)
qed

lemma without_last_gap_shape:
  assumes "line_shape ls"
  shows "line_shape (without_last_gap ls)" and "without_last_gap ls \<noteq> [] \<Longrightarrow> last (without_last_gap ls) \<noteq> []"
proof -
  have "line_shape (without_last_gap ls) \<and> (without_last_gap ls \<noteq> [] \<longrightarrow> last (without_last_gap ls) \<noteq> [])"
  proof (cases "ls \<noteq> [] \<and> last ls = []")
    case True
    then obtain ms where ms: "ls = ms @ [[]]" by (metis append_butlast_last_id)
    then have "successively (\<lambda>a b. a \<noteq> [] \<or> b \<noteq> []) ms" "ms \<noteq> [] \<Longrightarrow> last ms \<noteq> []"
      using assms unfolding line_shape_def ms successively_append_iff by simp_all
    then show ?thesis using assms by (auto simp: without_last_gap_def line_shape_def ms hd_append)
  qed (use assms in \<open>auto simp: without_last_gap_def\<close>)
  then show "line_shape (without_last_gap ls)" "without_last_gap ls \<noteq> [] \<Longrightarrow> last (without_last_gap ls) \<noteq> []" by auto
qed

lemma split_clean_text:
  "split_char 10 (clean_text U d t) =
     (let ls = without_last_gap (clean_lines U d [] [] (splitlines (normalise_chars U t))) in if ls = [] then [[]] else ls)"
  using without_last_gap_shape(1) [OF clean_text_shape [of U d t]] split_ujoin [of _ 10]
  by (simp add: clean_text_lines line_shape_def Let_def split_none)

lemma chars_splitlines_aux: "\<Union>(set ` set (splitlines_aux acc s)) \<subseteq> set acc \<union> set s"
  by (induction acc s rule: splitlines_aux.induct) (fastforce split: if_splits dest: list.set_sel(2))+

lemma chars_splitlines: "l \<in> set (splitlines s) \<Longrightarrow> set l \<subseteq> set s"
  using chars_splitlines_aux [of "[]" s] by (auto simp: splitlines_def)

lemma lines_clean_lines:
  "set (clean_lines U d [] [] raws) \<subseteq> insert [] (strip ` set raws)"
proof (induction raws rule: rev_induct)
  case (snoc raw raws)
  then show ?case by (auto simp: clean_lines_snoc Let_def with_gap_def)
qed simp

lemma set_ujoin: "set (ujoin sep ls) \<subseteq> set sep \<union> \<Union>(set ` set ls)"
  by (induction sep ls rule: ujoin.induct) auto

lemma plain_clean_text: "list_all plain_char (clean_text U d t)"
proof (unfold list_all_iff, rule ballI)
  fix c assume c: "c \<in> set (clean_text U d t)"
  let ?raws = "splitlines (normalise_chars U t)" let ?ls = "without_last_gap (clean_lines U d [] [] ?raws)"
  have "set ?ls \<subseteq> insert [] (strip ` set ?raws)"
    using lines_clean_lines [of U d ?raws] by (auto simp: without_last_gap_def dest: in_set_butlastD)
  then have "set l \<subseteq> set (normalise_chars U t)" if "l \<in> set ?ls" for l
    using that set_strip chars_splitlines [of _ "normalise_chars U t"] by fastforce
  then have "c = 10 \<or> c \<in> set (normalise_chars U t)"
    using c set_ujoin [of "[10]" ?ls] unfolding clean_text_lines by auto
  then show "plain_char c" using normalise_plain [of c U t] by (auto simp: plain_char_def)
qed

definition single_gaps :: "ustr list \<Rightarrow> bool" where
  "single_gaps ls \<longleftrightarrow> successively (\<lambda>a b. a \<noteq> [] \<or> b \<noteq> []) ls"

text \<open>C10: The text every parser produces is exactly determined. Its lines that are not empty are the trimmed lines of the
  normalised input that are neither blank nor boilerplate, in their order and, when deduplication is on, without those
  that repeat the key of an earlier such line of at least twelve characters; nothing else is lost, merged or
  reordered. The text holds no control character, no byte order mark and no carriage return, has no white space at its ends,
  and never two blank lines in a row.\<close>

theorem clean_text_exact:
  "filter (\<lambda>l. l \<noteq> []) (split_char 10 (clean_text U d t)) = kept_lines U d (map strip (splitlines (normalise_chars U t))) \<and>
   list_all plain_char (clean_text U d t) \<and> strip (clean_text U d t) = clean_text U d t \<and>
   single_gaps (split_char 10 (clean_text U d t))"
proof (intro conjI)
  show "filter (\<lambda>l. l \<noteq> []) (split_char 10 (clean_text U d t)) = kept_lines U d (map strip (splitlines (normalise_chars U t)))"
    using without_last_gap_filter [of "clean_lines U d [] [] (splitlines (normalise_chars U t))"]
    by (auto simp: split_clean_text Let_def clean_lines_kept)
  show "strip (clean_text U d t) = clean_text U d t" by (simp add: clean_text_def)
  show "single_gaps (split_char 10 (clean_text U d t))"
    using without_last_gap_shape(1) [OF clean_text_shape [of U d t]] by (simp add: split_clean_text Let_def line_shape_def single_gaps_def)
qed (rule plain_clean_text)


section \<open>CSV files read back\<close>

text \<open>A CSV file as writers make it (RFC 4180): rows end with a carriage return and a line feed, cells are separated by
  commas, a cell with a quote, a comma or a line end is quoted with its quotes doubled. \<open>q\<close> says which other cells
  the writer quotes; a row of a single empty cell is always quoted, for without it the line would be blank.\<close>

definition csv_escape :: "ustr \<Rightarrow> ustr" where
  "csv_escape f = concat (map (\<lambda>c. if c = 34 then [34, 34] else [c]) f)"

definition csv_cell :: "(ustr \<Rightarrow> bool) \<Rightarrow> ustr \<Rightarrow> ustr" where
  "csv_cell q f = (if q f \<or> list_ex (\<lambda>c. c = 34 \<or> c = 44 \<or> newline_char c) f then 34 # csv_escape f @ [34] else f)"

definition csv_line :: "(ustr \<Rightarrow> bool) \<Rightarrow> ustr list \<Rightarrow> ustr" where
  "csv_line q row = (if row = [[]] then [34, 34] else ujoin [44] (map (csv_cell q) row)) @ [13, 10]"

definition csv_file :: "(ustr \<Rightarrow> bool) \<Rightarrow> ustr list list \<Rightarrow> ustr" where
  "csv_file q rows = concat (map (csv_line q) rows)"

definition storable_row :: "ustr list \<Rightarrow> bool" where
  "storable_row row \<longleftrightarrow> row \<noteq> [] \<and> list_all (\<lambda>f. length f \<le> csv_limit) row"

text \<open>The reader gets lines; feeding it characters one after the other is the same as long as a line does not end.\<close>

lemma stream_lines_acc: "s \<noteq> [] \<Longrightarrow> \<exists>l rest. stream_lines [] s = l # rest \<and> (\<forall>acc. stream_lines acc s = (acc @ l) # rest)"
proof (induction s)
  case (Cons c s)
  then show ?case
  proof (cases s)
    case (Cons d cs)
    with Cons.IH obtain l rest where "\<And>acc. stream_lines acc (d # cs) = (acc @ l) # rest" by (metis append_Nil list.simps(3))
    with Cons show ?thesis by (cases "c = 13 \<and> d = 10") auto
  qed simp
qed simp

lemma csv_chars_append: "csv_chars (xs @ ys) st = Option.bind (csv_chars xs st) (csv_chars ys)"
  by (induction xs arbitrary: st) (auto split: option.splits)

definition reads :: "nat \<Rightarrow> csv_state \<Rightarrow> ustr \<Rightarrow> ustr list list option" where
  "reads n st s = csv_rows (Suc n) st (stream_lines [] s)"

lemma reads_char:
  assumes "s \<noteq> []" "\<not> newline_char c" "csv_char (Some c) st = Some st1"
  shows "reads n st (c # s) = reads n st1 s"
proof -
  obtain l rest where l: "stream_lines [] s = l # rest" "\<And>acc. stream_lines acc s = (acc @ l) # rest" using stream_lines_acc [OF assms(1)] by blast
  have "stream_lines [] (c # s) = ([c] @ l) # rest"
    using assms(1,2) l(2) [of "[c]"] by (cases s) (auto simp: newline_char_def)
  then show ?thesis using assms(3) by (simp add: reads_def l csv_chars_append)
qed

lemma csv_simps:
  "csv_start_field None st = Some (save_field StartRecord st)"
  "csv_start_field (Some c) st = (if newline_char c then Some (save_field EatNewline st)
     else if c = 34 then Some (st\<lparr>cs_mode := InQuoted\<rparr>) else if c = 44 then Some (save_field StartField st) else add_char c InField st)"
  by (simp_all add: csv_start_field_def)

lemma reads_quoted_char:
  assumes "s \<noteq> []" "newline_char c" "\<not> (c = 13 \<and> hd s = 10)" "cs_mode st = InQuoted" "add_char c InQuoted st = Some st1"
  shows "reads n st (c # s) = reads n st1 s"
proof -
  have "c \<noteq> 34" using assms(2) by (auto simp: newline_char_def)
  then have "csv_chars [Some c, None] st = Some st1" "cs_mode st1 = InQuoted"
    using assms(4,5) by (auto simp: csv_char_def add_char_def split: if_splits)
  with assms(1-3) show ?thesis by (cases s) (auto simp: reads_def)
qed

lemma csv_escape_simps: "csv_escape [] = []" "csv_escape (c # f) = (if c = 34 then [34, 34] else [c]) @ csv_escape f"
  by (simp_all add: csv_escape_def)

text \<open>A quoted cell, from after its opening quote.\<close>

lemma reads_quoted:
  assumes "cs_mode st = InQuoted" "length (cs_field st) + length f \<le> csv_limit" "s \<noteq> []"
  shows "reads n st (csv_escape f @ 34 # s) = reads n (st\<lparr>cs_mode := QuoteInQuoted, cs_field := cs_field st @ f\<rparr>) s"
  using assms(1,2)
proof (induction "length f" arbitrary: f st rule: less_induct)
  case less
  show ?case
  proof (cases f)
    case Nil
    then show ?thesis using assms(3) less.prems by (simp add: csv_escape_simps reads_char newline_char_def csv_char_def)
  next
    case (Cons c g)
    let ?st = "st\<lparr>cs_field := cs_field st @ [c]\<rparr>" let ?g = "csv_escape g @ 34 # s"
    let ?all = "reads n (st\<lparr>cs_mode := QuoteInQuoted, cs_field := cs_field st @ f\<rparr>) s"
    have add: "add_char c InQuoted st = Some ?st" using less.prems Cons by (simp add: add_char_def)
    have rec: "reads n ?st ?g = ?all" using less.prems less.hyps [of g ?st] Cons by simp
    consider "c = 34" | "\<not> newline_char c" "c \<noteq> 34" | h where "c = 13" "g = 10 # h"
      | "newline_char c" "\<not> (c = 13 \<and> g \<noteq> [] \<and> hd g = 10)" by (cases g) auto
    then show ?thesis
    proof cases
      case 1
      have q: "csv_char (Some 34) st = Some (st\<lparr>cs_mode := QuoteInQuoted\<rparr>)" using less.prems(1) by (simp add: csv_char_def)
      have qq: "csv_char (Some 34) (st\<lparr>cs_mode := QuoteInQuoted\<rparr>) = Some ?st" using less.prems Cons 1 by (simp add: csv_char_def add_char_def)
      show ?thesis using 1 rec Cons by (simp add: csv_escape_simps reads_char [OF _ _ q] reads_char [OF _ _ qq] newline_char_def)
    next
      case 2
      then show ?thesis using less.prems(1) add rec Cons by (simp add: csv_escape_simps reads_char csv_char_def)
    next
      case 3
      let ?st2 = "st\<lparr>cs_field := cs_field st @ [13, 10]\<rparr>"
      have "csv_chars [Some 13, Some 10, None] st = Some ?st2" "cs_mode ?st2 = InQuoted"
        using less.prems 3 Cons by (simp_all add: csv_char_def add_char_def)
      then have "reads n st (csv_escape f @ 34 # s) = reads n ?st2 (csv_escape h @ 34 # s)"
        using 3 Cons by (simp add: csv_escape_simps reads_def)
      with less.prems less.hyps [of h ?st2] 3 Cons show ?thesis by simp
    next
      case 4
      then have "\<not> (c = 13 \<and> hd ?g = 10)" "c \<noteq> 34" by (cases g; auto simp: csv_escape_simps newline_char_def)+
      then show ?thesis using 4 rec reads_quoted_char [of ?g c st ?st n] less.prems(1) add Cons by (simp add: csv_escape_simps)
    qed
  qed
qed

text \<open>A cell that is not quoted.\<close>

lemma reads_plain:
  assumes "list_all (\<lambda>c. \<not> newline_char c \<and> c \<noteq> 44) f" "length (cs_field st) + length f \<le> csv_limit" "s \<noteq> []" "cs_mode st = InField"
  shows "reads n st (f @ s) = reads n (st\<lparr>cs_field := cs_field st @ f\<rparr>) s"
  using assms(1,2,4)
proof (induction f arbitrary: st)
  case (Cons c f)
  then have "csv_char (Some c) st = Some (st\<lparr>cs_field := cs_field st @ [c]\<rparr>)" by (simp add: csv_char_def add_char_def)
  then show ?case using Cons.prems assms(3) Cons.IH [of "st\<lparr>cs_field := cs_field st @ [c]\<rparr>"] by (simp add: reads_char)
qed simp

text \<open>A cell followed by a comma or by the end of the line.\<close>

definition at_cell :: "ustr list \<Rightarrow> csv_state \<Rightarrow> bool" where
  "at_cell fs st \<longleftrightarrow> st = \<lparr>cs_mode = (if fs = [] then StartRecord else StartField), cs_field = [], cs_fields = fs\<rparr>"

lemma cell_read:
  assumes "at_cell fs st" "length f \<le> csv_limit" "c = 44 \<or> c = 13 \<and> (fs \<noteq> [] \<or> csv_cell q f \<noteq> [])" "s \<noteq> []"
  shows "\<exists>st1. reads n st (csv_cell q f @ c # s) = reads n st1 (c # s) \<and>
    csv_char (Some c) st1 = Some (save_field (if c = 44 then StartField else EatNewline) \<lparr>cs_mode = StartField, cs_field = f, cs_fields = fs\<rparr>)"
proof (cases "q f \<or> list_ex (\<lambda>c. c = 34 \<or> c = 44 \<or> newline_char c) f")
  case True
  let ?st = "\<lparr>cs_mode = InQuoted, cs_field = [], cs_fields = fs\<rparr>"
  have "csv_char (Some 34) st = Some ?st" using assms(1) by (simp add: at_cell_def csv_char_def csv_start_field_def newline_char_def)
  then have "reads n st (csv_cell q f @ c # s) = reads n (?st\<lparr>cs_mode := QuoteInQuoted, cs_field := f\<rparr>) (c # s)"
    using True reads_quoted [of ?st f "c # s" n] assms(2) reads_char [of "csv_escape f @ 34 # c # s" 34 st ?st n]
    by (simp add: csv_cell_def newline_char_def)
  moreover have "csv_char (Some c) (?st\<lparr>cs_mode := QuoteInQuoted, cs_field := f\<rparr>) =
      Some (save_field (if c = 44 then StartField else EatNewline) \<lparr>cs_mode = StartField, cs_field = f, cs_fields = fs\<rparr>)"
    using assms(3) by (auto simp: csv_char_def save_field_def newline_char_def)
  ultimately show ?thesis by blast
next
  case False
  then have cell: "csv_cell q f = f" by (simp add: csv_cell_def)
  show ?thesis
  proof (cases f)
    case Nil
    have "csv_char (Some c) st = Some (save_field (if c = 44 then StartField else EatNewline) \<lparr>cs_mode = StartField, cs_field = f, cs_fields = fs\<rparr>)"
      using assms(1,3) Nil cell by (auto simp: at_cell_def csv_char_def csv_start_field_def save_field_def newline_char_def)
    then show ?thesis using cell Nil by (intro exI [of _ st]) simp
  next
    case (Cons d g)
    let ?st = "\<lparr>cs_mode = InField, cs_field = [d], cs_fields = fs\<rparr>"
    have d: "\<not> newline_char d" "d \<noteq> 34" "d \<noteq> 44" and g: "list_all (\<lambda>c. \<not> newline_char c \<and> c \<noteq> 44) g"
      using False Cons by (auto simp: list_all_iff list_ex_iff)
    then have "csv_char (Some d) st = Some ?st" using assms(1,2) Cons by (auto simp: at_cell_def csv_char_def csv_start_field_def add_char_def)
    then have "reads n st (csv_cell q f @ c # s) = reads n (?st\<lparr>cs_field := f\<rparr>) (c # s)"
      using d(1) reads_plain [OF g, of ?st "c # s" n] assms(2) Cons cell by (simp add: reads_char)
    moreover have "csv_char (Some c) (?st\<lparr>cs_field := f\<rparr>) =
        Some (save_field (if c = 44 then StartField else EatNewline) \<lparr>cs_mode = StartField, cs_field = f, cs_fields = fs\<rparr>)"
      using assms(3) by (auto simp: csv_char_def save_field_def newline_char_def)
    ultimately show ?thesis by blast
  qed
qed

lemma row_read:
  assumes "row \<noteq> []" "list_all (\<lambda>f. length f \<le> csv_limit) row" "at_cell fs st" "fs \<noteq> [] \<or> ujoin [44] (map (csv_cell q) row) \<noteq> []"
  shows "reads n st (ujoin [44] (map (csv_cell q) row) @ 13 # 10 # s) = map_option ((#) (fs @ row)) (csv_rows n csv_begin (stream_lines [] s))"
  using assms
proof (induction row arbitrary: fs st)
  case (Cons f row)
  show ?case
  proof (cases "row = []")
    case True
    have "13 = (44 :: nat) \<or> 13 = (13 :: nat) \<and> (fs \<noteq> [] \<or> csv_cell q f \<noteq> [])" "length f \<le> csv_limit"
      using Cons.prems(2,4) True by simp_all
    then obtain st1 where st1: "reads n st (csv_cell q f @ 13 # 10 # s) = reads n st1 (13 # 10 # s)"
      "csv_char (Some 13) st1 = Some (save_field EatNewline \<lparr>cs_mode = StartField, cs_field = f, cs_fields = fs\<rparr>)"
      using cell_read [OF Cons.prems(3), of f 13 q "10 # s" n] by auto
    have "csv_chars [Some 13, Some 10, None] st1 = Some (save_field StartRecord \<lparr>cs_mode = StartField, cs_field = f, cs_fields = fs\<rparr>)"
      using st1(2) by (simp add: csv_char_def save_field_def newline_char_def)
    then show ?thesis using st1(1) True by (simp add: reads_def save_field_def)
  next
    case False
    let ?rest = "ujoin [44] (map (csv_cell q) row) @ 13 # 10 # s"
    let ?st = "save_field StartField \<lparr>cs_mode = StartField, cs_field = f, cs_fields = fs\<rparr>"
    obtain st1 where "reads n st (csv_cell q f @ 44 # ?rest) = reads n st1 (44 # ?rest)" "csv_char (Some 44) st1 = Some ?st"
      using cell_read [OF Cons.prems(3), of f 44 q ?rest n] Cons.prems(2) by auto
    then have "reads n st (csv_cell q f @ 44 # ?rest) = reads n ?st ?rest" by (simp add: reads_char newline_char_def)
    moreover have "at_cell (fs @ [f]) ?st" by (simp add: at_cell_def save_field_def)
    ultimately show ?thesis using Cons.IH [of "fs @ [f]" ?st] Cons.prems False by (simp add: ujoin_Cons)
  qed
qed simp

lemma ujoin_cells_empty: "row \<noteq> [] \<Longrightarrow> ujoin [44] (map (csv_cell q) row) = [] \<Longrightarrow> row = [[]]"
  by (cases row; cases "tl row") (auto simp: csv_cell_def split: if_splits)

lemma csv_file_read: "list_all storable_row rows \<Longrightarrow> csv_rows n csv_begin (stream_lines [] (csv_file q rows)) = Some (take n rows)"
proof (induction rows arbitrary: n)
  case Nil
  then show ?case by (cases n) (simp_all add: csv_file_def csv_begin_def)
next
  case (Cons row rows)
  define q1 where "q1 = (if row = [[]] then \<lambda>f. True else q)"
  have line: "csv_line q row = ujoin [44] (map (csv_cell q1) row) @ [13, 10]" by (simp add: csv_line_def q1_def csv_cell_def csv_escape_def)
  have "ujoin [44] (map (csv_cell q1) row) \<noteq> []"
  proof (cases "row = [[]]")
    case True
    then show ?thesis by (simp add: q1_def csv_cell_def)
  next
    case False
    then show ?thesis using ujoin_cells_empty [of row q1] Cons.prems by (simp add: storable_row_def) blast
  qed
  moreover have "at_cell [] csv_begin" by (simp add: at_cell_def csv_begin_def)
  ultimately have "reads m csv_begin (csv_file q (row # rows)) = map_option ((#) row) (csv_rows m csv_begin (stream_lines [] (csv_file q rows)))" for m
    using row_read [of row "[]" csv_begin q1 m "csv_file q rows"] Cons.prems by (simp add: csv_file_def line storable_row_def)
  then show ?case using Cons by (cases n) (simp_all add: reads_def)
qed

text \<open>C11: CSV files read back. What a standard writer makes of a list of rows, with whatever cells quoted, with commas, quotes and
  line ends of every kind inside the cells, gives exactly one table segment, named after the file: the table of these
  rows, each cell cleaned, up to the configured number of rows; no cell is cut, split, merged or shifted.\<close>

theorem csv_round_trip:
  assumes "list_all storable_row rows"
  shows "parse_csv cfg U path (csv_file q rows) = Some
    [\<lparr>sg_text = markdown_table U (map (map (clean_text U False)) (take (max_spreadsheet_rows cfg) rows)), sg_page = None,
      sg_section = Some (path_stem path), sg_content_type = ''table'', sg_source_url = None\<rparr>]"
  using csv_file_read [OF assms] by (simp add: parse_csv_def)

theorem csv_round_trip_witness:
  "\<forall>cfg U path q. parse_csv cfg U path (csv_file q [[[97, 44, 34, 13, 10], []], [[]], [[98]]]) = Some
    [\<lparr>sg_text = markdown_table U (map (map (clean_text U False)) (take (max_spreadsheet_rows cfg) [[[97, 44, 34, 13, 10], []], [[]], [[98]]])),
      sg_page = None, sg_section = Some (path_stem path), sg_content_type = ''table'', sg_source_url = None\<rparr>]"
  by (intro allI, rule csv_round_trip) (simp add: storable_row_def csv_limit_def)

section \<open>Page margins\<close>

lemma margin_key_collapse: "margin_key U line = casefold U (collapse is_decimal [35] (collapse is_space [32] line))"
  unfolding margin_key_def re_sub_runs ..

lemma count_concat_bound: "count_list (concat (map f xs)) k \<le> m * length (filter (\<lambda>x. k \<in> set (f x)) xs)" if "\<And>x. count_list (f x) k \<le> m"
  using that by (induction xs) (auto simp: add_le_mono count_notin)

text \<open>A page contributes a key at most twice, so that a key is removed everywhere only if it heads or ends at least three
  pages in ten.\<close>

lemma margin_share:
  assumes "repeated_key U pls k"
  shows "3 * length pls \<le> 10 * length (filter (\<lambda>lines. k \<in> set (margin_keys U lines)) pls)"
proof -
  let ?n = "count_list (concat (map (margin_keys U) pls)) k" let ?m = "length (filter (\<lambda>lines. k \<in> set (margin_keys U lines)) pls)"
  have "length (margin_keys U lines) \<le> 2" for lines
  proof -
    have "length (margin_keys U lines) \<le> length (map (margin_key U) (remdups (take 1 lines @ last_n 1 lines)))"
      unfolding margin_keys_def by (rule length_filter_le)
    also have "\<dots> = length (remdups (take 1 lines @ last_n 1 lines))" by (rule length_map)
    also have "\<dots> \<le> length (take 1 lines @ last_n 1 lines)" by (rule length_remdups_leq)
    also have "\<dots> \<le> 2" by (simp add: last_n_def min_def)
    finally show ?thesis .
  qed
  then have "count_list (margin_keys U lines) k \<le> 2" for lines by (rule order_trans [OF count_le_length])
  then have n: "?n \<le> 2 * ?m" by (rule count_concat_bound)
  from assms have pos: "0 < ?n" and share: "(6 :: rat) / 10 \<le> of_nat ?n / of_nat (length pls)" by (simp_all add: repeated_key_def Let_def)
  have "pls \<noteq> []" using pos by auto
  then have "(6 :: rat) / 10 * of_nat (length pls) \<le> of_nat ?n" using share by (simp add: pos_le_divide_eq)
  then have "of_nat (6 * length pls) \<le> (of_nat (10 * ?n) :: rat)" by simp
  then have "6 * length pls \<le> 10 * ?n" by (simp only: of_nat_le_iff)
  with n show ?thesis by simp
qed

text \<open>Three pages in ten are enough, although a margin is described as a line of most pages: a page counts twice when its first and its last line have the
  same key, as ``p1'' and ``p2'' have.\<close>

lemma count_concat_replicate: "count_list (concat (replicate n xs)) k = n * count_list xs k"
  by (induction n) auto

lemma minority_margin:
  assumes U: "casefold U = (\<lambda>s. s)"
  shows "remove_repeated_margins U (replicate 3 [112, 49, 10, 112, 50] @ replicate 7 [120, 10, 112, 55, 10, 121]) =
    replicate 3 [] @ replicate 7 [120, 10, 121]"
proof -
  have d: "is_decimal 49" "is_decimal 50" "is_decimal 55" "\<not> is_decimal 112" "\<not> is_decimal 120" "\<not> is_decimal 121" by (simp_all add: is_decimal_def digit_value_def decimal_zeros_def)
  have keys: "margin_key U [112, 49] = [112, 35]" "margin_key U [112, 50] = [112, 35]" "margin_key U [112, 55] = [112, 35]"
    "margin_key U [120] = [120]" "margin_key U [121] = [121]"
    by (simp_all add: margin_key_collapse U d is_space_def)
  have pages: "page_lines [112, 49, 10, 112, 50] = [[112, 49], [112, 50]]" "page_lines [120, 10, 112, 55, 10, 121] = [[120], [112, 55], [121]]"
    by (simp_all add: page_lines_def splitlines_def is_linebreak_def strip_def lstrip_def rstrip_def is_space_def)
  have margins: "margin_keys U [[112, 49], [112, 50]] = [[112, 35], [112, 35]]" "margin_keys U [[120], [112, 55], [121]] = []"
    by (simp_all add: margin_keys_def last_n_def keys)
  let ?pls = "replicate 3 [[112, 49], [112, 50]] @ replicate 7 [[120], [112, 55], [121]]"
  have "repeated_key U ?pls [112, 35]" "\<not> repeated_key U ?pls [120]" "\<not> repeated_key U ?pls [121]"
    unfolding repeated_key_def Let_def map_append map_replicate margins by (simp_all add: count_concat_replicate)
  then show ?thesis by (simp add: remove_repeated_margins_def Let_def pages keys)
qed

section \<open>What every parser returns\<close>

definition plain_text :: "ustr \<Rightarrow> bool" where "plain_text t \<longleftrightarrow> list_all plain_char t"

lemma plain_text_simps [simp]: "plain_text []" "plain_text (clean_text U d t)" "plain_text (markdown_table U rows)" "plain_text (a @ b) \<longleftrightarrow> plain_text a \<and> plain_text b"
  "plain_text (c # s) \<longleftrightarrow> plain_char c \<and> plain_text s"
  using plain_clean_text by (simp_all add: plain_text_def markdown_table_def Let_def)

lemma plain_strip: "plain_text t \<Longrightarrow> plain_text (strip t)"
  using set_strip [of t] by (auto simp: plain_text_def list_all_iff)

lemma plain_ujoin: "plain_text sep \<Longrightarrow> list_all plain_text ts \<Longrightarrow> plain_text (ujoin sep ts)"
  by (induction sep ts rule: ujoin.induct) simp_all

definition plain_segments :: "segment list \<Rightarrow> bool" where "plain_segments = list_all (\<lambda>s. plain_text (sg_text s))"

lemma plain_segments_simps [simp]:
  "plain_segments []" "plain_segments (a @ b) \<longleftrightarrow> plain_segments a \<and> plain_segments b" "plain_segments (s # ss) \<longleftrightarrow> plain_text (sg_text s) \<and> plain_segments ss"
  "sg_text (text_segment t sect) = t"
  by (simp_all add: plain_segments_def text_segment_def)

lemma plain_concat: "(\<And>x. plain_segments (f x)) \<Longrightarrow> plain_segments (concat (map f xs))"
  by (induction xs) simp_all

lemma plain_markdown: "plain_segments (markdown_loop U sect buffer lines)"
  by (induction U sect buffer lines rule: markdown_loop.induct) (auto split: option.split)

lemma plain_docx: "plain_segments (docx_loop U sect buffer paras)"
  by (induction U sect buffer paras rule: docx_loop.induct) (simp_all add: docx_flush_def Let_def)

lemma plain_html: "plain_segments (html_loop U sect buffer nodes)"
  by (induction U sect buffer nodes rule: html_loop.induct) (simp_all add: Let_def)

lemma plain_pdf_page: "pdf_page cfg U f i page = Some s \<Longrightarrow> plain_text (sg_text s)"
proof -
  have ten: "plain_char 10" by (simp add: plain_char_def)
  then have tables: "plain_text ts" if "pdf_tables cfg U f i = Some ts" for ts
    using that by (auto simp: pdf_tables_def list_all_iff intro!: plain_ujoin split: if_splits)
  assume "pdf_page cfg U f i page = Some s"
  with tables ten show ?thesis
    by (auto simp: pdf_page_def Let_def intro!: plain_strip split: option.splits if_splits)
qed

lemma those_all: "those xs = Some ys \<Longrightarrow> y \<in> set ys \<Longrightarrow> Some y \<in> set xs"
  by (induction xs arbitrary: ys) (auto split: option.splits)

lemma plain_by_type:
  assumes "parse_by_type cfg V path = Inr segments"
  shows "plain_segments segments"
proof -
  let ?U = "pv_unicode V"
  have pdf: "plain_segments ss" if "parse_pdf cfg ?U f = Inr ss" for f ss
  proof -
    have "\<exists>i page. pdf_page cfg ?U f i page = Some s" if "s \<in> set ss" for s
      using that \<open>parse_pdf cfg ?U f = Inr ss\<close>
      by (auto simp: parse_pdf_def read_or_def dest!: those_all split: if_splits option.splits) (metis)
    then show ?thesis using plain_pdf_page by (fastforce simp: plain_segments_def list_all_iff)
  qed
  have docx: "plain_segments ss" if "parse_docx cfg ?U f = Inr ss" for f ss
    using that by (auto simp: parse_docx_def plain_docx docx_table_def docx_picture_def Let_def intro!: plain_concat split: if_splits option.splits)
  have image: "plain_segments ss" if "parse_image cfg ?U ocr = Inr ss" for ocr ss
    using that by (auto simp: parse_image_def Let_def split: if_splits option.splits)
  have excel: "plain_segments (parse_excel cfg ?U sheets)" for sheets
    unfolding parse_excel_def by (rule plain_concat) (simp add: Let_def split: prod.split)
  have csv: "plain_segments ss" if "parse_csv cfg ?U path t = Some ss" for t ss using that by (auto simp: parse_csv_def)
  have html: "plain_segments (parse_html ?U x)" for x by (simp add: parse_html_def plain_html split: prod.split)
  show ?thesis
    using assms unfolding parse_by_type_def Let_def read_or_def
    by (auto simp: parse_markdown_def plain_markdown excel html dest: pdf docx image csv split: if_splits option.splits bind_splits)
qed

lemma if_other: "x \<noteq> y \<Longrightarrow> (if c then x else r) = y \<longleftrightarrow> \<not> c \<and> r = y"
  by simp

lemma unsupported_by_type: "parse_by_type cfg V path = Inl (UnsupportedType e) \<longleftrightarrow> e = lower (pv_unicode V) (path_suffix path) \<and> e \<notin> set SUPPORTED_EXTENSIONS"
proof -
  let ?U = "pv_unicode V" let ?x = "lower ?U (path_suffix path)"
  have other: "parse_pdf cfg ?U f \<noteq> Inl (UnsupportedType e)" "parse_docx cfg ?U g \<noteq> Inl (UnsupportedType e)" "parse_image cfg ?U h \<noteq> Inl (UnsupportedType e)"
    "read_or x \<noteq> Inl (UnsupportedType e)" for f g h and x :: "segment list option"
    by (auto simp: parse_pdf_def parse_docx_def parse_image_def read_or_def Let_def split: option.split)
  then have pdf: "(case pv_pdf V path of None \<Rightarrow> Inl ReaderError | Some f \<Rightarrow> parse_pdf cfg ?U f) \<noteq> Inl (UnsupportedType e)"
    by (simp split: option.split)
  have exts: "x \<notin> set SUPPORTED_EXTENSIONS \<longleftrightarrow> x \<noteq> u ''.pdf'' \<and> x \<noteq> u ''.docx'' \<and> x \<notin> set [u ''.xlsx'', u ''.xlsm''] \<and> x \<noteq> u ''.csv'' \<and>
      x \<noteq> u ''.md'' \<and> x \<noteq> u ''.txt'' \<and> x \<notin> set [u ''.html'', u ''.htm''] \<and> x \<notin> set IMAGE_EXTENSIONS" for x
    by (simp add: SUPPORTED_EXTENSIONS_def IMAGE_EXTENSIONS_def)
  have "parse_by_type cfg V path = Inl (UnsupportedType e) \<longleftrightarrow> ?x \<notin> set SUPPORTED_EXTENSIONS \<and> ?x = e"
    unfolding parse_by_type_def Let_def exts by (simp only: if_other [OF pdf] if_other [OF other(1)] if_other [OF other(2)] if_other [OF other(3)]
      if_other [OF other(4)] sum.inject parse_error.inject not_False_eq_True conj_assoc)
  then show ?thesis by auto
qed

text \<open>C12: A file is refused as unsupported exactly when its extension is not one the upload accepts, so that no accepted file fails for its type. What
  any parser returns for any content is usable as it is: every segment has visible text, the text holds
  no control character, carriage return or byte order mark, and the given source address is on every segment.\<close>

theorem parsed_segments_usable:
  "(\<exists>e. parse_document cfg V path src = Inl (UnsupportedType e)) = (lower (pv_unicode V) (path_suffix path) \<notin> set SUPPORTED_EXTENSIONS) \<and>
   (case parse_document cfg V path src of Inl e \<Rightarrow> True
    | Inr segments \<Rightarrow> list_all (\<lambda>s. strip (sg_text s) \<noteq> [] \<and> list_all plain_char (sg_text s) \<and>
        (if coalesce src [] = [] then True else sg_source_url s = src)) segments)"
proof
  show "(\<exists>e. parse_document cfg V path src = Inl (UnsupportedType e)) = (lower (pv_unicode V) (path_suffix path) \<notin> set SUPPORTED_EXTENSIONS)"
    using unsupported_by_type [of cfg V path] by (cases "parse_by_type cfg V path") (simp_all add: parse_document_def, blast?)
  show "case parse_document cfg V path src of Inl e \<Rightarrow> True
    | Inr segments \<Rightarrow> list_all (\<lambda>s. strip (sg_text s) \<noteq> [] \<and> list_all plain_char (sg_text s) \<and>
        (if coalesce src [] = [] then True else sg_source_url s = src)) segments"
    using plain_by_type [of cfg V path]
    by (cases "parse_by_type cfg V path") (auto simp: parse_document_def plain_segments_def plain_text_def list_all_iff)
qed

end
