(* ===== verification/ImportClaims.thy ===== *)
theory ImportClaims
  imports DocumentClaims
begin

text \<open>
  What an import guarantees: where it goes, what it stores, and that records written as a table can be read back.
\<close>

section \<open>Addresses that are never contacted\<close>

text \<open>The networks of a host and of a local network, and the same addresses inside IPv6.\<close>

definition local4 :: "(nat \<times> nat) list" where
  "local4 = [net4 [0, 0, 0, 0] 8, net4 [10, 0, 0, 0] 8, net4 [127, 0, 0, 0] 8, net4 [169, 254, 0, 0] 16, net4 [172, 16, 0, 0] 12,
     net4 [192, 168, 0, 0] 16]"

fun local_address :: "ip \<Rightarrow> bool" where
  "local_address (IPv4 a) = list_ex (in_net 32 a) local4"
| "local_address (IPv6 a) = (if a div 2 ^ 32 = 65535 then list_ex (in_net 32 (a mod 2 ^ 32)) local4
     else a \<le> 1 \<or> in_net 128 a (net6 [64512, 0, 0, 0, 0, 0, 0, 0] 7) \<or> in_net 128 a (net6 [65152, 0, 0, 0, 0, 0, 0, 0] 10))"

lemma local4_private: "list_ex (in_net 32 a) local4 \<Longrightarrow> is_private4 a"
  by (auto simp: local4_def is_private4_def private4_def private4_exceptions_def in_net_def net4_def)

lemma local_private: "local_address a \<Longrightarrow> is_private a \<or> is_special a"
proof (cases a)
  case (IPv6 n)
  assume "local_address a"
  then consider "n div 2 ^ 32 = 65535" "is_private a" | "n \<le> 1" | "in_net 128 n (net6 [64512, 0, 0, 0, 0, 0, 0, 0] 7)" "n div 2 ^ 32 \<noteq> 65535"
    | "in_net 128 n (net6 [65152, 0, 0, 0, 0, 0, 0, 0] 10)"
    using IPv6 local4_private [of "n mod 2 ^ 32"] by (auto split: if_splits)
  then show ?thesis
  proof cases
    case 3
    then have "list_ex (in_net 128 n) private6" by (simp add: private6_def)
    moreover have "\<not> list_ex (in_net 128 n) private6_exceptions"
      using 3 by (auto simp: private6_exceptions_def in_net_def net6_def)
    ultimately show ?thesis using 3 IPv6 by simp
  qed (use IPv6 in \<open>auto simp: le_Suc_eq\<close>)
qed (simp add: local4_private)

section \<open>Where an import goes\<close>

definition to_database :: "import_request \<Rightarrow> bool" where
  "to_database b \<longleftrightarrow> ir_source_type b = ''database''"

definition reachable_host :: "unicode \<Rightarrow> import_settings \<Rightarrow> import_env \<Rightarrow> ustr \<Rightarrow> bool" where
  "reachable_host U icfg E host \<longleftrightarrow> casefold U host \<in> set (allowlist U icfg) \<or>
     (case ie_resolve E host of None \<Rightarrow> False | Some addresses \<Rightarrow> list_all (\<lambda>a. \<not> local_address a) addresses)"

definition reachable_source :: "unicode \<Rightarrow> import_settings \<Rightarrow> import_env \<Rightarrow> import_request \<Rightarrow> bool" where
  "reachable_source U icfg E b \<longleftrightarrow> (case parse_url U E (ir_url b) of None \<Rightarrow> False
     | Some (scheme, host) \<Rightarrow> scheme \<in> set (map u (if to_database b then [''postgresql'', ''postgresql+psycopg''] else [''http'', ''https''])) \<and>
         host \<noteq> [] \<and> reachable_host U icfg E host)"

lemma allowed_host_reachable: "allowed_host U icfg E host \<Longrightarrow> reachable_host U icfg E host"
  using local_private by (auto simp: allowed_host_def reachable_host_def list_all_iff split: option.splits)

lemma validate_url_reachable: "validate_url U icfg E (to_database b) (ir_url b) \<Longrightarrow> reachable_source U icfg E b"
  unfolding validate_url_def reachable_source_def using allowed_host_reachable [of U icfg E]
  by (cases "parse_url U E (ir_url b)"; cases "to_database b") (simp_all split: prod.splits)

lemma fetch_source_refused: "\<not> validate_url (uni c) icfg E (to_database b) (ir_url b) \<Longrightarrow> fetch_source (uni c) cfg icfg E b = Inl 400"
  by (cases "ir_source_type b = ''database''") (simp_all add: fetch_source_def fetch_database_def fetch_http_def to_database_def)

lemma validate_url_cong:
  assumes "ie_bracket_ok F = ie_bracket_ok E" "ie_resolve F = ie_resolve E"
  shows "validate_url U icfg F db v = validate_url U icfg E db v"
  unfolding validate_url_def parse_url_def allowed_host_def assms ..

lemma validate_url_calls: "validate_url U icfg (E\<lparr>ie_get := g, ie_query := q\<rparr>) db v = validate_url U icfg E db v"
  by (rule validate_url_cong) simp_all

lemma import_source_refused:
  assumes "\<not> validate_url (uni c) icfg E (to_database b) (ir_url b)"
  shows "import_source cfg icfg E c uid b ok s =
    (if \<not> import_request_ok b then Inl 422 else case get_kb_with_permission s (ir_kb b) uid PWrite of Inl e \<Rightarrow> Inl e | Inr kb \<Rightarrow> Inl 400)"
  by (simp add: import_source_def fetch_source_refused [OF assms] split: sum.split)

text \<open>C13: An import contacts nobody but the sources the policy admits. Either the source has an accepted scheme and a host that is
  on the allow list, or whose addresses, as resolved for the check, are all outside the loopback, link-local and private networks
  of IPv4, their images in IPv6 and the local networks of IPv6; or the request is refused, changes nothing, and
  has the same answer whatever the HTTP client and the database driver would have done, for neither is called.\<close>

theorem imports_spare_local_network:
  "if reachable_source (uni c) icfg E b then True
   else import_source cfg icfg (E\<lparr>ie_get := g, ie_query := q\<rparr>) c uid b ok s = import_source cfg icfg E c uid b ok s \<and>
     (case import_source cfg icfg E c uid b ok s of Inl e \<Rightarrow> 400 \<le> e | Inr y \<Rightarrow> False)"
proof (cases "reachable_source (uni c) icfg E b")
  case False
  then have E: "\<not> validate_url (uni c) icfg E (to_database b) (ir_url b)" using validate_url_reachable by blast
  then have F: "\<not> validate_url (uni c) icfg (E\<lparr>ie_get := g, ie_query := q\<rparr>) (to_database b) (ir_url b)" by (simp add: validate_url_calls)
  have "400 \<le> e" if "get_kb_with_permission s (ir_kb b) uid PWrite = Inl e" for e
    using that by (auto simp: get_kb_with_permission_def split: option.splits)
  then show ?thesis using False by (simp add: import_source_refused [OF E] import_source_refused [OF F] split: sum.split)
qed simp

section \<open>What an import stores\<close>

lemma fetch_http_size: "fetch_http U cfg icfg E b = Inr x \<Longrightarrow> int (length (fst x)) \<le> upload_limit cfg"
  by (auto simp: fetch_http_def Let_def split: if_splits option.splits sum.splits http_fetch.splits prod.splits)


definition demo_import_env :: import_env where
  "demo_import_env = \<lparr>ie_bracket_ok = (\<lambda>s. False), ie_resolve = (\<lambda>h. Some [IPv4 134744072]),
     ie_get = (\<lambda>url headers. Fetched \<lparr>rs_status = 200, rs_content_length = None, rs_content_type = Some ''text/plain'',
       rs_body = [110, 101, 119], rs_json = None\<rparr>), ie_query = (\<lambda>url query. None), ie_repr = (\<lambda>s. s)\<rparr>"

definition demo_import_settings :: import_settings where
  "demo_import_settings = \<lparr>external_source_allowed_hosts = [], external_source_max_rows = 100\<rparr>"

definition demo_import :: import_request where
  "demo_import = \<lparr>ir_kb = ''k1'', ir_source_type = ''web'', ir_name = u ''p'', ir_url = u ''http://a'', ir_query = None,
     ir_headers = [], ir_json_path = None, ir_max_rows = 10\<rparr>"

lemma demo_public: "\<not> is_private (IPv4 134744072) \<and> \<not> is_special (IPv4 134744072)"
  by (simp add: is_private4_def private4_def in_net_def net4_def)

lemma demo_url: "validate_url demo_unicode demo_import_settings demo_import_env False (u ''http://a'')"
proof -
  have "u ''http://a'' = [104, 116, 116, 112, 58, 47, 47, 97]" by (simp add: u_def)
  moreover have "parse_url demo_unicode demo_import_env [104, 116, 116, 112, 58, 47, 47, 97] = Some ([104, 116, 116, 112], [97])"
    by (simp add: parse_url_def split_scheme_def until_char_def scheme_char_def startswith_def netloc_ok_def hostname_of_def after_last_def
        Let_def demo_unicode_def)
  moreover have "u ''http'' = [104, 116, 116, 112]" by (simp add: u_def)
  ultimately show ?thesis
    using demo_public by (simp add: validate_url_def allowed_host_def demo_import_env_def)
qed

lemma demo_fetch: "fetch_source demo_unicode demo_settings demo_import_settings demo_import_env demo_import =
    Inr ([110, 101, 119], u ''.txt'', ''text/plain'', JObj [(''http_status'', JInt 200), (''content_type'', JStr (u ''text/plain''))])"
proof -
  have "\<not> contains (u ''html'') (u ''text/plain'')" by (simp add: u_def startswith_def)
  moreover have "3 \<le> upload_limit demo_settings" by (simp add: upload_limit_def demo_settings_def)
  ultimately show ?thesis
    using demo_url by (simp add: fetch_source_def fetch_http_def http_payload_def demo_import_def demo_import_env_def Let_def)
qed

lemma demo_import_runs: "\<exists>t d. import_source demo_settings demo_import_settings demo_import_env (demo_ctx 5 ''b'') ''u1'' demo_import True demo_sys = Inr (t, d)"
proof -
  have "import_request_ok demo_import" by (simp add: import_request_ok_def demo_import_def)
  moreover have "uni (demo_ctx 5 ''b'') = demo_unicode" by (simp add: demo_ctx_def)
  moreover have "get_kb_with_permission demo_sys ''k1'' ''u1'' PWrite = Inr demo_kb"
    by (simp add: get_kb_with_permission_def get_kb_def member_with_def role_sets demo_defs)
  moreover have "ir_kb demo_import = ''k1''" by (simp add: demo_import_def)
  moreover have "\<not> (\<exists>d \<in> set (docs demo_sys). d_owner d = ''u1'' \<and> d_kb d = ''k1'' \<and> d_hash d = sha256 (demo_ctx 5 ''b'') [110, 101, 119])"
    by (simp add: demo_defs char_of_def bit_iff_odd)
  moreover have "used_bytes demo_sys (k_ws demo_kb) + 3 \<le> quota_bytes demo_settings"
    by (simp add: used_bytes_def quota_bytes_def get_kb_def demo_defs)
  ultimately show ?thesis by (simp add: import_source_def demo_fetch Let_def)
qed


section \<open>What the checks let through\<close>

text \<open>100.100.100.200, in the shared address space of RFC 6598: it is neither private nor special, although some providers
  serve the metadata of their machines at this address.\<close>

lemma shared_addresses_pass:
  "allowed_host U icfg (E\<lparr>ie_resolve := \<lambda>h. Some [IPv4 1684301000]\<rparr>) host"
  by (simp add: allowed_host_def is_private4_def private4_def in_net_def net4_def)

text \<open>A path whose last name is missing gives the text ``None'', and an index past the end of a list is no client error.\<close>

lemma missing_name_imports_None:
  "name \<noteq> [] \<Longrightarrow> select_json_path [name] (WObj []) = Inr WNull \<and> records_markdown r WNull n = u ''None''"
  by (simp add: records_markdown_def str_text_def)

lemma missing_index_crashes: "select_json_path [[57]] (WList []) = Inl 500"
  by (simp add: is_decimal_def digit_value_def decimal_zeros_def)

end
