(* ===== verification/Storage.thy ===== *)
theory Storage
  imports Lifecycle
begin

text \<open>
  \<open>app/services/object_storage.py\<close>: the local object store on a disk without symbolic links, whose files are named by the
  components of their absolute path.  An S3 store only calls \<open>boto3\<close>.  \<open>None\<close> is an exception;
  directories that a failed call leaves behind are not shown.
\<close>

record disk_file =
  fl_content :: "nat list"
  fl_mtime :: datetime

type_synonym path = "ustr list"

record disk =
  dk_files :: "(path \<times> disk_file) list"
  dk_dirs :: "path list"

section \<open>Paths\<close>

text \<open>The components \<open>pathlib\<close> keeps of a path, and \<open>resolve()\<close>; \<open>acc\<close> is reversed.\<close>

definition path_parts :: "ustr \<Rightarrow> path" where
  "path_parts p = filter (\<lambda>x. x \<noteq> [] \<and> x \<noteq> [46]) (split_char 47 p)"

fun resolve_parts :: "path \<Rightarrow> path \<Rightarrow> path" where
  "resolve_parts acc [] = rev acc"
| "resolve_parts acc (x # xs) = (if x = [46, 46] then resolve_parts (tl acc) xs else resolve_parts (x # acc) xs)"

definition is_absolute :: "ustr \<Rightarrow> bool" where
  "is_absolute key \<longleftrightarrow> startswith key [47]"

text \<open>\<open>b in a.parents\<close> for \<open>a\<close> and \<open>b\<close> the components of absolute paths\<close>

definition below :: "path \<Rightarrow> path \<Rightarrow> bool" where
  "below base p \<longleftrightarrow> length base < length p \<and> take (length base) p = base"

text \<open>\<open>_path\<close>\<close>

definition storage_path :: "path \<Rightarrow> ustr \<Rightarrow> path option" where
  "storage_path base key =
     (if is_absolute key then Some (resolve_parts [] (path_parts key))
      else let candidate = resolve_parts (rev base) (path_parts key) in if below base candidate then Some candidate else None)"

section \<open>The operations\<close>

text \<open>The nonempty beginnings of a path, itself included.\<close>

definition beginnings :: "path \<Rightarrow> path list" where
  "beginnings p = map (\<lambda>n. take n p) [1..<Suc (length p)]"

definition is_file :: "disk \<Rightarrow> path \<Rightarrow> bool" where
  "is_file d p \<longleftrightarrow> p \<in> set (map fst (dk_files d))"

definition make_dirs :: "path \<Rightarrow> disk \<Rightarrow> disk option" where
  "make_dirs p d = (if list_ex (is_file d) (beginnings p) then None else Some (d\<lparr>dk_dirs := dedup (dk_dirs d @ beginnings p)\<rparr>))"

text \<open>\<open>os.replace\<close> moves the file with its time of modification.\<close>

definition put_file :: "path \<Rightarrow> ustr \<Rightarrow> path \<Rightarrow> disk \<Rightarrow> disk option" where
  "put_file base key source d =
     (case storage_path base key of None \<Rightarrow> None | Some dest \<Rightarrow>
      case make_dirs (butlast dest) d of None \<Rightarrow> None | Some d1 \<Rightarrow>
      case map_of (dk_files d1) source of None \<Rightarrow> None | Some f \<Rightarrow>
        if dest = [] \<or> dest \<in> set (dk_dirs d1) then None
        else Some (d1\<lparr>dk_files := (dest, f) # filter (\<lambda>(p, _). p \<noteq> source \<and> p \<noteq> dest) (dk_files d1)\<rparr>))"

text \<open>\<open>unlink(missing_ok=True)\<close>\<close>

definition delete_file :: "path \<Rightarrow> ustr \<Rightarrow> disk \<Rightarrow> disk option" where
  "delete_file base key d =
     (case storage_path base key of None \<Rightarrow> None | Some dest \<Rightarrow>
        if dest = [] \<or> dest \<in> set (dk_dirs d) \<or> list_ex (is_file d) (beginnings (butlast dest)) then None
        else Some (d\<lparr>dk_files := filter (\<lambda>(p, _). p \<noteq> dest) (dk_files d)\<rparr>))"

definition staging_name :: ustr where "staging_name = u ''.staging''"

definition list_objects :: "path \<Rightarrow> disk \<Rightarrow> (ustr \<times> datetime) list" where
  "list_objects base d = map (\<lambda>(p, f). (ujoin [47] (drop (length base) p), fl_mtime f))
     (filter (\<lambda>(p, f). below base p \<and> staging_name \<notin> set p) (dk_files d))"

definition materialize :: "path \<Rightarrow> ustr \<Rightarrow> disk \<Rightarrow> nat list option" where
  "materialize base key d = (case storage_path base key of None \<Rightarrow> None | Some p \<Rightarrow> map_option fl_content (map_of (dk_files d) p))"

text \<open>\<open>make_staging_file\<close>; \<open>name\<close> is the name \<open>mkstemp\<close> chooses, one no file has.\<close>

definition make_staging_file :: "path \<Rightarrow> ustr \<Rightarrow> datetime \<Rightarrow> disk \<Rightarrow> (disk \<times> path) option" where
  "make_staging_file base name t d =
     (let dir = base @ [staging_name] in if is_file d (dir @ [name]) then None else case make_dirs dir d of None \<Rightarrow> None
      | Some d1 \<Rightarrow> Some (d1\<lparr>dk_files := (dir @ [name], \<lparr>fl_content = [], fl_mtime = t\<rparr>) # dk_files d1\<rparr>, dir @ [name]))"

text \<open>\<open>staging.write_bytes\<close> and \<open>shutil.copyfile\<close>\<close>

definition write_bytes :: "path \<Rightarrow> nat list \<Rightarrow> datetime \<Rightarrow> disk \<Rightarrow> disk" where
  "write_bytes p content t d = d\<lparr>dk_files := (p, \<lparr>fl_content = content, fl_mtime = t\<rparr>) # filter (\<lambda>(q, _). q \<noteq> p) (dk_files d)\<rparr>"

definition copy_legacy_file_to_storage :: "path \<Rightarrow> path \<Rightarrow> ustr \<Rightarrow> ustr \<Rightarrow> datetime \<Rightarrow> disk \<Rightarrow> disk option" where
  "copy_legacy_file_to_storage base source key name t d =
     (case make_staging_file base name t d of None \<Rightarrow> None | Some (d1, staging) \<Rightarrow>
      case map_of (dk_files d1) source of None \<Rightarrow> None | Some f \<Rightarrow>
        put_file base key staging (write_bytes staging (fl_content f) t d1))"

datatype storage_backend = LocalStorage | S3Storage

definition get_object_storage :: "unicode \<Rightarrow> ustr \<Rightarrow> storage_backend option" where
  "get_object_storage U backend = (let b = lower U backend in
     if b = u ''local'' then Some LocalStorage else if b \<in> set [u ''s3'', u ''minio''] then Some S3Storage else None)"

section \<open>What callers rely on\<close>

text \<open>The contract of a store whose listing is a set of keys with their times: a stored object is listed, with its time and once; a
  deleted one is not; every other object stays as it is.\<close>

locale object_store =
  fixes store :: "'k \<Rightarrow> datetime \<Rightarrow> 's \<Rightarrow> 's option"
    and remove_key :: "'k \<Rightarrow> 's \<Rightarrow> 's option"
    and listing :: "'s \<Rightarrow> ('k \<times> datetime) set"
    and valid :: "'s \<Rightarrow> bool"
    and key_ok :: "'k \<Rightarrow> bool"
  assumes store_valid: "valid s \<Longrightarrow> key_ok k \<Longrightarrow> store k t s = Some s1 \<Longrightarrow> valid s1"
    and store_listing: "valid s \<Longrightarrow> key_ok k \<Longrightarrow> store k t s = Some s1 \<Longrightarrow> listing s1 = insert (k, t) {x \<in> listing s. fst x \<noteq> k}"
    and remove_valid: "valid s \<Longrightarrow> key_ok k \<Longrightarrow> remove_key k s = Some s1 \<Longrightarrow> valid s1"
    and remove_listing: "valid s \<Longrightarrow> key_ok k \<Longrightarrow> remove_key k s = Some s1 \<Longrightarrow> listing s1 = {x \<in> listing s. fst x \<noteq> k}"
begin

text \<open>Replacing an object and removing the old one, as an update of a document does: nothing else is touched.\<close>

lemma replace_object:
  assumes "valid s" "key_ok k" "key_ok old" "k \<noteq> old" "store k t s = Some s1" "remove_key old s1 = Some s2"
  shows "listing s2 = insert (k, t) {x \<in> listing s. fst x \<noteq> k \<and> fst x \<noteq> old}"
  using store_listing [OF assms(1,2,5)] remove_listing [OF store_valid [OF assms(1,2,5)] assms(3,6)] assms(4) by auto

text \<open>Storing and removing again leaves what was there under other keys, as the rollback of a failed request does.\<close>

lemma store_then_remove:
  assumes "valid s" "key_ok k" "store k t s = Some s1" "remove_key k s1 = Some s2"
  shows "listing s2 = {x \<in> listing s. fst x \<noteq> k}"
  using store_listing [OF assms(1,2,3)] remove_listing [OF store_valid [OF assms(1,2,3)] assms(2,4)] by auto


end

text \<open>The objects of the system state keep the contract.\<close>

interpretation abstract_store: object_store "\<lambda>k t s. Some (put_object k t s)" "\<lambda>k s. Some (delete_object k s)" "\<lambda>s. set (objects s)"
    "\<lambda>s. True" "\<lambda>k. True"
  by unfold_locales (auto simp: put_object_def delete_object_def)

section \<open>The local store keeps the contract\<close>

definition clean_key :: "ustr \<Rightarrow> bool" where
  "clean_key key \<longleftrightarrow> list_all (\<lambda>x. x \<noteq> [] \<and> x \<noteq> [46] \<and> x \<noteq> [46, 46] \<and> x \<noteq> staging_name) (split_char 47 key)"

definition good_parts :: "path \<Rightarrow> bool" where
  "good_parts = list_all (\<lambda>x. x \<noteq> [] \<and> 47 \<notin> set x)"

definition disk_ok :: "path \<Rightarrow> disk \<Rightarrow> bool" where
  "disk_ok base d \<longleftrightarrow> staging_name \<notin> set base \<and> good_parts base \<and> distinct (map fst (dk_files d)) \<and> list_all good_parts (map fst (dk_files d))"

lemma resolve_clean: "list_all (\<lambda>x. x \<noteq> [46, 46]) xs \<Longrightarrow> resolve_parts acc xs = rev acc @ xs"
  by (induction xs arbitrary: acc) auto

lemma clean_relative: "clean_key key \<Longrightarrow> \<not> is_absolute key"
  by (cases key) (auto simp: clean_key_def is_absolute_def split_char_def startswith_def)

lemma clean_path:
  assumes "clean_key key"
  shows "storage_path base key = Some (base @ split_char 47 key)"
proof -
  have "path_parts key = split_char 47 key" using assms by (auto simp: path_parts_def clean_key_def list_all_iff intro!: filter_True)
  moreover have "resolve_parts (rev base) (split_char 47 key) = base @ split_char 47 key"
    using assms by (subst resolve_clean) (auto simp: clean_key_def list_all_iff)
  ultimately show ?thesis using clean_relative [OF assms] split_char_nonempty [of 47 key]
    by (simp add: storage_path_def below_def)
qed

text \<open>What the handlers do with a body: a staging file, the bytes, and the move to the key.\<close>

definition store_object :: "path \<Rightarrow> ustr \<Rightarrow> nat list \<Rightarrow> ustr \<Rightarrow> datetime \<Rightarrow> disk \<Rightarrow> disk option" where
  "store_object base name content key t d =
     (case make_staging_file base name t d of None \<Rightarrow> None
      | Some (d1, staging) \<Rightarrow> put_file base key staging (write_bytes staging content t d1))"

lemma make_dirs_files: "make_dirs p d = Some d1 \<Longrightarrow> dk_files d1 = dk_files d"
  by (auto simp: make_dirs_def split: if_splits)

lemma filter_other_files: "p \<notin> set (map fst files) \<Longrightarrow> filter (\<lambda>(q, _). q \<noteq> p) files = files"
  by (rule filter_True) force

lemma put_file_files:
  assumes "put_file base key source d = Some d1" "clean_key key"
  obtains f where "map_of (dk_files d) source = Some f"
    "dk_files d1 = (base @ split_char 47 key, f) # filter (\<lambda>(p, _). p \<noteq> source \<and> p \<noteq> base @ split_char 47 key) (dk_files d)"
proof -
  obtain d2 where "make_dirs (butlast (base @ split_char 47 key)) d = Some d2"
    using assms(1) by (auto simp: put_file_def clean_path [OF assms(2)] split: option.splits)
  with that assms(1) make_dirs_files [OF this] show thesis
    by (auto simp: put_file_def clean_path [OF assms(2)] split: option.splits if_splits)
qed

text \<open>The files after an object was stored: the new one and the others.\<close>

lemma store_object_files:
  assumes "store_object base name content key t d = Some d1" "clean_key key"
  shows "dk_files d1 = (base @ split_char 47 key, \<lparr>fl_content = content, fl_mtime = t\<rparr>) #
    filter (\<lambda>(p, _). p \<noteq> base @ split_char 47 key) (dk_files d)"
proof -
  let ?dest = "base @ split_char 47 key" let ?f = "\<lparr>fl_content = content, fl_mtime = t\<rparr>"
  obtain d2 st where st: "make_staging_file base name t d = Some (d2, st)" and put: "put_file base key st (write_bytes st content t d2) = Some d1"
    using assms(1) by (auto simp: store_object_def split: option.splits)
  have d2: "dk_files d2 = (st, \<lparr>fl_content = [], fl_mtime = t\<rparr>) # dk_files d" "st \<notin> set (map fst (dk_files d))"
    using st make_dirs_files by (auto simp: make_staging_file_def Let_def is_file_def split: if_splits option.splits)
  have d3: "dk_files (write_bytes st content t d2) = (st, ?f) # dk_files d"
    using filter_other_files [OF d2(2)] by (simp add: write_bytes_def d2(1))
  obtain f where f: "map_of (dk_files (write_bytes st content t d2)) st = Some f"
    "dk_files d1 = (?dest, f) # filter (\<lambda>(p, _). p \<noteq> st \<and> p \<noteq> ?dest) (dk_files (write_bytes st content t d2))"
    using put assms(2) by (rule put_file_files)
  have "filter (\<lambda>(p, _). p \<noteq> st \<and> p \<noteq> ?dest) (dk_files d) = filter (\<lambda>(p, _). p \<noteq> ?dest) (dk_files d)"
    by (rule filter_cong) (use d2(2) in force)+
  with f show ?thesis unfolding d3 by simp
qed

text \<open>A listed file has the key that leads to it.\<close>

lemma listed_key:
  assumes "disk_ok base d" "(p, f) \<in> set (dk_files d)" "below base p"
  shows "ujoin [47] (drop (length base) p) = key \<longleftrightarrow> p = base @ split_char 47 key"
proof
  have p: "p = base @ drop (length base) p" using assms(3) by (metis append_take_drop_id below_def)
  have "drop (length base) p \<noteq> []" using assms(3) by (simp add: below_def)
  moreover have "\<forall>x \<in> set (drop (length base) p). 47 \<notin> set x" using assms(1,2) in_set_dropD by (fastforce simp: disk_ok_def good_parts_def list_all_iff)
  ultimately have "split_char 47 (ujoin [47] (drop (length base) p)) = drop (length base) p" by (rule split_ujoin)
  then show "p = base @ split_char 47 key" if "ujoin [47] (drop (length base) p) = key" using that p by metis
qed (simp add: ujoin_split_char)

definition stored_keys :: "path \<Rightarrow> disk \<Rightarrow> (ustr \<times> datetime) set" where
  "stored_keys base d = set (list_objects base d)"

lemma stored_keys_iff: "(k, t) \<in> stored_keys base d \<longleftrightarrow>
    (\<exists>p f. (p, f) \<in> set (dk_files d) \<and> below base p \<and> staging_name \<notin> set p \<and> k = ujoin [47] (drop (length base) p) \<and> t = fl_mtime f)"
  by (force simp: stored_keys_def list_objects_def)

lemma stored_keys_remove:
  assumes "disk_ok base d" "dk_files d1 = filter (\<lambda>(p, _). p \<noteq> base @ split_char 47 key) (dk_files d)"
  shows "stored_keys base d1 = {x \<in> stored_keys base d. fst x \<noteq> key}"
proof -
  have "(k, t) \<in> stored_keys base d1 \<longleftrightarrow> (k, t) \<in> stored_keys base d \<and> k \<noteq> key" for k t
  proof -
    define key_of where "key_of p = ujoin [47] (drop (length base) p)" for p
    have other: "p \<noteq> base @ split_char 47 key \<longleftrightarrow> key_of p \<noteq> key" if "(p, f) \<in> set (dk_files d)" "below base p" for p f
      using listed_key [OF assms(1) that, of key] by (simp add: key_of_def)
    show ?thesis unfolding stored_keys_iff assms(2) key_of_def [symmetric] by simp (use other in blast)
  qed
  then show ?thesis by auto
qed

lemma stored_keys_add:
  assumes "dk_files d1 = (base @ split_char 47 key, f) # dk_files d2" "clean_key key" "staging_name \<notin> set base"
  shows "stored_keys base d1 = insert (key, fl_mtime f) (stored_keys base d2)"
proof -
  have "below base (base @ split_char 47 key)" using split_char_nonempty [of 47 key] by (simp add: below_def)
  moreover have "staging_name \<notin> set (base @ split_char 47 key)" using assms(2,3) by (auto simp: clean_key_def list_all_iff)
  ultimately show ?thesis unfolding stored_keys_def list_objects_def assms(1) by (simp add: ujoin_split_char)
qed

lemma disk_ok_files:
  assumes "disk_ok base d" "dk_files d1 = filter (\<lambda>(p, _). p \<noteq> dest) (dk_files d)"
  shows "disk_ok base d1"
  using assms by (auto simp: disk_ok_def distinct_map_filter list_all_iff)

text \<open>The local store keeps the contract, for every staging name and content.\<close>

interpretation local_store: object_store "store_object base name content" "delete_file base" "stored_keys base" "disk_ok base" clean_key
  for base name content
proof unfold_locales
  fix d k t d1
  assume ok: "disk_ok base d" "clean_key k"
  show "disk_ok base d1" "stored_keys base d1 = insert (k, t) {x \<in> stored_keys base d. fst x \<noteq> k}" if "store_object base name content k t d = Some d1"
  proof -
    let ?dest = "base @ split_char 47 k"
    define d2 where "d2 = d\<lparr>dk_files := filter (\<lambda>(p, _). p \<noteq> ?dest) (dk_files d)\<rparr>"
    have files: "dk_files d1 = (?dest, \<lparr>fl_content = content, fl_mtime = t\<rparr>) # dk_files d2"
      using store_object_files [OF that ok(2)] by (simp add: d2_def)
    have "stored_keys base d2 = {x \<in> stored_keys base d. fst x \<noteq> k}" by (rule stored_keys_remove [OF ok(1)]) (simp add: d2_def)
    with stored_keys_add [OF files ok(2)] ok(1) show "stored_keys base d1 = insert (k, t) {x \<in> stored_keys base d. fst x \<noteq> k}"
      by (simp add: disk_ok_def)
    have "disk_ok base d2" by (rule disk_ok_files [OF ok(1)]) (simp add: d2_def)
    moreover have "good_parts ?dest"
      using ok split_no_sep [of _ 47 k] by (auto simp: disk_ok_def good_parts_def clean_key_def list_all_iff)
    moreover have "?dest \<notin> set (map fst (dk_files d2))" by (auto simp: d2_def)
    ultimately show "disk_ok base d1" unfolding disk_ok_def files by simp
  qed
  show "disk_ok base d1" "stored_keys base d1 = {x \<in> stored_keys base d. fst x \<noteq> k}" if "delete_file base k d = Some d1"
  proof -
    have "dk_files d1 = filter (\<lambda>(p, _). p \<noteq> base @ split_char 47 k) (dk_files d)"
      using that by (auto simp: delete_file_def clean_path [OF ok(2)] split: if_splits)
    then show "disk_ok base d1" "stored_keys base d1 = {x \<in> stored_keys base d. fst x \<noteq> k}"
      using disk_ok_files [OF ok(1)] stored_keys_remove [OF ok(1)] by blast+
  qed
qed

end
