(* ===== verification/StorageClaims.thy ===== *)
theory StorageClaims
  imports Storage Demo
begin

text \<open>
  The local object store: it implements the objects of the system state, and it stays below its directory.
\<close>

section \<open>The keys of the handlers\<close>

definition hex_id :: "string \<Rightarrow> bool" where
  "hex_id i \<longleftrightarrow> i \<noteq> [] \<and> list_all (\<lambda>c. 48 \<le> c \<and> c \<le> 57 \<or> 97 \<le> c \<and> c \<le> 102) (u i)"

lemma u_append: "u (a @ b) = u a @ u b"
  by (simp add: u_def)

lemma hex_component: "hex_id i \<Longrightarrow> 47 \<notin> set (u i) \<and> u i \<noteq> [] \<and> hd (u i) \<noteq> 46"
  by (cases i) (auto simp: hex_id_def u_Cons list_all_iff)

text \<open>\<open>workspaces/<id>/knowledge-bases/<id>/<uuid><extension>\<close>\<close>

lemma object_key_clean:
  assumes "hex_id (k_ws kb)" "hex_id (k_id kb)" "hex_id i" "47 \<notin> set (u (map char_of extension))"
  shows "clean_key (u (object_key_for kb i extension))"
proof -
  let ?parts = "[u ''workspaces'', u (k_ws kb), u ''knowledge-bases'', u (k_id kb), u i @ u (map char_of extension)]"
  have "u (object_key_for kb i extension) = ujoin [47] ?parts"
    by (simp add: object_key_for_def u_append u_Cons)
  moreover have "\<forall>x \<in> set ?parts. 47 \<notin> set x"
    using assms hex_component by (auto simp: u_def)
  ultimately have split: "split_char 47 (u (object_key_for kb i extension)) = ?parts" using split_ujoin [of ?parts 47] by simp
  have other: "x \<noteq> [] \<and> x \<noteq> [46] \<and> x \<noteq> [46, 46] \<and> x \<noteq> staging_name" if "x \<noteq> []" "hd x \<noteq> 46" for x
    using that by (auto simp: staging_name_def u_Cons)
  have "hd (u i @ u (map char_of extension)) \<noteq> 46" "u i @ u (map char_of extension) \<noteq> []"
    using hex_component [OF assms(3)] by (simp_all add: hd_append)
  moreover have "hd (u ''workspaces'') \<noteq> 46" "hd (u ''knowledge-bases'') \<noteq> 46" "u ''workspaces'' \<noteq> []" "u ''knowledge-bases'' \<noteq> []"
    by (simp_all add: u_Cons)
  ultimately show ?thesis unfolding clean_key_def split using other hex_component [OF assms(1)] hex_component [OF assms(2)] by simp
qed

section \<open>The store of the system state\<close>

definition represents :: "path \<Rightarrow> disk \<Rightarrow> sys \<Rightarrow> bool" where
  "represents base d s \<longleftrightarrow> disk_ok base d \<and> stored_keys base d = (\<lambda>(k, t). (u k, t)) ` set (objects s)"

lemma u_eq: "u a = u b \<longleftrightarrow> a = b"
  unfolding u_def by (rule inj_map_eq_map) (simp add: inj_def)

lemma represented_others: "{x \<in> (\<lambda>(k, t). (u k, t)) ` A. fst x \<noteq> u key} = (\<lambda>(k, t). (u k, t)) ` {x \<in> A. fst x \<noteq> key}"
  by (auto simp: u_eq)

lemma represents_store:
  assumes "represents base d s" "clean_key (u key)" "store_object base name content (u key) t d = Some d1"
  shows "represents base d1 (put_object key t s)"
proof -
  from assms(1) have ok: "disk_ok base d" by (simp add: represents_def)
  have "set (objects (put_object key t s)) = insert (key, t) {x \<in> set (objects s). fst x \<noteq> key}"
    by (auto simp: put_object_def)
  with local_store.store_listing [OF ok assms(2,3)] local_store.store_valid [OF ok assms(2,3)] assms(1) show ?thesis
    by (simp add: represents_def represented_others)
qed

lemma represents_delete:
  assumes "represents base d s" "clean_key (u key)" "delete_file base (u key) d = Some d1"
  shows "represents base d1 (delete_object key s)"
proof -
  from assms(1) have ok: "disk_ok base d" by (simp add: represents_def)
  have "set (objects (delete_object key s)) = {x \<in> set (objects s). fst x \<noteq> key}" by (auto simp: delete_object_def)
  with local_store.remove_listing [OF ok assms(2,3)] local_store.remove_valid [OF ok assms(2,3)] assms(1) show ?thesis
    by (simp add: represents_def represented_others)
qed

text \<open>C15: The local store implements the objects of the system state. While a directory holds exactly the objects of the
  state, whatever a handler stores there by way of a staging file with the key it makes of workspace, knowledge base and a new
  identifier is listed under this key with its time and can be read back byte by byte, staging files are never listed, and deleting
  another key, as the replacement of a document does, leaves the directory with exactly the objects of the state again.\<close>

theorem local_store_implements_objects:
  assumes "represents base d s" and "hex_id (k_ws kb)" "hex_id (k_id kb)" "hex_id i" "47 \<notin> set (u (map char_of extension))"
    and "store_object base name content (u (object_key_for kb i extension)) t d = Some d1"
    and "clean_key (u old)" "delete_file base (u old) d1 = Some d2"
  shows "represents base d1 (put_object (object_key_for kb i extension) t s) \<and>
    materialize base (u (object_key_for kb i extension)) d1 = Some content \<and>
    represents base d2 (delete_object old (put_object (object_key_for kb i extension) t s))"
proof (intro conjI)
  have clean: "clean_key (u (object_key_for kb i extension))" by (rule object_key_clean [OF assms(2-5)])
  show first: "represents base d1 (put_object (object_key_for kb i extension) t s)" by (rule represents_store [OF assms(1) clean assms(6)])
  show "represents base d2 (delete_object old (put_object (object_key_for kb i extension) t s))"
    by (rule represents_delete [OF first assms(7,8)])
  show "materialize base (u (object_key_for kb i extension)) d1 = Some content"
    by (simp add: materialize_def clean_path [OF clean] store_object_files [OF assms(6) clean])
qed

definition demo_disk :: disk where "demo_disk = \<lparr>dk_files = [], dk_dirs = []\<rparr>"

definition demo_key :: string where "demo_key = object_key_for (demo_kb\<lparr>k_ws := ''1'', k_id := ''2''\<rparr>) ''3'' [46, 109, 100]"

lemma demo_key_split: "split_char 47 (u demo_key) = [u ''workspaces'', [49], u ''knowledge-bases'', [50], [51, 46, 109, 100]]"
  by (simp add: demo_key_def object_key_for_def demo_kb_def u_append u_Cons split_char_def char_of_def bit_iff_odd)

lemma demo_key_clean: "clean_key (u demo_key)"
  by (simp add: clean_key_def demo_key_split staging_name_def u_Cons)

lemma demo_stored: "\<exists>d1. store_object [[98]] [97] [1, 2] (u demo_key) 7 demo_disk = Some d1 \<and> (\<exists>d2. delete_file [[98]] (u ''9'') d1 = Some d2)"
proof -
  have "clean_key (u ''9'')" by (simp add: clean_key_def split_char_def u_Cons staging_name_def)
  moreover have "split_char 47 (u ''9'') = [[57]]" by (simp add: split_char_def u_Cons)
  ultimately show ?thesis
    by (simp add: store_object_def make_staging_file_def put_file_def delete_file_def clean_path [OF demo_key_clean] clean_path demo_key_split
        demo_disk_def write_bytes_def make_dirs_def beginnings_def is_file_def dedup_def Let_def staging_name_def u_Cons) auto
qed

theorem local_store_implements_objects_witness:
  "\<exists>d1. represents [[98]] d1 (put_object demo_key 7 (demo_sys\<lparr>objects := []\<rparr>)) \<and> materialize [[98]] (u demo_key) d1 = Some [1, 2]"
proof -
  obtain d1 d2 where run: "store_object [[98]] [97] [1, 2] (u demo_key) 7 demo_disk = Some d1" "delete_file [[98]] (u ''9'') d1 = Some d2"
    using demo_stored by blast
  have "represents [[98]] demo_disk (demo_sys\<lparr>objects := []\<rparr>)"
    by (simp add: represents_def disk_ok_def good_parts_def demo_disk_def stored_keys_def list_objects_def staging_name_def u_Cons)
  moreover have "hex_id ''1''" "hex_id ''2''" "hex_id ''3''" by (simp_all add: hex_id_def u_Cons)
  moreover have "47 \<notin> set (u (map char_of [46, 109, 100 :: nat]))" by (simp add: u_Cons char_of_def bit_iff_odd)
  moreover have "clean_key (u ''9'')" by (simp add: clean_key_def split_char_def u_Cons staging_name_def)
  ultimately show ?thesis
    using local_store_implements_objects [of "[[98]]" demo_disk "demo_sys\<lparr>objects := []\<rparr>" "demo_kb\<lparr>k_ws := ''1'', k_id := ''2''\<rparr>" "''3''" "[46, 109, 100]"
        "[97]" "[1, 2]" 7 d1 "''9''" d2] run
    unfolding demo_key_def by auto
qed

section \<open>Below the directory\<close>

lemma below_or_absolute: "storage_path base key = Some p \<Longrightarrow> is_absolute key \<or> below base p"
  by (auto simp: storage_path_def Let_def split: if_splits)

lemma map_of_filter_other: "P p \<Longrightarrow> map_of (filter (\<lambda>(q, _). P q) xs) p = map_of xs p"
  by (induction xs) auto

text \<open>Whatever the key, with any number of dots and slashes, unless it is an absolute path as old rows have it, storing and
  deleting touch no file outside the directory of the store, but for the staging file that is moved in.\<close>

theorem storage_stays_inside:
  "if is_absolute key \<or> below base p \<or> p = source then True
   else (case put_file base key source d of None \<Rightarrow> True | Some d1 \<Rightarrow> map_of (dk_files d1) p = map_of (dk_files d) p) \<and>
     (case delete_file base key d of None \<Rightarrow> True | Some d1 \<Rightarrow> map_of (dk_files d1) p = map_of (dk_files d) p) \<and>
     (case storage_path base key of None \<Rightarrow> True | Some q \<Rightarrow> q \<noteq> p)"
proof (cases "is_absolute key \<or> below base p \<or> p = source")
  case False
  then have dest: "q \<noteq> p" if "storage_path base key = Some q" for q using below_or_absolute [OF that] by auto
  have "map_of (dk_files d1) p = map_of (dk_files d) p" if put: "put_file base key source d = Some d1" for d1
  proof -
    obtain q where q: "storage_path base key = Some q" using put by (auto simp: put_file_def split: option.splits)
    then obtain d2 f where "make_dirs (butlast q) d = Some d2"
      "dk_files d1 = (q, f) # filter (\<lambda>(x, _). x \<noteq> source \<and> x \<noteq> q) (dk_files d2)"
      using put by (auto simp: put_file_def split: option.splits if_splits)
    then show ?thesis using dest [OF q] False map_of_filter_other [of "\<lambda>x. x \<noteq> source \<and> x \<noteq> q" p "dk_files d"] make_dirs_files by simp
  qed
  moreover have "map_of (dk_files d1) p = map_of (dk_files d) p" if del: "delete_file base key d = Some d1" for d1
  proof -
    obtain q where q: "storage_path base key = Some q" using del by (auto simp: delete_file_def split: option.splits)
    then have "dk_files d1 = filter (\<lambda>(x, _). x \<noteq> q) (dk_files d)" using del by (auto simp: delete_file_def split: if_splits)
    then show ?thesis using dest [OF q] map_of_filter_other [of "\<lambda>x. x \<noteq> q" p "dk_files d"] by simp
  qed
  ultimately show ?thesis using False dest by (simp split: option.split)
qed simp

end
