(* ===== verification/Evaluation.thy ===== *)
theory Evaluation
  imports Evidence
begin

text \<open>
  The quality gates: \<open>scripts/eval_retrieval.py\<close> on the events of the running service, the offline runs of
  \<open>scripts/run_local_ablation.py\<close> and \<open>scripts/ci_eval_retrieval.py\<close> on \<open>retrieve\<close> and \<open>assess_evidence\<close> themselves,
  \<open>scripts/check_quality_gate.py\<close> and \<open>scripts/check_injection_gate.py\<close>.  Times are in milliseconds; times and embeddings
  are given.
\<close>

record golden_case =
  gc_id :: string
  gc_question :: ustr
  gc_answerable :: bool
  gc_documents :: "ustr list"
  gc_keywords :: "ustr list"
  gc_category :: ustr

record source =
  so_filename :: ustr
  so_content :: ustr

section \<open>Ranks and gains\<close>

definition relevant :: "golden_case \<Rightarrow> source \<Rightarrow> bool" where
  "relevant g x \<longleftrightarrow> (gc_documents g = [] \<or> so_filename x \<in> set (gc_documents g)) \<and> list_all (\<lambda>k. contains k (so_content x)) (gc_keywords g)"

fun first_correct_rank_from :: "nat \<Rightarrow> source list \<Rightarrow> golden_case \<Rightarrow> nat option" where
  "first_correct_rank_from n [] g = None"
| "first_correct_rank_from n (x # xs) g = (if relevant g x then Some n else first_correct_rank_from (Suc n) xs g)"

definition first_correct_rank :: "source list \<Rightarrow> golden_case \<Rightarrow> nat option" where
  "first_correct_rank xs g = first_correct_rank_from 1 xs g"

definition ndcg :: "source list \<Rightarrow> golden_case \<Rightarrow> nat \<Rightarrow> real" where
  "ndcg xs g k = sum_list (map (\<lambda>(i, x). (if relevant g x then 1 else 0) / log 2 (real (i + 2))) (enum (take k xs)))"

definition reciprocal :: "nat option \<Rightarrow> real" where
  "reciprocal rank = (case rank of None \<Rightarrow> 0 | Some n \<Rightarrow> 1 / real n)"

text \<open>\<open>statistics.fmean(values) if values else 0.0\<close>\<close>

definition mean :: "real list \<Rightarrow> real" where
  "mean xs = (if xs = [] then 0 else sum_list xs / real (length xs))"

definition p95 :: "real list \<Rightarrow> real" where
  "p95 latencies = (let n = length latencies; i = min (n - 1) ((95 * n + 99) div 100 - 1) in if n = 0 then 0 else sort latencies ! i)"

section \<open>The answer of the service\<close>

text \<open>The lines of the event stream: the name of an event, the data of a \<open>sources\<close> or \<open>evidence\<close> event, other data.\<close>

datatype stream_line = EventLine ustr | SourcesData "source list" | EvidenceData "bool option" | OtherData | OtherLine

fun read_stream :: "ustr \<Rightarrow> source list \<Rightarrow> stream_line list \<Rightarrow> source list \<times> bool option" where
  "read_stream event sources [] = (sources, None)"
| "read_stream event sources (l # ls) = (case l of
     EventLine name \<Rightarrow> read_stream name sources ls
   | SourcesData xs \<Rightarrow> read_stream event (if event = u ''sources'' then xs else sources) ls
   | EvidenceData answerable \<Rightarrow> if event = u ''evidence'' then (sources, answerable) else read_stream event sources ls
   | _ \<Rightarrow> read_stream event sources ls)"

section \<open>Reports\<close>

record report =
  er_case_count :: nat
  er_hit_rate :: real
  er_mrr :: real
  er_ndcg :: real
  er_false_positive_rate :: real
  er_p95 :: real
  er_failures :: "(string \<times> string) list"

record service_report = report +
  er_precision :: real
  er_recall :: real

text \<open>What was measured for a case: its sources, whether it was answered, and the time.\<close>

type_synonym measured = "golden_case \<times> source list \<times> bool \<times> real"

definition answerable_cases :: "measured list \<Rightarrow> measured list" where
  "answerable_cases ms = filter (\<lambda>(g, _). gc_answerable g) ms"

definition no_answer_cases :: "measured list \<Rightarrow> measured list" where
  "no_answer_cases ms = filter (\<lambda>(g, _). \<not> gc_answerable g) ms"

definition hit_rate :: "(source list \<Rightarrow> golden_case \<Rightarrow> nat option) \<Rightarrow> measured list \<Rightarrow> real" where
  "hit_rate rank ms = real (length (filter (\<lambda>(g, xs, _). rank xs g \<noteq> None) (answerable_cases ms))) / real (max 1 (length (answerable_cases ms)))"

definition false_positive_rate :: "measured list \<Rightarrow> real" where
  "false_positive_rate ms = (let ns = no_answer_cases ms in
     if ns = [] then 0 else real (length (filter (\<lambda>(g, xs, answered, _). answered) ns)) / real (length ns))"

definition precision_at_5 :: "source list \<Rightarrow> golden_case \<Rightarrow> real" where
  "precision_at_5 xs g = real (length (filter (relevant g) (take 5 xs))) / real (max 1 (min 5 (length xs)))"

definition recall_at_5 :: "source list \<Rightarrow> golden_case \<Rightarrow> real" where
  "recall_at_5 xs g = min 1 (real (card (set (map so_filename (filter (relevant g) (take 5 xs))))) / real (max 1 (card (set (gc_documents g)))))"

definition failures :: "(source list \<Rightarrow> golden_case \<Rightarrow> nat option) \<Rightarrow> measured list \<Rightarrow> (string \<times> string) list" where
  "failures rank ms = concat (map (\<lambda>(g, xs, answered, _).
     if gc_answerable g then (if rank xs g = None then [(gc_id g, ''retrieval_miss'')] else [])
     else if answered then [(gc_id g, ''false_positive_answer'')] else []) ms)"

text \<open>\<open>eval_retrieval.evaluate\<close>: a case without an \<open>evidence\<close> event counts as answered when it has sources.\<close>

definition answered_of :: "source list \<times> bool option \<Rightarrow> bool" where
  "answered_of r = coalesce (snd r) (fst r \<noteq> [])"

definition evaluate :: "(golden_case \<times> stream_line list \<times> real) list \<Rightarrow> service_report" where
  "evaluate runs =
     (let ms = map (\<lambda>(g, ls, t). case read_stream [] [] ls of r \<Rightarrow> (g, fst r, answered_of r, t)) runs; as = answerable_cases ms
      in \<lparr>er_case_count = length ms, er_hit_rate = hit_rate first_correct_rank ms,
          er_mrr = mean (map (\<lambda>(g, xs, _). reciprocal (first_correct_rank xs g)) as), er_ndcg = mean (map (\<lambda>(g, xs, _). ndcg xs g 5) as),
          er_false_positive_rate = false_positive_rate ms, er_p95 = p95 (map (\<lambda>(_, _, _, t). t) ms),
          er_failures = failures first_correct_rank ms,
          er_precision = mean (map (\<lambda>(g, xs, _). precision_at_5 xs g) as), er_recall = mean (map (\<lambda>(g, xs, _). recall_at_5 xs g) as)\<rparr>)"

text \<open>\<open>run_local_ablation._evaluate_profile\<close>: ranks and gains of the first five results.\<close>

definition source_of :: "retrieved \<Rightarrow> source" where
  "source_of r = \<lparr>so_filename = rc_filename r, so_content = rc_content r\<rparr>"

definition rank_at_5 :: "source list \<Rightarrow> golden_case \<Rightarrow> nat option" where
  "rank_at_5 xs g = first_correct_rank (take 5 xs) g"

text \<open>The question, its vector, the further queries, the switches of a profile.\<close>

definition profile_request :: "string \<Rightarrow> string \<Rightarrow> string \<Rightarrow> golden_case \<Rightarrow> vec \<Rightarrow> ustr list \<Rightarrow> retrieval_request" where
  "profile_request profile owner kb g v extra = \<lparr>rq_owner = owner, rq_query = gc_question g, rq_kb = Some kb, rq_extra = extra, rq_vec = Some v,
     rq_keyword = (profile \<noteq> ''vector''), rq_vector = True, rq_graph = False, rq_types = [], rq_sections = [], rq_after = None, rq_before = None,
     rq_sources = [], rq_departments = [], rq_tags = [], rq_rerank = Some (profile = ''hybrid_rerank''),
     rq_parent = Some (profile = ''parent_child'')\<rparr>"

definition measure_case ::
  "'a evidence_settings_scheme \<Rightarrow> search_engine \<Rightarrow> unicode \<Rightarrow> string \<Rightarrow> string \<Rightarrow> string \<Rightarrow> sys \<Rightarrow>
   golden_case \<times> vec \<times> ustr list \<times> real \<Rightarrow> measured" where
  "measure_case cfg E U profile owner kb s x = (case x of (g, v, extra, t) \<Rightarrow>
     let results = retrieve cfg E U (profile_request profile owner kb g v extra) s
     in (g, map source_of results, ed_answerable (assess_evidence cfg results), t))"

definition evaluate_profile ::
  "'a evidence_settings_scheme \<Rightarrow> search_engine \<Rightarrow> unicode \<Rightarrow> string \<Rightarrow> string \<Rightarrow> string \<Rightarrow> sys \<Rightarrow>
   (golden_case \<times> vec \<times> ustr list \<times> real) list \<Rightarrow> report" where
  "evaluate_profile cfg E U profile owner kb s runs =
     (let ms = map (measure_case cfg E U profile owner kb s) runs; as = answerable_cases ms
      in \<lparr>er_case_count = length ms, er_hit_rate = hit_rate rank_at_5 ms, er_mrr = mean (map (\<lambda>(g, xs, _). reciprocal (rank_at_5 xs g)) as),
          er_ndcg = mean (map (\<lambda>(g, xs, _). ndcg xs g 5) as), er_false_positive_rate = false_positive_rate ms,
          er_p95 = p95 (map (\<lambda>(_, _, _, t). t) ms), er_failures = failures rank_at_5 ms\<rparr>)"

section \<open>The gate of the continuous integration\<close>

definition median3 :: "real \<times> real \<times> real \<Rightarrow> real" where
  "median3 x = (case x of (a, b, c) \<Rightarrow> sort [a, b, c] ! 1)"

text \<open>\<open>statistics.quantiles(latencies, n=100, method="inclusive")[94]\<close>\<close>

definition quantile95 :: "real list \<Rightarrow> real" where
  "quantile95 latencies = (case latencies of [] \<Rightarrow> 0 | [t] \<Rightarrow> t | _ \<Rightarrow>
     let xs = sort latencies; k = 95 * (length latencies - 1); j = k div 100; d = real (k mod 100)
     in (xs ! j * (100 - d) + xs ! (j + 1) * d) / 100)"

text \<open>Every case is asked three times; its results are those of the last time.\<close>

definition ci_report ::
  "'a evidence_settings_scheme \<Rightarrow> search_engine \<Rightarrow> unicode \<Rightarrow> string \<Rightarrow> string \<Rightarrow> sys \<Rightarrow>
   (golden_case \<times> vec \<times> real \<times> real \<times> real) list \<Rightarrow> report" where
  "ci_report cfg E U owner kb s runs =
     (let ms = map (\<lambda>(g, v, ts). measure_case cfg E U ''hybrid'' owner kb s (g, v, [], median3 ts)) runs; as = answerable_cases ms
      in \<lparr>er_case_count = length ms, er_hit_rate = hit_rate first_correct_rank ms,
          er_mrr = mean (map (\<lambda>(g, xs, _). reciprocal (first_correct_rank xs g)) as),
          er_ndcg = 0, er_false_positive_rate = false_positive_rate ms, er_p95 = quantile95 (map (\<lambda>(_, _, _, t). t) ms), er_failures = []\<rparr>)"

datatype regression = HitRateDropped | MrrDropped | FalsePositivesRose | LatencyRose

definition check_quality :: "'a report_scheme \<Rightarrow> 'b report_scheme \<Rightarrow> regression list" where
  "check_quality baseline current =
     (if er_hit_rate current < er_hit_rate baseline - 2 / 100 then [HitRateDropped] else []) @
     (if er_mrr current < er_mrr baseline - 2 / 100 then [MrrDropped] else []) @
     (if er_false_positive_rate baseline < er_false_positive_rate current then [FalsePositivesRose] else []) @
     (if er_p95 baseline * (1 + 20 / 100) < er_p95 current then [LatencyRose] else [])"

text \<open>The exit code, and the baseline file afterwards: the first report becomes the baseline.\<close>

definition ci_gate :: "report option \<Rightarrow> report \<Rightarrow> nat \<times> report option" where
  "ci_gate baseline current = (case baseline of None \<Rightarrow> (0, Some current)
     | Some b \<Rightarrow> (if check_quality b current = [] then 0 else 1, Some b))"

definition injection_gate :: "'a settings_scheme \<Rightarrow> golden_case list \<Rightarrow> ustr \<Rightarrow> ustr \<Rightarrow> nat" where
  "injection_gate cfg golden malicious policy =
     (if filter (\<lambda>g. gc_category g = u ''prompt_injection'') golden = [] then 1
      else if injection_risk cfg malicious \<noteq> RiskHigh then 1
      else if injection_risk cfg policy = RiskHigh then 1 else 0)"

end
