(* ===== verification/EvaluationClaims.thy ===== *)
theory EvaluationClaims
  imports Evaluation
begin

text \<open>
  What the reports of the quality gates can say, and what the gate on them decides.
\<close>

lemma rank_from_pos: "first_correct_rank_from n xs g = Some k \<Longrightarrow> n \<le> k"
  by (induction n xs g rule: first_correct_rank_from.induct) (auto split: if_splits)

definition ranker_from_one :: "(source list \<Rightarrow> golden_case \<Rightarrow> nat option) \<Rightarrow> bool" where
  "ranker_from_one rank \<longleftrightarrow> (\<forall>xs g k. rank xs g = Some k \<longrightarrow> 1 \<le> k)"

lemma rankers: "ranker_from_one first_correct_rank" "ranker_from_one rank_at_5"
  using rank_from_pos [of 1] by (auto simp: ranker_from_one_def first_correct_rank_def rank_at_5_def)

lemma reciprocal_bounds: "ranker_from_one rank \<Longrightarrow> 0 \<le> reciprocal (rank xs g) \<and> reciprocal (rank xs g) \<le> (if rank xs g = None then 0 else 1)"
  by (cases "rank xs g") (auto simp: reciprocal_def ranker_from_one_def divide_le_eq_1 dest: spec)

lemma mean_bounds: "list_all (\<lambda>x. 0 \<le> x \<and> x \<le> 1) xs \<Longrightarrow> 0 \<le> mean xs \<and> mean xs \<le> 1"
proof -
  assume "list_all (\<lambda>x. 0 \<le> x \<and> x \<le> 1) xs"
  then have "0 \<le> sum_list xs \<and> sum_list xs \<le> real (length xs)" by (induction xs) auto
  then show ?thesis by (auto simp: mean_def divide_le_eq_1)
qed

lemma ratio_bounds: "0 \<le> real (length (filter P xs)) / real (max 1 (length xs)) \<and> real (length (filter P xs)) / real (max 1 (length xs)) \<le> 1"
  using length_filter_le [of P xs] by (cases xs) (simp_all add: divide_le_eq_1 max_def)

text \<open>The mean of the reciprocal ranks is at most the share of the cases with a rank.\<close>

lemma mrr_hits:
  assumes "ranker_from_one rank"
  shows "0 \<le> mean (map (\<lambda>(g, xs, _). reciprocal (rank xs g)) (answerable_cases ms)) \<and>
    mean (map (\<lambda>(g, xs, _). reciprocal (rank xs g)) (answerable_cases ms)) \<le> hit_rate rank ms \<and> hit_rate rank ms \<le> 1"
proof -
  let ?as = "answerable_cases ms"
  have "0 \<le> sum_list (map (\<lambda>(g, xs, _). reciprocal (rank xs g)) as) \<and>
      sum_list (map (\<lambda>(g, xs, _). reciprocal (rank xs g)) as) \<le> real (length (filter (\<lambda>(g, xs, _). rank xs g \<noteq> None) as))" for as :: "measured list"
  proof (induction as)
    case (Cons m as)
    obtain g xs a t where m: "m = (g, xs, a, t)" by (cases m)
    from reciprocal_bounds [OF assms, of xs g] Cons show ?case unfolding m by (cases "rank xs g") (simp_all add: reciprocal_def)
  qed simp
  from this [of ?as] show ?thesis
    using ratio_bounds [of "\<lambda>(g, xs, _). rank xs g \<noteq> None" ?as] unfolding hit_rate_def
    by (cases "?as = []") (auto simp: mean_def divide_right_mono max_def Suc_le_eq)
qed

lemma false_positive_bounds: "0 \<le> false_positive_rate ms \<and> false_positive_rate ms \<le> 1"
  using ratio_bounds [of "\<lambda>(g, xs, answered, _). answered" "no_answer_cases ms"]
  by (cases "no_answer_cases ms") (simp_all add: false_positive_rate_def Let_def)

text \<open>Every failure is a missed question or an answer to a question without one.\<close>

lemma failures_exact:
  "real (length (failures rank ms)) = real (length (answerable_cases ms)) * (1 - hit_rate rank ms) +
     real (length (no_answer_cases ms)) * false_positive_rate ms"
proof -
  let ?hits = "\<lambda>ms. length (filter (\<lambda>(g, xs, _). rank xs g \<noteq> None) (answerable_cases ms))"
  let ?false = "\<lambda>ms. length (filter (\<lambda>(g, xs, answered, _). answered) (no_answer_cases ms))"
  have n: "length (failures rank ms) + ?hits ms = length (answerable_cases ms) + ?false ms" for ms
  proof (induction ms)
    case (Cons m ms)
    obtain g xs a t where m: "m = (g, xs, a, t)" by (cases m)
    from Cons show ?case unfolding m by (auto simp: failures_def answerable_cases_def no_answer_cases_def)
  qed (simp add: failures_def answerable_cases_def no_answer_cases_def)
  have "real (length (answerable_cases ms)) * hit_rate rank ms = real (?hits ms)"
    by (cases "answerable_cases ms") (simp_all add: hit_rate_def)
  moreover have "real (length (no_answer_cases ms)) * false_positive_rate ms = real (?false ms)"
    by (simp add: false_positive_rate_def Let_def)
  ultimately show ?thesis using arg_cong [OF n [of ms], of real] by (simp add: algebra_simps)
qed

section \<open>The reports\<close>

definition sound_rates :: "'a report_scheme \<Rightarrow> bool" where
  "sound_rates r \<longleftrightarrow> 0 \<le> er_mrr r \<and> er_mrr r \<le> er_hit_rate r \<and> er_hit_rate r \<le> 1 \<and>
     0 \<le> er_false_positive_rate r \<and> er_false_positive_rate r \<le> 1"

text \<open>Whatever the service streams, whatever the retrieval returns and however the golden set looks, the rates that the three
  evaluations report are rates: the mean reciprocal rank is at most the hit rate, which is at most one, and so are the false
  positive rate, the precision and the recall; and the listed failures are exactly as many as the hit rate and the
  false positive rate say.\<close>

theorem reports_are_rates:
  "sound_rates (evaluate runs) \<and> 0 \<le> er_precision (evaluate runs) \<and> er_precision (evaluate runs) \<le> 1 \<and>
   0 \<le> er_recall (evaluate runs) \<and> er_recall (evaluate runs) \<le> 1 \<and>
   sound_rates (evaluate_profile cfg E U profile owner kb s cases) \<and> sound_rates (ci_report cfg E U owner kb s timed_cases) \<and>
   (let answerable = length (filter (\<lambda>(g, _). gc_answerable g) cases); others = length cases - answerable;
        r = evaluate_profile cfg E U profile owner kb s cases
    in real (length (er_failures r)) = real answerable * (1 - er_hit_rate r) + real others * er_false_positive_rate r)"
proof (intro conjI)
  show "sound_rates (evaluate runs)" "sound_rates (evaluate_profile cfg E U profile owner kb s cases)" "sound_rates (ci_report cfg E U owner kb s timed_cases)"
    using mrr_hits [OF rankers(1)] mrr_hits [OF rankers(2)] false_positive_bounds
    by (simp_all add: sound_rates_def evaluate_def evaluate_profile_def ci_report_def Let_def)
  have precision: "0 \<le> precision_at_5 xs g \<and> precision_at_5 xs g \<le> 1" for xs g
    using ratio_bounds [of "relevant g" "take 5 xs"] by (simp add: precision_at_5_def min.commute)
  have recall: "0 \<le> recall_at_5 xs g \<and> recall_at_5 xs g \<le> 1" for xs g by (simp add: recall_at_5_def)
  show "0 \<le> er_precision (evaluate runs)" "er_precision (evaluate runs) \<le> 1" "0 \<le> er_recall (evaluate runs)" "er_recall (evaluate runs) \<le> 1"
    using mean_bounds precision recall by (simp_all add: evaluate_def Let_def list_all_iff split: prod.split)
  show "let answerable = length (filter (\<lambda>(g, _). gc_answerable g) cases); others = length cases - answerable;
        r = evaluate_profile cfg E U profile owner kb s cases
    in real (length (er_failures r)) = real answerable * (1 - er_hit_rate r) + real others * er_false_positive_rate r"
  proof -
    let ?ms = "map (measure_case cfg E U profile owner kb s) cases"
    have "length (answerable_cases ?ms) = length (filter (\<lambda>(g, _). gc_answerable g) cases)"
      "length (no_answer_cases ?ms) + length (answerable_cases ?ms) = length cases"
      by (induction cases) (auto simp: answerable_cases_def no_answer_cases_def measure_case_def Let_def)
    then show ?thesis using failures_exact [of rank_at_5 ?ms] by (simp add: evaluate_profile_def Let_def)
  qed
qed

section \<open>The gate\<close>

text \<open>A report passes against itself, so that the first run of the gate cannot break the next one.\<close>

lemma gate_accepts_seed: "0 \<le> er_p95 r \<Longrightarrow> fst (ci_gate (snd (ci_gate None r)) r) = 0"
  by (simp add: ci_gate_def check_quality_def)

lemma gate_exact:
  "fst (ci_gate (Some b) r) = 0 \<longleftrightarrow> er_hit_rate b - 2 / 100 \<le> er_hit_rate r \<and> er_mrr b - 2 / 100 \<le> er_mrr r \<and>
     er_false_positive_rate r \<le> er_false_positive_rate b \<and> er_p95 r \<le> er_p95 b * (1 + 20 / 100)"
  by (auto simp: ci_gate_def check_quality_def)

text \<open>The gain of two relevant passages is above one, although the code takes the ideal gain to be one.\<close>

lemma gain_above_one: "relevant g x \<Longrightarrow> 1 < ndcg [x, x] g 5"
  by (simp add: ndcg_def enum_def)

text \<open>A relevant source in sixth place counts as a hit at five.\<close>

lemma sixth_place_is_hit: "\<not> relevant g y \<Longrightarrow> relevant g x \<Longrightarrow> first_correct_rank (replicate 5 y @ [x]) g = Some 6"
  by (simp add: first_correct_rank_def numeral_eq_Suc)

end
