(* ===== verification/RowSecurity.thy ===== *)
theory RowSecurity
  imports AuditChain
begin

text \<open>
  The second line of defence behind the permission checks.  \<open>app/db.py\<close> binds the user of a request to the transactions of its
  session; the row level security policies of the migrations let the role \<open>rag_app\<close> of the API see and write only the rows of
  that user.  The policies are those in force after the last migration; a policy whose subquery reads another table reads it
  under that table's policy.  The role \<open>rag_worker\<close> of the workers bypasses them.
\<close>

section \<open>Connections and sessions\<close>

text \<open>The value of \<open>app.user_id\<close> on a connection: for the transaction, and for the connection.\<close>

record pg_setting =
  gs_local :: "string option"
  gs_session :: "string option"

definition current_setting :: "pg_setting \<Rightarrow> string" where
  "current_setting g = coalesce (gs_local g) (coalesce (gs_session g) [])"

definition set_config :: "string \<Rightarrow> bool \<Rightarrow> pg_setting \<Rightarrow> pg_setting" where
  "set_config v is_local g = (if is_local then g\<lparr>gs_local := Some v\<rparr> else \<lparr>gs_local = None, gs_session = Some v\<rparr>)"

text \<open>A session holds a connection while it is in a transaction; \<open>ds_info\<close> is \<open>session.info["rls_user_id"]\<close>.\<close>

record db_session =
  ds_info :: "string option"
  ds_conn :: "nat option"

record db_engine =
  en_setting :: "nat \<Rightarrow> pg_setting"
  en_idle :: "nat list"
  en_busy :: "nat list"
  en_session :: "nat \<Rightarrow> db_session option"

definition new_engine :: db_engine where
  "new_engine = \<lparr>en_setting = (\<lambda>c. \<lparr>gs_local = None, gs_session = None\<rparr>), en_idle = [], en_busy = [], en_session = (\<lambda>i. None)\<rparr>"

text \<open>The pool opens a connection.\<close>

definition connect :: "nat \<Rightarrow> db_engine \<Rightarrow> db_engine" where
  "connect c e = (if c \<in> set (en_idle e @ en_busy e) then e
     else e\<lparr>en_idle := c # en_idle e, en_setting := (en_setting e)(c := \<lparr>gs_local = None, gs_session = None\<rparr>)\<rparr>)"

definition open_session :: "nat \<Rightarrow> db_engine \<Rightarrow> db_engine" where
  "open_session i e = (case en_session e i of None \<Rightarrow> e\<lparr>en_session := (en_session e)(i \<mapsto> \<lparr>ds_info = None, ds_conn = None\<rparr>)\<rparr> | Some _ \<Rightarrow> e)"

text \<open>The first statement of a transaction takes a connection from the pool, and \<open>after_begin\<close> restores the user. The pool
  chooses \<open>c\<close>; without an idle connection the statement fails.\<close>

definition begin_transaction :: "nat \<Rightarrow> nat \<Rightarrow> db_engine \<Rightarrow> db_engine" where
  "begin_transaction i c e = (case en_session e i of None \<Rightarrow> e | Some x \<Rightarrow>
     if ds_conn x \<noteq> None \<or> c \<notin> set (en_idle e) then e
     else e\<lparr>en_idle := filter (\<lambda>y. y \<noteq> c) (en_idle e), en_busy := c # en_busy e, en_session := (en_session e)(i \<mapsto> x\<lparr>ds_conn := Some c\<rparr>),
            en_setting := (en_setting e)(c := (if coalesce (ds_info x) [] = [] then en_setting e c
              else set_config (coalesce (ds_info x) []) True (en_setting e c)))\<rparr>)"

definition set_tenant_context :: "nat \<Rightarrow> string \<Rightarrow> nat \<Rightarrow> db_engine \<Rightarrow> db_engine" where
  "set_tenant_context i user_id c e = (case en_session e i of None \<Rightarrow> e | Some x \<Rightarrow>
     let e1 = begin_transaction i c (e\<lparr>en_session := (en_session e)(i \<mapsto> x\<lparr>ds_info := Some user_id\<rparr>)\<rparr>) in
     case Option.bind (en_session e1 i) ds_conn of None \<Rightarrow> e1
     | Some k \<Rightarrow> e1\<lparr>en_setting := (en_setting e1)(k := set_config user_id True (en_setting e1 k))\<rparr>)"

text \<open>Commit and rollback end the transaction, and with it its settings; the connection goes back to the pool.  A broken
  connection is discarded.\<close>

definition end_transaction :: "bool \<Rightarrow> nat \<Rightarrow> db_engine \<Rightarrow> db_engine" where
  "end_transaction broken i e = (case en_session e i of None \<Rightarrow> e | Some x \<Rightarrow>
     case ds_conn x of None \<Rightarrow> e | Some c \<Rightarrow>
       e\<lparr>en_session := (en_session e)(i \<mapsto> x\<lparr>ds_conn := None\<rparr>), en_busy := filter (\<lambda>y. y \<noteq> c) (en_busy e),
         en_idle := (if broken then en_idle e else c # en_idle e),
         en_setting := (en_setting e)(c := (en_setting e c)\<lparr>gs_local := None\<rparr>)\<rparr>)"

text \<open>The end of \<open>get_db\<close>\<close>

definition close_session :: "bool \<Rightarrow> nat \<Rightarrow> db_engine \<Rightarrow> db_engine" where
  "close_session broken i e = (case en_session e i of None \<Rightarrow> e | Some x \<Rightarrow>
     let e1 = end_transaction broken i (e\<lparr>en_session := (en_session e)(i \<mapsto> x\<lparr>ds_info := None\<rparr>)\<rparr>)
     in e1\<lparr>en_session := (en_session e1)(i := None)\<rparr>)"

datatype db_op = Connect nat | OpenSession nat | Execute nat nat | BindTenant nat string nat | EndTransaction bool nat | CloseSession bool nat

fun db_step :: "db_op \<Rightarrow> db_engine \<Rightarrow> db_engine" where
  "db_step (Connect c) = connect c"
| "db_step (OpenSession i) = open_session i"
| "db_step (Execute i c) = begin_transaction i c"
| "db_step (BindTenant i uid c) = set_tenant_context i uid c"
| "db_step (EndTransaction broken i) = end_transaction broken i"
| "db_step (CloseSession broken i) = close_session broken i"

definition db_run :: "db_op list \<Rightarrow> db_engine" where
  "db_run ops = fold db_step ops new_engine"

text \<open>The user a statement of session \<open>i\<close> runs for; \<open>None\<close> outside of a transaction.\<close>

definition statement_user :: "nat \<Rightarrow> db_engine \<Rightarrow> string option" where
  "statement_user i e = map_option (\<lambda>c. current_setting (en_setting e c)) (Option.bind (en_session e i) ds_conn)"

section \<open>Policies\<close>

definition has_role :: "sys \<Rightarrow> string \<Rightarrow> string \<Rightarrow> workspace_role list \<Rightarrow> bool" where
  "has_role s uid ws roles = list_ex (\<lambda>m. m_ws m = ws \<and> m_user m = uid \<and> m_role m \<in> set roles) (memberships s)"

definition has_role_opt :: "sys \<Rightarrow> string \<Rightarrow> string option \<Rightarrow> workspace_role list \<Rightarrow> bool" where
  "has_role_opt s uid ws roles = (case ws of None \<Rightarrow> False | Some w \<Rightarrow> has_role s uid w roles)"

definition kb_using :: "sys \<Rightarrow> string \<Rightarrow> knowledge_base \<Rightarrow> bool" where
  "kb_using s uid k = has_role s uid (k_ws k) READ_ROLES"

definition kb_check :: "sys \<Rightarrow> string \<Rightarrow> knowledge_base \<Rightarrow> bool" where
  "kb_check s uid k = has_role s uid (k_ws k) [Owner, Admin, Editor]"

definition document_using :: "sys \<Rightarrow> string \<Rightarrow> document \<Rightarrow> bool" where
  "document_using s uid d = list_ex (\<lambda>k. k_id k = d_kb d \<and> kb_using s uid k) (kbs s)"

definition document_check :: "sys \<Rightarrow> string \<Rightarrow> document \<Rightarrow> bool" where
  "document_check s uid d = list_ex (\<lambda>k. k_id k = d_kb d \<and> kb_using s uid k \<and> kb_check s uid k) (kbs s)"

definition chunk_using :: "sys \<Rightarrow> string \<Rightarrow> chunk \<Rightarrow> bool" where
  "chunk_using s uid c = has_role_opt s uid (c_ws c) [Owner, Admin, Editor, Viewer]"

definition chunk_update_check :: "sys \<Rightarrow> string \<Rightarrow> chunk \<Rightarrow> bool" where
  "chunk_update_check s uid c = has_role_opt s uid (c_ws c) [Owner, Admin, Editor]"

definition entity_using :: "sys \<Rightarrow> string \<Rightarrow> graph_entity \<Rightarrow> bool" where
  "entity_using s uid e = has_role s uid (e_ws e) [Owner, Admin, Editor, Viewer]"

definition relation_using :: "sys \<Rightarrow> string \<Rightarrow> graph_relation \<Rightarrow> bool" where
  "relation_using s uid r = has_role s uid (r_ws r) [Owner, Admin, Editor, Viewer]"

definition audit_using :: "sys \<Rightarrow> string \<Rightarrow> audit_log \<Rightarrow> bool" where
  "audit_using s uid a = has_role_opt s uid (a_ws a) [Owner, Admin, Auditor]"

definition audit_append_check :: "sys \<Rightarrow> string \<Rightarrow> audit_log \<Rightarrow> bool" where
  "audit_append_check s uid a \<longleftrightarrow> a_actor a = Some uid \<and> has_role_opt s uid (a_ws a) READ_ROLES"

definition dead_letter_using :: "sys \<Rightarrow> string \<Rightarrow> dead_letter \<Rightarrow> bool" where
  "dead_letter_using s uid l = has_role_opt s uid (l_ws l) [Owner, Admin]"

definition conversation_using :: "string \<Rightarrow> conversation \<Rightarrow> bool" where
  "conversation_using uid v \<longleftrightarrow> v_owner v = uid"

definition message_using :: "sys \<Rightarrow> string \<Rightarrow> message \<Rightarrow> bool" where
  "message_using s uid x = list_ex (\<lambda>v. v_id v = x_conversation x \<and> conversation_using uid v) (conversations s)"

definition usage_using :: "string \<Rightarrow> usage_record \<Rightarrow> bool" where
  "usage_using uid y \<longleftrightarrow> y_owner y = uid"

definition feedback_using :: "string \<Rightarrow> answer_feedback \<Rightarrow> bool" where
  "feedback_using uid b \<longleftrightarrow> b_owner b = uid"

text \<open>The database as a statement of the API sees it.\<close>

definition app_view :: "string \<Rightarrow> sys \<Rightarrow> sys" where
  "app_view uid s = s\<lparr>kbs := filter (kb_using s uid) (kbs s), docs := filter (document_using s uid) (docs s),
     chunks := filter (chunk_using s uid) (chunks s), entities := filter (entity_using s uid) (entities s),
     relations := filter (relation_using s uid) (relations s), audits := filter (audit_using s uid) (audits s),
     dead := filter (dead_letter_using s uid) (dead s), conversations := filter (conversation_using uid) (conversations s),
     messages := filter (message_using s uid) (messages s), usage := filter (usage_using uid) (usage s),
     feedback := filter (feedback_using uid) (feedback s)\<rparr>"

text \<open>An audit row is inserted with \<open>RETURNING\<close>, for the columns of the chain are \<open>FetchedValue\<close>s of the model that the mapper
  reads back; PostgreSQL then asks the policy for reading as well.\<close>

definition audit_insert_ok :: "sys \<Rightarrow> string \<Rightarrow> audit_log \<Rightarrow> bool" where
  "audit_insert_ok s uid a \<longleftrightarrow> audit_append_check s uid a \<and> audit_using s uid a"

text \<open>The privileges of the role and the policies for writing, for a transaction from \<open>s\<close> to \<open>t\<close>: audit rows are only appended,
  of a chunk only the source address changes, a changed row satisfies the policy for its table.  Memberships are those at the end
  of the transaction.\<close>

definition written :: "'a list \<Rightarrow> 'a list \<Rightarrow> 'a list" where
  "written old new = filter (\<lambda>x. x \<notin> set old) new"

definition app_accepts :: "string \<Rightarrow> sys \<Rightarrow> sys \<Rightarrow> bool" where
  "app_accepts uid s t \<longleftrightarrow> take (length (audits s)) (audits t) = audits s \<and>
     list_all (audit_insert_ok t uid) (drop (length (audits s)) (audits t)) \<and>
     list_all (kb_check t uid) (written (kbs s) (kbs t)) \<and> list_all (document_check t uid) (written (docs s) (docs t)) \<and>
     list_all (\<lambda>c. chunk_update_check t uid c \<and> list_ex (\<lambda>x. c = x\<lparr>c_source_url := c_source_url c\<rparr>) (chunks s)) (written (chunks s) (chunks t)) \<and>
     written (entities s) (entities t) = [] \<and> written (relations s) (relations t) = [] \<and>
     list_all (dead_letter_using t uid) (written (dead s) (dead t)) \<and>
     list_all (conversation_using uid) (written (conversations s) (conversations t)) \<and>
     list_all (message_using t uid) (written (messages s) (messages t)) \<and>
     list_all (usage_using uid) (written (usage s) (usage t)) \<and>
     list_all (feedback_using uid) (written (feedback s) (feedback t))"

text \<open>The trigger of the hash chain runs with the privileges of the statement, so that it looks for the newest row among those
  the user may read.\<close>

definition app_chain_insert ::
  "(ustr \<Rightarrow> string) \<Rightarrow> (json option \<Rightarrow> ustr) \<Rightarrow> (datetime \<Rightarrow> ustr) \<Rightarrow> nat \<Rightarrow> string \<Rightarrow> audit_log \<Rightarrow> sys \<Rightarrow> sys" where
  "app_chain_insert sha jt tt n uid a s = s\<lparr>audits := audits s @ drop (length (audits (app_view uid s))) (chain_insert sha jt tt n a (audits (app_view uid s)))\<rparr>"

end
