(* ===== verification/RowSecurityClaims.thy ===== *)
theory RowSecurityClaims
  imports RowSecurity DocumentClaims Auth Retrieval Chat
begin

text \<open>
  What the second line of defence gives: statements run for the user of their own session; the policies hide nothing that the
  permission checks admit; and which transactions of the API's role they let through.
\<close>

section \<open>The user of a statement\<close>

text \<open>Read from the calls of one session alone: \<open>None\<close> when it is not open, the empty text before a user is bound.\<close>

fun bind_of :: "nat \<Rightarrow> db_op \<Rightarrow> string option \<Rightarrow> string option" where
  "bind_of i (OpenSession j) b = (if j = i \<and> b = None then Some [] else b)"
| "bind_of i (BindTenant j uid c) b = (if j = i \<and> b \<noteq> None then Some uid else b)"
| "bind_of i (CloseSession broken j) b = (if j = i then None else b)"
| "bind_of i _ b = b"

definition bound_user :: "nat \<Rightarrow> db_op list \<Rightarrow> string option" where
  "bound_user i ops = fold (bind_of i) ops None"

definition info_of :: "nat \<Rightarrow> db_engine \<Rightarrow> string option" where
  "info_of i e = map_option (\<lambda>x. coalesce (ds_info x) []) (en_session e i)"

definition holds_conn :: "db_engine \<Rightarrow> nat \<Rightarrow> nat \<Rightarrow> bool" where
  "holds_conn e i c \<longleftrightarrow> Option.bind (en_session e i) ds_conn = Some c"

definition engine_ok :: "db_engine \<Rightarrow> bool" where
  "engine_ok e \<longleftrightarrow> (\<forall>c. gs_session (en_setting e c) = None) \<and> (\<forall>c \<in> set (en_idle e). gs_local (en_setting e c) = None \<and> c \<notin> set (en_busy e)) \<and>
     (\<forall>i c. holds_conn e i c \<longrightarrow> c \<in> set (en_busy e) \<and> info_of i e = Some (current_setting (en_setting e c))) \<and>
     (\<forall>i j c. holds_conn e i c \<longrightarrow> holds_conn e j c \<longrightarrow> i = j)"

lemma new_engine_ok: "engine_ok new_engine"
  by (simp add: engine_ok_def new_engine_def holds_conn_def)

lemmas engine_defs = engine_ok_def holds_conn_def info_of_def current_setting_def set_config_def

lemma connect_ok: "engine_ok e \<Longrightarrow> engine_ok (connect c e)"
  by (auto simp: engine_defs connect_def)

lemma open_ok: "engine_ok e \<Longrightarrow> engine_ok (open_session i e)"
  by (auto simp: engine_defs open_session_def split: option.split)

lemma begin_ok: "engine_ok e \<Longrightarrow> engine_ok (begin_transaction i c e)"
  by (cases "en_session e i") (auto simp: engine_defs begin_transaction_def split: if_splits)

lemma end_ok: "engine_ok e \<Longrightarrow> engine_ok (end_transaction b i e)"
  by (cases "en_session e i") (auto simp: engine_defs end_transaction_def split: option.splits if_splits)

text \<open>A session without a transaction may change its user; one that holds a connection changes the setting with it.\<close>

lemma info_ok:
  assumes "engine_ok e" "en_session e i = Some x" "ds_conn x = None"
  shows "engine_ok (e\<lparr>en_session := (en_session e)(i \<mapsto> x\<lparr>ds_info := v\<rparr>)\<rparr>)"
  using assms by (auto simp: engine_defs split: if_splits)

lemma rebind_ok:
  assumes "engine_ok e" "en_session e i = Some x" "ds_conn x = Some k"
  shows "engine_ok (e\<lparr>en_session := (en_session e)(i \<mapsto> x\<lparr>ds_info := Some v\<rparr>), en_setting := (en_setting e)(k := set_config v True (en_setting e k))\<rparr>)"
proof -
  have "holds_conn e i k" using assms(2,3) by (simp add: holds_conn_def)
  then have "k \<in> set (en_busy e)" "k \<notin> set (en_idle e)" "\<forall>j. holds_conn e j k \<longrightarrow> j = i" using assms(1) unfolding engine_ok_def by blast+
  then show ?thesis using assms by (auto simp: engine_defs split: if_splits)
qed

lemma begin_session:
  "en_session (begin_transaction i c e) i = (case en_session e i of None \<Rightarrow> None
     | Some x \<Rightarrow> Some (if ds_conn x \<noteq> None \<or> c \<notin> set (en_idle e) then x else x\<lparr>ds_conn := Some c\<rparr>))"
  by (auto simp: begin_transaction_def split: option.split)

lemma tenant_ok: "engine_ok e \<Longrightarrow> engine_ok (set_tenant_context i v c e)"
proof (cases "en_session e i")
  case None
  then show "engine_ok e \<Longrightarrow> ?thesis" by (simp add: set_tenant_context_def)
next
  case (Some x)
  assume ok: "engine_ok e"
  show ?thesis
  proof (cases "ds_conn x")
    case (Some k)
    then show ?thesis using rebind_ok [OF ok \<open>en_session e i = Some x\<close> Some, of v] \<open>en_session e i = Some x\<close>
      by (simp add: set_tenant_context_def begin_transaction_def)
  next
    case None
    let ?e = "begin_transaction i c (e\<lparr>en_session := (en_session e)(i \<mapsto> x\<lparr>ds_info := Some v\<rparr>)\<rparr>)"
    have begun: "engine_ok ?e" by (rule begin_ok [OF info_ok [OF ok Some None]])
    show ?thesis
    proof (cases "c \<in> set (en_idle e)")
      case False
      then show ?thesis using begun Some None by (simp add: set_tenant_context_def begin_session)
    next
      case True
      let ?y = "x\<lparr>ds_info := Some v, ds_conn := Some c\<rparr>"
      have y: "en_session ?e i = Some ?y" using True None by (simp add: begin_session)
      have same: "?e\<lparr>en_session := (en_session ?e)(i \<mapsto> ?y\<lparr>ds_info := Some v\<rparr>), en_setting := S\<rparr> = ?e\<lparr>en_setting := S\<rparr>" for S
        using y by (simp add: fun_upd_idem)
      have "engine_ok (?e\<lparr>en_setting := (en_setting ?e)(c := set_config v True (en_setting ?e c))\<rparr>)"
        using rebind_ok [OF begun y, of c v] unfolding same by simp
      then show ?thesis using Some y by (simp add: set_tenant_context_def Let_def)
    qed
  qed
qed

lemma close_ok: "engine_ok e \<Longrightarrow> engine_ok (close_session b i e)"
  by (cases "en_session e i") (auto simp: engine_defs close_session_def end_transaction_def Let_def split: option.splits if_splits)

lemma step_ok: "engine_ok e \<Longrightarrow> engine_ok (db_step op e)"
  by (cases op) (simp_all add: connect_ok open_ok begin_ok tenant_ok end_ok close_ok)

lemma step_info: "info_of i (db_step op e) = bind_of i op (info_of i e)"
  by (cases op) (auto simp: info_of_def connect_def open_session_def begin_transaction_def set_tenant_context_def end_transaction_def
      close_session_def Let_def split: option.splits)

lemma run_ok: "engine_ok (db_run ops) \<and> info_of i (db_run ops) = bound_user i ops"
proof (induction ops rule: rev_induct)
  case Nil
  then show ?case using new_engine_ok by (simp add: db_run_def bound_user_def info_of_def new_engine_def)
next
  case (snoc op ops)
  then show ?case using step_ok step_info by (simp add: db_run_def bound_user_def)
qed

text \<open>C16: Tenants do not meet in the connection pool. Whatever sessions are opened, bound to users, committed, rolled back and closed
  in whatever order over however few connections, broken ones included, a statement runs for exactly the user its own session
  was last bound to, across all transactions of the session, or for nobody; no two sessions share a connection; and a
  connection that waits in the pool carries no user.\<close>

theorem statements_run_for_their_own_user:
  "(case statement_user i (db_run ops) of None \<Rightarrow> True | Some uid \<Rightarrow> bound_user i ops = Some uid) \<and>
   (if i = j \<or> statement_user i (db_run ops) = None then True
    else Option.bind (en_session (db_run ops) i) ds_conn \<noteq> Option.bind (en_session (db_run ops) j) ds_conn) \<and>
   list_all (\<lambda>c. current_setting (en_setting (db_run ops) c) = []) (en_idle (db_run ops))"
proof -
  let ?e = "db_run ops"
  have ok: "engine_ok ?e" and info: "info_of i ?e = bound_user i ops" using run_ok by blast+
  have "statement_user i ?e = None \<or> (\<exists>c. holds_conn ?e i c \<and> statement_user i ?e = Some (current_setting (en_setting ?e c)))"
    by (cases "Option.bind (en_session ?e i) ds_conn") (simp_all add: statement_user_def holds_conn_def)
  then have "case statement_user i ?e of None \<Rightarrow> True | Some uid \<Rightarrow> bound_user i ops = Some uid"
    using ok info unfolding engine_ok_def by force
  moreover have "Option.bind (en_session ?e i) ds_conn \<noteq> Option.bind (en_session ?e j) ds_conn" if other: "i \<noteq> j" "statement_user i ?e \<noteq> None"
  proof -
    obtain c where "holds_conn ?e i c" using other(2) by (auto simp: statement_user_def holds_conn_def)
    moreover from this have "\<not> holds_conn ?e j c" using ok other(1) unfolding engine_ok_def by blast
    ultimately show ?thesis by (auto simp: holds_conn_def)
  qed
  moreover have "list_all (\<lambda>c. current_setting (en_setting ?e c) = []) (en_idle ?e)"
    using ok by (simp add: engine_ok_def list_all_iff current_setting_def)
  ultimately show ?thesis by simp
qed

section \<open>What the policies hide\<close>

lemma has_role_iff: "has_role s uid ws roles \<longleftrightarrow> (\<exists>m \<in> set (memberships s). m_ws m = ws \<and> m_user m = uid \<and> m_role m \<in> set roles)"
  by (simp add: has_role_def list_ex_iff)

lemma has_role_mono: "has_role s uid ws roles \<Longrightarrow> set roles \<subseteq> set wider \<Longrightarrow> has_role s uid ws wider"
  unfolding has_role_iff by blast

lemma every_role: "r \<in> set READ_ROLES"
  by (cases r) (simp_all add: READ_ROLES_def)

lemma find_row_filter:
  assumes "distinct (map key xs)"
  shows "find_row (\<lambda>x. key x = i) (filter Q xs) = (case find_row (\<lambda>x. key x = i) xs of None \<Rightarrow> None | Some x \<Rightarrow> if Q x then Some x else None)"
  using assms
proof (induction xs)
  case (Cons x xs)
  have "find_row (\<lambda>y. key y = i) (filter Q xs) = None" if "key x = i"
    using Cons.prems that by (auto simp: find_row_None) (metis image_eqI)
  then show ?case using Cons by simp
qed simp

lemma member_with_role: "member_with s ws uid roles = Some m \<Longrightarrow> has_role s uid ws roles"
  unfolding has_role_iff by (metis member_with_Some)

lemma app_view_kb:
  assumes "distinct (map k_id (kbs s))"
  shows "get_kb (app_view uid s) i = (case get_kb s i of None \<Rightarrow> None | Some k \<Rightarrow> if kb_using s uid k then Some k else None)"
  using find_row_filter [OF assms] by (simp add: get_kb_def app_view_def)

lemma app_view_doc:
  assumes "distinct (map d_id (docs s))"
  shows "get_doc (app_view uid s) i = (case get_doc s i of None \<Rightarrow> None | Some d \<Rightarrow> if document_using s uid d then Some d else None)"
  using find_row_filter [OF assms] by (simp add: get_doc_def app_view_def)

lemma app_view_members [simp]: "member_with (app_view uid s) ws v roles = member_with s ws v roles" "memberships (app_view uid s) = memberships s"
  by (simp_all add: member_with_def app_view_def)

lemma role_reads: "has_role s uid (k_ws k) roles \<Longrightarrow> kb_using s uid k"
  using has_role_mono [of s uid "k_ws k" roles READ_ROLES] every_role unfolding kb_using_def by blast

lemma app_view_kb_permission:
  assumes "distinct (map k_id (kbs s))"
  shows "get_kb_with_permission (app_view uid s) i uid p = get_kb_with_permission s i uid p"
  using role_reads [OF member_with_role] by (simp add: get_kb_with_permission_def app_view_kb [OF assms] split: option.splits)

lemma kb_reads_document: "get_kb s (d_kb d) = Some k \<Longrightarrow> kb_using s uid k \<Longrightarrow> document_using s uid d"
  using find_row_Some unfolding get_kb_def document_using_def list_ex_iff by fastforce

lemma app_view_document_permission:
  assumes "distinct (map k_id (kbs s))" "distinct (map d_id (docs s))"
  shows "get_document_with_permission (app_view uid s) i uid p = get_document_with_permission s i uid p"
proof (cases "get_doc s i")
  case None
  then show ?thesis by (simp add: get_document_with_permission_def app_view_doc [OF assms(2)])
next
  case (Some d)
  show ?thesis
  proof (cases "get_kb s (d_kb d)")
    case None
    then show ?thesis using Some
      by (simp add: get_document_with_permission_def app_view_doc [OF assms(2)] app_view_kb [OF assms(1)])
  next
    case (Some k)
    then show ?thesis using \<open>get_doc s i = Some d\<close> kb_reads_document [OF Some, of uid] role_reads [OF member_with_role, of s k uid "PERMISSION_ROLES p"]
      by (auto simp: get_document_with_permission_def app_view_doc [OF assms(2)] app_view_kb [OF assms(1)] split: option.splits)
  qed
qed

text \<open>The join of the recall queries, restricted table by table.\<close>

lemma filter_concat_map: "filter P (concat (map f xs)) = concat (map (\<lambda>x. filter P (f x)) xs)"
  by (induction xs) simp_all

lemma concat_map_filter:
  assumes "\<And>x. x \<in> set xs \<Longrightarrow> Q x \<Longrightarrow> f x = g x" "\<And>x. x \<in> set xs \<Longrightarrow> \<not> Q x \<Longrightarrow> g x = []"
  shows "concat (map f (filter Q xs)) = concat (map g xs)"
  using assms by (induction xs) auto

lemma restricted_join:
  assumes "\<And>c d k. c \<in> set cs \<Longrightarrow> d \<in> set ds \<Longrightarrow> k \<in> set ks \<Longrightarrow> f c d k \<noteq> [] \<Longrightarrow> C c \<and> D d \<and> K k"
  shows "concat (map (\<lambda>c. concat (map (\<lambda>d. concat (map (f c d) (filter K ks))) (filter D ds))) (filter C cs)) =
    concat (map (\<lambda>c. concat (map (\<lambda>d. concat (map (f c d) ks)) ds)) cs)"
proof (rule concat_map_filter)
  fix c assume c: "c \<in> set cs"
  show "concat (map (\<lambda>d. concat (map (f c d) ks)) ds) = []" if "\<not> C c" using assms c that by fastforce
  show "concat (map (\<lambda>d. concat (map (f c d) (filter K ks))) (filter D ds)) = concat (map (\<lambda>d. concat (map (f c d) ks)) ds)"
  proof (rule concat_map_filter)
    fix d assume d: "d \<in> set ds"
    show "concat (map (f c d) ks) = []" if "\<not> D d" using assms [OF c d] that by fastforce
    show "concat (map (f c d) (filter K ks)) = concat (map (f c d) ks)" using assms [OF c d] by (intro concat_map_filter) blast+
  qed
qed

definition member_rows :: "search_engine \<Rightarrow> retrieval_request \<Rightarrow> membership list \<Rightarrow> chunk \<Rightarrow> document \<Rightarrow> knowledge_base \<Rightarrow> joined list" where
  "member_rows E rq ms c d k = (if d_id d = c_doc c \<and> k_id k = c_kb c then concat (map (\<lambda>m. if m_ws m = k_ws k then
     (if visible_row E rq (c, d, k, m) then [(c, d, k, m)] else []) else []) ms) else [])"

lemma visible_rows: "filter (visible_row E rq) (joined_rows s) =
    concat (map (\<lambda>c. concat (map (\<lambda>d. concat (map (member_rows E rq (memberships s) c d) (kbs s))) (docs s))) (chunks s))"
proof -
  have "filter (visible_row E rq) (concat (map (\<lambda>m. if m_ws m = k_ws k then [(c, d, k, m)] else []) ms)) =
      concat (map (\<lambda>m. if m_ws m = k_ws k then (if visible_row E rq (c, d, k, m) then [(c, d, k, m)] else []) else []) ms)" for c d k ms
    by (induction ms) simp_all
  then have "filter (visible_row E rq) (if d_id d = c_doc c then concat (map (\<lambda>k. if k_id k = c_kb c
        then concat (map (\<lambda>m. if m_ws m = k_ws k then [(c, d, k, m)] else []) ms) else []) ks) else []) =
      concat (map (member_rows E rq ms c d) ks)" for c d ks ms
    by (cases "d_id d = c_doc c"; induction ks) (simp_all add: member_rows_def)
  then show ?thesis unfolding joined_rows_def filter_concat_map by simp
qed

lemma member_rows_ne:
  assumes "member_rows E rq ms c d k \<noteq> []" "rq_kb rq = Some kb" "kb \<noteq> []"
  shows "k_id k = kb \<and> c_kb c = kb \<and> d_kb d = kb \<and> (\<exists>m \<in> set ms. m_ws m = k_ws k \<and> m_user m = rq_owner rq)"
proof -
  obtain m where "m \<in> set ms" "m_ws m = k_ws k" "visible_row E rq (c, d, k, m)" "k_id k = c_kb c"
    using assms(1) by (auto simp: member_rows_def simp del: visible_row.simps split: if_splits)
  then show ?thesis using assms(2,3) by auto
qed

text \<open>A chunk is filed under the workspace of its knowledge base.\<close>

definition chunks_filed :: "sys \<Rightarrow> bool" where
  "chunks_filed s \<longleftrightarrow> list_all (\<lambda>c. list_all (\<lambda>k. k_id k = c_kb c \<longrightarrow> c_ws c = Some (k_ws k)) (kbs s)) (chunks s)"

text \<open>C17: The row level policies take nothing away that the permission checks grant. Through the role of the API
  every permission check on a knowledge base or document has the same answer, errors included, as on the whole database; and for whoever may
  query a knowledge base the four recalls of a retrieval draw on exactly the same rows in the same order.\<close>

theorem policies_admit_the_permitted:
  assumes "distinct (map k_id (kbs s))" "distinct (map d_id (docs s))" "chunks_filed s"
    and "get_kb_with_permission s kb uid PQuery = Inr k0" "rq_owner rq = uid" "rq_kb rq = Some kb" "kb \<noteq> []"
  shows "get_kb_with_permission (app_view uid s) i uid p = get_kb_with_permission s i uid p \<and>
    get_document_with_permission (app_view uid s) j uid p = get_document_with_permission s j uid p \<and>
    allowed_rows E rq (app_view uid s) = allowed_rows E rq s"
proof (intro conjI app_view_kb_permission app_view_document_permission assms(1,2))
  have k0: "k0 \<in> set (kbs s)" "k_id k0 = kb" and query: "has_role s uid (k_ws k0) QUERY_ROLES"
    using assms(4) find_row_Some by (fastforce simp: get_kb_with_permission_iff get_kb_def, fastforce simp: get_kb_with_permission_iff get_kb_def,
      auto simp: get_kb_with_permission_iff has_role_iff)
  have only: "k = k0" if "k \<in> set (kbs s)" "k_id k = kb" for k
    using that k0 assms(1) by (auto simp: distinct_map inj_on_def)
  have "chunk_using s uid c \<and> document_using s uid d \<and> kb_using s uid k"
    if "c \<in> set (chunks s)" "k \<in> set (kbs s)" "member_rows E rq (memberships s) c d k \<noteq> []" for c d k
  proof -
    have row: "k_id k = kb" "c_kb c = kb" "d_kb d = kb" and member: "\<exists>m \<in> set (memberships s). m_ws m = k_ws k \<and> m_user m = uid"
      using member_rows_ne [OF that(3) assms(6,7)] assms(5) by blast+
    have reads: "kb_using s uid k" using member every_role unfolding kb_using_def has_role_iff by blast
    have "k = k0" using only that(2) row(1) by blast
    moreover have "c_ws c = Some (k_ws k)" using assms(3) that(1,2) row by (simp add: chunks_filed_def list_all_iff)
    ultimately have "chunk_using s uid c" using query by (simp add: chunk_using_def has_role_opt_def QUERY_ROLES_def)
    moreover have "document_using s uid d" using reads that(2) row unfolding document_using_def list_ex_iff by metis
    ultimately show ?thesis using reads by blast
  qed
  then show "allowed_rows E rq (app_view uid s) = allowed_rows E rq s" unfolding allowed_rows_def visible_rows
    by (simp add: app_view_def restricted_join [where C = "chunk_using s uid" and D = "document_using s uid" and K = "kb_using s uid"])
qed

definition demo_chunk :: chunk where
  "demo_chunk = \<lparr>c_id = ''c1'', c_doc = ''d1'', c_owner = ''u1'', c_kb = ''k1'', c_version = 1, c_seq = 0, c_parent_seq = 0, c_page = None,
     c_ws = Some ''w1'', c_section = None, c_content_type = ''text'', c_source_url = None, c_token_count = 1, c_metadata = JObj [], c_created = 0,
     c_content = [111], c_parent_content = None, c_tokens = [111], c_embedding = [1]\<rparr>"

definition demo_indexed :: sys where
  "demo_indexed = demo_sys\<lparr>docs := [demo_doc\<lparr>d_active := Some 1, d_status := Ready\<rparr>], chunks := [demo_chunk]\<rparr>"

definition demo_query :: retrieval_request where
  "demo_query = \<lparr>rq_owner = ''u1'', rq_query = [111], rq_kb = Some ''k1'', rq_extra = [], rq_vec = None, rq_keyword = True, rq_vector = True,
     rq_graph = False, rq_types = [], rq_sections = [], rq_after = None, rq_before = None, rq_sources = [], rq_departments = [], rq_tags = [],
     rq_rerank = None, rq_parent = None\<rparr>"

lemmas demo_query_defs = demo_chunk_def demo_indexed_def demo_query_def demo_sys_def demo_doc_def demo_kb_def demo_member_def

lemma demo_row: "map fst (allowed_rows E demo_query demo_indexed) = [demo_chunk]"
  by (simp add: allowed_rows_def joined_rows_def one_of_values_def demo_query_defs)

theorem policies_admit_the_permitted_witness:
  "\<forall>E. map fst (allowed_rows E demo_query (app_view ''u1'' demo_indexed)) = [demo_chunk]"
proof
  fix E
  have "distinct (map k_id (kbs demo_indexed))" "distinct (map d_id (docs demo_indexed))" "chunks_filed demo_indexed"
    "get_kb_with_permission demo_indexed ''k1'' ''u1'' PQuery = Inr demo_kb"
    "rq_owner demo_query = ''u1''" "rq_kb demo_query = Some ''k1''" "''k1'' \<noteq> []"
    by (simp_all add: chunks_filed_def get_kb_with_permission_def get_kb_def member_with_def QUERY_ROLES_def demo_query_defs)
  from policies_admit_the_permitted [OF this] show "map fst (allowed_rows E demo_query (app_view ''u1'' demo_indexed)) = [demo_chunk]"
    using demo_row [of E] by simp
qed

section \<open>What the policies let through\<close>

lemma accepts_audit:
  assumes "audits t = audits s @ [a]" "app_accepts uid s t"
  shows "a_actor a = Some uid \<and> has_role_opt t uid (a_ws a) [Owner, Admin, Auditor]"
  using assms by (simp add: app_accepts_def audit_insert_ok_def audit_append_check_def audit_using_def)

lemma no_workspace_refused: "ae_ws e = None \<Longrightarrow> audits t = audits s \<Longrightarrow> \<not> app_accepts uid s (add_audit_event c i e t)"
  using accepts_audit [of "add_audit_event c i e t" s "audit_row c i e" uid] by (auto simp: has_role_opt_def audit_row_def)

lemma written_same [simp]: "written xs xs = []"
  by (simp add: written_def filter_empty_conv)

lemma upload_audit:
  assumes "upload_document cfg c uid kb_id f ok s = Inr (t, d)" "get_kb_with_permission s kb_id uid PWrite = Inr k"
  shows "\<exists>a. audits t = audits s @ [a] \<and> a_actor a = Some uid \<and> a_ws a = Some (k_ws k)"
  using assms by (auto simp: upload_document_def Let_def audit_event_def audit_row_def put_object_def split: sum.splits if_splits)

lemma upload_let_through:
  assumes "upload_document cfg c uid kb_id f ok s = Inr (t, d)"
  shows "\<exists>k. get_kb s kb_id = Some k \<and> app_accepts uid s t = has_role s uid (k_ws k) [Owner, Admin, Auditor]"
  using assms
proof (rule upload_document_cases)
  fix k event audit
  assume perm: "get_kb_with_permission s kb_id uid PWrite = Inr k" and kb: "d_kb d = kb_id"
    and t: "t = add_audit_event c 3 audit (add_event event (put_object (d_object_key d) (now c) s\<lparr>docs := docs s @ [d]\<rparr>))"
  have k: "get_kb s kb_id = Some k" and writes: "has_role s uid (k_ws k) WRITE_ROLES"
    using perm by (auto simp: get_kb_with_permission_iff has_role_iff)
  obtain a where audit: "audits t = audits s @ [a]" "a_actor a = Some uid" "a_ws a = Some (k_ws k)" using upload_audit [OF assms perm] by blast
  have frame: "kbs t = kbs s" "docs t = docs s @ [d]" "chunks t = chunks s" "entities t = entities s" "relations t = relations s" "dead t = dead s"
    "conversations t = conversations s" "messages t = messages s" "usage t = usage s" "feedback t = feedback s" "memberships t = memberships s"
    by (simp_all add: t put_object_def add_event_def add_audit_event_def)
  have roles: "has_role t = has_role s" by (intro ext) (simp add: has_role_def frame)
  have "k \<in> set (kbs s)" "k_id k = kb_id" using k find_row_Some unfolding get_kb_def by (fastforce, fastforce)
  then have "document_check t uid d" using writes has_role_mono [OF writes, of READ_ROLES] every_role
    by (auto simp: document_check_def list_ex_iff frame roles kb_using_def kb_check_def kb WRITE_ROLES_def)
  then have "list_all (document_check t uid) (written (docs s) (docs t))" by (auto simp: written_def frame list_all_iff)
  moreover have "audit_insert_ok t uid a = has_role s uid (k_ws k) [Owner, Admin, Auditor]"
    using audit has_role_mono [of s uid "k_ws k" "[Owner, Admin, Auditor]" READ_ROLES] every_role
    by (auto simp: audit_insert_ok_def audit_append_check_def audit_using_def has_role_opt_def roles)
  ultimately show ?thesis using k by (simp add: app_accepts_def frame audit(1))
qed

text \<open>C18: What the deployment refuses although the handlers grant it. Run by the role of the API, the upload of a document is let
  through exactly when its user is owner, admin or auditor of the workspace, so that every upload of an editor fails; and no API key can be created
  or revoked, no password changed and no feedback given by anyone, for the audit rows of these name no workspace. A registration
  is let through.\<close>

theorem api_role_refuses:
  "(case upload_document cfg c uid kb_id f ok s of Inl e \<Rightarrow> True | Inr (t, d) \<Rightarrow>
      (case get_kb s kb_id of None \<Rightarrow> False | Some k \<Rightarrow> app_accepts uid s t = has_role s uid (k_ws k) [Owner, Admin, Auditor])) \<and>
   (case create_api_key c uid name expires random s of Inl e \<Rightarrow> True | Inr (t, y) \<Rightarrow> \<not> app_accepts uid s t) \<and>
   (case revoke_api_key c uid key s of Inl e \<Rightarrow> True | Inr (t, y) \<Rightarrow> \<not> app_accepts uid s t) \<and>
   (case change_password c ev usr current new a of Inl e \<Rightarrow> True | Inr (b, y) \<Rightarrow> \<not> app_accepts (u_id usr) (au_db a) (au_db b)) \<and>
   (case submit_feedback c uid conv mid rating reason note s of Inl e \<Rightarrow> True | Inr (t, y) \<Rightarrow> \<not> app_accepts uid s t) \<and>
   (case register c ev body seen s of Inl e \<Rightarrow> True | Inr (t, y) \<Rightarrow> app_accepts (fresh c 0) s t)"
proof (intro conjI)
  show "case upload_document cfg c uid kb_id f ok s of Inl e \<Rightarrow> True | Inr (t, d) \<Rightarrow>
      (case get_kb s kb_id of None \<Rightarrow> False | Some k \<Rightarrow> app_accepts uid s t = has_role s uid (k_ws k) [Owner, Admin, Auditor])"
    by (auto split: sum.split option.split dest!: upload_let_through)
  show "case create_api_key c uid name expires random s of Inl e \<Rightarrow> True | Inr (t, y) \<Rightarrow> \<not> app_accepts uid s t"
    by (simp add: create_api_key_def Let_def audit_event_def no_workspace_refused)
  show "case revoke_api_key c uid key s of Inl e \<Rightarrow> True | Inr (t, y) \<Rightarrow> \<not> app_accepts uid s t"
    by (simp add: revoke_api_key_def Let_def audit_event_def no_workspace_refused)
  show "case change_password c ev usr current new a of Inl e \<Rightarrow> True | Inr (b, y) \<Rightarrow> \<not> app_accepts (u_id usr) (au_db a) (au_db b)"
    by (simp add: change_password_def Let_def audit_event_def no_workspace_refused)
  show "case submit_feedback c uid conv mid rating reason note s of Inl e \<Rightarrow> True | Inr (t, y) \<Rightarrow> \<not> app_accepts uid s t"
    by (simp add: submit_feedback_def Let_def audit_event_def no_workspace_refused split: sum.split)
  show "case register c ev body seen s of Inl e \<Rightarrow> True | Inr (t, y) \<Rightarrow> app_accepts (fresh c 0) s t"
    by (auto simp: register_def Let_def add_audit_event_def audit_event_def audit_row_def app_accepts_def audit_insert_ok_def audit_append_check_def audit_using_def
        has_role_opt_def has_role_def READ_ROLES_def split: sum.split)
qed

section \<open>The hash chain behind the policies\<close>

text \<open>A user who may not read audit rows starts the chain anew with every row; the verifier finds the fork.\<close>

lemma app_chain_insert_last:
  "audits (app_chain_insert sha jt tt n uid a s) = audits s @
     [a\<lparr>a_chain_seq := Some n, a_prev_hash := Some (coalesce (Option.bind (newest (audits (app_view uid s))) a_entry_hash) genesis),
        a_entry_hash := Some (sha (chain_payload jt tt (coalesce (Option.bind (newest (audits (app_view uid s))) a_entry_hash) genesis) a))\<rparr>]"
  by (simp add: app_chain_insert_def chain_insert_def Let_def)

lemma unread_log_forks:
  assumes "list_all (\<lambda>x. \<not> audit_using s uid x) (audits s)" "prev \<noteq> genesis"
  shows "(Some n, a_id a, PrevMismatch) \<in> set (verify_from sha' prev [last (audits (app_chain_insert sha jt tt n uid a s))])"
proof -
  have "audits (app_view uid s) = []" using assms(1) by (simp add: app_view_def list_all_iff filter_empty_conv)
  then show ?thesis using assms(2) by (simp add: app_chain_insert_last Let_def)
qed

end
