(* ===== verification/Operations.thy ===== *)
theory Operations
  imports Lifecycle "HOL-Library.List_Lexorder" "HOL-Library.Char_ord"
begin

text \<open>
  Around the endpoints: the key of the rate limit (\<open>app/limiter.py\<close>), the checks at the start and the health check
  (\<open>app/main.py\<close>), the usage statistics (\<open>app/routers/stats.py\<close>), and the script that queues every document for a new
  index after an upgrade of the pipeline (\<open>scripts/reindex_documents.py\<close>).
\<close>

section \<open>Rate limit, start and health\<close>

definition authenticated_principal_or_ip :: "ctx \<Rightarrow> ustr \<Rightarrow> ustr \<Rightarrow> string \<Rightarrow> string" where
  "authenticated_principal_or_ip c authorization api_key remote =
     (let credential = (if startswith (lower (uni c) authorization) (u ''bearer '') then authorization else api_key) in
      if credential \<noteq> [] then ''credential:'' @ take 24 (sha256 c credential) else ''ip:'' @ remote)"

record start_settings =
  jwt_secret :: ustr
  storage_backend_name :: ustr
  s3_access_key :: ustr
  s3_secret_key :: ustr

definition start_allowed :: "unicode \<Rightarrow> start_settings \<Rightarrow> bool" where
  "start_allowed U st \<longleftrightarrow> \<not> length (jwt_secret st) < 32 \<and>
     \<not> (lower U (storage_backend_name st) \<in> set (map u [''s3'', ''minio'']) \<and> (s3_access_key st = [] \<or> s3_secret_key st = []))"

text \<open>The status code, and the values of \<open>status\<close>, \<open>database\<close> and \<open>redis\<close>.\<close>

definition health :: "bool \<Rightarrow> bool \<Rightarrow> nat \<times> string \<times> string \<times> string" where
  "health database_answers redis_answers =
     (let healthy = (database_answers \<and> redis_answers); value = (\<lambda>ok. if ok then ''ok'' else ''unavailable'')
      in (if healthy then 200 else 503, if healthy then ''ok'' else ''degraded'', value database_answers, value redis_answers))"

section \<open>Statistics\<close>

text \<open>The cost in millionths of a dollar; \<open>int\<close> of an average truncates.\<close>

record stats_overview =
  so_kb_count :: nat
  so_doc_count :: nat
  so_chunk_count :: nat
  so_conversation_count :: nat
  so_question_count :: nat
  so_prompt_tokens :: nat
  so_completion_tokens :: nat
  so_avg_first_token_ms :: nat
  so_avg_total_ms :: nat
  so_cost_microusd :: int

definition own_usage :: "string \<Rightarrow> sys \<Rightarrow> usage_record list" where
  "own_usage user_id s = filter (\<lambda>y. y_owner y = user_id) (usage s)"

definition average :: "nat list \<Rightarrow> nat" where
  "average xs = (if xs = [] then 0 else sum_list xs div length xs)"

definition overview :: "string \<Rightarrow> sys \<Rightarrow> stats_overview" where
  "overview user_id s = (let ys = own_usage user_id s in
     \<lparr>so_kb_count = length (filter (\<lambda>k. k_owner k = user_id) (kbs s)), so_doc_count = length (filter (\<lambda>d. d_owner d = user_id) (docs s)),
      so_chunk_count = length (filter (\<lambda>x. c_owner x = user_id) (chunks s)),
      so_conversation_count = length (filter (\<lambda>v. v_owner v = user_id) (conversations s)), so_question_count = length ys,
      so_prompt_tokens = sum_list (map y_prompt_tokens ys), so_completion_tokens = sum_list (map y_completion_tokens ys),
      so_avg_first_token_ms = average (map y_first_token_ms ys), so_avg_total_ms = average (map y_total_ms ys),
      so_cost_microusd = sum_list (map y_cost ys)\<rparr>)"

text \<open>\<open>day_of\<close> is PostgreSQL's text of the day in the time zone of the connection.\<close>

record daily_usage =
  du_date :: string
  du_questions :: nat
  du_prompt_tokens :: nat
  du_completion_tokens :: nat

definition recent_usage :: "int \<Rightarrow> datetime \<Rightarrow> string \<Rightarrow> sys \<Rightarrow> usage_record list" where
  "recent_usage days t user_id s = (let n = max 1 (min days 90) in filter (\<lambda>y. t - seconds (86400 * n) \<le> y_created y) (own_usage user_id s))"

definition daily :: "(datetime \<Rightarrow> string) \<Rightarrow> int \<Rightarrow> datetime \<Rightarrow> string \<Rightarrow> sys \<Rightarrow> daily_usage list" where
  "daily day_of days t user_id s = (let ys = recent_usage days t user_id s in
     map (\<lambda>day. let zs = filter (\<lambda>y. day_of (y_created y) = day) ys in
        \<lparr>du_date = day, du_questions = length zs, du_prompt_tokens = sum_list (map y_prompt_tokens zs),
         du_completion_tokens = sum_list (map y_completion_tokens zs)\<rparr>)
       (sort (remdups (map (\<lambda>y. day_of (y_created y)) ys))))"

section \<open>Reindexing after an upgrade\<close>

record reindex_args =
  ra_workspace :: "string option"
  ra_batch :: nat
  ra_failed :: bool

definition upgrade_statuses :: "reindex_args \<Rightarrow> doc_status list" where
  "upgrade_statuses args = (if ra_failed args then [Ready, Failed] else [Ready])"

definition upgradable :: "reindex_args \<Rightarrow> sys \<Rightarrow> document \<Rightarrow> bool" where
  "upgradable args s d \<longleftrightarrow> d_status d \<in> set (upgrade_statuses args) \<and>
     list_ex (\<lambda>k. k_id k = d_kb d \<and> (coalesce (ra_workspace args) [] = [] \<or> Some (k_ws k) = ra_workspace args)) (kbs s)"

text \<open>The next documents by identifier after \<open>last_id\<close>.\<close>

definition upgrade_page :: "reindex_args \<Rightarrow> string option \<Rightarrow> sys \<Rightarrow> document list" where
  "upgrade_page args last_id s = take (ra_batch args) (sort_key d_id
     (filter (\<lambda>d. upgradable args s d \<and> (coalesce last_id [] = [] \<or> coalesce last_id [] < d_id d)) (docs s)))"

definition upgrade_key :: "document \<Rightarrow> string" where
  "upgrade_key d = ''document.ingest.upgrade:'' @ d_id d @ '':'' @ show_nat (next_version d)"

definition upgrade_event :: "ctx \<Rightarrow> nat \<Rightarrow> document \<Rightarrow> outbox_event" where
  "upgrade_event c n d = new_event (fresh c n) ''document.ingest.requested'' ''document'' (d_id d)
     (JObj [(''document_id'', jid (d_id d)), (''version'', JInt (int (next_version d))), (''reason'', jid ''rag_pipeline_upgrade'')])
     (upgrade_key d) (now c)"

definition queue_upgrade :: "ctx \<Rightarrow> document \<Rightarrow> document" where
  "queue_upgrade c d = stamp c (set_status Queued d\<lparr>d_error := None, d_target := Some (next_version d)\<rparr>)"

text \<open>One transaction; \<open>None\<close> when the key of an event is taken.\<close>

definition queue_page :: "ctx \<Rightarrow> document list \<Rightarrow> sys \<Rightarrow> sys option" where
  "queue_page c page s =
     (if list_ex (\<lambda>d. upgrade_key d \<in> set (map o_dedup (outbox s))) page then None
      else Some (s\<lparr>docs := update_where (\<lambda>d. d_id d \<in> set (map d_id page)) (queue_upgrade c) (docs s),
        outbox := outbox s @ map (\<lambda>(n, d). upgrade_event c n d) (enum page)\<rparr>))"

lemma page_upgradable: "d \<in> set (upgrade_page args last_id s) \<Longrightarrow> d \<in> set (docs s) \<and> upgradable args s d"
  using set_take_subset [of "ra_batch args" "sort_key d_id (filter (\<lambda>d. upgradable args s d \<and> (coalesce last_id [] = [] \<or> coalesce last_id [] < d_id d)) (docs s))"]
  by (auto simp: upgrade_page_def)

lemma queued_not_upgradable: "d_status (queue_upgrade c d) \<notin> set (upgrade_statuses args)"
  by (simp add: queue_upgrade_def stamp_def set_status_def upgrade_statuses_def)

lemma fewer_upgradable:
  assumes "d \<in> set ds" "P d" "d_status d \<in> set (upgrade_statuses args)"
  shows "length (filter (\<lambda>d. d_status d \<in> set (upgrade_statuses args)) (update_where P (queue_upgrade c) ds)) <
    length (filter (\<lambda>d. d_status d \<in> set (upgrade_statuses args)) ds)"
proof -
  have le: "length (filter (\<lambda>d. d_status d \<in> set (upgrade_statuses args)) (update_where P (queue_upgrade c) xs)) \<le>
      length (filter (\<lambda>d. d_status d \<in> set (upgrade_statuses args)) xs)" for xs
    by (induction xs) (auto simp: queued_not_upgradable)
  show ?thesis using assms
  proof (induction ds)
    case (Cons x xs)
    then show ?case using le [of xs] by (auto simp: queued_not_upgradable)
  qed simp
qed

text \<open>The loop over the pages: the state, how many documents were queued, and whether the script came to its end. Every
  page has its own transaction, with the context \<open>cs queued\<close>.\<close>

function reindex_loop :: "(nat \<Rightarrow> ctx) \<Rightarrow> reindex_args \<Rightarrow> string option \<Rightarrow> nat \<Rightarrow> sys \<Rightarrow> sys \<times> nat \<times> bool" where
  "reindex_loop cs args last_id queued s =
     (let page = upgrade_page args last_id s in
      if page = [] then (s, queued, True)
      else case queue_page (cs queued) page s of None \<Rightarrow> (s, queued, False)
        | Some s1 \<Rightarrow> reindex_loop cs args (Some (d_id (last page))) (queued + length page) s1)"
  by pat_completeness auto
termination
proof (relation "measure (\<lambda>(cs, args, last_id, queued, s). length (filter (\<lambda>d. d_status d \<in> set (upgrade_statuses args)) (docs s)))")
  fix cs :: "nat \<Rightarrow> ctx" and args last_id and queued :: nat and s page s1
  assume page: "page = upgrade_page args last_id s" "page \<noteq> []" and run: "queue_page (cs queued) page s = Some s1"
  obtain d where d: "d \<in> set page" using last_in_set [OF page(2)] by blast
  then have "d \<in> set (docs s)" "d_status d \<in> set (upgrade_statuses args)" using page_upgradable page(1) by (auto simp: upgradable_def)
  moreover have "docs s1 = update_where (\<lambda>d. d_id d \<in> set (map d_id page)) (queue_upgrade (cs queued)) (docs s)"
    using run by (auto simp: queue_page_def split: if_splits)
  ultimately show "((cs, args, Some (d_id (last page)), queued + length page, s1), (cs, args, last_id, queued, s)) \<in>
      measure (\<lambda>(cs, args, last_id, queued, s). length (filter (\<lambda>d. d_status d \<in> set (upgrade_statuses args)) (docs s)))"
    using fewer_upgradable [of d "docs s" "\<lambda>d. d_id d \<in> set (map d_id page)" args "cs queued"] d by auto
qed simp

declare reindex_loop.simps [simp del]

definition reindex_documents :: "(nat \<Rightarrow> ctx) \<Rightarrow> reindex_args \<Rightarrow> sys \<Rightarrow> (sys \<times> nat \<times> bool) option" where
  "reindex_documents cs args s = (if ra_batch args < 1 then None else Some (reindex_loop cs args None 0 s))"

end
