(* ===== verification/OperationsClaims.thy ===== *)
theory OperationsClaims
  imports Operations Demo
begin

text \<open>What the reindex script queues, and what the daily statistics account for.\<close>

section \<open>The pages of the reindex script\<close>

text \<open>What is left to queue, in the order of the identifiers.\<close>

definition left_to_queue :: "reindex_args \<Rightarrow> string option \<Rightarrow> sys \<Rightarrow> document list" where
  "left_to_queue args last_id s = sort_key d_id
     (filter (\<lambda>d. upgradable args s d \<and> (coalesce last_id [] = [] \<or> coalesce last_id [] < d_id d)) (docs s))"

lemma page_take: "upgrade_page args last_id s = take (ra_batch args) (left_to_queue args last_id s)"
  by (simp add: upgrade_page_def left_to_queue_def)

lemma left_props:
  assumes "distinct (map d_id (docs s))"
  shows "distinct (map d_id (left_to_queue args last_id s))" "sorted (map d_id (left_to_queue args last_id s))"
    "set (left_to_queue args last_id s) = {d \<in> set (docs s). upgradable args s d \<and> (coalesce last_id [] = [] \<or> coalesce last_id [] < d_id d)}"
  using assms by (auto simp: left_to_queue_def distinct_map inj_on_def)

lemma queue_page_effect:
  assumes "queue_page c page s = Some s1"
  shows "docs s1 = update_where (\<lambda>d. d_id d \<in> set (map d_id page)) (queue_upgrade c) (docs s)" "kbs s1 = kbs s"
    "outbox s1 = outbox s @ map (\<lambda>(n, d). upgrade_event c n d) (enum page)" "chunks s1 = chunks s" "audits s1 = audits s"
    "list_all (\<lambda>d. upgrade_key d \<notin> set (map o_dedup (outbox s))) page"
  using assms by (auto simp: queue_page_def list_ex_iff list_all_iff split: if_splits)

lemma id_queue [simp]: "d_id (queue_upgrade c d) = d_id d"
  by (simp add: queue_upgrade_def stamp_def)

lemma left_after_page:
  assumes "distinct (map d_id (docs s))" "page = upgrade_page args last_id s" "page \<noteq> []" "queue_page c page s = Some s1"
  shows "left_to_queue args (Some (d_id (last page))) s1 = drop (ra_batch args) (left_to_queue args last_id s)"
    and "distinct (map d_id (docs s1))"
proof -
  let ?r = "left_to_queue args last_id s" let ?r1 = "left_to_queue args (Some (d_id (last page))) s1" let ?n = "ra_batch args"
  note s1 = queue_page_effect [OF assms(4)]
  have "map d_id (docs s1) = map d_id (docs s)" unfolding s1(1) by (induction "docs s") (simp_all add: update_where_def)
  then show d1: "distinct (map d_id (docs s1))" using assms(1) by simp
  have page: "page = take ?n ?r" using assms(2) page_take by simp
  note r = left_props [OF assms(1), of args last_id] and r1 = left_props [OF d1, of args "Some (d_id (last page))"]
  have up: "upgradable args s1 = upgradable args s" by (intro ext) (simp add: upgradable_def s1(2))
  have split: "?r = page @ drop ?n ?r" using page by simp
  have last: "last page \<in> set ?r" using split last_in_set [OF assms(3)] by (metis UnCI set_append)
  have apart: "d_id d \<notin> set (map d_id page)" if "d \<in> set (drop ?n ?r)" for d
    using r(1) that unfolding split [symmetric] by (subst (asm) split) auto
  have later: "d_id (last page) < d_id d" if "d \<in> set (drop ?n ?r)" for d
  proof -
    have "sorted (map d_id page @ map d_id (drop ?n ?r))" using r(2) split by (metis map_append)
    then have "d_id (last page) \<le> d_id d" using that last_in_set [OF assms(3)] by (auto simp: sorted_append)
    moreover have "d_id (last page) \<noteq> d_id d" using apart [OF that] last_in_set [OF assms(3)] by (metis image_eqI set_map)
    ultimately show ?thesis by simp
  qed
  have "set ?r1 = set (drop ?n ?r)"
  proof (intro set_eqI iffI)
    fix d assume "d \<in> set ?r1"
    then have d: "d \<in> set (docs s1)" "upgradable args s d" and after: "d_id (last page) = [] \<or> d_id (last page) < d_id d"
      unfolding r1(3) up by auto
    obtain x where x: "x \<in> set (docs s)" "d = (if d_id x \<in> set (map d_id page) then queue_upgrade c x else x)"
      using d(1) unfolding s1(1) in_update_where by blast
    have "d_id x \<notin> set (map d_id page)" using d(2) queued_not_upgradable [of c x args] x(2) by (auto simp: upgradable_def)
    then have old: "d \<in> set (docs s)" "d \<notin> set page" using x by auto
    have "coalesce last_id [] = [] \<or> coalesce last_id [] < d_id (last page)" using last unfolding r(3) by blast
    then have "coalesce last_id [] = [] \<or> coalesce last_id [] < d_id d" using after by auto
    then have "d \<in> set ?r" unfolding r(3) using old d by blast
    then show "d \<in> set (drop ?n ?r)" using old split by (metis UnE set_append)
  next
    fix d assume d: "d \<in> set (drop ?n ?r)"
    then have "d \<in> set ?r" by (rule in_set_dropD)
    moreover have "d \<in> set (docs s1)" using calculation apart [OF d] unfolding s1(1) in_update_where r(3) by auto
    ultimately show "d \<in> set ?r1" unfolding r1(3) up using later [OF d] r(3) by auto
  qed
  moreover have "inj_on d_id (set ?r1 \<union> set (drop ?n ?r))"
    using r1(1) calculation by (simp add: distinct_map)
  moreover have "sorted (map d_id (drop ?n ?r))" "distinct (map d_id (drop ?n ?r))"
    using r(1,2) split by (metis map_append sorted_append, metis distinct_append map_append)
  ultimately show "?r1 = drop ?n ?r" using r1(1,2) by (intro map_sorted_distinct_set_unique)
qed

text \<open>The key of an event tells the document.\<close>

lemma digit_colon: "k < 10 \<Longrightarrow> CHR '':'' \<noteq> char_of (48 + k :: nat)"
proof
  assume k: "k < 10" and "CHR '':'' = char_of (48 + k)"
  then have "of_char (char_of (48 + k) :: char) = (of_char CHR '':'' :: nat)" by simp
  then show False using k by simp
qed

lemma show_nat_colon: "CHR '':'' \<notin> set (show_nat n)"
proof (induction n rule: show_nat.induct)
  case (1 n)
  then show ?case using digit_colon [of n] digit_colon [of "n mod 10"] by (simp add: show_nat.simps [of n])
qed

lemma upgrade_key_id: "upgrade_key d = upgrade_key e \<Longrightarrow> d_id d = d_id e"
proof -
  assume "upgrade_key d = upgrade_key e"
  then have "rev (d_id d @ CHR '':'' # show_nat (next_version d)) = rev (d_id e @ CHR '':'' # show_nat (next_version e))"
    by (simp add: upgrade_key_def)
  then have "dropWhile (\<lambda>c. c \<noteq> CHR '':'') (rev (show_nat (next_version d)) @ CHR '':'' # rev (d_id d)) =
      dropWhile (\<lambda>c. c \<noteq> CHR '':'') (rev (show_nat (next_version e)) @ CHR '':'' # rev (d_id e))" by simp
  moreover have "dropWhile (\<lambda>c. c \<noteq> CHR '':'') (rev (show_nat n) @ CHR '':'' # xs) = CHR '':'' # xs" for n xs
    using show_nat_colon [of n] by (subst dropWhile_append2) auto
  ultimately show ?thesis by simp
qed

text \<open>How the loop changes the documents whose identifiers are in \<open>ids\<close>.\<close>

definition queued_docs :: "(nat \<Rightarrow> ctx) \<Rightarrow> string set \<Rightarrow> document list \<Rightarrow> document list \<Rightarrow> bool" where
  "queued_docs cs ids = list_all2 (\<lambda>d e. if d_id d \<in> ids then \<exists>n. e = queue_upgrade (cs n) d else e = d)"

lemma queued_docs_page:
  assumes "queued_docs cs ids (update_where (\<lambda>d. d_id d \<in> set new) (queue_upgrade (cs n)) ds) es" "ids \<inter> set new = {}"
  shows "queued_docs cs (ids \<union> set new) ds es"
proof -
  have "list_all2 (\<lambda>d e. e = (if d_id d \<in> set new then queue_upgrade (cs n) d else d)) ds (update_where (\<lambda>d. d_id d \<in> set new) (queue_upgrade (cs n)) ds)"
    by (induction ds) simp_all
  then show ?thesis using assms(1) unfolding queued_docs_def
    by (rule list_all2_trans [rotated]) (use assms(2) in \<open>auto split: if_splits\<close>)
qed

lemma upgrade_event_simps [simp]: "o_agg_id (upgrade_event c n d) = d_id d" "o_dedup (upgrade_event c n d) = upgrade_key d"
  "o_status (upgrade_event c n d) = OPending"
  by (simp_all add: upgrade_event_def new_event_def)

lemma events_of_page:
  "map o_agg_id (map (\<lambda>(n, d). upgrade_event c n d) (enum page)) = map d_id page"
  "map o_dedup (map (\<lambda>(n, d). upgrade_event c n d) (enum page)) = map upgrade_key page"
  by (intro nth_equalityI; simp add: enum_def)+

lemma reindex_loop_exact:
  assumes "1 \<le> ra_batch args" "distinct (map d_id (docs s))"
    and "list_all (\<lambda>d. upgrade_key d \<notin> set (map o_dedup (outbox s))) (left_to_queue args last_id s)"
  shows "\<exists>t events. reindex_loop cs args last_id queued s = (t, queued + length (left_to_queue args last_id s), True) \<and>
    queued_docs cs (d_id ` set (left_to_queue args last_id s)) (docs s) (docs t) \<and> kbs t = kbs s \<and> chunks t = chunks s \<and> audits t = audits s \<and>
    outbox t = outbox s @ events \<and> map o_agg_id events = map d_id (left_to_queue args last_id s) \<and>
    map o_dedup events = map upgrade_key (left_to_queue args last_id s) \<and> list_all (\<lambda>e. o_status e = OPending) events"
  using assms
proof (induction cs args last_id queued s rule: reindex_loop.induct)
  case (1 cs args last_id queued s)
  let ?r = "left_to_queue args last_id s" let ?n = "ra_batch args"
  define page where "page = upgrade_page args last_id s"
  have take: "page = take ?n ?r" by (simp add: page_def page_take)
  note simps = reindex_loop.simps [of cs args last_id queued s, folded page_def]
  show ?case
  proof (cases "page = []")
    case True
    then have "?r = []" using take 1(2) by (simp add: take_eq_Nil)
    then show ?thesis using True by (simp add: simps queued_docs_def list_all2_refl)
  next
    case False
    define s1 where "s1 = s\<lparr>docs := update_where (\<lambda>d. d_id d \<in> set (map d_id page)) (queue_upgrade (cs queued)) (docs s),
      outbox := outbox s @ map (\<lambda>(n, d). upgrade_event (cs queued) n d) (enum page)\<rparr>"
    have run: "queue_page (cs queued) page s = Some s1"
      using 1(4) take by (auto simp: queue_page_def s1_def list_ex_iff list_all_iff dest: in_set_takeD)
    let ?r1 = "left_to_queue args (Some (d_id (last page))) s1"
    have left: "?r1 = drop ?n ?r" and d1: "distinct (map d_id (docs s1))"
      using left_after_page [OF 1(3) page_def False run] by blast+
    have split: "?r = page @ ?r1" using take left by simp
    have ids: "distinct (map d_id ?r)" using left_props(1) [OF 1(3)] by blast
    have keys: "upgrade_key d \<noteq> upgrade_key e" if "d \<in> set ?r1" "e \<in> set page" for d e
    proof
      assume "upgrade_key d = upgrade_key e"
      then have "d_id d = d_id e" by (rule upgrade_key_id)
      moreover have "d_id d \<in> set (map d_id ?r1)" "d_id e \<in> set (map d_id page)" using that by simp_all
      moreover have "set (map d_id page) \<inter> set (map d_id ?r1) = {}" using ids unfolding split map_append distinct_append by blast
      ultimately show False by auto
    qed
    have free: "list_all (\<lambda>d. upgrade_key d \<notin> set (map o_dedup (outbox s1))) ?r1"
      using 1(4) keys split by (auto simp: s1_def list_all_iff events_of_page [unfolded map_map o_def] image_iff)
    obtain t events where t: "reindex_loop cs args (Some (d_id (last page))) (queued + length page) s1 = (t, queued + length page + length ?r1, True)"
      "queued_docs cs (d_id ` set ?r1) (docs s1) (docs t)" "kbs t = kbs s1" "chunks t = chunks s1" "audits t = audits s1" "outbox t = outbox s1 @ events"
      "map o_agg_id events = map d_id ?r1" "map o_dedup events = map upgrade_key ?r1" "list_all (\<lambda>e. o_status e = OPending) events"
      using 1(1) [OF page_def False run 1(2) d1 free] by blast
    have "d_id ` set ?r1 \<inter> set (map d_id page) = {}" using ids unfolding split by auto
    then have "queued_docs cs (d_id ` set ?r1 \<union> set (map d_id page)) (docs s) (docs t)"
      using queued_docs_page [of cs "d_id ` set ?r1" "map d_id page" queued "docs s" "docs t"] t(2) by (simp add: s1_def)
    then have "queued_docs cs (d_id ` set ?r) (docs s) (docs t)" by (subst split) (simp add: Un_commute image_Un)
    moreover have "reindex_loop cs args last_id queued s = (t, queued + length ?r, True)"
      using t(1) False run by (subst split) (simp add: simps)
    moreover have "map o_agg_id (map (\<lambda>(n, d). upgrade_event (cs queued) n d) (enum page) @ events) = map d_id ?r"
      "map o_dedup (map (\<lambda>(n, d). upgrade_event (cs queued) n d) (enum page) @ events) = map upgrade_key ?r"
      unfolding map_append events_of_page t(7,8) by (subst split, simp)+
    moreover have "list_all (\<lambda>e. o_status e = OPending) (map (\<lambda>(n, d). upgrade_event (cs queued) n d) (enum page) @ events)"
      using t(9) by (auto simp: list_all_iff)
    ultimately show ?thesis using t(3-6) by (intro exI [of _ t] exI [of _ "map (\<lambda>(n, d). upgrade_event (cs queued) n d) (enum page) @ events"]) (simp add: s1_def)
  qed
qed

lemma map_sort_key: "map f (sort_key f xs) = sort (map f xs)"
  by (rule properties_for_sort [symmetric]) simp_all

text \<open>C19: The reindex script does its whole work and ends. Whatever the size of its pages, it queues exactly the documents that are ready, or
  failed when asked for, in the chosen workspace, each once with the version after its active one, and leaves every other
  document as it is; the events it adds name these documents in the order of their identifiers, one pending event for each. It
  needs the keys of these events to be free.\<close>

theorem reindex_script_exact:
  assumes "1 \<le> ra_batch args" "distinct (map d_id (docs s))"
    and "list_all (\<lambda>d. upgrade_key d \<notin> set (map o_dedup (outbox s))) (filter (upgradable args s) (docs s))"
  shows "\<exists>t events. reindex_documents cs args s = Some (t, length (filter (upgradable args s) (docs s)), True) \<and>
    list_all2 (\<lambda>d e. if upgradable args s d then \<exists>n. e = queue_upgrade (cs n) d else e = d) (docs s) (docs t) \<and>
    outbox t = outbox s @ events \<and> map o_agg_id events = sort (map d_id (filter (upgradable args s) (docs s))) \<and>
    list_all (\<lambda>e. o_status e = OPending) events \<and> chunks t = chunks s \<and> audits t = audits s \<and> kbs t = kbs s"
proof -
  let ?chosen = "filter (upgradable args s) (docs s)"
  have left: "left_to_queue args None s = sort_key d_id ?chosen" by (simp add: left_to_queue_def)
  have "list_all (\<lambda>d. upgrade_key d \<notin> set (map o_dedup (outbox s))) (left_to_queue args None s)" using assms(3) by (simp add: left list_all_iff)
  from reindex_loop_exact [OF assms(1,2) this, of cs 0] obtain t events where
    t: "reindex_loop cs args None 0 s = (t, length ?chosen, True)" "queued_docs cs (d_id ` set ?chosen) (docs s) (docs t)"
      "map o_agg_id events = sort (map d_id ?chosen)"
    and rest: "kbs t = kbs s" "chunks t = chunks s" "audits t = audits s" "outbox t = outbox s @ events" "list_all (\<lambda>e. o_status e = OPending) events"
    by (auto simp: left map_sort_key)
  have "(d_id d \<in> d_id ` set ?chosen) = upgradable args s d" if "d \<in> set (docs s)" for d
    using assms(2) that by (auto simp: distinct_map inj_on_def)
  then have "list_all2 (\<lambda>d e. if upgradable args s d then \<exists>n. e = queue_upgrade (cs n) d else e = d) (docs s) (docs t)"
    using t(2) unfolding queued_docs_def by (auto elim!: list.rel_mono_strong)
  then show ?thesis using assms(1) t rest by (auto simp: reindex_documents_def)
qed

definition demo_ready :: sys where
  "demo_ready = demo_sys\<lparr>docs := [demo_doc\<lparr>d_status := Ready, d_active := Some 1\<rparr>]\<rparr>"

theorem reindex_script_exact_witness:
  "\<exists>t. reindex_documents (\<lambda>n. demo_ctx 5 ''b'') \<lparr>ra_workspace = Some ''w1'', ra_batch = 1, ra_failed = False\<rparr> demo_ready = Some (t, 1, True) \<and>
     map o_agg_id (outbox t) = [''d1'']"
proof -
  let ?args = "\<lparr>ra_workspace = Some ''w1'', ra_batch = 1, ra_failed = False\<rparr>"
  have chosen: "filter (upgradable ?args demo_ready) (docs demo_ready) = docs demo_ready"
    by (simp add: upgradable_def upgrade_statuses_def demo_ready_def demo_sys_def demo_doc_def demo_kb_def)
  have ids: "map d_id (docs demo_ready) = [''d1'']" "outbox demo_ready = []" by (simp_all add: demo_ready_def demo_sys_def demo_doc_def)
  show ?thesis using reindex_script_exact [of ?args demo_ready "\<lambda>n. demo_ctx 5 ''b''"] unfolding chosen
    by (auto simp: ids list_all_iff) (simp add: demo_ready_def)
qed

text \<open>A key that is taken, as by an earlier upgrade whose ingestion failed, stops the script before the page; the
  documents behind it are never queued.\<close>

lemma taken_key_stops:
  assumes "list_ex (\<lambda>d. upgrade_key d \<in> set (map o_dedup (outbox s))) (upgrade_page args last_id s)"
  shows "reindex_loop cs args last_id queued s = (s, queued, False)"
  using assms by (cases "upgrade_page args last_id s = []") (simp_all add: reindex_loop.simps [of cs args last_id] queue_page_def)

section \<open>Daily statistics\<close>

lemma sum_one_day: "distinct ds \<Longrightarrow> k \<in> set ds \<Longrightarrow> sum_list (map (\<lambda>d. if k = d then c else 0) ds) = (c :: nat)"
  by (induction ds) (auto simp: sum_list_0)

lemma sum_by_day:
  assumes "distinct ds" "g ` set ys \<subseteq> set ds"
  shows "sum_list (map (\<lambda>d. sum_list (map f (filter (\<lambda>y. g y = d) ys))) ds) = (sum_list (map f ys) :: nat)"
  using assms(2)
proof (induction ys)
  case (Cons y ys)
  have "sum_list (map f (filter (\<lambda>y. g y = d) (y # ys))) = (if g y = d then f y else 0) + sum_list (map f (filter (\<lambda>y. g y = d) ys))" for d by simp
  then have "sum_list (map (\<lambda>d. sum_list (map f (filter (\<lambda>y. g y = d) (y # ys)))) ds) =
      sum_list (map (\<lambda>d. if g y = d then f y else 0) ds) + sum_list (map (\<lambda>d. sum_list (map f (filter (\<lambda>y. g y = d) ys))) ds)"
    by (simp add: sum_list_addf)
  then show ?case using Cons sum_one_day [OF assms(1), of "g y" "f y"] by simp
qed (simp add: sum_list_0)

text \<open>The daily figures account for every question of the user in the period, and for nobody else's: the days come once and in order,
  none is empty, and the questions and tokens of the days add up to those of the user's records.\<close>

lemma daily_accounts_for_usage:
  fixes user_id :: string and day_of :: "datetime \<Rightarrow> string" and days :: int and t :: datetime and s :: sys
  defines "ds \<equiv> daily day_of days t user_id s" and "ys \<equiv> recent_usage days t user_id s"
  shows "sorted (map du_date ds) \<and> distinct (map du_date ds) \<and> list_all (\<lambda>x. 0 < du_questions x) ds \<and>
    sum_list (map du_questions ds) = length ys \<and> sum_list (map du_prompt_tokens ds) = sum_list (map y_prompt_tokens ys) \<and>
    sum_list (map du_completion_tokens ds) = sum_list (map y_completion_tokens ys)"
proof -
  let ?g = "\<lambda>y. day_of (y_created y)" let ?d = "sort (remdups (map ?g ys))"
  have d: "distinct ?d" "?g ` set ys \<subseteq> set ?d" by auto
  have dates: "map du_date ds = ?d" by (simp add: ds_def ys_def daily_def Let_def o_def)
  have "0 < du_questions x" if "x \<in> set ds" for x
    using that by (auto simp: ds_def ys_def [symmetric] daily_def Let_def filter_empty_conv)
  moreover have "sum_list (map du_questions ds) = length ys"
    using sum_by_day [OF d, of "\<lambda>y. 1"] by (simp add: ds_def ys_def daily_def Let_def o_def sum_list_triv)
  ultimately show ?thesis using d dates sum_by_day [OF d, of y_prompt_tokens] sum_by_day [OF d, of y_completion_tokens]
    by (simp add: list_all_iff) (simp add: ds_def ys_def daily_def Let_def o_def)
qed

end
