(* ===== verification/EventStream.thy ===== *)
theory EventStream
  imports Imports
begin

text \<open>
  The text of the event stream and its readers: \<open>_sse\<close> of \<open>app/routers/chat.py\<close> writes an event, \<open>ask\<close> of
  \<open>scripts/eval_answers.py\<close> puts the fragments of a response together again, and \<open>scripts/eval_rag_vs_agent.py\<close> reads the
  lines of a response and compares the two modes.  \<open>json.loads\<close> is the parameter \<open>loads\<close>, \<open>None\<close> where it raises.
\<close>

section \<open>Writing an event\<close>

definition sse :: "ustr \<Rightarrow> web_value \<Rightarrow> ustr" where
  "sse event data = u ''event: '' @ event @ [10] @ u ''data: '' @ dumps_text data @ [10, 10]"

section \<open>Reading fragments\<close>

text \<open>\<open>buffer.split("\n\n")\<close>\<close>

fun split_blank_aux :: "ustr \<Rightarrow> ustr \<Rightarrow> ustr list" where
  "split_blank_aux acc [] = [rev acc]"
| "split_blank_aux acc [c] = [rev (c # acc)]"
| "split_blank_aux acc (c # d # cs) = (if c = 10 \<and> d = 10 then rev acc # split_blank_aux [] cs else split_blank_aux (c # acc) (d # cs))"

definition split_blank :: "ustr \<Rightarrow> ustr list" where
  "split_blank s = split_blank_aux [] s"

text \<open>The last line of each kind counts.\<close>

definition event_fields :: "ustr \<Rightarrow> ustr option \<times> ustr option" where
  "event_fields raw = fold (\<lambda>line (ev, dt).
     if startswith line (u ''event: '') then (Some (drop 7 line), dt)
     else if startswith line (u ''data: '') then (ev, Some (drop 6 line)) else (ev, dt)) (splitlines raw) (None, None)"

text \<open>An event without a name or without data is passed over.\<close>

definition read_event :: "ustr \<Rightarrow> (ustr \<times> ustr) list" where
  "read_event raw = (case event_fields raw of (Some ev, Some dt) \<Rightarrow> if ev = [] then [] else [(ev, dt)] | _ \<Rightarrow> [])"

text \<open>The buffer and the events read so far.\<close>

definition feed :: "ustr \<Rightarrow> ustr \<times> (ustr \<times> ustr) list \<Rightarrow> ustr \<times> (ustr \<times> ustr) list" where
  "feed fragment st = (let events = split_blank (fst st @ fragment) in (last events, snd st @ concat (map read_event (butlast events))))"

definition stream_events :: "ustr list \<Rightarrow> (ustr \<times> ustr) list" where
  "stream_events fragments = snd (fold feed fragments ([], []))"

definition text_of :: "web_value \<Rightarrow> ustr option" where
  "text_of v = (case v of WObj kvs \<Rightarrow> (case map_of kvs (u ''text'') of Some (WText t) \<Rightarrow> Some t | _ \<Rightarrow> None) | _ \<Rightarrow> None)"

text \<open>\<open>ask\<close>: the answer and the sources; \<open>None\<close> where the data is no JSON or a \<open>delta\<close> has no text.\<close>

fun collect :: "(ustr \<Rightarrow> web_value option) \<Rightarrow> ustr \<Rightarrow> web_value \<Rightarrow> (ustr \<times> ustr) list \<Rightarrow> (ustr \<times> web_value) option" where
  "collect loads answer sources [] = Some (answer, sources)"
| "collect loads answer sources ((ev, dt) # rest) = (case loads dt of None \<Rightarrow> None | Some data \<Rightarrow>
     if ev = u ''sources'' then collect loads answer data rest
     else if ev = u ''delta'' then (case text_of data of None \<Rightarrow> None | Some t \<Rightarrow> collect loads (answer @ t) sources rest)
     else collect loads answer sources rest)"

definition ask :: "(ustr \<Rightarrow> web_value option) \<Rightarrow> ustr list \<Rightarrow> (ustr \<times> web_value) option" where
  "ask loads fragments = collect loads [] (WList []) (stream_events fragments)"

section \<open>Comparing the modes\<close>

record mode_case =
  mc_question :: ustr
  mc_answerable :: bool
  mc_keywords :: "ustr list"
  mc_reference :: ustr

record mode_result =
  mr_answer :: ustr
  mr_sources :: "ustr list"
  mr_prompt_tokens :: nat
  mr_completion_tokens :: nat
  mr_tool_calls :: nat
  mr_tool_failures :: nat
  mr_no_answer :: bool
  mr_latency :: real

text \<open>What \<open>_consume_sse\<close> keeps of the data of an event: the contents of the sources, a text, the tokens and the
  flag of the last event, a tool that fails.\<close>

datatype mode_event = ModeSources "ustr list" | ModeDelta ustr | ModeDone nat nat bool | ModeToolCall | ModeToolResult ustr | ModeError | ModeOther

definition tool_failed :: "ustr \<Rightarrow> bool" where
  "tool_failed summary \<longleftrightarrow> startswith summary [24037, 20855, 25191, 34892, 20986, 38169] \<or> startswith summary [38169, 35823]"

definition consume_event :: "mode_event \<Rightarrow> mode_result \<Rightarrow> mode_result" where
  "consume_event e r = (case e of ModeSources xs \<Rightarrow> r\<lparr>mr_sources := xs\<rparr> | ModeDelta t \<Rightarrow> r\<lparr>mr_answer := mr_answer r @ t\<rparr>
     | ModeDone p q none \<Rightarrow> r\<lparr>mr_prompt_tokens := p, mr_completion_tokens := q, mr_no_answer := none\<rparr>
     | ModeToolCall \<Rightarrow> r\<lparr>mr_tool_calls := mr_tool_calls r + 1\<rparr>
     | ModeToolResult summary \<Rightarrow> if tool_failed summary then r\<lparr>mr_tool_failures := mr_tool_failures r + 1\<rparr> else r
     | ModeError \<Rightarrow> r\<lparr>mr_tool_failures := mr_tool_failures r + 1\<rparr> | ModeOther \<Rightarrow> r)"

definition consume_sse :: "mode_event list \<Rightarrow> real \<Rightarrow> mode_result" where
  "consume_sse es latency = fold consume_event es \<lparr>mr_answer = [], mr_sources = [], mr_prompt_tokens = 0, mr_completion_tokens = 0,
     mr_tool_calls = 0, mr_tool_failures = 0, mr_no_answer = False, mr_latency = latency\<rparr>"

definition correct_result :: "mode_case \<Rightarrow> mode_result \<Rightarrow> bool" where
  "correct_result g r \<longleftrightarrow>
     (if \<not> mc_answerable g then mr_no_answer r \<or> contains [27809, 26377, 25214, 21040] (mr_answer r)
      else if mc_keywords g \<noteq> [] then list_all (\<lambda>k. contains k (mr_answer r) \<or> list_ex (contains k) (mr_sources r)) (mc_keywords g)
      else mc_reference g \<noteq> [] \<and> contains (take 20 (mc_reference g)) (mr_answer r))"

record mode_report =
  mp_cases :: nat
  mp_accuracy :: real
  mp_latency :: real
  mp_prompt_tokens :: real
  mp_completion_tokens :: real
  mp_tool_calls :: real
  mp_failure_rate :: real

definition fmean :: "real list \<Rightarrow> real" where
  "fmean xs = (if xs = [] then 0 else sum_list xs / real (length xs))"

definition compare_mode :: "(mode_case \<times> mode_event list \<times> real) list \<Rightarrow> mode_report" where
  "compare_mode runs =
     (let rs = map (\<lambda>(g, es, t). (g, consume_sse es t)) runs; n = max 1 (length runs); calls = sum_list (map (\<lambda>(g, r). mr_tool_calls r) rs)
      in \<lparr>mp_cases = length runs, mp_accuracy = real (length (filter (\<lambda>(g, r). correct_result g r) rs)) / real n,
          mp_latency = fmean (map (\<lambda>(g, r). mr_latency r) rs), mp_prompt_tokens = fmean (map (\<lambda>(g, r). real (mr_prompt_tokens r)) rs),
          mp_completion_tokens = fmean (map (\<lambda>(g, r). real (mr_completion_tokens r)) rs),
          mp_tool_calls = fmean (map (\<lambda>(g, r). real (mr_tool_calls r)) rs),
          mp_failure_rate = real (sum_list (map (\<lambda>(g, r). mr_tool_failures r) rs)) / real (max 1 (if calls = 0 then 1 else calls))\<rparr>)"

end
