(* ===== verification/EventStreamClaims.thy ===== *)
theory EventStreamClaims
  imports EventStream
begin

text \<open>What the reader of an event stream gets back, however the network cuts it.\<close>

section \<open>Fragments\<close>

fun no_blank :: "ustr \<Rightarrow> bool" where
  "no_blank (c # d # cs) = (\<not> (c = 10 \<and> d = 10) \<and> no_blank (d # cs))"
| "no_blank cs = True"

lemma no_blank_snoc: "no_blank (xs @ [c]) \<longleftrightarrow> no_blank xs \<and> \<not> (xs \<noteq> [] \<and> last xs = 10 \<and> c = 10)"
  by (induction xs rule: no_blank.induct) auto

lemma scan_over:
  "no_blank p \<Longrightarrow> p = [] \<or> last p \<noteq> 10 \<or> s = [] \<or> hd s \<noteq> 10 \<Longrightarrow> split_blank_aux acc (p @ s) = split_blank_aux (rev p @ acc) s"
proof (induction p arbitrary: acc)
  case (Cons c p)
  show ?case
  proof (cases "p @ s")
    case Nil
    then show ?thesis by simp
  next
    case (Cons d rest)
    then have "\<not> (c = 10 \<and> d = 10)" using Cons.prems by (cases p) auto
    moreover have "no_blank p" "p = [] \<or> last p \<noteq> 10 \<or> s = [] \<or> hd s \<noteq> 10" using Cons.prems by (cases p; auto)+
    ultimately show ?thesis using Cons.IH [of "c # acc"] Cons by auto
  qed
qed simp

lemma split_nonempty [simp]: "split_blank_aux acc s \<noteq> []"
  by (induction acc s rule: split_blank_aux.induct) auto

text \<open>The last piece can be split again together with what follows.\<close>

lemma split_resumes:
  assumes "no_blank (rev acc)" "a = [] \<Longrightarrow> acc = []" "acc \<noteq> [] \<Longrightarrow> hd acc = 10 \<Longrightarrow> hd a \<noteq> 10"
  shows "split_blank_aux acc (a @ b) = butlast (split_blank_aux acc a) @ split_blank_aux [] (last (split_blank_aux acc a) @ b)"
  using assms
proof (induction acc a rule: split_blank_aux.induct)
  case (1 acc)
  then show ?case by simp
next
  case (2 acc c)
  have "split_blank_aux [] (rev acc @ c # b) = split_blank_aux acc (c # b)"
    using scan_over [of "rev acc" "c # b" "[]"] 2 by (cases acc) (auto simp: last_rev)
  then show ?case by simp
next
  case (3 acc c d cs)
  show ?case
  proof (cases "c = 10 \<and> d = 10")
    case True
    then show ?thesis using 3(1) by simp
  next
    case False
    have "no_blank (rev acc @ [c])" unfolding no_blank_snoc using 3(3,5) by (auto simp: last_rev)
    then show ?thesis using 3(2) [OF False] False by auto
  qed
qed

lemma split_blank_append: "split_blank (a @ b) = butlast (split_blank a) @ split_blank (last (split_blank a) @ b)"
  unfolding split_blank_def by (rule split_resumes) simp_all

lemma fold_feed: "fold feed ts ([], []) = (last (split_blank (concat ts)), concat (map read_event (butlast (split_blank (concat ts)))))"
proof (induction ts rule: rev_induct)
  case Nil
  then show ?case by (simp add: split_blank_def)
next
  case (snoc t ts)
  have ne: "split_blank (last (split_blank (concat ts)) @ t) \<noteq> []" by (simp add: split_blank_def)
  then show ?case using snoc split_blank_append [of "concat ts" t] by (simp add: feed_def Let_def butlast_append)
qed

lemma fragments_do_not_matter: "stream_events ts = concat (map read_event (butlast (split_blank (concat ts))))"
  by (simp add: stream_events_def fold_feed)

section \<open>One event\<close>

definition no_breaks :: "ustr \<Rightarrow> bool" where
  "no_breaks s \<longleftrightarrow> list_all (\<lambda>c. \<not> is_linebreak c) s"

lemma no_breaks_simps [simp]: "no_breaks []" "no_breaks (c # s) \<longleftrightarrow> \<not> is_linebreak c \<and> no_breaks s"
  "no_breaks (a @ b) \<longleftrightarrow> no_breaks a \<and> no_breaks b"
  by (simp_all add: no_breaks_def)

lemma no_breaks_blank: "no_breaks s \<Longrightarrow> no_blank s"
  by (induction s rule: no_blank.induct) (auto simp: is_linebreak_def)

lemma two_lines:
  assumes "no_breaks p" "no_breaks q" "q \<noteq> []"
  shows "splitlines (p @ 10 # q) = [p, q]"
proof -
  have whole: "splitlines_aux acc q = [rev acc @ q]" if "no_breaks q" "rev acc @ q \<noteq> []" for acc q
    using that by (induction q arbitrary: acc) auto
  have "splitlines_aux acc (p @ 10 # q) = [rev acc @ p, q]" for acc
    using assms(1)
  proof (induction p arbitrary: acc)
    case Nil
    then show ?case using whole [of q "[]"] assms by (simp add: is_linebreak_def)
  qed simp
  then show ?thesis by (simp add: splitlines_def)
qed

lemma blank_frame:
  assumes "no_breaks ev" "no_breaks dt" "dt \<noteq> []"
  shows "split_blank_aux [] (u ''event: '' @ ev @ [10] @ u ''data: '' @ dt @ [10, 10] @ rest) = (u ''event: '' @ ev @ [10] @ u ''data: '' @ dt) # split_blank_aux [] rest"
proof -
  let ?p = "u ''event: '' @ ev" let ?q = "u ''data: '' @ dt"
  have p: "no_breaks ?p" "no_breaks ?q" using assms by (simp_all add: u_Cons is_linebreak_def)
  have "\<not> is_linebreak (last dt)" using assms(2,3) by (simp add: no_breaks_def list_all_iff)
  then have lasts: "last ?q \<noteq> 10" "?q \<noteq> []" using assms(3) by (auto simp: is_linebreak_def)
  have joint: "no_blank (x @ 10 # y)" if xy: "no_breaks x" "no_breaks y" "y \<noteq> []" for x y
  proof -
    obtain d z where y: "y = d # z" "d \<noteq> 10" using xy(2,3) by (cases y) (auto simp: is_linebreak_def)
    have "no_blank (10 # y)" using y no_breaks_blank [OF xy(2)] by simp
    then show ?thesis using xy(1) by (induction x rule: no_blank.induct) (auto simp: is_linebreak_def y)
  qed
  have "no_blank (?p @ 10 # ?q)" using joint p lasts(2) by blast
  then have "split_blank_aux [] ((?p @ 10 # ?q) @ 10 # 10 # rest) = split_blank_aux (rev (?p @ 10 # ?q)) (10 # 10 # rest)"
    using scan_over [of "?p @ 10 # ?q" "10 # 10 # rest" "[]"] lasts by simp
  then show ?thesis by simp
qed

lemma read_frame:
  assumes "no_breaks ev" "ev \<noteq> []" "no_breaks dt" "dt \<noteq> []"
  shows "read_event (u ''event: '' @ ev @ [10] @ u ''data: '' @ dt) = [(ev, dt)]"
proof -
  have "splitlines ((u ''event: '' @ ev) @ 10 # (u ''data: '' @ dt)) = [u ''event: '' @ ev, u ''data: '' @ dt]"
    using assms by (intro two_lines) (simp_all add: u_Cons is_linebreak_def)
  then show ?thesis using assms(2) by (simp add: read_event_def event_fields_def startswith_def u_Cons)
qed

section \<open>Data\<close>

text \<open>Strings without the three line boundaries that JSON leaves as they are.\<close>

definition json_text_ok :: "ustr \<Rightarrow> bool" where
  "json_text_ok t \<longleftrightarrow> list_all (\<lambda>c. c \<notin> {133, 8232, 8233}) t"

fun json_lines_ok :: "web_value \<Rightarrow> bool" where
  "json_lines_ok (WText t) = json_text_ok t"
| "json_lines_ok (WOther a b c) = no_breaks c"
| "json_lines_ok (WList xs) = list_all json_lines_ok xs"
| "json_lines_ok (WObj kvs) = list_all (\<lambda>(k, v). json_text_ok k \<and> json_lines_ok v) kvs"
| "json_lines_ok v = True"

lemma digit_code: "k < 10 \<Longrightarrow> of_char (char_of (48 + k :: nat)) = 48 + k"
  by simp

lemma no_breaks_nat: "no_breaks (u (show_nat n))"
proof (induction n rule: show_nat.induct)
  case (1 n)
  have code: "\<not> is_linebreak (48 + k)" if "k < 10" for k using that by (auto simp: is_linebreak_def)
  show ?case
  proof (cases "n < 10")
    case True
    then show ?thesis using code [of n] by (simp add: show_nat.simps [of n] u_def)
  next
    case False
    then show ?thesis using 1 code [of "n mod 10"] by (simp add: show_nat.simps [of n] u_def)
  qed
qed

lemma no_breaks_int: "no_breaks (u (show_int n))"
  using no_breaks_nat by (simp add: show_int_def u_Cons is_linebreak_def u_def)

lemma hex_digit_ok: "n < 16 \<Longrightarrow> \<not> is_linebreak (hex_digit n)"
  by (auto simp: hex_digit_def is_linebreak_def)

lemma no_breaks_quote: "json_text_ok t \<Longrightarrow> no_breaks (json_quote t)"
proof -
  have "no_breaks (json_escape c)" if "c \<notin> {133, 8232, 8233}" for c
    using that hex_digit_ok [of "c div 16"] hex_digit_ok [of "c mod 16"]
    by (simp add: json_escape_def is_linebreak_def)
  then have "json_text_ok t \<Longrightarrow> no_breaks (concat (map json_escape t))" by (induction t) (simp_all add: json_text_ok_def)
  then show "json_text_ok t \<Longrightarrow> no_breaks (json_quote t)" by (simp add: json_quote_def is_linebreak_def)
qed

lemma no_breaks_ujoin: "no_breaks sep \<Longrightarrow> list_all no_breaks xs \<Longrightarrow> no_breaks (ujoin sep xs)"
proof (induction xs)
  case (Cons x xs)
  then show ?case by (cases xs) (simp_all add: ujoin_Cons)
qed simp

lemma no_breaks_dumps: "json_lines_ok v \<Longrightarrow> no_breaks (dumps_text v)"
proof (induction v rule: dumps_text.induct)
  case (6 xs)
  then have "list_all no_breaks (map dumps_text xs)" by (simp add: list_all_iff)
  then show ?case using no_breaks_ujoin [of "[44, 32]"] by (simp add: is_linebreak_def)
next
  case (7 kvs)
  then have "list_all no_breaks (map (\<lambda>(k, v). json_quote k @ [58, 32] @ dumps_text v) kvs)"
    using no_breaks_quote by (fastforce simp: list_all_iff is_linebreak_def)
  then show ?case using no_breaks_ujoin [of "[44, 32]"] by (simp add: is_linebreak_def)
qed (simp_all add: no_breaks_int no_breaks_quote u_Cons is_linebreak_def)

section \<open>The stream\<close>

definition event_ok :: "ustr \<times> web_value \<Rightarrow> bool" where
  "event_ok e \<longleftrightarrow> fst e \<noteq> [] \<and> no_breaks (fst e) \<and> json_lines_ok (snd e) \<and> dumps_text (snd e) \<noteq> []"

lemma frames_read:
  "list_all event_ok es \<Longrightarrow>
     concat (map read_event (butlast (split_blank (concat (map (\<lambda>(ev, v). sse ev v) es))))) = map (\<lambda>(ev, v). (ev, dumps_text v)) es"
proof (induction es)
  case Nil
  then show ?case by (simp add: split_blank_def)
next
  case (Cons e es)
  obtain ev v where e: "e = (ev, v)" by (cases e)
  then have ok: "no_breaks ev" "ev \<noteq> []" "no_breaks (dumps_text v)" "dumps_text v \<noteq> []"
    using Cons.prems no_breaks_dumps by (simp_all add: event_ok_def)
  have "split_blank (concat (map (\<lambda>(ev, v). sse ev v) (e # es))) =
      (u ''event: '' @ ev @ [10] @ u ''data: '' @ dumps_text v) # split_blank (concat (map (\<lambda>(ev, v). sse ev v) es))"
    using blank_frame [OF ok(1,3,4)] by (simp add: e sse_def split_blank_def)
  then show ?case using Cons read_frame [OF ok] by (simp add: e split_blank_def)
qed

text \<open>The texts of the \<open>delta\<close> events and the data of the last \<open>sources\<close> event.\<close>

definition spoken :: "(ustr \<times> web_value) list \<Rightarrow> ustr" where
  "spoken es = concat (map (\<lambda>(ev, v). if ev = u ''delta'' then coalesce (text_of v) [] else []) es)"

definition last_sources :: "web_value \<Rightarrow> (ustr \<times> web_value) list \<Rightarrow> web_value" where
  "last_sources none es = fold (\<lambda>(ev, v) s. if ev = u ''sources'' then v else s) es none"

definition readable :: "(ustr \<Rightarrow> web_value option) \<Rightarrow> ustr \<times> web_value \<Rightarrow> bool" where
  "readable loads e \<longleftrightarrow> loads (dumps_text (snd e)) = Some (snd e) \<and> (fst e = u ''delta'' \<longrightarrow> text_of (snd e) \<noteq> None)"

lemma collect_readable:
  "list_all (readable loads) es \<Longrightarrow>
     collect loads answer sources (map (\<lambda>(ev, v). (ev, dumps_text v)) es) = Some (answer @ spoken es, last_sources sources es)"
proof (induction es arbitrary: answer sources)
  case (Cons e es)
  have "u ''sources'' \<noteq> u ''delta''" by (simp add: u_Cons)
  then show ?case using Cons by (cases e) (auto simp: readable_def spoken_def last_sources_def)
qed (simp add: spoken_def last_sources_def)

text \<open>C20: A stream is read back as it was written. However the network cuts the text of a stream into fragments, the reader of the
  evaluation finds exactly the events that were sent, with their data as it was encoded, in their order; its answer is the
  concatenation of the texts and its sources are those sent last. The names have to be without line ends, the strings of the data without the three
  line boundaries above U+0080, and the decoder has to invert the encoder on the data sent.\<close>

theorem event_stream_round_trip:
  assumes "list_all event_ok es" "concat fragments = concat (map (\<lambda>(ev, v). sse ev v) es)" "list_all (readable loads) es"
  shows "stream_events fragments = map (\<lambda>(ev, v). (ev, dumps_text v)) es \<and>
    ask loads fragments = Some (spoken es, last_sources (WList []) es)"
proof -
  have "stream_events fragments = map (\<lambda>(ev, v). (ev, dumps_text v)) es"
    using frames_read [OF assms(1)] by (simp add: fragments_do_not_matter assms(2))
  then show ?thesis using collect_readable [OF assms(3), of "[]" "WList []"] by (simp add: ask_def)
qed

definition demo_events :: "(ustr \<times> web_value) list" where
  "demo_events = [(u ''delta'', WObj [(u ''text'', WText [104, 10])]), (u ''done'', WNull), (u ''delta'', WObj [(u ''text'', WText [105])])]"

definition demo_loads :: "ustr \<Rightarrow> web_value option" where
  "demo_loads t = map_of (map (\<lambda>(ev, v). (dumps_text v, v)) demo_events) t"

theorem event_stream_round_trip_witness:
  "ask demo_loads [take 9 (concat (map (\<lambda>(ev, v). sse ev v) demo_events)), drop 9 (concat (map (\<lambda>(ev, v). sse ev v) demo_events))] =
     Some ([104, 10, 105], WList [])"
proof -
  have ok: "list_all event_ok demo_events"
    by (simp add: demo_events_def event_ok_def json_text_ok_def json_quote_def json_escape_def u_Cons is_linebreak_def)
  have loads: "list_all (readable demo_loads) demo_events"
    by (simp add: demo_events_def demo_loads_def readable_def text_of_def json_quote_def json_escape_def u_Cons)
  have "concat [take 9 xs, drop 9 xs] = xs" for xs :: ustr by simp
  from event_stream_round_trip [OF ok this loads] have
    "ask demo_loads [take 9 (concat (map (\<lambda>(ev, v). sse ev v) demo_events)), drop 9 (concat (map (\<lambda>(ev, v). sse ev v) demo_events))] =
      Some (spoken demo_events, last_sources (WList []) demo_events)" by blast
  moreover have "spoken demo_events = [104, 10, 105]" "last_sources (WList []) demo_events = WList []"
    by (simp_all add: spoken_def last_sources_def demo_events_def text_of_def u_Cons)
  ultimately show ?thesis by simp
qed

text \<open>A line separator U+2028 in a text cuts the data, which is then no JSON.\<close>

lemma line_separator_cuts_data:
  "read_event (u ''event: '' @ u ''delta'' @ [10] @ u ''data: '' @ json_quote [97, 8232, 98]) = [(u ''delta'', [34, 97])]"
  by (simp add: read_event_def event_fields_def splitlines_def json_quote_def json_escape_def startswith_def u_Cons is_linebreak_def)

section \<open>The comparison of the modes\<close>

lemma accuracy_is_rate: "0 \<le> mp_accuracy (compare_mode runs) \<and> mp_accuracy (compare_mode runs) \<le> 1"
proof -
  have "length (filter (\<lambda>(g, r). correct_result g r) (map (\<lambda>(g, es, t). (g, consume_sse es t)) runs)) \<le> length runs"
    by (rule order_trans [OF length_filter_le]) simp
  then show ?thesis by (simp add: compare_mode_def Let_def divide_le_eq_1 le_max_iff_disj less_max_iff_disj)
qed

end
