(* ===== verification/Spec2Isabelle.thy ===== *)
theory Spec2Isabelle
  imports IngestFindings AccessClaims DocumentClaims RecoveryClaims Capacity AuthClaims ChunkerClaims EvidenceClaims LlmClaims Embedder AuditChainClaims ChatClaims ParserClaims ImportClaims StorageClaims EvaluationClaims RowSecurityClaims OperationsClaims EventStreamClaims
begin

text \<open>
  \<^bold>\<open>The program.\<close> \<open>src/app\<close> is a multi-tenant question answering service over documents: FastAPI endpoints
  (\<open>app/routers\<close>), Celery tasks (\<open>app/tasks\<close>), services (\<open>app/services\<close>), PostgreSQL tables with row level
  security (\<open>app/models.py\<close>, \<open>migrations\<close>), Redis for tokens, caches and capacity, an object store for files, and
  operation scripts (\<open>scripts\<close>).  A document is uploaded or imported, an outbox event announces it, the dispatcher hands the
  event to the broker, an ingestion worker parses, splits, embeds and activates it as a new version of its index.  A question passes
  authentication, rate limit and capacity, is answered from the caches, from retrieved and vetted passages or by the
  agent, and its round is stored with usage and citations.  Administrators replay, resume, release and audit.

  The development follows these parts.  Python functions are HOL functions of the same name (a suffix or another name only where HOL
  has the name); tables are lists of records in insertion order, and a request or a transaction of a task is a function from the
  state to an HTTP error or a new state; a loop that ends is a recursion with its proof of termination.  No definition uses fuel and
  none is partial: every function of the library is total and executable, the step relations apart.  Integers of Python
  are \<open>int\<close> or \<open>nat\<close>, floating point numbers are reals (rationals for ratios and vectors), so that rounding
  errors are outside the model; text is a list of code points (\<open>PyText\<close>).
\<close>

text \<open>
  \<^bold>\<open>Foundations.\<close> \<open>Prelude\<close>: tables, batches, deduplication, stable sorts, JSON values, the locale of transition
  systems with its invariant rule, the collections \<open>table_simps\<close> and \<open>frame_simps\<close>.  \<open>PyText\<close>: the operations of
  \<open>str\<close>.  \<open>PyRegex\<close>: the patterns of \<open>re\<close> with a backtracking matcher proved against a declarative semantics
  (\<open>ends_iff\<close>).  \<open>Redaction\<close>: \<open>app/services/redaction.py\<close>.  \<open>Models\<close>: the tables and the state \<open>sys\<close>.

  \<^bold>\<open>Documents and ingestion.\<close> \<open>Access\<close> (\<open>services/permissions.py\<close>, \<open>services/audit.py\<close>,
  \<open>routers/tenancy.py\<close>, \<open>routers/kb.py\<close>), \<open>Lifecycle\<close> (\<open>routers/documents.py\<close>, \<open>routers/admin.py\<close>,
  \<open>services/resource_cleanup.py\<close>), \<open>Recovery\<close> (\<open>tasks/outbox.py\<close>, \<open>tasks/maintenance.py\<close>, dead
  letters), \<open>Parser\<close> (\<open>services/parser.py\<close>), \<open>Imports\<close> (\<open>routers/imports.py\<close>), \<open>Graph\<close>
  (\<open>services/graph.py\<close>), \<open>Chunker\<close> (\<open>services/chunker.py\<close>), \<open>Injection\<close> (the risk patterns of
  \<open>services/evidence.py\<close>), \<open>Ingest\<close> (\<open>tasks/ingest.py\<close>), \<open>Storage\<close> (\<open>services/object_storage.py\<close>).
  \<open>Environment\<close> collects every request and task as a move of the environment of a worker and proves the contract
  \<open>env_step\<close>; \<open>IngestSystem\<close> is the interleaving of any number of workers, crashes and the environment, with the
  inductive invariant \<open>world_inv\<close>; \<open>IngestProps\<close>, \<open>IngestClaims\<close> and \<open>IngestFindings\<close> draw the consequences: an
  activated index is exactly the pieces of its worker, the lease holder spares the active index, an undisturbed worker finishes, and
  what a worker without lease can still do.  \<open>AccessClaims\<close>, \<open>DocumentClaims\<close>, \<open>RecoveryClaims\<close>, \<open>ParserClaims\<close>,
  \<open>ImportClaims\<close>, \<open>StorageClaims\<close> and \<open>ChunkerClaims\<close> hold the properties of the single parts.

  \<^bold>\<open>Identity and capacity.\<close> \<open>Tokens\<close> (\<open>services/tokens.py\<close>, \<open>security.py\<close>): refresh token families, with a
  rotation as the sequence of its Redis commands.  \<open>Auth\<close>, \<open>AuthClaims\<close> (\<open>routers/auth.py\<close>, \<open>deps.py\<close>).
  \<open>Capacity\<close> (\<open>services/concurrency.py\<close>): the Redis and the local backend as instances of one contract, and the machine of
  arbitrary acquisitions, releases and expiries.

  \<^bold>\<open>Questions.\<close> \<open>Retrieval\<close>, \<open>RetrievalClaims\<close> (\<open>services/retriever.py\<close>), \<open>Evidence\<close>, \<open>EvidenceClaims\<close>
  (\<open>services/evidence.py\<close>, \<open>services/context.py\<close>), \<open>Llm\<close>, \<open>LlmClaims\<close> (\<open>services/llm.py\<close>), \<open>Embedder\<close>
  (\<open>services/embedder.py\<close>), \<open>Query\<close> (\<open>services/query.py\<close>), \<open>Conversation\<close>, \<open>ConversationClaims\<close>
  (\<open>services/history.py\<close>, \<open>semantic_cache.py\<close>, \<open>summarizer.py\<close>), \<open>Memory\<close> (\<open>services/memory.py\<close>), \<open>Agent\<close>,
  \<open>AgentClaims\<close> (\<open>services/agent.py\<close>), \<open>Chat\<close>, \<open>ChatClaims\<close> (\<open>routers/chat.py\<close>).  A stream is a list of actions
  that may stop after any of them, which is how a client that goes away and an exception in the middle are covered.  The lemmas follow
  a passage from the tables to the model and to the client (authorised, vetted, cited) and a round from the question to the
  tables (stored as a whole or not at all).

  \<^bold>\<open>Database and operations.\<close> \<open>RowSecurity\<close>, \<open>RowSecurityClaims\<close> (\<open>app/db.py\<close>, the policies of
  \<open>migrations/versions\<close> 0004, 0007, 0008, 0010 and 0011): the user of a pooled connection, what the role of the API sees and may
  write.  \<open>AuditChain\<close>, \<open>AuditChainClaims\<close> (migration 0008, \<open>scripts/verify_audit_chain.py\<close>).  \<open>Evaluation\<close>,
  \<open>EvaluationClaims\<close> (\<open>scripts/eval_retrieval.py\<close>, \<open>run_local_ablation.py\<close>, \<open>ci_eval_retrieval.py\<close>,
  \<open>check_quality_gate.py\<close>, \<open>check_injection_gate.py\<close>).  \<open>EventStream\<close>, \<open>EventStreamClaims\<close> (the text of the event
  stream, \<open>scripts/eval_answers.py\<close>, \<open>eval_rag_vs_agent.py\<close>).  \<open>Operations\<close>, \<open>OperationsClaims\<close> (\<open>limiter.py\<close>, \<open>main.py\<close>,
  \<open>routers/stats.py\<close>, \<open>scripts/reindex_documents.py\<close>).  \<open>Demo\<close> and \<open>ChatDemo\<close> are small concrete states on which
  properties with hypotheses are applied.
\<close>

text \<open>
  \<^bold>\<open>Interfaces.\<close> \<open>transition_system\<close> (Prelude): a reachability relation and the rule of invariants, interpreted for ingestion,
  token rotation and capacity.  \<open>splitter\<close> (Chunker): pieces are non-empty, bounded and keep the visible characters,
  interpreted for the splitters by size, by paragraph and by recursion.  \<open>slot_backend\<close> (Capacity): acquire, renew and release over sets of
  live slots, interpreted for the two Lua scripts and the local fallback.  \<open>expiring_store\<close> (Tokens): get, set and
  delete with expiry, interpreted for Redis.  \<open>ranker\<close> (Retrieval): results are reordered, dropped and rescored, nothing else,
  interpreted for the rerankers, the final cut and the injection policy.  \<open>object_store\<close> (Storage): a stored object is listed once with
  its time, interpreted for the objects of the state and for the directory on disk.

  \<^bold>\<open>Parameters.\<close> What is not the program's code is an argument of the definitions: the Unicode database
  (\<open>unicode\<close>), SHA-256 and the identifiers of \<open>uuid4\<close> (\<open>ctx\<close>), the password hash and the JWT library (\<open>auth_env\<close>, with their
  documented laws), PostgreSQL's text search and pgvector (\<open>search_engine\<close>), the embedding, reranking and language models,
  \<open>json.loads\<close> (\<open>judge_env\<close>, \<open>agent_env\<close>, \<open>chat_env\<close>), jieba, the readers of PDF, Word, Excel, HTML and
  images (\<open>parse_env\<close>), name resolution, the HTTP client and the database driver (\<open>import_env\<close>).  Whether a call
  of Redis, of the broker or of the store fails is an argument too, so that the properties hold for every pattern of failures.
  PostgreSQL transactions are atomic steps: row locks, advisory locks and unique keys are the guards of the step.

  \<^bold>\<open>Bounds.\<close> The limits of the program (retries, pages, rows, sizes, tokens, steps of the agent) are fields of the settings
  records and arbitrary in every property, unless a hypothesis says which values are meant.  Loops that the program bounds by a counter
  (retries of a provider, steps of the agent, fetches of the dispatcher) recurse on that counter; the others end by the length of
  their input or, for the pages of the reindex script, by the number of documents that still wait.
\<close>

text \<open>
  \<^bold>\<open>Not modelled.\<close> The browser front end (\<open>app/static\<close>); \<open>metrics.py\<close> and \<open>observability.py\<close>, logging and
  request identifiers in \<open>main.py\<close>; the relay of Redis messages to a websocket in \<open>routers/ws.py\<close> (its ticket is in
  \<open>Tokens\<close>); \<open>routers/system.py\<close>, a constant list; the Celery configuration and schedule in \<open>tasks/__init__.py\<close>
  (the tasks run at any moment in the model); the S3 client of \<open>object_storage.py\<close>, which only calls \<open>boto3\<close>; DDL of the
  migrations beyond the policies and triggers (the tables are the records of \<open>Models\<close>); the wording of prompts; the
  HTTP layer: cookies' attributes, CORS, the counters behind the rate limit; the remaining scripts (load test, the judging model,
  generation of test sets, one-off fillers of columns, launchers), which are clients of the service or calls of libraries.
\<close>

end
